(* ===== verification/Prelude.thy ===== *)
theory Prelude
  imports Main "HOL-Library.Word"
begin

text \<open>
  The prelude of the development: machine integer types, the program monad in which every
  stateful C function is written, the simplification collections, and the word lemmas that the
  components share.
\<close>

unbundle bit_operations_syntax

subsection \<open>Machine integers\<close>

text \<open>
  The C types at their width on the LP64 hosts the library is built for. Signed types are the
  same words read with \<open>sint\<close>: C's \<open>int\<close> is \<open>i32\<close>, \<open>ssize_t\<close>, \<open>off_t\<close> and \<open>time_t\<close> are
  \<open>i64\<close>. \<open>ptr\<close> names an object created by \<open>malloc\<close>; \<open>NULL\<close> is 0. Addresses that the code
  computes with (buffers, the register window) are \<open>u64\<close>.
\<close>

type_synonym u8 = "8 word"
type_synonym u16 = "16 word"
type_synonym u32 = "32 word"
type_synonym u64 = "64 word"
type_synonym i32 = "32 word"
type_synonym i64 = "64 word"
type_synonym ptr = nat

abbreviation (input) NULL :: ptr where
  "NULL \<equiv> 0"

abbreviation (input) EXIT_FAILURE :: nat where
  "EXIT_FAILURE \<equiv> 1"

text \<open>The sign test of C on a two's complement word.\<close>

definition is_negative :: "'a::len word \<Rightarrow> bool" where
  "is_negative x \<longleftrightarrow> sint x < 0"

subsection \<open>The program monad\<close>

text \<open>
  A C function runs on a state and ends in one of four ways: it returns a value, it calls
  \<open>exit(code)\<close>, it does something C leaves undefined or that aborts the process (a
  \<open>fault\<close>), or it does not return at all (\<open>None\<close>). The state at that moment is kept in the
  first three cases, because what was written to the device before an \<open>exit\<close> stays written.
\<close>

datatype fault =
    Bad_Pointer      \<comment> \<open>dereference of NULL or of an object that is not live\<close>
  | Bad_Free         \<comment> \<open>\<open>free\<close> of an object that is not live (double free)\<close>
  | Out_Of_Bounds    \<comment> \<open>array access outside the allocated elements\<close>
  | Assert_Failed    \<comment> \<open>\<open>assert\<close> aborts\<close>

datatype 'a outcome = Ret 'a | Exit nat | Fault fault

type_synonym ('s, 'a) prog = "'s \<Rightarrow> ('a outcome \<times> 's) option"

definition returnM :: "'a \<Rightarrow> ('s, 'a) prog" where
  "returnM a = (\<lambda>w. Some (Ret a, w))"

definition exitM :: "nat \<Rightarrow> ('s, 'a) prog" where
  "exitM c = (\<lambda>w. Some (Exit c, w))"

definition faultM :: "fault \<Rightarrow> ('s, 'a) prog" where
  "faultM e = (\<lambda>w. Some (Fault e, w))"

definition bindM :: "('s, 'a) prog \<Rightarrow> ('a \<Rightarrow> ('s, 'b) prog) \<Rightarrow> ('s, 'b) prog" where
  "bindM m f = (\<lambda>w. case m w of
      None \<Rightarrow> None
    | Some (r, w') \<Rightarrow> (case r of
          Ret a \<Rightarrow> f a w'
        | Exit c \<Rightarrow> Some (Exit c, w')
        | Fault e \<Rightarrow> Some (Fault e, w')))"

definition thenM :: "('s, 'a) prog \<Rightarrow> ('s, 'b) prog \<Rightarrow> ('s, 'b) prog" where
  "thenM m n = bindM m (\<lambda>_. n)"

definition modifyM :: "('s \<Rightarrow> 's) \<Rightarrow> ('s, unit) prog" where
  "modifyM f = (\<lambda>w. Some (Ret (), f w))"

definition getsM :: "('s \<Rightarrow> 'a) \<Rightarrow> ('s, 'a) prog" where
  "getsM f = (\<lambda>w. Some (Ret (f w), w))"

definition assertM :: "bool \<Rightarrow> ('s, unit) prog" where
  "assertM b = (if b then returnM () else faultM Assert_Failed)"

text \<open>A loop over a list of arguments, the body run for each in order.\<close>

primrec forM :: "'a list \<Rightarrow> ('a \<Rightarrow> ('s, unit) prog) \<Rightarrow> ('s, unit) prog" where
  "forM [] f = returnM ()"
| "forM (x # xs) f = thenM (f x) (forM xs f)"

named_theorems run_simps \<open>equations that run a program step by step on a state\<close>

lemma returnM_run [run_simps]: "returnM a w = Some (Ret a, w)"
  by (simp add: returnM_def)

lemma exitM_run [run_simps]: "exitM c w = Some (Exit c, w)"
  by (simp add: exitM_def)

lemma faultM_run [run_simps]: "faultM e w = Some (Fault e, w)"
  by (simp add: faultM_def)

lemma modifyM_run [run_simps]: "modifyM f w = Some (Ret (), f w)"
  by (simp add: modifyM_def)

lemma getsM_run [run_simps]: "getsM f w = Some (Ret (f w), w)"
  by (simp add: getsM_def)

lemma bindM_Ret [run_simps]: "m w = Some (Ret a, w') \<Longrightarrow> bindM m f w = f a w'"
  by (simp add: bindM_def)

lemma bindM_Exit [run_simps]: "m w = Some (Exit c, w') \<Longrightarrow> bindM m f w = Some (Exit c, w')"
  by (simp add: bindM_def)

lemma bindM_Fault [run_simps]: "m w = Some (Fault e, w') \<Longrightarrow> bindM m f w = Some (Fault e, w')"
  by (simp add: bindM_def)

lemma bindM_None [run_simps]: "m w = None \<Longrightarrow> bindM m f w = None"
  by (simp add: bindM_def)

lemma thenM_Ret [run_simps]: "m w = Some (Ret a, w') \<Longrightarrow> thenM m n w = n w'"
  by (simp add: thenM_def bindM_def)

lemma thenM_Exit [run_simps]: "m w = Some (Exit c, w') \<Longrightarrow> thenM m n w = Some (Exit c, w')"
  by (simp add: thenM_def bindM_def)

lemma thenM_Fault [run_simps]: "m w = Some (Fault e, w') \<Longrightarrow> thenM m n w = Some (Fault e, w')"
  by (simp add: thenM_def bindM_def)

lemma thenM_None [run_simps]: "m w = None \<Longrightarrow> thenM m n w = None"
  by (simp add: thenM_def bindM_def)

lemma bindM_assoc: "bindM (bindM m f) g = bindM m (\<lambda>x. bindM (f x) g)"
  by (rule ext) (simp add: bindM_def split: option.splits prod.splits outcome.splits)

lemma forM_append: "forM (xs @ ys) f = thenM (forM xs f) (forM ys f)"
  by (induction xs) (simp_all add: fun_eq_iff thenM_def bindM_def returnM_def
      split: option.split prod.split outcome.split)

text \<open>Inversion of a program that returned: used to take the run of a sequence apart.\<close>

lemma bindM_RetE:
  assumes "bindM m f w = Some (Ret b, w'')"
  obtains a w' where "m w = Some (Ret a, w')" and "f a w' = Some (Ret b, w'')"
  using assms by (auto simp: bindM_def split: option.splits prod.splits outcome.splits)

lemma thenM_RetE:
  assumes "thenM m n w = Some (Ret b, w'')"
  obtains a w' where "m w = Some (Ret a, w')" and "n w' = Some (Ret b, w'')"
  using assms unfolding thenM_def by (rule bindM_RetE)

text \<open>
  A relation between the state before and the state after that every way of ending keeps:
  the frame conditions and invariants of the components are stated with it, and it passes
  through sequencing when it is reflexive and transitive.
\<close>

definition keeps :: "('s \<Rightarrow> 's \<Rightarrow> bool) \<Rightarrow> ('s, 'a) prog \<Rightarrow> bool" where
  "keeps R m \<longleftrightarrow> (\<forall>w r w'. m w = Some (r, w') \<longrightarrow> R w w')"

named_theorems keeps_intros \<open>programs that keep a relation between states\<close>

lemma keepsI: "(\<And>w r w'. m w = Some (r, w') \<Longrightarrow> R w w') \<Longrightarrow> keeps R m"
  by (auto simp: keeps_def)

lemma keepsD: "keeps R m \<Longrightarrow> m w = Some (r, w') \<Longrightarrow> R w w'"
  by (auto simp: keeps_def)

lemma keeps_bindM [keeps_intros]:
  assumes "transp R" and "keeps R m" and "\<And>a. keeps R (f a)"
  shows "keeps R (bindM m f)"
proof (rule keepsI)
  fix w r w''
  assume "bindM m f w = Some (r, w'')"
  then obtain r' w' where m: "m w = Some (r', w')"
    and rest: "(case r' of Ret a \<Rightarrow> f a w' | Exit c \<Rightarrow> Some (Exit c, w')
                | Fault e \<Rightarrow> Some (Fault e, w')) = Some (r, w'')"
    by (auto simp: bindM_def split: option.splits)
  from assms(2) m have "R w w'" by (rule keepsD)
  with rest assms(1) assms(3) show "R w w''"
    by (cases r') (auto dest: keepsD transpD)
qed

lemma keeps_thenM [keeps_intros]:
  "transp R \<Longrightarrow> keeps R m \<Longrightarrow> keeps R n \<Longrightarrow> keeps R (thenM m n)"
  by (simp add: thenM_def keeps_bindM)

lemma keeps_returnM [keeps_intros]: "reflp R \<Longrightarrow> keeps R (returnM a)"
  by (auto simp: keeps_def returnM_def reflp_def)

lemma keeps_exitM [keeps_intros]: "reflp R \<Longrightarrow> keeps R (exitM c)"
  by (auto simp: keeps_def exitM_def reflp_def)

lemma keeps_faultM [keeps_intros]: "reflp R \<Longrightarrow> keeps R (faultM e)"
  by (auto simp: keeps_def faultM_def reflp_def)

lemma keeps_getsM [keeps_intros]: "reflp R \<Longrightarrow> keeps R (getsM f)"
  by (auto simp: keeps_def getsM_def reflp_def)

lemma keeps_assertM [keeps_intros]: "reflp R \<Longrightarrow> keeps R (assertM b)"
  by (simp add: assertM_def keeps_returnM keeps_faultM)

lemma keeps_modifyM: "(\<And>w. R w (f w)) \<Longrightarrow> keeps R (modifyM f)"
  by (auto simp: keeps_def modifyM_def)

lemma keeps_if [keeps_intros]: "(b \<Longrightarrow> keeps R m) \<Longrightarrow> (\<not> b \<Longrightarrow> keeps R n) \<Longrightarrow> keeps R (if b then m else n)"
  by simp

lemma keeps_case_prod [keeps_intros]:
  "(\<And>x y. p = (x, y) \<Longrightarrow> keeps R (f x y)) \<Longrightarrow> keeps R (case p of (x, y) \<Rightarrow> f x y)"
  by (cases p) simp

lemma keeps_Let [keeps_intros]: "(\<And>x. x = a \<Longrightarrow> keeps R (f x)) \<Longrightarrow> keeps R (Let a f)"
  by simp

lemma keeps_forM [keeps_intros]:
  assumes "reflp R" and "transp R" and "\<And>x. x \<in> set xs \<Longrightarrow> keeps R (f x)"
  shows "keeps R (forM xs f)"
  using assms(3)
proof (induction xs)
  case Nil
  show ?case using assms(1) by (simp add: keeps_returnM)
next
  case (Cons x xs)
  then show ?case using assms(2) by (simp add: keeps_thenM)
qed

subsection \<open>Weakest preconditions\<close>

text \<open>
  \<open>wp m Q w\<close>: run on \<open>w\<close>, the program does nothing undefined, and if it returns then with a value
  and in a state that satisfy \<open>Q\<close>. A call of \<open>exit\<close>, the abort of a failed \<open>assert\<close> and a loop that
  does not end satisfy it, so it is the statement that a program does not go wrong; that it
  returns is stated on its own where it holds.
\<close>

definition wp :: "('s, 'a) prog \<Rightarrow> ('a \<Rightarrow> 's \<Rightarrow> bool) \<Rightarrow> 's \<Rightarrow> bool" where
  "wp m Q w = (case m w of
      None \<Rightarrow> True
    | Some (r, w') \<Rightarrow> (case r of Ret a \<Rightarrow> Q a w' | Exit c \<Rightarrow> True | Fault e \<Rightarrow> e = Assert_Failed))"

named_theorems wp_intros \<open>rules that reduce a weakest precondition to those of the parts\<close>

lemma wp_bindM [wp_intros]: "wp m (\<lambda>a. wp (f a) Q) w \<Longrightarrow> wp (bindM m f) Q w"
  by (auto simp: wp_def bindM_def split: option.splits outcome.splits)

lemma wp_thenM [wp_intros]: "wp m (\<lambda>a. wp n Q) w \<Longrightarrow> wp (thenM m n) Q w"
  unfolding thenM_def by (rule wp_bindM)

lemma wp_returnM [wp_intros]: "Q a w \<Longrightarrow> wp (returnM a) Q w"
  by (simp add: wp_def returnM_def)

lemma wp_exitM [wp_intros]: "wp (exitM c) Q w"
  by (simp add: wp_def exitM_def)

lemma wp_getsM [wp_intros]: "Q (f w) w \<Longrightarrow> wp (getsM f) Q w"
  by (simp add: wp_def getsM_def)

lemma wp_modifyM [wp_intros]: "Q () (f w) \<Longrightarrow> wp (modifyM f) Q w"
  by (simp add: wp_def modifyM_def)

lemma wp_assertM [wp_intros]: "(b \<Longrightarrow> Q () w) \<Longrightarrow> wp (assertM b) Q w"
  by (simp add: assertM_def wp_returnM) (simp add: wp_def faultM_def)

lemma wp_if [wp_intros]: "(b \<Longrightarrow> wp m Q w) \<Longrightarrow> (\<not> b \<Longrightarrow> wp n Q w) \<Longrightarrow> wp (if b then m else n) Q w"
  by simp

lemma wp_Let [wp_intros]: "(\<And>x. x = a \<Longrightarrow> wp (f x) Q w) \<Longrightarrow> wp (Let a f) Q w"
  by simp

lemma wp_case_prod [wp_intros]:
  "(\<And>x y. p = (x, y) \<Longrightarrow> wp (f x y) Q w) \<Longrightarrow> wp (case p of (x, y) \<Rightarrow> f x y) Q w"
  by (cases p) simp

lemma wp_case_option [wp_intros]:
  "(x = None \<Longrightarrow> wp m Q w) \<Longrightarrow> (\<And>y. x = Some y \<Longrightarrow> wp (f y) Q w) \<Longrightarrow>
   wp (case x of None \<Rightarrow> m | Some y \<Rightarrow> f y) Q w"
  by (cases x) simp_all

lemma wp_mono: "wp m Q w \<Longrightarrow> (\<And>a w'. Q a w' \<Longrightarrow> Q' a w') \<Longrightarrow> wp m Q' w"
  by (auto simp: wp_def split: option.splits outcome.splits)

lemma wp_keeps: "wp m Q w \<Longrightarrow> keeps R m \<Longrightarrow> wp m (\<lambda>a w'. Q a w' \<and> R w w') w"
  by (auto simp: wp_def split: option.splits outcome.splits dest: keepsD)

lemma wp_Ret: "wp m Q w \<Longrightarrow> m w = Some (Ret a, w') \<Longrightarrow> Q a w'"
  by (simp add: wp_def)

lemma wp_no_fault: "wp m Q w \<Longrightarrow> m w = Some (Fault e, w') \<Longrightarrow> e = Assert_Failed"
  by (auto simp: wp_def)

lemma wp_forM:
  assumes "\<And>x w. x \<in> set xs \<Longrightarrow> I w \<Longrightarrow> wp (f x) (\<lambda>_. I) w" and "I w"
  shows "wp (forM xs f) (\<lambda>_. I) w"
  using assms
proof (induction xs arbitrary: w)
  case Nil
  then show ?case by (simp add: wp_returnM)
next
  case (Cons x xs)
  have "wp (f x) (\<lambda>_. I) w" using Cons.prems by simp
  then have "wp (f x) (\<lambda>_. wp (forM xs f) (\<lambda>_. I)) w"
    using Cons.prems(1) by (elim wp_mono) (simp add: Cons.IH)
  then show ?case by (simp add: wp_thenM)
qed

subsection \<open>Polling loops\<close>

text \<open>
  The shape of the library's unbounded waits, \<open>while (not stop v) v = sample();\<close>. Nothing in the
  code bounds them, so the result is an option: \<open>None\<close> is a loop that never returns.
\<close>

partial_function (option) poll_until ::
    "('s \<Rightarrow> 'v \<times> 's) \<Rightarrow> ('v \<Rightarrow> bool) \<Rightarrow> 'v \<Rightarrow> 's \<Rightarrow> ('v \<times> 's) option" where
  "poll_until sample stop v s =
     (if stop v then Some (v, s)
      else (case sample s of (v', s') \<Rightarrow> poll_until sample stop v' s'))"

text \<open>The state after \<open>n\<close> samples, and the value the \<open>n\<close>-th sample sees.\<close>

primrec sampled :: "('s \<Rightarrow> 'v \<times> 's) \<Rightarrow> nat \<Rightarrow> 's \<Rightarrow> 's" where
  "sampled sample 0 s = s"
| "sampled sample (Suc n) s = sampled sample n (snd (sample s))"

definition sample_value :: "('s \<Rightarrow> 'v \<times> 's) \<Rightarrow> nat \<Rightarrow> 's \<Rightarrow> 'v" where
  "sample_value sample n s = fst (sample (sampled sample n s))"

lemma sample_value_Suc: "sample_value sample (Suc n) s = sample_value sample n (snd (sample s))"
  by (simp add: sample_value_def)

lemma poll_until_now [simp]: "stop v \<Longrightarrow> poll_until sample stop v s = Some (v, s)"
  by (simp add: poll_until.simps)

lemma poll_until_first:
  assumes "\<not> stop v" and "\<forall>m<n. \<not> stop (sample_value sample m s)"
    and "stop (sample_value sample n s)"
  shows "poll_until sample stop v s =
           Some (sample_value sample n s, sampled sample (Suc n) s)"
  using assms
proof (induction n arbitrary: v s)
  case 0
  then show ?case
    by (simp add: poll_until.simps [of sample stop v] sample_value_def split_beta)
next
  case (Suc n)
  obtain v' s' where smp: "sample s = (v', s')" by fastforce
  from Suc.prems(2) have "\<not> stop (sample_value sample 0 s)" by blast
  then have "\<not> stop v'" by (simp add: sample_value_def smp)
  moreover have "\<forall>m<n. \<not> stop (sample_value sample m s')"
    using Suc.prems(2) by (auto dest: spec [where x = "Suc _"] simp: sample_value_Suc smp)
  moreover have "stop (sample_value sample n s')"
    using Suc.prems(3) by (simp add: sample_value_Suc smp)
  ultimately have "poll_until sample stop v' s' =
      Some (sample_value sample n s', sampled sample (Suc n) s')"
    by (rule Suc.IH)
  with Suc.prems(1) show ?case
    by (simp add: poll_until.simps [of sample stop v] smp sample_value_Suc)
qed

lemma poll_until_reaches:
  assumes "poll_until sample stop v s = Some r"
  shows "stop (fst r) \<and>
           (r = (v, s) \<or> (\<exists>n. r = (sample_value sample n s, sampled sample (Suc n) s)))"
proof (rule poll_until.raw_induct [where P = "\<lambda>sample stop v s r. stop (fst r) \<and>
      (r = (v, s) \<or> (\<exists>n. r = (sample_value sample n s, sampled sample (Suc n) s)))", OF _ assms])
  fix f sample stop v s r
  assume IH: "\<And>sample stop v s r. f sample stop v s = Some r \<Longrightarrow> stop (fst r) \<and>
      (r = (v, s) \<or> (\<exists>n. r = (sample_value sample n s, sampled sample (Suc n) s)))"
    and eq: "(if stop v then Some (v, s)
       else (case sample s of (v', s') \<Rightarrow> f sample stop v' s')) = Some r"
  show "stop (fst r) \<and>
      (r = (v, s) \<or> (\<exists>n. r = (sample_value sample n s, sampled sample (Suc n) s)))"
  proof (cases "stop v")
    case True
    with eq show ?thesis by auto
  next
    case False
    with eq have "f sample stop (fst (sample s)) (snd (sample s)) = Some r"
      by (simp add: split_beta)
    from IH [OF this] show ?thesis
    proof (elim conjE disjE exE)
      assume "stop (fst r)" "r = (fst (sample s), snd (sample s))"
      then have "r = (sample_value sample 0 s, sampled sample (Suc 0) s)"
        by (simp add: sample_value_def)
      with \<open>stop (fst r)\<close> show ?thesis by blast
    next
      fix n
      assume "stop (fst r)"
        "r = (sample_value sample n (snd (sample s)), sampled sample (Suc n) (snd (sample s)))"
      then have "r = (sample_value sample (Suc n) s, sampled sample (Suc (Suc n)) s)"
        by (simp add: sample_value_Suc)
      with \<open>stop (fst r)\<close> show ?thesis by blast
    qed
  qed
qed

text \<open>The loop returns exactly when some sample stops it.\<close>

lemma poll_until_returns_iff:
  "(\<exists>r. poll_until sample stop v s = Some r) \<longleftrightarrow> stop v \<or> (\<exists>n. stop (sample_value sample n s))"
proof
  assume "\<exists>r. poll_until sample stop v s = Some r"
  then show "stop v \<or> (\<exists>n. stop (sample_value sample n s))"
    by (force dest: poll_until_reaches)
next
  assume "stop v \<or> (\<exists>n. stop (sample_value sample n s))"
  then show "\<exists>r. poll_until sample stop v s = Some r"
  proof (cases "stop v")
    case False
    with \<open>stop v \<or> _\<close> obtain n where n: "stop (sample_value sample n s)"
      "\<forall>m<n. \<not> stop (sample_value sample m s)"
      using exists_least_iff [of "\<lambda>n. stop (sample_value sample n s)"] by auto
    from poll_until_first [of stop, OF False n(2,1)] show ?thesis by blast
  qed simp
qed

subsection \<open>Words: halves, masks, alignment\<close>

lemma sint_uint_small: "uint (x :: 'a::len word) < 2 ^ (LENGTH('a) - 1) \<Longrightarrow> sint x = uint x"
  unfolding sint_uint by (rule signed_take_bit_int_eq_self) (auto intro: order_trans [of _ 0])

lemma not_negative: "unat (x :: 'a::len word) < 2 ^ (LENGTH('a) - 1) \<Longrightarrow> \<not> is_negative x"
proof -
  assume "unat x < 2 ^ (LENGTH('a) - 1)"
  then have "int (unat x) < int (2 ^ (LENGTH('a) - 1))" by (simp only: of_nat_less_iff)
  then have "sint x = uint x" by (intro sint_uint_small) simp
  then show ?thesis by (simp add: is_negative_def)
qed

lemma unat_u64_less: "unat (x :: u64) < 2 ^ 64"
  using unsigned_less [of x] by simp

lemma unat_u32_less: "unat (x :: u32) < 2 ^ 32"
  using unsigned_less [of x] by simp

lemma unat_u64_add: "unat (a :: u64) + unat b < 2 ^ 64 \<Longrightarrow> unat (a + b) = unat a + unat b"
  by (simp add: unat_word_ariths)

lemma unat_of_nat_u64: "n < 2 ^ 64 \<Longrightarrow> unat (word_of_nat n :: u64) = n"
  by (simp add: unat_of_nat)

definition lo32 :: "u64 \<Rightarrow> u32" where
  "lo32 x = ucast (x AND 0xffffffff)"

definition hi32 :: "u64 \<Rightarrow> u32" where
  "hi32 x = ucast (drop_bit 32 x AND 0xffffffff)"

definition join32 :: "u32 \<Rightarrow> u32 \<Rightarrow> u64" where
  "join32 hi lo = push_bit 32 (ucast hi) OR ucast lo"

named_theorems word_bits \<open>bit characterisations of the word operations of the model\<close>

lemma mask32_eq: "(0xffffffff :: 'a::len word) = mask 32"
  by (simp add: mask_eq_exp_minus_1)

lemma bit_lo32 [word_bits]: "bit (lo32 x) n \<longleftrightarrow> n < 32 \<and> bit x n"
  by (auto simp: lo32_def mask32_eq bit_simps)

lemma bit_hi32 [word_bits]: "bit (hi32 x) n \<longleftrightarrow> n < 32 \<and> bit x (n + 32)"
  by (auto simp: hi32_def mask32_eq bit_simps add.commute)

lemma bit_join32 [word_bits]:
  "bit (join32 h l) n \<longleftrightarrow> (if n < 32 then bit l n else n < 64 \<and> bit h (n - 32))"
  by (auto simp: join32_def bit_simps dest: bit_imp_le_length)

lemma lo32_join32 [simp]: "lo32 (join32 h l) = l"
  by (rule bit_word_eqI) (auto simp: word_bits)

lemma hi32_join32 [simp]: "hi32 (join32 h l) = h"
  by (rule bit_word_eqI) (auto simp: word_bits)

lemma join32_hi_lo [simp]: "join32 (hi32 x) (lo32 x) = x"
  by (rule bit_word_eqI) (auto simp: word_bits)

lemma join32_AND: "join32 (a AND c) (b AND d) = join32 a b AND join32 c d"
  by (rule bit_word_eqI) (auto simp: word_bits bit_simps)

lemma join32_inject [simp]: "join32 h l = join32 h' l' \<longleftrightarrow> h = h' \<and> l = l'"
  by (metis lo32_join32 hi32_join32)

end
