(* ===== verification/Auxiliary.thy ===== *)
theory Auxiliary
  imports Prelude
begin

text \<open>
  \<open>src/lib/auxiliary.c\<close> and \<open>src/lib/auxiliary.h\<close>: time differences for the measurements and the
  64-bit byte-order macros used when buffer addresses travel over a socket. The lemmas show that
  the difference of two normalised times is exact and normalised, that invalid times leave the
  first argument alone, and that the byte-order macros are big-endian and inverse to each other.
\<close>

subsection \<open>Bits\<close>

definition BIT :: "nat \<Rightarrow> u64" where
  "BIT nr = push_bit nr 1"

subsection \<open>Time differences\<close>

record timespec =
  tv_sec :: i64
  tv_nsec :: i64

definition timespec_check :: "timespec \<Rightarrow> i32" where
  "timespec_check t =
     (if is_negative (tv_nsec t) \<or> sint (tv_nsec t) \<ge> 1000000000 then - 1 else 0)"

text \<open>
  \<open>timespec_sub\<close> overwrites \<open>*t1\<close>; the model returns the new \<open>*t1\<close>. Its diagnostics on
  \<open>stderr\<close> are left out.
\<close>

definition timespec_sub :: "timespec \<Rightarrow> timespec \<Rightarrow> timespec" where
  "timespec_sub t1 t2 =
     (if is_negative (timespec_check t1) then t1
      else if is_negative (timespec_check t2) then t1
      else
        let t1 = t1\<lparr>tv_sec := tv_sec t1 - tv_sec t2\<rparr>;
            t1 = t1\<lparr>tv_nsec := tv_nsec t1 - tv_nsec t2\<rparr>
        in if sint (tv_nsec t1) \<ge> 1000000000 then
             t1\<lparr>tv_sec := tv_sec t1 + 1, tv_nsec := tv_nsec t1 - 1000000000\<rparr>
           else if is_negative (tv_nsec t1) then
             t1\<lparr>tv_sec := tv_sec t1 - 1, tv_nsec := tv_nsec t1 + 1000000000\<rparr>
           else t1)"

text \<open>The specification: a time as a number of nanoseconds, and what normalised means.\<close>

definition nanoseconds :: "timespec \<Rightarrow> int" where
  "nanoseconds t = sint (tv_sec t) * 1000000000 + sint (tv_nsec t)"

definition normalised :: "timespec \<Rightarrow> bool" where
  "normalised t \<longleftrightarrow> 0 \<le> sint (tv_nsec t) \<and> sint (tv_nsec t) < 1000000000"

lemma timespec_check_negative: "is_negative (timespec_check t) \<longleftrightarrow> \<not> normalised t"
  by (simp add: timespec_check_def normalised_def is_negative_def linorder_not_less
      linorder_not_le)

text \<open>Signed arithmetic on words is exact while the result fits.\<close>

lemma sint_diff_exact:
  fixes a b :: i64
  assumes "- (2 ^ 63) \<le> sint a - sint b" and "sint a - sint b < 2 ^ 63"
  shows "sint (a - b) = sint a - sint b"
proof -
  have "sint (a - b) = signed_take_bit 63 (sint a - sint b)"
    by (simp add: sint_word_ariths)
  also have "\<dots> = sint a - sint b"
    using assms by (intro signed_take_bit_int_eq_self) auto
  finally show ?thesis .
qed

lemma sint_add_exact:
  fixes a b :: i64
  assumes "- (2 ^ 63) \<le> sint a + sint b" and "sint a + sint b < 2 ^ 63"
  shows "sint (a + b) = sint a + sint b"
proof -
  have "sint (a + b) = signed_take_bit 63 (sint a + sint b)"
    by (simp add: sint_word_ariths)
  also have "\<dots> = sint a + sint b"
    using assms by (intro signed_take_bit_int_eq_self) auto
  finally show ?thesis .
qed

lemma timespec_sub_invalid:
  "\<not> normalised t1 \<or> \<not> normalised t2 \<Longrightarrow> timespec_sub t1 t2 = t1"
  by (auto simp: timespec_sub_def timespec_check_negative)

lemma timespec_sub_normalised:
  assumes n1: "normalised t1" and n2: "normalised t2"
    and lo: "- (2 ^ 63) < sint (tv_sec t1) - sint (tv_sec t2)"
    and hi: "sint (tv_sec t1) - sint (tv_sec t2) < 2 ^ 63"
  shows "nanoseconds (timespec_sub t1 t2) = nanoseconds t1 - nanoseconds t2 \<and>
         normalised (timespec_sub t1 t2)"
proof -
  let ?s = "tv_sec t1 - tv_sec t2" and ?n = "tv_nsec t1 - tv_nsec t2"
  have s: "sint ?s = sint (tv_sec t1) - sint (tv_sec t2)"
    using lo hi by (intro sint_diff_exact) auto
  have n: "sint ?n = sint (tv_nsec t1) - sint (tv_nsec t2)"
    using n1 n2 by (intro sint_diff_exact) (auto simp: normalised_def)
  have n_lt: "sint ?n < 1000000000" and n_gt: "- 1000000000 < sint ?n"
    using n1 n2 unfolding n normalised_def by auto
  have neg: "is_negative ?n \<longleftrightarrow> sint ?n < 0"
    by (simp add: is_negative_def)
  show ?thesis
  proof (cases "sint ?n < 0")
    case True
    have s1: "sint (?s - 1) = sint ?s - 1"
      using lo hi by (subst sint_diff_exact) (simp_all add: s)
    have n1': "sint (?n + 1000000000) = sint ?n + 1000000000"
      using n_lt n_gt True by (subst sint_add_exact) simp_all
    show ?thesis
      using neg True n1 n2 n_gt n_lt
      by (simp add: timespec_sub_def timespec_check_negative nanoseconds_def s1 n1')
        (simp add: normalised_def n1' s n)
  next
    case False
    then show ?thesis
      using neg n1 n2 n_lt
      by (simp add: timespec_sub_def timespec_check_negative nanoseconds_def s)
        (simp add: normalised_def n)
  qed
qed

subsection \<open>Byte order\<close>

text \<open>
  \<open>htonl\<close> of the C library on the little-endian hosts RecoNIC runs on (PCIe hosts of the x86-64
  family): the four bytes reversed. \<open>ntohl\<close> is the same function.
\<close>

definition htonl :: "u32 \<Rightarrow> u32" where
  "htonl x = push_bit 24 (x AND 0xff) OR push_bit 8 (x AND 0xff00)
     OR drop_bit 8 (x AND 0xff0000) OR drop_bit 24 (x AND 0xff000000)"

definition ntohl :: "u32 \<Rightarrow> u32" where
  "ntohl x = htonl x"

definition htonll :: "u64 \<Rightarrow> u64" where
  "htonll x = push_bit 32 (ucast (htonl (ucast (x AND 0xffffffff))))
     OR ucast (htonl (ucast (drop_bit 32 x)))"

definition ntohll :: "u64 \<Rightarrow> u64" where
  "ntohll x = push_bit 32 (ucast (ntohl (ucast (x AND 0xffffffff))))
     OR ucast (ntohl (ucast (drop_bit 32 x)))"

lemma htonll_join: "htonll x = join32 (htonl (lo32 x)) (htonl (hi32 x))"
proof -
  have "ucast (drop_bit 32 x) = hi32 x"
    by (rule bit_word_eqI) (auto simp: word_bits bit_simps add.commute)
  then show ?thesis by (simp add: htonll_def join32_def lo32_def)
qed

lemma ntohll_htonll_eq: "ntohll = htonll"
  by (rule ext) (simp add: ntohll_def htonll_def ntohl_def)

text \<open>The byte at position \<open>i\<close> of the little-endian representation.\<close>

definition byte_of :: "'a::len word \<Rightarrow> nat \<Rightarrow> u8" where
  "byte_of x i = ucast (drop_bit (8 * i) x)"

text \<open>Bit \<open>n\<close> of a byte-reversed word is the same bit of the mirrored byte.\<close>

lemma bit_htonl:
  "bit (htonl x) n \<longleftrightarrow>
     (if n < 8 then bit x (n + 24) else if n < 16 then bit x (n + 8)
      else if n < 24 then bit x (n - 8) else n < 32 \<and> bit x (n - 24))"
proof -
  have m: "(0xff :: u32) = push_bit 0 (mask 8)" "(0xff00 :: u32) = push_bit 8 (mask 8)"
    "(0xff0000 :: u32) = push_bit 16 (mask 8)" "(0xff000000 :: u32) = push_bit 24 (mask 8)"
    by (simp_all add: mask_eq_exp_minus_1 push_bit_eq_mult)
  show ?thesis
    unfolding htonl_def m by (auto simp: bit_simps add.commute dest: bit_imp_le_length)
qed

lemma htonl_htonl: "htonl (htonl x) = x"
  by (rule bit_word_eqI) (auto simp: bit_htonl)

lemma htonll_htonll: "htonll (htonll x) = x"
  by (simp add: htonll_join htonl_htonl)

lemma byte_of_htonl:
  assumes "i < 4"
  shows "byte_of (htonl x) i = byte_of x (3 - i)"
proof (rule bit_word_eqI)
  fix n assume "n < LENGTH(8)"
  moreover from assms have "i = 0 \<or> i = 1 \<or> i = 2 \<or> i = 3" by arith
  ultimately show "bit (byte_of (htonl x) i) n = bit (byte_of x (3 - i)) n"
    by (elim disjE) (simp_all add: byte_of_def bit_simps bit_htonl add.commute)
qed

lemma byte_of_join32: "byte_of (join32 h l) i = (if i < 4 then byte_of l i else byte_of h (i - 4))"
  by (rule bit_word_eqI)
    (auto simp: byte_of_def bit_simps word_bits diff_mult_distrib2 dest: bit_imp_le_length)

lemma byte_of_halves: "i < 4 \<Longrightarrow> byte_of (lo32 x) i = byte_of x i"
  "i < 4 \<Longrightarrow> byte_of (hi32 x) i = byte_of x (i + 4)"
  by (rule bit_word_eqI; auto simp: byte_of_def bit_simps word_bits algebra_simps)+

lemma byte_of_htonll: "i < 8 \<Longrightarrow> byte_of (htonll x) i = byte_of x (7 - i)"
  by (auto simp: htonll_join byte_of_join32 byte_of_htonl byte_of_halves)

subsection \<open>Properties\<close>

text \<open>
  The difference of two normalised times whose seconds do not overflow is exact and normalised,
  and \<open>timespec_sub\<close> leaves its first argument alone when either argument is not normalised.
\<close>

theorem timespec_sub_exact:
  assumes "- (2 ^ 63) < sint (tv_sec t1) - sint (tv_sec t2)"
    and "sint (tv_sec t1) - sint (tv_sec t2) < 2 ^ 63"
  shows "if normalised t1 \<and> normalised t2
    then nanoseconds (timespec_sub t1 t2) = nanoseconds t1 - nanoseconds t2 \<and> normalised (timespec_sub t1 t2)
    else timespec_sub t1 t2 = t1"
  using timespec_sub_normalised [OF _ _ assms] timespec_sub_invalid by auto

theorem timespec_sub_exact_witness:
  "nanoseconds (timespec_sub \<lparr>tv_sec = 5, tv_nsec = 1\<rparr> \<lparr>tv_sec = 3, tv_nsec = 2\<rparr>) = 1999999999"
  using timespec_sub_exact [of "\<lparr>tv_sec = 5, tv_nsec = 1\<rparr>" "\<lparr>tv_sec = 3, tv_nsec = 2\<rparr>"]
  by (simp add: normalised_def nanoseconds_def)

text \<open>
  C40: on the little-endian host \<open>htonll\<close> mirrors the eight bytes of a word, so its memory image is
  the big-endian one, and \<open>ntohll\<close> undoes it.
\<close>

theorem htonll_big_endian:
  "(\<forall>i<8. byte_of (htonll x) i = byte_of x (7 - i)) \<and> ntohll (htonll x) = x \<and> htonll (ntohll x) = x"
  by (simp add: byte_of_htonll ntohll_htonll_eq htonll_htonll)

theorem htonll_big_endian_witness: "byte_of (htonll 0x1122334455667788) 0 = 0x11"
proof -
  have "byte_of (htonll 0x1122334455667788) 0 = byte_of (0x1122334455667788 :: u64) 7"
    using htonll_big_endian [of "0x1122334455667788"] by simp
  then show ?thesis by (simp add: byte_of_def)
qed

end
