(* ===== verification/World.thy ===== *)
theory World
  imports Prelude
begin

text \<open>
  The state that the library works on: the structures of \<open>src/lib/reconic.h\<close> and
  \<open>src/lib/rdma_api.h\<close> as records (fields carry the prefix of their structure), the store of
  objects made by \<open>malloc\<close>, the global variables of \<open>reconic.c\<close>, and the history of everything
  the program has exchanged with its outside: register accesses, stores to buffers the device
  can read, and system calls.

  The device, the kernel and the allocator are not code of the repository. They are the
  parameter \<open>env\<close>: each answer is a function of the whole history so far. This leaves them free
  to answer the same read differently each time, which is what polling relies on, and a
  statement for all \<open>env\<close> is a statement for every device, kernel and timing.
\<close>

subsection \<open>Structures\<close>

record mac_addr_t =
  mac_lsb :: u32
  mac_msb :: u32

record win_size_t =
  win_size_lsb :: u32
  win_size_msb :: u32

record rdma_buff_t =
  buf_buffer :: u64
  buf_dma_addr :: u64
  buf_buf_size :: u32

record rn_dev_t =
  rn_axil_ctl :: u64
  rn_axil_map_size :: u32
  rn_base_buf :: ptr
  rn_rdma_dev :: ptr
  rn_buffer_offset :: u64
  rn_dev_buffer_offset :: u64
  rn_num_qp :: u8
  rn_winSize :: ptr

record rdma_glb_csr_t =
  gc_data_buf_size :: u32
  gc_data_buf_baseaddr :: u64
  gc_ipkt_err_stat_q_size :: u16
  gc_ipkt_err_stat_q_baseaddr :: u64
  gc_err_buf_baseaddr :: u64
  gc_err_buf_size :: u32
  gc_resp_err_pkt_buf_baseaddr :: u64
  gc_resp_err_pkt_buf_size :: u64
  gc_interrupt_enable :: u32
  gc_src_mac :: mac_addr_t
  gc_src_ip :: u32
  gc_udp_sport :: u16
  gc_num_qp_enabled :: u8
  gc_xrnic_conf :: u32
  gc_xrnic_advanced_conf :: u32

record rdma_dev_t =
  rd_rn_dev :: ptr
  rd_glb_csr :: ptr
  rd_qps_ptr :: ptr
  rd_axil_ctl :: u64
  rd_num_qp :: u32
  rd_winSize :: ptr

record rdma_pd_t =
  pd_pd_num :: u32
  pd_virtual_addr_lsb :: u32
  pd_virtual_addr_msb :: u32
  pd_dma_addr_lsb :: u32
  pd_dma_addr_msb :: u32
  pd_r_key :: u32
  pd_buffer_size_lsb :: u32
  pd_buffer_size_msb :: u16
  pd_pd_access_type :: u16
  pd_mr_buffer :: ptr

record rdma_qp_t =
  qp_rdma_dev :: ptr
  qp_qpid :: u32
  qp_sq :: ptr
  qp_sq_psn :: u32
  qp_sq_pidb :: i32
  qp_sq_cidb :: i32
  qp_cq :: ptr
  qp_cq_cidb_addr :: u64
  qp_cq_cidb :: i32
  qp_rq :: ptr
  qp_rq_cidb_addr :: u64
  qp_rq_cidb :: i32
  qp_rq_pidb :: i32
  qp_pd_num :: u32
  qp_pd_entry :: ptr
  qp_dst_qpid :: u32
  qp_qdepth :: u32
  qp_last_rq_psn :: u32
  qp_dst_mac :: ptr
  qp_dst_ip :: u32

record rdma_wqe_t =
  wqe_wrid :: u16
  wqe_reserved :: u16
  wqe_laddr_low :: u32
  wqe_laddr_high :: u32
  wqe_length :: u32
  wqe_opcode :: u32
  wqe_remote_offset_low :: u32
  wqe_remote_offset_high :: u32
  wqe_r_key :: u32
  wqe_send_small_payload0 :: u32
  wqe_send_small_payload1 :: u32
  wqe_send_small_payload2 :: u32
  wqe_send_small_payload3 :: u32
  wqe_immdt_data :: u32
  wqe_reserved0 :: u32
  wqe_reserved1 :: u32
  wqe_reserved2 :: u32

text \<open>
  The objects of the store. A work queue element is built in place in memory that the device or
  the kernel reads, so its object has no contents of its own: its bytes are \<open>Mem_Store\<close> events at
  its address; an array of the examples is kept the same way. \<open>O_qp_table\<close> is the array \<open>qps_ptr\<close> of pointers to queue pairs, as
  the list of its allocated elements.
\<close>

datatype obj =
    O_mac mac_addr_t
  | O_win_size win_size_t
  | O_rdma_buff rdma_buff_t
  | O_rn_dev rn_dev_t
  | O_glb_csr rdma_glb_csr_t
  | O_rdma_dev rdma_dev_t
  | O_qp_table "ptr list"
  | O_pd rdma_pd_t
  | O_qp rdma_qp_t
  | O_wqe
  | O_mem u64                               \<comment> \<open>an array of so many bytes\<close>

definition as_mac :: "obj \<Rightarrow> mac_addr_t option" where
  "as_mac ob = (case ob of O_mac x \<Rightarrow> Some x | _ \<Rightarrow> None)"

definition as_win_size :: "obj \<Rightarrow> win_size_t option" where
  "as_win_size ob = (case ob of O_win_size x \<Rightarrow> Some x | _ \<Rightarrow> None)"

definition as_rdma_buff :: "obj \<Rightarrow> rdma_buff_t option" where
  "as_rdma_buff ob = (case ob of O_rdma_buff x \<Rightarrow> Some x | _ \<Rightarrow> None)"

definition as_rn_dev :: "obj \<Rightarrow> rn_dev_t option" where
  "as_rn_dev ob = (case ob of O_rn_dev x \<Rightarrow> Some x | _ \<Rightarrow> None)"

definition as_glb_csr :: "obj \<Rightarrow> rdma_glb_csr_t option" where
  "as_glb_csr ob = (case ob of O_glb_csr x \<Rightarrow> Some x | _ \<Rightarrow> None)"

definition as_rdma_dev :: "obj \<Rightarrow> rdma_dev_t option" where
  "as_rdma_dev ob = (case ob of O_rdma_dev x \<Rightarrow> Some x | _ \<Rightarrow> None)"

definition as_qp_table :: "obj \<Rightarrow> ptr list option" where
  "as_qp_table ob = (case ob of O_qp_table x \<Rightarrow> Some x | _ \<Rightarrow> None)"

definition as_pd :: "obj \<Rightarrow> rdma_pd_t option" where
  "as_pd ob = (case ob of O_pd x \<Rightarrow> Some x | _ \<Rightarrow> None)"

definition as_qp :: "obj \<Rightarrow> rdma_qp_t option" where
  "as_qp ob = (case ob of O_qp x \<Rightarrow> Some x | _ \<Rightarrow> None)"

lemma as_obj_simps [simp]:
  "as_mac (O_mac mac) = Some mac" "as_win_size (O_win_size ws) = Some ws"
  "as_rdma_buff (O_rdma_buff b) = Some b" "as_rn_dev (O_rn_dev rn) = Some rn"
  "as_glb_csr (O_glb_csr gc) = Some gc" "as_rdma_dev (O_rdma_dev rd) = Some rd"
  "as_qp_table (O_qp_table qt) = Some qt" "as_pd (O_pd pd) = Some pd" "as_qp (O_qp qp) = Some qp"
  by (simp_all add: as_mac_def as_win_size_def as_rdma_buff_def as_rn_dev_def as_glb_csr_def
      as_rdma_dev_def as_qp_table_def as_pd_def as_qp_def)

lemma as_obj_eq:
  "as_mac ob = Some mac \<longleftrightarrow> ob = O_mac mac" "as_win_size ob = Some ws \<longleftrightarrow> ob = O_win_size ws"
  "as_rdma_buff ob = Some b \<longleftrightarrow> ob = O_rdma_buff b" "as_rn_dev ob = Some rn \<longleftrightarrow> ob = O_rn_dev rn"
  "as_glb_csr ob = Some gc \<longleftrightarrow> ob = O_glb_csr gc" "as_rdma_dev ob = Some rd \<longleftrightarrow> ob = O_rdma_dev rd"
  "as_qp_table ob = Some qt \<longleftrightarrow> ob = O_qp_table qt" "as_pd ob = Some pd \<longleftrightarrow> ob = O_pd pd"
  "as_qp ob = Some qp \<longleftrightarrow> ob = O_qp qp"
  by (simp_all add: as_mac_def as_win_size_def as_rdma_buff_def as_rn_dev_def as_glb_csr_def
      as_rdma_dev_def as_qp_table_def as_pd_def as_qp_def split: obj.split)

subsection \<open>History and environment\<close>

text \<open>
  One event per exchange with the outside. Calls are recorded with their arguments and the
  answer; a \<open>read\<close> with the bytes the kernel stored at the buffer. \<open>Mem_Store\<close> is a store of the
  program itself to memory that the device or the kernel reads later.
\<close>

datatype event =
    Mmio_Read u64 u32                       \<comment> \<open>address, value\<close>
  | Mmio_Write u64 u32
  | Mem_Store u64 "u8 list"                 \<comment> \<open>address, bytes\<close>
  | Sys_Lseek i32 i64 i64                   \<comment> \<open>descriptor, offset, result\<close>
  | Sys_Read i32 u64 u64 i64 "u8 list"      \<comment> \<open>descriptor, buffer, count, result, bytes\<close>
  | Sys_Write i32 u64 u64 i64               \<comment> \<open>descriptor, buffer, count, result\<close>
  | Sys_Open string i32
  | Sys_Close i32
  | Sys_Mmap u64 i32 u64                    \<comment> \<open>length, descriptor, result\<close>
  | Sys_Mlock u64 u64 i32                   \<comment> \<open>address, length, result\<close>
  | Pagemap_Open bool                       \<comment> \<open>whether \<open>fopen\<close> succeeded\<close>
  | Pagemap_Seek u64 bool                   \<comment> \<open>offset, whether \<open>fseek\<close> succeeded\<close>
  | Pagemap_Read nat u64                    \<comment> \<open>bytes read, their value\<close>
  | Pagemap_Close
  | Mem_Load u64 "u8 list"                  \<comment> \<open>address in memory the device writes, bytes\<close>
  | Sock_Open i32
  | Sock_Connect i32 string u16             \<comment> \<open>socket, address, port\<close>
  | Sock_Listen i32 string u16
  | Sock_Accept i32 i32                     \<comment> \<open>socket, accepted socket\<close>
  | Sock_Read i32 i64 "u8 list"             \<comment> \<open>socket, result, bytes\<close>
  | Sock_Write i32 "u8 list"
  | Sock_Shutdown i32
  | Console_Char i32                        \<comment> \<open>result of \<open>getchar\<close>\<close>
  | Proc_Open string bool                   \<comment> \<open>command, whether \<open>popen\<close> succeeded\<close>
  | Proc_Close

record env =
  env_mmio_read :: "event list \<Rightarrow> u64 \<Rightarrow> u32"
  env_malloc_fails :: "nat \<Rightarrow> bool"
  env_obj_addr :: "ptr \<Rightarrow> u64"
  env_lseek :: "event list \<Rightarrow> i32 \<Rightarrow> i64 \<Rightarrow> i64"
  env_read :: "event list \<Rightarrow> i32 \<Rightarrow> u64 \<Rightarrow> i64 \<times> u8 list"
  env_write :: "event list \<Rightarrow> i32 \<Rightarrow> u64 \<Rightarrow> u64 \<Rightarrow> i64"
  env_open :: "event list \<Rightarrow> string \<Rightarrow> i32"
  env_mmap :: "event list \<Rightarrow> u64 \<Rightarrow> i32 \<Rightarrow> u64"
  env_mlock :: "event list \<Rightarrow> u64 \<Rightarrow> u64 \<Rightarrow> i32"
  env_pagesize :: u64
  env_pagemap_open :: "event list \<Rightarrow> bool"
  env_pagemap_seek :: "event list \<Rightarrow> u64 \<Rightarrow> bool"
  env_pagemap_read :: "event list \<Rightarrow> nat \<times> u64"
  env_DEBUG :: bool
  junk_rdma_buff :: rdma_buff_t             \<comment> \<open>contents of uninitialised storage\<close>
  junk_rn_dev :: rn_dev_t
  junk_win_size :: win_size_t
  junk_rdma_dev :: rdma_dev_t
  junk_glb_csr :: rdma_glb_csr_t
  junk_pd :: rdma_pd_t
  junk_qp :: rdma_qp_t

record world =
  hist :: "event list"                      \<comment> \<open>latest first\<close>
  heap :: "ptr \<Rightarrow> obj option"
  next_ptr :: ptr
  g_debug :: bool
  g_device :: string
  g_fpga_fd :: i32

type_synonym 'a io = "(world, 'a) prog"

text \<open>Recording an event.\<close>

definition emit :: "event \<Rightarrow> world \<Rightarrow> world" where
  "emit e w = w\<lparr>hist := e # hist w\<rparr>"

lemma emit_simps [simp]:
  "hist (emit e w) = e # hist w" "heap (emit e w) = heap w" "next_ptr (emit e w) = next_ptr w"
  "g_debug (emit e w) = g_debug w" "g_device (emit e w) = g_device w"
  "g_fpga_fd (emit e w) = g_fpga_fd w"
  by (simp_all add: emit_def)

subsection \<open>The object store\<close>

text \<open>
  \<open>malloc\<close> hands out a fresh non-NULL reference or NULL; \<open>free(NULL)\<close> does nothing and \<open>free\<close>
  of an object that is not live is a fault. A structure is read and written as a whole, so an
  assignment \<open>p->f = v\<close> of the source is a \<open>load\<close> followed by a \<open>store\<close> of the updated record.
\<close>

definition malloc :: "env \<Rightarrow> obj \<Rightarrow> ptr io" where
  "malloc E ob = (\<lambda>w. let p = next_ptr w in
     if env_malloc_fails E p then Some (Ret NULL, w\<lparr>next_ptr := Suc p\<rparr>)
     else Some (Ret p, w\<lparr>next_ptr := Suc p, heap := (heap w)(p \<mapsto> ob)\<rparr>))"

definition free_obj :: "ptr \<Rightarrow> unit io" where
  "free_obj p = (\<lambda>w.
     if p = NULL then Some (Ret (), w)
     else if heap w p = None then Some (Fault Bad_Free, w)
     else Some (Ret (), w\<lparr>heap := (heap w)(p := None)\<rparr>))"

definition load :: "(obj \<Rightarrow> 'a option) \<Rightarrow> ptr \<Rightarrow> 'a io" where
  "load as p = (\<lambda>w. case Option.bind (heap w p) as of
       None \<Rightarrow> Some (Fault Bad_Pointer, w)
     | Some x \<Rightarrow> Some (Ret x, w))"

definition store :: "ptr \<Rightarrow> obj \<Rightarrow> unit io" where
  "store p ob = (\<lambda>w.
     if heap w p = None then Some (Fault Bad_Pointer, w)
     else Some (Ret (), w\<lparr>heap := (heap w)(p \<mapsto> ob)\<rparr>))"

lemma load_run [run_simps]: "heap w p = Some ob \<Longrightarrow> as ob = Some x \<Longrightarrow> load as p w = Some (Ret x, w)"
  by (simp add: load_def)

lemma load_dead: "heap w p = None \<Longrightarrow> load as p w = Some (Fault Bad_Pointer, w)"
  by (simp add: load_def)

lemma store_run [run_simps]:
  "heap w p \<noteq> None \<Longrightarrow> store p ob w = Some (Ret (), w\<lparr>heap := (heap w)(p \<mapsto> ob)\<rparr>)"
  by (simp add: store_def)

lemma malloc_run [run_simps]:
  "\<not> env_malloc_fails E (next_ptr w) \<Longrightarrow>
   malloc E ob w = Some (Ret (next_ptr w),
     w\<lparr>next_ptr := Suc (next_ptr w), heap := (heap w)(next_ptr w \<mapsto> ob)\<rparr>)"
  by (simp add: malloc_def Let_def)

lemma malloc_fail_run [run_simps]:
  "env_malloc_fails E (next_ptr w) \<Longrightarrow>
   malloc E ob w = Some (Ret NULL, w\<lparr>next_ptr := Suc (next_ptr w)\<rparr>)"
  by (simp add: malloc_def Let_def)

lemma free_run [run_simps]:
  "p \<noteq> NULL \<Longrightarrow> heap w p \<noteq> None \<Longrightarrow> free_obj p w = Some (Ret (), w\<lparr>heap := (heap w)(p := None)\<rparr>)"
  by (simp add: free_obj_def)

lemma free_NULL_run [run_simps]: "free_obj NULL w = Some (Ret (), w)"
  by (simp add: free_obj_def)

lemma free_twice: "p \<noteq> NULL \<Longrightarrow> heap w p = None \<Longrightarrow> free_obj p w = Some (Fault Bad_Free, w)"
  by (simp add: free_obj_def)

lemma load_RetE:
  assumes "load as p w = Some (Ret x, w')"
  obtains ob where "heap w p = Some ob" "as ob = Some x" "w' = w"
proof -
  from assms have "Option.bind (heap w p) as = Some x" and "w' = w"
    by (simp_all add: load_def split: option.splits)
  then show thesis using that by (cases "heap w p") simp_all
qed

lemma store_RetE:
  assumes "store p ob w = Some (Ret x, w')"
  obtains "heap w p \<noteq> None" "w' = w\<lparr>heap := (heap w)(p \<mapsto> ob)\<rparr>"
  using assms by (simp add: store_def split: if_splits)

lemma malloc_RetE:
  assumes "malloc E ob w = Some (Ret p, w')" and "p \<noteq> NULL"
  obtains "p = next_ptr w" "w' = w\<lparr>next_ptr := Suc p, heap := (heap w)(p \<mapsto> ob)\<rparr>"
  using assms by (auto simp: malloc_def Let_def split: if_splits)

subsection \<open>Well-formed states\<close>

text \<open>
  Every live object was handed out by \<open>malloc\<close>: NULL is never live and references at or above
  the allocator's counter are free. Every operation of the model keeps this, so a new object
  never overlaps an old one.
\<close>

definition world_ok :: "world \<Rightarrow> bool" where
  "world_ok w \<longleftrightarrow> 0 < next_ptr w \<and> (\<forall>p. heap w p \<noteq> None \<longrightarrow> 0 < p \<and> p < next_ptr w)"

text \<open>
  What an operation may do to the state: the history only grows, the allocator only advances,
  the globals stay, and well-formedness is kept. \<open>steps_ok\<close> is the relation that all operations
  keep.
\<close>

definition steps_ok :: "world \<Rightarrow> world \<Rightarrow> bool" where
  "steps_ok w w' \<longleftrightarrow>
     (\<exists>es. hist w' = es @ hist w) \<and> next_ptr w \<le> next_ptr w' \<and>
     (world_ok w \<longrightarrow> world_ok w') \<and> g_debug w' = g_debug w \<and> g_device w' = g_device w \<and>
     g_fpga_fd w' = g_fpga_fd w"

lemma reflp_steps_ok [keeps_intros]: "reflp steps_ok"
  by (simp add: reflp_def steps_ok_def)

lemma transp_steps_ok [keeps_intros]: "transp steps_ok"
  by (rule transpI) (force simp: steps_ok_def)

lemma world_ok_fresh: "world_ok w \<Longrightarrow> heap w (next_ptr w) = None"
  by (auto simp: world_ok_def)

lemma world_ok_NULL: "world_ok w \<Longrightarrow> heap w NULL = None"
  by (auto simp: world_ok_def)

lemma steps_ok_emit: "steps_ok w (emit e w)"
  by (simp add: steps_ok_def world_ok_def)

lemma keeps_emit [keeps_intros]: "keeps steps_ok (modifyM (emit e))"
  by (rule keeps_modifyM) (rule steps_ok_emit)

lemma keeps_malloc [keeps_intros]: "keeps steps_ok (malloc E ob)"
  by (rule keepsI) (auto simp: malloc_def Let_def steps_ok_def world_ok_def less_Suc_eq
      split: if_splits)

lemma keeps_free [keeps_intros]: "keeps steps_ok (free_obj p)"
  by (rule keepsI) (auto simp: free_obj_def steps_ok_def world_ok_def split: if_splits)

lemma keeps_load [keeps_intros]: "keeps steps_ok (load as p)"
  by (rule keepsI) (auto simp: load_def steps_ok_def split: option.splits)

lemma keeps_store [keeps_intros]: "keeps steps_ok (store p ob)"
  by (rule keepsI) (auto simp: store_def steps_ok_def world_ok_def split: if_splits)

text \<open>
  Operations that only exchange events with the outside: the store, the allocator and the
  globals stay.
\<close>

definition same_store :: "world \<Rightarrow> world \<Rightarrow> bool" where
  "same_store w w' \<longleftrightarrow>
     heap w' = heap w \<and> next_ptr w' = next_ptr w \<and> g_debug w' = g_debug w \<and>
     g_device w' = g_device w \<and> g_fpga_fd w' = g_fpga_fd w"

lemma reflp_same_store [keeps_intros]: "reflp same_store"
  by (simp add: reflp_def same_store_def)

lemma transp_same_store [keeps_intros]: "transp same_store"
  by (rule transpI) (simp add: same_store_def)

lemma keeps_emit_same [keeps_intros]: "keeps same_store (modifyM (emit e))"
  by (rule keeps_modifyM) (simp add: same_store_def)

lemma keeps_load_same_store [keeps_intros]: "keeps same_store (load as p)"
  by (rule keepsI) (auto simp: load_def same_store_def split: option.splits)

subsection \<open>A concrete environment\<close>

text \<open>
  An environment in which every call succeeds and every register reads 0, and the state before
  the first call: the point at which statements over all environments are evaluated.
\<close>

definition idle_env :: env where
  "idle_env =
     \<lparr>env_mmio_read = \<lambda>_ _. 0, env_malloc_fails = \<lambda>_. False,
      env_obj_addr = \<lambda>p. word_of_nat (64 * p), env_lseek = \<lambda>_ _ offset. offset,
      env_read = \<lambda>_ _ n. (n, replicate (unat n) 0), env_write = \<lambda>_ _ _ n. n,
      env_open = \<lambda>_ _. 3, env_mmap = \<lambda>_ _ _. 0x7f0000000000, env_mlock = \<lambda>_ _ _. 0,
      env_pagesize = 4096, env_pagemap_open = \<lambda>_. True, env_pagemap_seek = \<lambda>_ _. True,
      env_pagemap_read = \<lambda>_. (7, 0x100), env_DEBUG = False,
      junk_rdma_buff = \<lparr>buf_buffer = 0, buf_dma_addr = 0, buf_buf_size = 0\<rparr>,
      junk_rn_dev = \<lparr>rn_axil_ctl = 0, rn_axil_map_size = 0, rn_base_buf = NULL,
        rn_rdma_dev = NULL, rn_buffer_offset = 0, rn_dev_buffer_offset = 0, rn_num_qp = 0,
        rn_winSize = NULL\<rparr>,
      junk_win_size = \<lparr>win_size_lsb = 0, win_size_msb = 0\<rparr>,
      junk_rdma_dev = \<lparr>rd_rn_dev = NULL, rd_glb_csr = NULL, rd_qps_ptr = NULL, rd_axil_ctl = 0,
        rd_num_qp = 0, rd_winSize = NULL\<rparr>,
      junk_glb_csr = \<lparr>gc_data_buf_size = 0, gc_data_buf_baseaddr = 0, gc_ipkt_err_stat_q_size = 0,
        gc_ipkt_err_stat_q_baseaddr = 0, gc_err_buf_baseaddr = 0, gc_err_buf_size = 0,
        gc_resp_err_pkt_buf_baseaddr = 0, gc_resp_err_pkt_buf_size = 0, gc_interrupt_enable = 0,
        gc_src_mac = \<lparr>mac_lsb = 0, mac_msb = 0\<rparr>, gc_src_ip = 0, gc_udp_sport = 0,
        gc_num_qp_enabled = 0, gc_xrnic_conf = 0, gc_xrnic_advanced_conf = 0\<rparr>,
      junk_pd = \<lparr>pd_pd_num = 0, pd_virtual_addr_lsb = 0, pd_virtual_addr_msb = 0,
        pd_dma_addr_lsb = 0, pd_dma_addr_msb = 0, pd_r_key = 0, pd_buffer_size_lsb = 0,
        pd_buffer_size_msb = 0, pd_pd_access_type = 0, pd_mr_buffer = NULL\<rparr>,
      junk_qp = \<lparr>qp_rdma_dev = NULL, qp_qpid = 0, qp_sq = NULL, qp_sq_psn = 0, qp_sq_pidb = 0,
        qp_sq_cidb = 0, qp_cq = NULL, qp_cq_cidb_addr = 0, qp_cq_cidb = 0, qp_rq = NULL,
        qp_rq_cidb_addr = 0, qp_rq_cidb = 0, qp_rq_pidb = 0, qp_pd_num = 0, qp_pd_entry = NULL,
        qp_dst_qpid = 0, qp_qdepth = 0, qp_last_rq_psn = 0, qp_dst_mac = NULL, qp_dst_ip = 0\<rparr>\<rparr>"

definition idle_world :: world where
  "idle_world = \<lparr>hist = [], heap = \<lambda>_. None, next_ptr = 1, g_debug = False, g_device = [],
     g_fpga_fd = 3\<rparr>"

lemma idle_env_answers [simp]:
  "env_mmio_read idle_env h a = 0" "\<not> env_malloc_fails idle_env p"
  "env_obj_addr idle_env p = word_of_nat (64 * p)"
  "env_lseek idle_env h fd off = off" "env_read idle_env h fd n = (n, replicate (unat n) 0)"
  "env_write idle_env h fd buf n = n" "env_open idle_env h name = 3"
  "env_mmap idle_env h n fd = 0x7f0000000000" "env_mlock idle_env h a n = 0"
  "env_pagesize idle_env = 4096" "env_pagemap_open idle_env h" "env_pagemap_seek idle_env h a"
  "env_pagemap_read idle_env h = (7, 0x100)" "\<not> env_DEBUG idle_env"
  by (simp_all add: idle_env_def)

lemma idle_world_simps [simp]:
  "hist idle_world = []" "heap idle_world p = None" "next_ptr idle_world = 1"
  "\<not> g_debug idle_world" "g_fpga_fd idle_world = 3"
  by (simp_all add: idle_world_def)

lemma idle_world_ok: "world_ok idle_world"
  by (simp add: world_ok_def)

text \<open>
  A state after the creation of a device: the device at 1, its window size at 2 and its huge
  page buffer at 3.
\<close>

definition demo_rn :: rn_dev_t where
  "demo_rn = \<lparr>rn_axil_ctl = 0x10000000, rn_axil_map_size = 0x400000, rn_base_buf = 3,
     rn_rdma_dev = NULL, rn_buffer_offset = 0, rn_dev_buffer_offset = 0, rn_num_qp = 4,
     rn_winSize = 2\<rparr>"

definition demo_world :: world where
  "demo_world = idle_world\<lparr>next_ptr := 4, heap := [
     1 \<mapsto> O_rn_dev demo_rn,
     2 \<mapsto> O_win_size \<lparr>win_size_lsb = 0xffffffff, win_size_msb = 0xff\<rparr>,
     3 \<mapsto> O_rdma_buff \<lparr>buf_buffer = 0x7f0000000000, buf_dma_addr = 0x12345678000, buf_buf_size = 0\<rparr>]\<rparr>"

lemma demo_rn_simps [simp]:
  "rn_axil_ctl demo_rn = 0x10000000" "rn_base_buf demo_rn = 3" "rn_rdma_dev demo_rn = NULL"
  "rn_buffer_offset demo_rn = 0" "rn_dev_buffer_offset demo_rn = 0" "rn_num_qp demo_rn = 4"
  "rn_winSize demo_rn = 2"
  by (simp_all add: demo_rn_def)

lemma demo_world_simps [simp]:
  "hist demo_world = []" "next_ptr demo_world = 4" "\<not> g_debug demo_world"
  "heap demo_world 1 = Some (O_rn_dev demo_rn)" "heap demo_world (Suc 0) = Some (O_rn_dev demo_rn)"
  "heap demo_world 2 = Some (O_win_size \<lparr>win_size_lsb = 0xffffffff, win_size_msb = 0xff\<rparr>)"
  "heap demo_world 3 = Some (O_rdma_buff
     \<lparr>buf_buffer = 0x7f0000000000, buf_dma_addr = 0x12345678000, buf_buf_size = 0\<rparr>)"
  "heap demo_world 4 = None" "heap demo_world 0 = None"
  by (simp_all add: demo_world_def)

lemma demo_world_ok: "world_ok demo_world"
  by (auto simp: world_ok_def demo_world_def)

text \<open>The same state with an RDMA device at 4, its global registers at 5 and queue table at 6.\<close>

definition demo_rdma :: rdma_dev_t where
  "demo_rdma = \<lparr>rd_rn_dev = 1, rd_glb_csr = 5, rd_qps_ptr = 6, rd_axil_ctl = 0x10000000,
     rd_num_qp = 4, rd_winSize = 2\<rparr>"

definition demo_rdma_world :: world where
  "demo_rdma_world = demo_world\<lparr>next_ptr := 7, heap := (heap demo_world)(
     4 \<mapsto> O_rdma_dev demo_rdma, 5 \<mapsto> O_glb_csr (junk_glb_csr idle_env),
     6 \<mapsto> O_qp_table [NULL, NULL, NULL, NULL])\<rparr>"

lemma demo_rdma_simps [simp]:
  "rd_rn_dev demo_rdma = 1" "rd_glb_csr demo_rdma = 5" "rd_qps_ptr demo_rdma = 6"
  "rd_axil_ctl demo_rdma = 0x10000000" "rd_num_qp demo_rdma = 4" "rd_winSize demo_rdma = 2"
  by (simp_all add: demo_rdma_def)

lemma demo_rdma_world_simps [simp]:
  "hist demo_rdma_world = []" "next_ptr demo_rdma_world = 7" "\<not> g_debug demo_rdma_world"
  "heap demo_rdma_world 1 = Some (O_rn_dev demo_rn)"
  "heap demo_rdma_world (Suc 0) = Some (O_rn_dev demo_rn)"
  "heap demo_rdma_world 2 = Some (O_win_size \<lparr>win_size_lsb = 0xffffffff, win_size_msb = 0xff\<rparr>)"
  "heap demo_rdma_world 3 = heap demo_world 3"
  "heap demo_rdma_world 4 = Some (O_rdma_dev demo_rdma)"
  "heap demo_rdma_world 5 = Some (O_glb_csr (junk_glb_csr idle_env))"
  "heap demo_rdma_world 6 = Some (O_qp_table [NULL, NULL, NULL, NULL])"
  "heap demo_rdma_world 7 = None" "heap demo_rdma_world 0 = None"
  by (simp_all add: demo_rdma_world_def demo_world_def)

lemma demo_rdma_world_ok: "world_ok demo_rdma_world"
  by (auto simp: world_ok_def demo_rdma_world_def demo_world_def)

text \<open>The same with a protection domain at 7 and a MAC address at 8.\<close>

definition demo_pd_world :: world where
  "demo_pd_world = demo_rdma_world\<lparr>next_ptr := 9, heap := (heap demo_rdma_world)(
     7 \<mapsto> O_pd ((junk_pd idle_env)\<lparr>pd_pd_access_type := 2\<rparr>),
     8 \<mapsto> O_mac \<lparr>mac_lsb = 0x35123457, mac_msb = 0x000a\<rparr>)\<rparr>"

lemma demo_pd_world_simps [simp]:
  "hist demo_pd_world = []" "next_ptr demo_pd_world = 9" "\<not> g_debug demo_pd_world"
  "heap demo_pd_world 1 = Some (O_rn_dev demo_rn)"
  "heap demo_pd_world (Suc 0) = Some (O_rn_dev demo_rn)"
  "heap demo_pd_world 2 = Some (O_win_size \<lparr>win_size_lsb = 0xffffffff, win_size_msb = 0xff\<rparr>)"
  "heap demo_pd_world 3 = heap demo_world 3"
  "heap demo_pd_world 4 = Some (O_rdma_dev demo_rdma)"
  "heap demo_pd_world 5 = Some (O_glb_csr (junk_glb_csr idle_env))"
  "heap demo_pd_world 6 = Some (O_qp_table [NULL, NULL, NULL, NULL])"
  "heap demo_pd_world 7 = Some (O_pd ((junk_pd idle_env)\<lparr>pd_pd_access_type := 2\<rparr>))"
  "heap demo_pd_world 8 = Some (O_mac \<lparr>mac_lsb = 0x35123457, mac_msb = 0x000a\<rparr>)"
  by (simp_all add: demo_pd_world_def)

lemma demo_pd_world_ok: "world_ok demo_pd_world"
  by (auto simp: world_ok_def demo_pd_world_def demo_rdma_world_def demo_world_def)

text \<open>The same with queue pair 2 at 9 and its three buffers at 10, 11 and 12.\<close>

definition demo_qp :: rdma_qp_t where
  "demo_qp = (junk_qp idle_env)\<lparr>qp_rdma_dev := 4, qp_qpid := 2, qp_sq := 10, qp_cq := 11, qp_rq := 12,
     qp_pd_entry := 7, qp_qdepth := 64, qp_dst_mac := 8\<rparr>"

definition demo_sq :: rdma_buff_t where
  "demo_sq = \<lparr>buf_buffer = 0x7f0000001000, buf_dma_addr = 0x12345679000, buf_buf_size = 4096\<rparr>"

definition demo_rq :: rdma_buff_t where
  "demo_rq = \<lparr>buf_buffer = 0x7f0000010000, buf_dma_addr = 0x12345688000, buf_buf_size = 32768\<rparr>"

definition demo_qp_world :: world where
  "demo_qp_world = demo_pd_world\<lparr>next_ptr := 13, heap := (heap demo_pd_world)(
     6 \<mapsto> O_qp_table [NULL, NULL, 9, NULL], 9 \<mapsto> O_qp demo_qp, 10 \<mapsto> O_rdma_buff demo_sq,
     11 \<mapsto> O_rdma_buff demo_sq, 12 \<mapsto> O_rdma_buff demo_rq)\<rparr>"

lemma demo_qp_simps [simp]:
  "qp_rdma_dev demo_qp = 4" "qp_qpid demo_qp = 2" "qp_sq demo_qp = 10" "qp_cq demo_qp = 11"
  "qp_rq demo_qp = 12" "qp_pd_entry demo_qp = 7" "qp_qdepth demo_qp = 64" "qp_sq_pidb demo_qp = 0"
  "qp_sq_cidb demo_qp = 0" "qp_cq_cidb demo_qp = 0" "qp_rq_cidb demo_qp = 0" "qp_rq_pidb demo_qp = 0"
  "buf_buffer demo_sq = 0x7f0000001000" "buf_dma_addr demo_sq = 0x12345679000"
  "buf_buffer demo_rq = 0x7f0000010000" "buf_buf_size demo_rq = 32768"
  by (simp_all add: demo_qp_def demo_sq_def demo_rq_def idle_env_def)

lemma demo_qp_world_simps [simp]:
  "hist demo_qp_world = []" "next_ptr demo_qp_world = 13" "\<not> g_debug demo_qp_world"
  "heap demo_qp_world 2 = Some (O_win_size \<lparr>win_size_lsb = 0xffffffff, win_size_msb = 0xff\<rparr>)"
  "heap demo_qp_world 4 = Some (O_rdma_dev demo_rdma)"
  "heap demo_qp_world 5 = Some (O_glb_csr (junk_glb_csr idle_env))"
  "heap demo_qp_world 6 = Some (O_qp_table [NULL, NULL, 9, NULL])"
  "heap demo_qp_world 7 = Some (O_pd ((junk_pd idle_env)\<lparr>pd_pd_access_type := 2\<rparr>))"
  "heap demo_qp_world 9 = Some (O_qp demo_qp)" "heap demo_qp_world 10 = Some (O_rdma_buff demo_sq)"
  "heap demo_qp_world 11 = Some (O_rdma_buff demo_sq)" "heap demo_qp_world 12 = Some (O_rdma_buff demo_rq)"
  by (simp_all add: demo_qp_world_def)

lemma demo_qp_world_ok: "world_ok demo_qp_world"
  by (auto simp: world_ok_def demo_qp_world_def demo_pd_world_def demo_rdma_world_def demo_world_def)

end
