(* ===== verification/Reg_Map.thy ===== *)
theory Reg_Map
  imports Prelude
begin

text \<open>
  The register map of \<open>src/lib/reconic_reg.h\<close>: one definition per macro, with its expression.
  Offsets are relative to the PCIe window of \<open>RN_SCR_MAP_SIZE\<close> bytes. The collection \<open>reg_defs\<close>
  unfolds them all. The lemmas show that the offsets of one register bank fit the stride of the
  bank and are word aligned and pairwise distinct, which the address functions of the RDMA
  component rely on.
\<close>

named_theorems reg_defs \<open>the register map, unfolded to numbers\<close>

definition AXI_BAR_SIZE :: u64 where [reg_defs]:
  "AXI_BAR_SIZE = 0x000000ffffffffff"

definition ADDR_MASK :: u32 where [reg_defs]:
  "ADDR_MASK = 0xffffffff"

definition RN_PC_BASE_ADDRESS :: u32 where [reg_defs]:
  "RN_PC_BASE_ADDRESS = 0x100000"

definition RN_SCR_OFFSET :: u32 where [reg_defs]:
  "RN_SCR_OFFSET = 0x2000"

definition RN_CLR_OFFSET :: u32 where [reg_defs]:
  "RN_CLR_OFFSET = 0x3000"

definition RN_SCR_MAP_SIZE :: u32 where [reg_defs]:
  "RN_SCR_MAP_SIZE = 0x00400000"

definition TIMEOUT_THRESHOLD :: u32 where [reg_defs]:
  "TIMEOUT_THRESHOLD = 1000"

definition RN_SCR_VERSION :: u32 where [reg_defs]:
  "RN_SCR_VERSION = RN_PC_BASE_ADDRESS + RN_SCR_OFFSET + 0x0"

definition RN_SCR_FATAL_ERR :: u32 where [reg_defs]:
  "RN_SCR_FATAL_ERR = RN_PC_BASE_ADDRESS + RN_SCR_OFFSET + 0x4"

definition RN_SCR_TRMHR_REG :: u32 where [reg_defs]:
  "RN_SCR_TRMHR_REG = RN_PC_BASE_ADDRESS + RN_SCR_OFFSET + 0x8"

definition RN_SCR_TRMLR_REG :: u32 where [reg_defs]:
  "RN_SCR_TRMLR_REG = RN_PC_BASE_ADDRESS + RN_SCR_OFFSET + 0xc"

definition RN_SCR_TRRMHR_REG :: u32 where [reg_defs]:
  "RN_SCR_TRRMHR_REG = RN_PC_BASE_ADDRESS + RN_SCR_OFFSET + 0x10"

definition RN_SCR_TRRMLR_REG :: u32 where [reg_defs]:
  "RN_SCR_TRRMLR_REG = RN_PC_BASE_ADDRESS + RN_SCR_OFFSET + 0x14"

definition RN_SCR_TEMPLATE_REG :: u32 where [reg_defs]:
  "RN_SCR_TEMPLATE_REG = RN_PC_BASE_ADDRESS + RN_SCR_OFFSET + 0x200"

definition RN_CLR_CTL_CMD :: u32 where [reg_defs]:
  "RN_CLR_CTL_CMD = RN_PC_BASE_ADDRESS + RN_CLR_OFFSET + 0x0"

definition RN_CLR_KER_STS :: u32 where [reg_defs]:
  "RN_CLR_KER_STS = RN_PC_BASE_ADDRESS + RN_CLR_OFFSET + 0x4"

definition RN_CLR_JOB_SUBMITTED :: u32 where [reg_defs]:
  "RN_CLR_JOB_SUBMITTED = RN_PC_BASE_ADDRESS + RN_CLR_OFFSET + 0x8"

definition RN_CLR_JOB_COMPLETED_NOT_READ :: u32 where [reg_defs]:
  "RN_CLR_JOB_COMPLETED_NOT_READ = RN_PC_BASE_ADDRESS + RN_CLR_OFFSET + 0xc"

definition RN_CLR_TEMPLATE :: u32 where [reg_defs]:
  "RN_CLR_TEMPLATE = RN_PC_BASE_ADDRESS + RN_CLR_OFFSET + 0x200"

definition RN_RDMA_BASE_ADDRESS :: u32 where [reg_defs]:
  "RN_RDMA_BASE_ADDRESS = 0x00040000"

definition RN_RDMA_GCSR_XRNICCONF :: u32 where [reg_defs]:
  "RN_RDMA_GCSR_XRNICCONF = RN_RDMA_BASE_ADDRESS + 0x00020000"

definition RN_RDMA_GCSR_XRNICADCONF :: u32 where [reg_defs]:
  "RN_RDMA_GCSR_XRNICADCONF = RN_RDMA_BASE_ADDRESS + 0x00020004"

definition RN_RDMA_GCSR_MACXADDLSB :: u32 where [reg_defs]:
  "RN_RDMA_GCSR_MACXADDLSB = RN_RDMA_BASE_ADDRESS + 0x00020010"

definition RN_RDMA_GCSR_MACXADDMSB :: u32 where [reg_defs]:
  "RN_RDMA_GCSR_MACXADDMSB = RN_RDMA_BASE_ADDRESS + 0x00020014"

definition RN_RDMA_GCSR_IPV6XADD1 :: u32 where [reg_defs]:
  "RN_RDMA_GCSR_IPV6XADD1 = RN_RDMA_BASE_ADDRESS + 0x00020020"

definition RN_RDMA_GCSR_IPV6XADD2 :: u32 where [reg_defs]:
  "RN_RDMA_GCSR_IPV6XADD2 = RN_RDMA_BASE_ADDRESS + 0x00020024"

definition RN_RDMA_GCSR_IPV6XADD3 :: u32 where [reg_defs]:
  "RN_RDMA_GCSR_IPV6XADD3 = RN_RDMA_BASE_ADDRESS + 0x00020028"

definition RN_RDMA_GCSR_IPV6XADD4 :: u32 where [reg_defs]:
  "RN_RDMA_GCSR_IPV6XADD4 = RN_RDMA_BASE_ADDRESS + 0x0002002c"

definition RN_RDMA_GCSR_IPV4XADD :: u32 where [reg_defs]:
  "RN_RDMA_GCSR_IPV4XADD = RN_RDMA_BASE_ADDRESS + 0x00020070"

definition RN_RDMA_GCSR_ERRBUFBA :: u32 where [reg_defs]:
  "RN_RDMA_GCSR_ERRBUFBA = RN_RDMA_BASE_ADDRESS + 0x00020060"

definition RN_RDMA_GCSR_ERRBUFBAMSB :: u32 where [reg_defs]:
  "RN_RDMA_GCSR_ERRBUFBAMSB = RN_RDMA_BASE_ADDRESS + 0x00020064"

definition RN_RDMA_GCSR_ERRBUFSZ :: u32 where [reg_defs]:
  "RN_RDMA_GCSR_ERRBUFSZ = RN_RDMA_BASE_ADDRESS + 0x00020068"

definition RN_RDMA_GCSR_ERRBUFWPTR :: u32 where [reg_defs]:
  "RN_RDMA_GCSR_ERRBUFWPTR = RN_RDMA_BASE_ADDRESS + 0x0002006c"

definition RN_RDMA_GCSR_IPKTERRQBA :: u32 where [reg_defs]:
  "RN_RDMA_GCSR_IPKTERRQBA = RN_RDMA_BASE_ADDRESS + 0x00020088"

definition RN_RDMA_GCSR_IPKTERRQBAMSB :: u32 where [reg_defs]:
  "RN_RDMA_GCSR_IPKTERRQBAMSB = RN_RDMA_BASE_ADDRESS + 0x0002008c"

definition RN_RDMA_GCSR_IPKTERRQSZ :: u32 where [reg_defs]:
  "RN_RDMA_GCSR_IPKTERRQSZ = RN_RDMA_BASE_ADDRESS + 0x00020090"

definition RN_RDMA_GCSR_IPKTERRQWPTR :: u32 where [reg_defs]:
  "RN_RDMA_GCSR_IPKTERRQWPTR = RN_RDMA_BASE_ADDRESS + 0x00020094"

definition RN_RDMA_GCSR_DATBUFBA :: u32 where [reg_defs]:
  "RN_RDMA_GCSR_DATBUFBA = RN_RDMA_BASE_ADDRESS + 0x000200a0"

definition RN_RDMA_GCSR_DATBUFBAMSB :: u32 where [reg_defs]:
  "RN_RDMA_GCSR_DATBUFBAMSB = RN_RDMA_BASE_ADDRESS + 0x000200a4"

definition RN_RDMA_GCSR_DATBUFSZ :: u32 where [reg_defs]:
  "RN_RDMA_GCSR_DATBUFSZ = RN_RDMA_BASE_ADDRESS + 0x000200a8"

definition RN_RDMA_GCSR_INSRRPKTCNT :: u32 where [reg_defs]:
  "RN_RDMA_GCSR_INSRRPKTCNT = RN_RDMA_BASE_ADDRESS + 0x00020100"

definition RN_RDMA_GCSR_INAMPKTCNT :: u32 where [reg_defs]:
  "RN_RDMA_GCSR_INAMPKTCNT = RN_RDMA_BASE_ADDRESS + 0x00020104"

definition RN_RDMA_GCSR_OUTIOPKTCNT :: u32 where [reg_defs]:
  "RN_RDMA_GCSR_OUTIOPKTCNT = RN_RDMA_BASE_ADDRESS + 0x00020108"

definition RN_RDMA_GCSR_LSTINPKT :: u32 where [reg_defs]:
  "RN_RDMA_GCSR_LSTINPKT = RN_RDMA_BASE_ADDRESS + 0x00020110"

definition RN_RDMA_GCSR_LSTOUTPKT :: u32 where [reg_defs]:
  "RN_RDMA_GCSR_LSTOUTPKT = RN_RDMA_BASE_ADDRESS + 0x00020114"

definition RN_RDMA_GCSR_ININVDUPCNT :: u32 where [reg_defs]:
  "RN_RDMA_GCSR_ININVDUPCNT = RN_RDMA_BASE_ADDRESS + 0x00020118"

definition RN_RDMA_GCSR_INNCKPKTSTS :: u32 where [reg_defs]:
  "RN_RDMA_GCSR_INNCKPKTSTS = RN_RDMA_BASE_ADDRESS + 0x0002011c"

definition RN_RDMA_GCSR_OUTRNRPKTSTS :: u32 where [reg_defs]:
  "RN_RDMA_GCSR_OUTRNRPKTSTS = RN_RDMA_BASE_ADDRESS + 0x00020120"

definition RN_RDMA_GCSR_WQEPROCSTS :: u32 where [reg_defs]:
  "RN_RDMA_GCSR_WQEPROCSTS = RN_RDMA_BASE_ADDRESS + 0x00020124"

definition RN_RDMA_GCSR_QPMSTS :: u32 where [reg_defs]:
  "RN_RDMA_GCSR_QPMSTS = RN_RDMA_BASE_ADDRESS + 0x0002012c"

definition RN_RDMA_GCSR_INTEN :: u32 where [reg_defs]:
  "RN_RDMA_GCSR_INTEN = RN_RDMA_BASE_ADDRESS + 0x00020180"

definition RN_RDMA_GCSR_OUTAMPKTCNT :: u32 where [reg_defs]:
  "RN_RDMA_GCSR_OUTAMPKTCNT = RN_RDMA_BASE_ADDRESS + 0x0002010c"

definition RN_RDMA_GCSR_INALLDRPPKTCNT :: u32 where [reg_defs]:
  "RN_RDMA_GCSR_INALLDRPPKTCNT = RN_RDMA_BASE_ADDRESS + 0x00020130"

definition RN_RDMA_GCSR_INNAKPKTCNT :: u32 where [reg_defs]:
  "RN_RDMA_GCSR_INNAKPKTCNT = RN_RDMA_BASE_ADDRESS + 0x00020134"

definition RN_RDMA_GCSR_OUTNAKPKTCNT :: u32 where [reg_defs]:
  "RN_RDMA_GCSR_OUTNAKPKTCNT = RN_RDMA_BASE_ADDRESS + 0x00020138"

definition RN_RDMA_GCSR_RESPHNDSTS :: u32 where [reg_defs]:
  "RN_RDMA_GCSR_RESPHNDSTS = RN_RDMA_BASE_ADDRESS + 0x0002013c"

definition RN_RDMA_GCSR_RETRYCNTSTS :: u32 where [reg_defs]:
  "RN_RDMA_GCSR_RETRYCNTSTS = RN_RDMA_BASE_ADDRESS + 0x00020140"

definition RN_RDMA_GCSR_INCNPPKTCNT :: u32 where [reg_defs]:
  "RN_RDMA_GCSR_INCNPPKTCNT = RN_RDMA_BASE_ADDRESS + 0x00020174"

definition RN_RDMA_GCSR_OUTCNPPKTCNT :: u32 where [reg_defs]:
  "RN_RDMA_GCSR_OUTCNPPKTCNT = RN_RDMA_BASE_ADDRESS + 0x00020178"

definition RN_RDMA_GCSR_OUTRDRSPPKTCNT :: u32 where [reg_defs]:
  "RN_RDMA_GCSR_OUTRDRSPPKTCNT = RN_RDMA_BASE_ADDRESS + 0x0002017c"

definition RN_RDMA_GCSR_INTSTS :: u32 where [reg_defs]:
  "RN_RDMA_GCSR_INTSTS = RN_RDMA_BASE_ADDRESS + 0x00020184"

definition RN_RDMA_GCSR_RQINTSTS1 :: u32 where [reg_defs]:
  "RN_RDMA_GCSR_RQINTSTS1 = RN_RDMA_BASE_ADDRESS + 0x00020190"

definition RN_RDMA_GCSR_RQINTSTS2 :: u32 where [reg_defs]:
  "RN_RDMA_GCSR_RQINTSTS2 = RN_RDMA_BASE_ADDRESS + 0x00020194"

definition RN_RDMA_GCSR_RQINTSTS3 :: u32 where [reg_defs]:
  "RN_RDMA_GCSR_RQINTSTS3 = RN_RDMA_BASE_ADDRESS + 0x00020198"

definition RN_RDMA_GCSR_RQINTSTS4 :: u32 where [reg_defs]:
  "RN_RDMA_GCSR_RQINTSTS4 = RN_RDMA_BASE_ADDRESS + 0x0002019c"

definition RN_RDMA_GCSR_RQINTSTS5 :: u32 where [reg_defs]:
  "RN_RDMA_GCSR_RQINTSTS5 = RN_RDMA_BASE_ADDRESS + 0x000201a0"

definition RN_RDMA_GCSR_RQINTSTS6 :: u32 where [reg_defs]:
  "RN_RDMA_GCSR_RQINTSTS6 = RN_RDMA_BASE_ADDRESS + 0x000201a4"

definition RN_RDMA_GCSR_RQINTSTS7 :: u32 where [reg_defs]:
  "RN_RDMA_GCSR_RQINTSTS7 = RN_RDMA_BASE_ADDRESS + 0x000201a8"

definition RN_RDMA_GCSR_RQINTSTS8 :: u32 where [reg_defs]:
  "RN_RDMA_GCSR_RQINTSTS8 = RN_RDMA_BASE_ADDRESS + 0x000201ac"

definition RN_RDMA_GCSR_CQINTSTS1 :: u32 where [reg_defs]:
  "RN_RDMA_GCSR_CQINTSTS1 = RN_RDMA_BASE_ADDRESS + 0x000201b0"

definition RN_RDMA_GCSR_CQINTSTS2 :: u32 where [reg_defs]:
  "RN_RDMA_GCSR_CQINTSTS2 = RN_RDMA_BASE_ADDRESS + 0x000201b4"

definition RN_RDMA_GCSR_CQINTSTS3 :: u32 where [reg_defs]:
  "RN_RDMA_GCSR_CQINTSTS3 = RN_RDMA_BASE_ADDRESS + 0x000201b8"

definition RN_RDMA_GCSR_CQINTSTS4 :: u32 where [reg_defs]:
  "RN_RDMA_GCSR_CQINTSTS4 = RN_RDMA_BASE_ADDRESS + 0x000201bc"

definition RN_RDMA_GCSR_CQINTSTS5 :: u32 where [reg_defs]:
  "RN_RDMA_GCSR_CQINTSTS5 = RN_RDMA_BASE_ADDRESS + 0x000201c0"

definition RN_RDMA_GCSR_CQINTSTS6 :: u32 where [reg_defs]:
  "RN_RDMA_GCSR_CQINTSTS6 = RN_RDMA_BASE_ADDRESS + 0x000201c4"

definition RN_RDMA_GCSR_CQINTSTS7 :: u32 where [reg_defs]:
  "RN_RDMA_GCSR_CQINTSTS7 = RN_RDMA_BASE_ADDRESS + 0x000201c8"

definition RN_RDMA_GCSR_CQINTSTS8 :: u32 where [reg_defs]:
  "RN_RDMA_GCSR_CQINTSTS8 = RN_RDMA_BASE_ADDRESS + 0x000201cc"

definition RN_RDMA_GCSR_RESPERRPKTBA :: u32 where [reg_defs]:
  "RN_RDMA_GCSR_RESPERRPKTBA = RN_RDMA_BASE_ADDRESS + 0x000200b0"

definition RN_RDMA_GCSR_RESPERRPKTBAMSB :: u32 where [reg_defs]:
  "RN_RDMA_GCSR_RESPERRPKTBAMSB = RN_RDMA_BASE_ADDRESS + 0x000200b4"

definition RN_RDMA_GCSR_RESPERRSZ :: u32 where [reg_defs]:
  "RN_RDMA_GCSR_RESPERRSZ = RN_RDMA_BASE_ADDRESS + 0x000200b8"

definition RN_RDMA_GCSR_RESPERRSZMSB :: u32 where [reg_defs]:
  "RN_RDMA_GCSR_RESPERRSZMSB = RN_RDMA_BASE_ADDRESS + 0x000200bc"

definition RN_RDMA_GCSR_STATCURSQPTRi :: u32 where [reg_defs]:
  "RN_RDMA_GCSR_STATCURSQPTRi = RN_RDMA_BASE_ADDRESS + 0x0002028c"

definition RN_RDMA_GCSR_STATMSN :: u32 where [reg_defs]:
  "RN_RDMA_GCSR_STATMSN = RN_RDMA_BASE_ADDRESS + 0x00020284"

definition RN_RDMA_PDT_PDPDNUM :: u32 where [reg_defs]:
  "RN_RDMA_PDT_PDPDNUM = RN_RDMA_BASE_ADDRESS + 0x00000000"

definition RN_RDMA_PDT_VIRTADDRLSB :: u32 where [reg_defs]:
  "RN_RDMA_PDT_VIRTADDRLSB = RN_RDMA_BASE_ADDRESS + 0x00000004"

definition RN_RDMA_PDT_VIRTADDRMSB :: u32 where [reg_defs]:
  "RN_RDMA_PDT_VIRTADDRMSB = RN_RDMA_BASE_ADDRESS + 0x00000008"

definition RN_RDMA_PDT_BUFBASEADDRLSB :: u32 where [reg_defs]:
  "RN_RDMA_PDT_BUFBASEADDRLSB = RN_RDMA_BASE_ADDRESS + 0x0000000c"

definition RN_RDMA_PDT_BUFBASEADDRMSB :: u32 where [reg_defs]:
  "RN_RDMA_PDT_BUFBASEADDRMSB = RN_RDMA_BASE_ADDRESS + 0x00000010"

definition RN_RDMA_PDT_BUFRKEY :: u32 where [reg_defs]:
  "RN_RDMA_PDT_BUFRKEY = RN_RDMA_BASE_ADDRESS + 0x00000014"

definition RN_RDMA_PDT_WRRDBUFLEN :: u32 where [reg_defs]:
  "RN_RDMA_PDT_WRRDBUFLEN = RN_RDMA_BASE_ADDRESS + 0x00000018"

definition RN_RDMA_PDT_ACCESSDESC :: u32 where [reg_defs]:
  "RN_RDMA_PDT_ACCESSDESC = RN_RDMA_BASE_ADDRESS + 0x0000001c"

definition RN_RDMA_QCSR_QPCONFi :: u32 where [reg_defs]:
  "RN_RDMA_QCSR_QPCONFi = RN_RDMA_BASE_ADDRESS + 0x00020200"

definition RN_RDMA_QCSR_QPADVCONFi :: u32 where [reg_defs]:
  "RN_RDMA_QCSR_QPADVCONFi = RN_RDMA_BASE_ADDRESS + 0x00020204"

definition RN_RDMA_QCSR_RQBAi :: u32 where [reg_defs]:
  "RN_RDMA_QCSR_RQBAi = RN_RDMA_BASE_ADDRESS + 0x00020208"

definition RN_RDMA_QCSR_RQBAMSBi :: u32 where [reg_defs]:
  "RN_RDMA_QCSR_RQBAMSBi = RN_RDMA_BASE_ADDRESS + 0x000202c0"

definition RN_RDMA_QCSR_SQBAi :: u32 where [reg_defs]:
  "RN_RDMA_QCSR_SQBAi = RN_RDMA_BASE_ADDRESS + 0x00020210"

definition RN_RDMA_QCSR_SQBAMSBi :: u32 where [reg_defs]:
  "RN_RDMA_QCSR_SQBAMSBi = RN_RDMA_BASE_ADDRESS + 0x000202c8"

definition RN_RDMA_QCSR_CQBAi :: u32 where [reg_defs]:
  "RN_RDMA_QCSR_CQBAi = RN_RDMA_BASE_ADDRESS + 0x00020218"

definition RN_RDMA_QCSR_CQBAMSBi :: u32 where [reg_defs]:
  "RN_RDMA_QCSR_CQBAMSBi = RN_RDMA_BASE_ADDRESS + 0x000202d0"

definition RN_RDMA_QCSR_RQWPTRDBADDi :: u32 where [reg_defs]:
  "RN_RDMA_QCSR_RQWPTRDBADDi = RN_RDMA_BASE_ADDRESS + 0x00020220"

definition RN_RDMA_QCSR_RQWPTRDBADDMSBi :: u32 where [reg_defs]:
  "RN_RDMA_QCSR_RQWPTRDBADDMSBi = RN_RDMA_BASE_ADDRESS + 0x00020224"

definition RN_RDMA_QCSR_CQDBADDi :: u32 where [reg_defs]:
  "RN_RDMA_QCSR_CQDBADDi = RN_RDMA_BASE_ADDRESS + 0x00020228"

definition RN_RDMA_QCSR_CQDBADDMSBi :: u32 where [reg_defs]:
  "RN_RDMA_QCSR_CQDBADDMSBi = RN_RDMA_BASE_ADDRESS + 0x0002022c"

definition RN_RDMA_QCSR_CQHEADi :: u32 where [reg_defs]:
  "RN_RDMA_QCSR_CQHEADi = RN_RDMA_BASE_ADDRESS + 0x00020230"

definition RN_RDMA_QCSR_RQCIi :: u32 where [reg_defs]:
  "RN_RDMA_QCSR_RQCIi = RN_RDMA_BASE_ADDRESS + 0x00020234"

definition RN_RDMA_QCSR_SQPIi :: u32 where [reg_defs]:
  "RN_RDMA_QCSR_SQPIi = RN_RDMA_BASE_ADDRESS + 0x00020238"

definition RN_RDMA_QCSR_QDEPTHi :: u32 where [reg_defs]:
  "RN_RDMA_QCSR_QDEPTHi = RN_RDMA_BASE_ADDRESS + 0x0002023c"

definition RN_RDMA_QCSR_SQPSNi :: u32 where [reg_defs]:
  "RN_RDMA_QCSR_SQPSNi = RN_RDMA_BASE_ADDRESS + 0x00020240"

definition RN_RDMA_QCSR_LSTRQREQi :: u32 where [reg_defs]:
  "RN_RDMA_QCSR_LSTRQREQi = RN_RDMA_BASE_ADDRESS + 0x00020244"

definition RN_RDMA_QCSR_DESTQPCONFi :: u32 where [reg_defs]:
  "RN_RDMA_QCSR_DESTQPCONFi = RN_RDMA_BASE_ADDRESS + 0x00020248"

definition RN_RDMA_QCSR_MACDESADDLSBi :: u32 where [reg_defs]:
  "RN_RDMA_QCSR_MACDESADDLSBi = RN_RDMA_BASE_ADDRESS + 0x00020250"

definition RN_RDMA_QCSR_MACDESADDMSBi :: u32 where [reg_defs]:
  "RN_RDMA_QCSR_MACDESADDMSBi = RN_RDMA_BASE_ADDRESS + 0x00020254"

definition RN_RDMA_QCSR_IPDESADDR1i :: u32 where [reg_defs]:
  "RN_RDMA_QCSR_IPDESADDR1i = RN_RDMA_BASE_ADDRESS + 0x00020260"

definition RN_RDMA_QCSR_IPDESADDR2i :: u32 where [reg_defs]:
  "RN_RDMA_QCSR_IPDESADDR2i = RN_RDMA_BASE_ADDRESS + 0x00020264"

definition RN_RDMA_QCSR_IPDESADDR3i :: u32 where [reg_defs]:
  "RN_RDMA_QCSR_IPDESADDR3i = RN_RDMA_BASE_ADDRESS + 0x00020268"

definition RN_RDMA_QCSR_IPDESADDR4i :: u32 where [reg_defs]:
  "RN_RDMA_QCSR_IPDESADDR4i = RN_RDMA_BASE_ADDRESS + 0x0002026c"

definition RN_RDMA_QCSR_STATSSNi :: u32 where [reg_defs]:
  "RN_RDMA_QCSR_STATSSNi = RN_RDMA_BASE_ADDRESS + 0x00020280"

definition RN_RDMA_QCSR_STATMSNi :: u32 where [reg_defs]:
  "RN_RDMA_QCSR_STATMSNi = RN_RDMA_BASE_ADDRESS + 0x00020284"

definition RN_RDMA_QCSR_STATQPi :: u32 where [reg_defs]:
  "RN_RDMA_QCSR_STATQPi = RN_RDMA_BASE_ADDRESS + 0x00020288"

definition RN_RDMA_QCSR_STATCURSQPTRi :: u32 where [reg_defs]:
  "RN_RDMA_QCSR_STATCURSQPTRi = RN_RDMA_BASE_ADDRESS + 0x0002028c"

definition RN_RDMA_QCSR_STATRESPSNi :: u32 where [reg_defs]:
  "RN_RDMA_QCSR_STATRESPSNi = RN_RDMA_BASE_ADDRESS + 0x00020290"

definition RN_RDMA_QCSR_STATRQBUFCAi :: u32 where [reg_defs]:
  "RN_RDMA_QCSR_STATRQBUFCAi = RN_RDMA_BASE_ADDRESS + 0x00020294"

definition RN_RDMA_QCSR_STATWQEi :: u32 where [reg_defs]:
  "RN_RDMA_QCSR_STATWQEi = RN_RDMA_BASE_ADDRESS + 0x00020298"

definition RN_RDMA_QCSR_STATRQPIDBi :: u32 where [reg_defs]:
  "RN_RDMA_QCSR_STATRQPIDBi = RN_RDMA_BASE_ADDRESS + 0x0002029c"

definition RN_RDMA_QCSR_PDi :: u32 where [reg_defs]:
  "RN_RDMA_QCSR_PDi = RN_RDMA_BASE_ADDRESS + 0x000202b0"

definition RN_RDMA_QCSR_STATRQBUFCAMSBi :: u32 where [reg_defs]:
  "RN_RDMA_QCSR_STATRQBUFCAMSBi = RN_RDMA_BASE_ADDRESS + 0x000202d8"

definition RNIC_OP_WRITE :: u32 where [reg_defs]:
  "RNIC_OP_WRITE = 0"

definition RNIC_OP_WRITE_IMMDT :: u32 where [reg_defs]:
  "RNIC_OP_WRITE_IMMDT = 1"

definition RNIC_OP_SEND :: u32 where [reg_defs]:
  "RNIC_OP_SEND = 2"

definition RNIC_OP_SEND_IMMDT :: u32 where [reg_defs]:
  "RNIC_OP_SEND_IMMDT = 3"

definition RNIC_OP_READ :: u32 where [reg_defs]:
  "RNIC_OP_READ = 4"

definition RNIC_OP_SEND_INV :: u32 where [reg_defs]:
  "RNIC_OP_SEND_INV = 12"

definition RN_QDMA_CSR_BASE_ADDRESS :: u32 where [reg_defs]:
  "RN_QDMA_CSR_BASE_ADDRESS = 0x00014000"

definition AXIB_BDF_ADDR_TRANSLATE_ADDR_LSB :: u32 where [reg_defs]:
  "AXIB_BDF_ADDR_TRANSLATE_ADDR_LSB = RN_QDMA_CSR_BASE_ADDRESS + 0x00002420"

definition AXIB_BDF_ADDR_TRANSLATE_ADDR_MSB :: u32 where [reg_defs]:
  "AXIB_BDF_ADDR_TRANSLATE_ADDR_MSB = RN_QDMA_CSR_BASE_ADDRESS + 0x00002424"

definition AXIB_BDF_PASID_RESERVED_ADDR :: u32 where [reg_defs]:
  "AXIB_BDF_PASID_RESERVED_ADDR = RN_QDMA_CSR_BASE_ADDRESS + 0x00002428"

definition AXIB_BDF_FUNCTION_NUM_ADDR :: u32 where [reg_defs]:
  "AXIB_BDF_FUNCTION_NUM_ADDR = RN_QDMA_CSR_BASE_ADDRESS + 0x0000242c"

definition AXIB_BDF_MAP_CONTROL_ADDR :: u32 where [reg_defs]:
  "AXIB_BDF_MAP_CONTROL_ADDR = RN_QDMA_CSR_BASE_ADDRESS + 0x00002430"

definition AXIB_BDF_RESERVED_ADDR :: u32 where [reg_defs]:
  "AXIB_BDF_RESERVED_ADDR = RN_QDMA_CSR_BASE_ADDRESS + 0x00002434"

definition AXIB_BDF_MAP_CONTROL :: u32 where [reg_defs]:
  "AXIB_BDF_MAP_CONTROL = 0xc1000000"

text \<open>The per-queue registers, in the order of the header.\<close>

definition QCSR_REGS :: "u32 list" where
  "QCSR_REGS = [
    RN_RDMA_QCSR_QPCONFi, RN_RDMA_QCSR_QPADVCONFi, RN_RDMA_QCSR_RQBAi,
    RN_RDMA_QCSR_RQBAMSBi, RN_RDMA_QCSR_SQBAi, RN_RDMA_QCSR_SQBAMSBi,
    RN_RDMA_QCSR_CQBAi, RN_RDMA_QCSR_CQBAMSBi, RN_RDMA_QCSR_RQWPTRDBADDi,
    RN_RDMA_QCSR_RQWPTRDBADDMSBi, RN_RDMA_QCSR_CQDBADDi, RN_RDMA_QCSR_CQDBADDMSBi,
    RN_RDMA_QCSR_CQHEADi, RN_RDMA_QCSR_RQCIi, RN_RDMA_QCSR_SQPIi,
    RN_RDMA_QCSR_QDEPTHi, RN_RDMA_QCSR_SQPSNi, RN_RDMA_QCSR_LSTRQREQi,
    RN_RDMA_QCSR_DESTQPCONFi, RN_RDMA_QCSR_MACDESADDLSBi, RN_RDMA_QCSR_MACDESADDMSBi,
    RN_RDMA_QCSR_IPDESADDR1i, RN_RDMA_QCSR_IPDESADDR2i, RN_RDMA_QCSR_IPDESADDR3i,
    RN_RDMA_QCSR_IPDESADDR4i, RN_RDMA_QCSR_STATSSNi, RN_RDMA_QCSR_STATMSNi,
    RN_RDMA_QCSR_STATQPi, RN_RDMA_QCSR_STATCURSQPTRi, RN_RDMA_QCSR_STATRESPSNi,
    RN_RDMA_QCSR_STATRQBUFCAi, RN_RDMA_QCSR_STATWQEi, RN_RDMA_QCSR_STATRQPIDBi,
    RN_RDMA_QCSR_PDi, RN_RDMA_QCSR_STATRQBUFCAMSBi]"

text \<open>The registers of a protection domain entry.\<close>

definition PDT_REGS :: "u32 list" where
  "PDT_REGS = [
    RN_RDMA_PDT_PDPDNUM, RN_RDMA_PDT_VIRTADDRLSB, RN_RDMA_PDT_VIRTADDRMSB,
    RN_RDMA_PDT_BUFBASEADDRLSB, RN_RDMA_PDT_BUFBASEADDRMSB, RN_RDMA_PDT_BUFRKEY,
    RN_RDMA_PDT_WRRDBUFLEN, RN_RDMA_PDT_ACCESSDESC]"

subsection \<open>Shape of the banks\<close>

text \<open>
  A register bank is a list of offsets that are distinct, word aligned and within one stride
  of 256 bytes from the base of the bank.
\<close>

definition bank_ok :: "u32 \<Rightarrow> u32 list \<Rightarrow> bool" where
  "bank_ok base regs \<longleftrightarrow>
     distinct regs \<and> (\<forall>r \<in> set regs. base \<le> r \<and> r - base < 0x100 \<and> r AND 3 = 0)"

lemma QCSR_bank_ok: "bank_ok RN_RDMA_QCSR_QPCONFi QCSR_REGS"
  by (simp add: bank_ok_def QCSR_REGS_def reg_defs)

lemma PDT_bank_ok: "bank_ok RN_RDMA_PDT_PDPDNUM PDT_REGS"
  by (simp add: bank_ok_def PDT_REGS_def reg_defs)

end
