(* ===== verification/Address_Conv.thy ===== *)
theory Address_Conv
  imports World Reg_Map
begin

text \<open>
  The address conversions of \<open>src/lib/reconic.c\<close>: dotted IP addresses and MAC addresses to
  register values, the lookup of the MAC address of an interface, and the test for device
  addresses. Parsing is \<open>sscanf\<close> of the C library, written out for the two formats used. The
  lemmas show that printing followed by parsing is the identity and that the two MAC
  conversions agree.
\<close>

subsection \<open>Constants of \<open>reconic.h\<close>\<close>

definition HOST_MEM :: string where
  "HOST_MEM = ''host_mem''"

definition DEVICE_MEM :: string where
  "DEVICE_MEM = ''dev_mem''"

definition DEVICE_MEM_SIZE :: u64 where
  "DEVICE_MEM_SIZE = 4294967296"

definition DEVICE_MEM_OFFSET :: u64 where
  "DEVICE_MEM_OFFSET = 0xa350000000000000"

definition DEVICE_MEM_MASK :: u64 where
  "DEVICE_MEM_MASK = 0xfff0000000000000"

lemma mem_location_distinct [simp]: "HOST_MEM \<noteq> DEVICE_MEM" "DEVICE_MEM \<noteq> HOST_MEM"
  by (simp_all add: HOST_MEM_def DEVICE_MEM_def)

subsection \<open>\<open>sscanf\<close> with \<open>%hhu\<close> and \<open>%x\<close>\<close>

text \<open>
  A conversion skips white space, takes an optional sign (and \<open>0x\<close> in base 16), then as many
  digits as follow; without a digit it fails. The value is that of \<open>strtoul\<close>: negated modulo
  \<open>2 ^ 64\<close> after a minus, saturated beyond \<open>ULONG_MAX\<close>; the store truncates it. A literal
  character of the format must match the next input character. The first failure ends the scan
  and leaves the remaining arguments as they were.
\<close>

definition is_space :: "char \<Rightarrow> bool" where
  "is_space c = (let n = (of_char c :: nat) in n = 32 \<or> (9 \<le> n \<and> n \<le> 13))"

definition digit_value :: "char \<Rightarrow> nat option" where
  "digit_value c = (let n = (of_char c :: nat) in
     if 48 \<le> n \<and> n \<le> 57 then Some (n - 48)
     else if 97 \<le> n \<and> n \<le> 102 then Some (n - 87)
     else if 65 \<le> n \<and> n \<le> 70 then Some (n - 55)
     else None)"

definition is_digit :: "nat \<Rightarrow> char \<Rightarrow> bool" where
  "is_digit b c = (case digit_value c of None \<Rightarrow> False | Some d \<Rightarrow> d < b)"

definition digits_value :: "nat \<Rightarrow> string \<Rightarrow> nat" where
  "digits_value b = foldl (\<lambda>v c. v * b + the (digit_value c)) 0"

definition strtoul_value :: "nat \<Rightarrow> bool \<Rightarrow> string \<Rightarrow> u64" where
  "strtoul_value b neg ds = (let v = digits_value b ds in
     if 2 ^ 64 \<le> v then - 1 else if neg then - word_of_nat v else word_of_nat v)"

definition scan_sign :: "string \<Rightarrow> bool \<times> string" where
  "scan_sign s = (case s of
       [] \<Rightarrow> (False, s)
     | c # cs \<Rightarrow> if c = CHR ''-'' then (True, cs) else if c = CHR ''+'' then (False, cs) else (False, s))"

definition scan_prefix :: "nat \<Rightarrow> string \<Rightarrow> string" where
  "scan_prefix b s = (if b = 16 \<and> (take 2 s = ''0x'' \<or> take 2 s = ''0X'') then drop 2 s else s)"

definition scan_unsigned :: "nat \<Rightarrow> string \<Rightarrow> (u64 \<times> string) option" where
  "scan_unsigned b s =
     (let (neg, s) = scan_sign (dropWhile is_space s);
          s = scan_prefix b s;
          ds = takeWhile (is_digit b) s
      in if ds = [] then None
         else Some (strtoul_value b neg ds, dropWhile (is_digit b) s))"

fun scan_fields :: "nat \<Rightarrow> char \<Rightarrow> nat \<Rightarrow> string \<Rightarrow> u64 list" where
  "scan_fields b sep 0 s = []"
| "scan_fields b sep (Suc n) s =
     (case scan_unsigned b s of
        None \<Rightarrow> []
      | Some (v, rest) \<Rightarrow> v # (case rest of
            [] \<Rightarrow> []
          | c # rest \<Rightarrow> if c = sep then scan_fields b sep n rest else []))"

text \<open>The array that the fields go to, zero where the scan did not reach.\<close>

definition field :: "u64 list \<Rightarrow> nat \<Rightarrow> 'a::len word" where
  "field vs i = (if i < List.length vs then ucast (vs ! i) else 0)"

subsection \<open>The conversions\<close>

definition convert_ip_addr_to_uint :: "string \<Rightarrow> u32" where
  "convert_ip_addr_to_uint ip_addr =
     (let vs = scan_fields 10 (CHR ''.'') 4 ip_addr;
          ip_char = (\<lambda>i. (field vs i :: u8))
      in push_bit 24 (ucast (ip_char 0)) OR push_bit 16 (ucast (ip_char 1))
         OR push_bit 8 (ucast (ip_char 2)) OR ucast (ip_char 3))"

definition convert_mac_addr_str_to_uint :: "string \<Rightarrow> mac_addr_t" where
  "convert_mac_addr_str_to_uint mac_addr_str =
     (let vs = scan_fields 16 (CHR '':'') 6 mac_addr_str;
          mac_addr_array = (\<lambda>i. (field vs i :: u32));
          mac_addr_msb = (push_bit 8 (mac_addr_array 0) OR mac_addr_array 1) AND 0x0000ffff;
          mac_addr_lsb = (push_bit 24 (mac_addr_array 2) OR push_bit 16 (mac_addr_array 3)
            OR push_bit 8 (mac_addr_array 4) OR mac_addr_array 5) AND 0xffffffff
      in \<lparr>mac_lsb = mac_addr_lsb, mac_msb = mac_addr_msb\<rparr>)"

text \<open>The argument is the array of at least six bytes that \<open>mac_addr_char\<close> points to.\<close>

definition convert_mac_addr_to_uint :: "u8 list \<Rightarrow> mac_addr_t" where
  "convert_mac_addr_to_uint mac_addr_char =
     (let b = (\<lambda>i. (ucast (mac_addr_char ! i) :: u32));
          mac_addr_msb = (push_bit 8 (b 0) OR b 1) AND 0x0000ffff;
          mac_addr_lsb = (push_bit 24 (b 2) OR push_bit 16 (b 3) OR push_bit 8 (b 4) OR b 5)
            AND 0xffffffff
      in \<lparr>mac_lsb = mac_addr_lsb, mac_msb = mac_addr_msb\<rparr>)"

text \<open>
  \<open>get_mac_addr_from_str_ip\<close> walks the interface list of \<open>getifaddrs\<close>. The kernel's answers are
  parameters: the list (\<open>None\<close> when the call fails), whose entries may have no address (the
  \<open>ifa_addr\<close> pointer is NULL then, and the code follows it), the numeric name that \<open>getnameinfo\<close>
  gives (\<open>None\<close> on failure), and the hardware address that \<open>ioctl\<close> gives for a name. The result
  of \<open>ioctl\<close> is not checked by the code.
\<close>

record ifaddrs =
  ifa_name :: string
  ifa_family :: "u16 option"
  ifa_numeric :: "string option"

definition AF_INET :: u16 where
  "AF_INET = 2"

fun find_interface :: "(string \<Rightarrow> u8 list) \<Rightarrow> ifaddrs list \<Rightarrow> string \<Rightarrow> mac_addr_t outcome" where
  "find_interface hwaddr [] ip_str = Exit EXIT_FAILURE"
| "find_interface hwaddr (ifa # ifas) ip_str =
     (case ifa_family ifa of
        None \<Rightarrow> Fault Bad_Pointer
      | Some family \<Rightarrow>
          if family \<noteq> AF_INET then find_interface hwaddr ifas ip_str
          else (case ifa_numeric ifa of
                  None \<Rightarrow> Exit EXIT_FAILURE
                | Some tmp_ip \<Rightarrow>
                    if tmp_ip = ip_str
                    then Ret (convert_mac_addr_to_uint (hwaddr (take 15 (ifa_name ifa))))
                    else find_interface hwaddr ifas ip_str))"

definition get_mac_addr_from_str_ip ::
    "(string \<Rightarrow> u8 list) \<Rightarrow> ifaddrs list option \<Rightarrow> string \<Rightarrow> mac_addr_t outcome" where
  "get_mac_addr_from_str_ip hwaddr ifaddr ip_str =
     (case ifaddr of
        None \<Rightarrow> Exit EXIT_FAILURE
      | Some ifas \<Rightarrow> find_interface hwaddr ifas ip_str)"

definition is_device_address :: "u64 \<Rightarrow> u8" where
  "is_device_address address =
     (if address AND 0xfff0000000000000 = DEVICE_MEM_OFFSET then 1 else 0)"

subsection \<open>Printing, the inverse\<close>

definition digit_char :: "nat \<Rightarrow> char" where
  "digit_char d = ''0123456789abcdef'' ! d"

text \<open>\<open>%u\<close>: decimal without leading zeros; \<open>%02x\<close>: two hexadecimal digits.\<close>

fun show_dec :: "nat \<Rightarrow> string" where
  "show_dec n = (if n < 10 then [digit_char n] else show_dec (n div 10) @ [digit_char (n mod 10)])"

declare show_dec.simps [simp del]

definition show_hex2 :: "u8 \<Rightarrow> string" where
  "show_hex2 x = [digit_char (unat x div 16), digit_char (unat x mod 16)]"

fun show_fields :: "char \<Rightarrow> string list \<Rightarrow> string" where
  "show_fields sep [] = []"
| "show_fields sep [f] = f"
| "show_fields sep (f # fs) = f @ sep # show_fields sep fs"

definition show_ip :: "u32 \<Rightarrow> string" where
  "show_ip ip = show_fields (CHR ''.'')
     (map (\<lambda>i. show_dec (unat (ucast (drop_bit (8 * i) ip) :: u8))) [3, 2, 1, 0])"

definition show_mac :: "u8 list \<Rightarrow> string" where
  "show_mac bs = show_fields (CHR '':'') (map show_hex2 bs)"

lemma digit_value_char: "d < 16 \<Longrightarrow> digit_value (digit_char d) = Some d"
proof -
  assume "d < 16"
  then have "d \<in> set [0..<16]" by simp
  moreover have "\<forall>d \<in> set [0..<16]. digit_value (digit_char d) = Some d"
    by (simp add: upt_conv_Cons digit_value_def digit_char_def)
  ultimately show ?thesis by blast
qed

lemma is_digit_char: "d < b \<Longrightarrow> b \<le> 16 \<Longrightarrow> is_digit b (digit_char d)"
  by (simp add: is_digit_def digit_value_char)

lemma digits_value_snoc: "digits_value b (ds @ [c]) = digits_value b ds * b + the (digit_value c)"
  by (simp add: digits_value_def)

lemma show_dec_digits: "(\<forall>c \<in> set (show_dec n). is_digit 10 c) \<and> show_dec n \<noteq> []"
  by (induction n rule: show_dec.induct)
    (subst (1 2) show_dec.simps, auto simp: is_digit_char split: if_splits)

lemma show_dec_value: "digits_value 10 (show_dec n) = n"
proof (induction n rule: show_dec.induct)
  case (1 n)
  then show ?case
    by (subst show_dec.simps)
      (auto simp: digits_value_snoc digit_value_char, simp add: digits_value_def digit_value_char)
qed

lemma show_hex2_digits: "(\<forall>c \<in> set (show_hex2 x). is_digit 16 c) \<and> show_hex2 x \<noteq> []"
proof -
  have "unat x < 256" using unsigned_less [of x] by simp
  then show ?thesis by (auto simp: show_hex2_def intro!: is_digit_char)
qed

lemma show_hex2_value: "digits_value 16 (show_hex2 x) = unat x"
proof -
  have "unat x < 256" using unsigned_less [of x] by simp
  then show ?thesis by (simp add: show_hex2_def digits_value_def digit_value_char)
qed

text \<open>A digit is neither white space nor a sign nor the \<open>x\<close> of a prefix.\<close>

lemma digit_not_special:
  assumes "is_digit b c"
  shows "\<not> is_space c" "c \<noteq> CHR ''-''" "c \<noteq> CHR ''+''" "c \<noteq> CHR ''x''" "c \<noteq> CHR ''X''"
proof -
  from assms obtain d where d: "digit_value c = Some d"
    by (auto simp: is_digit_def split: option.splits)
  then show "\<not> is_space c"
    by (auto simp: is_space_def digit_value_def Let_def split: if_splits)
  show "c \<noteq> CHR ''-''" "c \<noteq> CHR ''+''" "c \<noteq> CHR ''x''" "c \<noteq> CHR ''X''"
    using d by (auto simp: digit_value_def)
qed

lemma scan_unsigned_digits:
  assumes ds: "\<forall>c \<in> set ds. is_digit b c" "ds \<noteq> []" and small: "digits_value b ds < 2 ^ 64"
    and rest: "\<And>c cs. rest = c # cs \<Longrightarrow> \<not> is_digit b c"
    and no_prefix: "scan_prefix b (ds @ rest) = ds @ rest"
  shows "scan_unsigned b (ds @ rest) = Some (word_of_nat (digits_value b ds), rest)"
proof -
  from ds obtain c cs where c: "ds = c # cs" "is_digit b c" by (cases ds) auto
  have skip: "dropWhile is_space (ds @ rest) = ds @ rest" "scan_sign (ds @ rest) = (False, ds @ rest)"
    using digit_not_special [OF c(2)] by (simp_all add: c(1) scan_sign_def)
  have "takeWhile (is_digit b) rest = []" "dropWhile (is_digit b) rest = rest"
    using rest by (cases rest; simp)+
  then have "takeWhile (is_digit b) (ds @ rest) = ds" "dropWhile (is_digit b) (ds @ rest) = rest"
    using ds(1) by (simp_all add: takeWhile_append2 dropWhile_append2)
  with skip no_prefix ds(2) small show ?thesis
    by (simp add: scan_unsigned_def Let_def strtoul_value_def)
qed

text \<open>A field that scanning reads back: digits only, small, and not mistaken for a prefix.\<close>

definition field_ok :: "nat \<Rightarrow> char \<Rightarrow> string \<Rightarrow> bool" where
  "field_ok b sep f \<longleftrightarrow> (\<forall>c \<in> set f. is_digit b c) \<and> f \<noteq> [] \<and> digits_value b f < 2 ^ 64 \<and>
     scan_prefix b f = f \<and> (\<forall>rest. scan_prefix b (f @ sep # rest) = f @ sep # rest)"

lemma scan_show_fields:
  assumes "\<not> is_digit b sep"
  shows "\<forall>f \<in> set fs. field_ok b sep f \<Longrightarrow>
    scan_fields b sep (List.length fs) (show_fields sep fs) =
      map (\<lambda>f. word_of_nat (digits_value b f)) fs"
proof (induction fs)
  case (Cons f fs)
  then have f: "\<forall>c \<in> set f. is_digit b c" "f \<noteq> []" "digits_value b f < 2 ^ 64"
      "scan_prefix b (f @ []) = f @ []" "\<And>rest. scan_prefix b (f @ sep # rest) = f @ sep # rest"
    by (auto simp: field_ok_def)
  show ?case
  proof (cases fs)
    case Nil
    then show ?thesis using scan_unsigned_digits [OF f(1-3) _ f(4)] by simp
  next
    case (Cons g gs)
    have "scan_unsigned b (f @ sep # show_fields sep fs) =
        Some (word_of_nat (digits_value b f), sep # show_fields sep fs)"
      using assms by (intro scan_unsigned_digits f) auto
    with Cons Cons.IH Cons.prems show ?thesis by simp
  qed
qed simp

lemma show_dec_field_ok: "n < 2 ^ 64 \<Longrightarrow> field_ok 10 sep (show_dec n)"
  using show_dec_digits [of n] by (simp add: field_ok_def show_dec_value scan_prefix_def)

lemma unat_u8_less: "unat (x :: u8) < 256"
  using unsigned_less [of x] by simp

lemma show_dec_u8_field_ok: "field_ok 10 sep (show_dec (unat (x :: u8)))"
  using unat_u8_less [of x] by (intro show_dec_field_ok) simp

lemma show_hex2_field_ok: "sep \<noteq> CHR ''x'' \<Longrightarrow> sep \<noteq> CHR ''X'' \<Longrightarrow> field_ok 16 sep (show_hex2 x)"
proof -
  have "is_digit 16 (digit_char (unat x mod 16))" by (rule is_digit_char) simp_all
  note not_x = digit_not_special(4,5) [OF this]
  have "digits_value 16 (show_hex2 x) < 2 ^ 64"
    using unat_u8_less [of x] by (simp add: show_hex2_value)
  then show ?thesis
    using show_hex2_digits [of x] not_x
    by (simp add: field_ok_def scan_prefix_def) (simp add: show_hex2_def)
qed

lemma bit_field_mask: "(0xffff :: u32) = mask 16" "(0xffffffff :: u32) = mask 32"
  by (simp_all add: mask_eq_exp_minus_1)

lemma fields_show_ip:
  "scan_fields 10 (CHR ''.'') 4 (show_ip ip) =
     map (\<lambda>i. ucast (ucast (drop_bit (8 * i) ip) :: u8)) [3, 2, 1, 0]"
proof -
  let ?b = "\<lambda>i. ucast (drop_bit (8 * i) ip) :: u8"
  have four: "List.length (map (\<lambda>i. show_dec (unat (?b i))) [3, 2, 1, 0]) = 4" by simp
  have "scan_fields 10 (CHR ''.'') (List.length (map (\<lambda>i. show_dec (unat (?b i))) [3, 2, 1, 0]))
      (show_ip ip) = map (\<lambda>f. word_of_nat (digits_value 10 f)) (map (\<lambda>i. show_dec (unat (?b i))) [3, 2, 1, 0])"
    unfolding show_ip_def
    by (intro scan_show_fields) (auto simp: is_digit_def digit_value_def show_dec_u8_field_ok)
  then show ?thesis unfolding four by (simp add: show_dec_value)
qed

lemma fields_show_mac:
  assumes "List.length bs = 6"
  shows "scan_fields 16 (CHR '':'') 6 (show_mac bs) = map ucast bs"
proof -
  have "scan_fields 16 (CHR '':'') (List.length (map show_hex2 bs)) (show_mac bs) =
      map (\<lambda>f. word_of_nat (digits_value 16 f)) (map show_hex2 bs)"
    unfolding show_mac_def
    by (intro scan_show_fields) (auto simp: is_digit_def digit_value_def intro: show_hex2_field_ok)
  with assms show ?thesis by (simp add: show_hex2_value)
qed

lemma convert_shown_mac:
  assumes "List.length bs = 6"
  shows "convert_mac_addr_str_to_uint (show_mac bs) = convert_mac_addr_to_uint bs"
proof -
  have "(field (map ucast bs) i :: u32) = ucast (bs ! i)" if "i < 6" for i
  proof -
    have "(ucast (ucast (bs ! i) :: u64) :: u32) = ucast (bs ! i)"
      by (rule bit_word_eqI) (auto simp: bit_simps)
    with that assms show ?thesis by (simp add: field_def)
  qed
  then show ?thesis
    by (simp add: convert_mac_addr_str_to_uint_def convert_mac_addr_to_uint_def
        fields_show_mac [OF assms] Let_def)
qed

subsection \<open>Properties\<close>

text \<open>
  C36: parsing a printed address gives it back: \<open>convert_ip_addr_to_uint\<close> reads the dotted decimal
  form of every 32-bit address as that address, most significant byte first.
\<close>

theorem convert_ip_addr_roundtrip: "convert_ip_addr_to_uint (show_ip ip) = ip"
proof -
  have "convert_ip_addr_to_uint (show_ip ip) =
      push_bit 24 (ucast (ucast (ucast (ucast (drop_bit 24 ip) :: u8) :: u64) :: u8))
      OR push_bit 16 (ucast (ucast (ucast (ucast (drop_bit 16 ip) :: u8) :: u64) :: u8))
      OR push_bit 8 (ucast (ucast (ucast (ucast (drop_bit 8 ip) :: u8) :: u64) :: u8))
      OR ucast (ucast (ucast (ucast ip :: u8) :: u64) :: u8)"
    by (simp add: convert_ip_addr_to_uint_def fields_show_ip field_def Let_def)
  also have "\<dots> = ip"
  proof (rule bit_word_eqI)
    fix n assume "n < LENGTH(32)"
    then consider "n < 8" | "8 \<le> n" "n < 16" | "16 \<le> n" "n < 24" | "24 \<le> n" "n < 32"
      by fastforce
    then show "bit (push_bit 24 (ucast (ucast (ucast (ucast (drop_bit 24 ip) :: u8) :: u64) :: u8))
      OR push_bit 16 (ucast (ucast (ucast (ucast (drop_bit 16 ip) :: u8) :: u64) :: u8))
      OR push_bit 8 (ucast (ucast (ucast (ucast (drop_bit 8 ip) :: u8) :: u64) :: u8))
      OR ucast (ucast (ucast (ucast ip :: u8) :: u64) :: u8) :: u32) n = bit ip n"
      by cases (auto simp: bit_simps)
  qed
  finally show ?thesis .
qed

text \<open>
  C37: the two MAC conversions agree: parsing the printed form of six bytes gives the same
  register pair as converting the bytes, two bytes in the upper register and four in the lower.
\<close>

theorem convert_mac_addr_agree:
  assumes "List.length bs = 6"
  shows "convert_mac_addr_str_to_uint (show_mac bs) = convert_mac_addr_to_uint bs \<and>
    (\<forall>i \<in> {0..<6}. (ucast (if i < 2 then drop_bit (8 * (1 - i)) (mac_msb (convert_mac_addr_to_uint bs))
       else drop_bit (8 * (5 - i)) (mac_lsb (convert_mac_addr_to_uint bs))) :: u8) = bs ! i)"
proof -
  have "(ucast (if i < 2 then drop_bit (8 * (1 - i)) (mac_msb (convert_mac_addr_to_uint bs))
       else drop_bit (8 * (5 - i)) (mac_lsb (convert_mac_addr_to_uint bs))) :: u8) = bs ! i"
    if "i \<in> {0..<6}" for i
  proof -
    from that have "i \<in> set [0..<6]" by simp
    then have "i = 0 \<or> i = 1 \<or> i = 2 \<or> i = 3 \<or> i = 4 \<or> i = 5" by (simp add: upt_conv_Cons eval_nat_numeral)
    then show ?thesis
      by (elim disjE; intro bit_word_eqI)
        (auto simp: convert_mac_addr_to_uint_def Let_def bit_simps bit_field_mask
          dest: bit_imp_le_length)
  qed
  then show ?thesis using convert_shown_mac [OF assms] by blast
qed

theorem convert_mac_addr_agree_witness:
  "convert_mac_addr_str_to_uint (show_mac [0, 10, 53, 1, 2, 255]) =
     convert_mac_addr_to_uint [0, 10, 53, 1, 2, 255]"
  using convert_mac_addr_agree [of "[0, 10, 53, 1, 2, 255]"] by simp

text \<open>An interface that the search goes past: another family, or another IPv4 address.\<close>

definition passed_over :: "string \<Rightarrow> ifaddrs \<Rightarrow> bool" where
  "passed_over ip ifa \<longleftrightarrow>
     (case ifa_family ifa of
        None \<Rightarrow> False
      | Some family \<Rightarrow> family \<noteq> AF_INET \<or>
          (case ifa_numeric ifa of None \<Rightarrow> False | Some t \<Rightarrow> t \<noteq> ip))"

text \<open>
  C38: \<open>get_mac_addr_from_str_ip\<close> decides on the first interface that is not passed over: it
  returns the converted hardware address of that interface, exits when its name cannot be
  resolved, follows a NULL pointer when it has no address at all, and exits when every interface
  is passed over.
\<close>

theorem get_mac_addr_first_match:
  "get_mac_addr_from_str_ip hwaddr (Some ifas) ip =
     (case dropWhile (passed_over ip) ifas of
        [] \<Rightarrow> Exit EXIT_FAILURE
      | ifa # _ \<Rightarrow>
          if ifa_family ifa = None then Fault Bad_Pointer
          else if ifa_numeric ifa = None then Exit EXIT_FAILURE
          else Ret (convert_mac_addr_to_uint (hwaddr (take 15 (ifa_name ifa)))))"
proof -
  have "find_interface hwaddr ifas ip =
     (case dropWhile (passed_over ip) ifas of
        [] \<Rightarrow> Exit EXIT_FAILURE
      | ifa # _ \<Rightarrow>
          if ifa_family ifa = None then Fault Bad_Pointer
          else if ifa_numeric ifa = None then Exit EXIT_FAILURE
          else Ret (convert_mac_addr_to_uint (hwaddr (take 15 (ifa_name ifa)))))"
    by (induction ifas) (auto simp: passed_over_def split: option.splits)
  then show ?thesis by (simp add: get_mac_addr_from_str_ip_def)
qed

end
