(* ===== verification/Control_Api.thy ===== *)
theory Control_Api
  imports World Reg_Map
begin

text \<open>
  \<open>src/lib/control_api.c\<close>: the register accessors that every other component uses, and the
  compute control commands for the accelerator. The lemmas give the effect of register
  programs on the history, the register file that a history of writes leaves behind, and when
  the wait for the accelerator returns.
\<close>

subsection \<open>Register access\<close>

text \<open>
  A register access is a volatile load or store at \<open>pcie_axil_base + offset\<close>. The load asks the
  device, whose answer may depend on the whole history, and is itself part of the history.
\<close>

definition write32_data :: "u64 \<Rightarrow> u64 \<Rightarrow> u32 \<Rightarrow> unit io" where
  "write32_data pcie_axil_base offset v =
     (let config_addr = pcie_axil_base + offset
      in modifyM (emit (Mmio_Write config_addr v)))"

definition mmio_sample :: "env \<Rightarrow> u64 \<Rightarrow> world \<Rightarrow> u32 \<times> world" where
  "mmio_sample E a w = (let v = env_mmio_read E (hist w) a in (v, emit (Mmio_Read a v) w))"

definition read32_data :: "env \<Rightarrow> u64 \<Rightarrow> u64 \<Rightarrow> u32 io" where
  "read32_data E pcie_axil_base offset =
     (\<lambda>w. let config_addr = pcie_axil_base + offset;
              r = mmio_sample E config_addr w
          in Some (Ret (fst r), snd r))"

lemma write32_run [run_simps]:
  "write32_data base off v w = Some (Ret (), emit (Mmio_Write (base + off) v) w)"
  by (simp add: write32_data_def modifyM_run)

lemma read32_run [run_simps]:
  "read32_data E base off w =
     Some (Ret (env_mmio_read E (hist w) (base + off)),
       emit (Mmio_Read (base + off) (env_mmio_read E (hist w) (base + off))) w)"
  by (simp add: read32_data_def mmio_sample_def Let_def)

lemma keeps_write32 [keeps_intros]: "keeps steps_ok (write32_data base off v)"
  by (rule keepsI) (auto simp: write32_run steps_ok_emit)

lemma keeps_read32 [keeps_intros]: "keeps steps_ok (read32_data E base off)"
  by (rule keepsI) (auto simp: read32_run steps_ok_emit)

text \<open>
  A straight-line block of register writes: the sequence of \<open>write32_data\<close> calls on one window,
  written as the list of its (offset, value) pairs in program order.
\<close>

definition write32_block :: "u64 \<Rightarrow> (u32 \<times> u32) list \<Rightarrow> unit io" where
  "write32_block base ws = forM ws (\<lambda>(off, v). write32_data base (ucast off) v)"

definition block_events :: "u64 \<Rightarrow> (u32 \<times> u32) list \<Rightarrow> event list" where
  "block_events base ws = rev (map (\<lambda>(off, v). Mmio_Write (base + ucast off) v) ws)"

lemma write32_block_run [run_simps]:
  "write32_block base ws w = Some (Ret (), w\<lparr>hist := block_events base ws @ hist w\<rparr>)"
  by (induction ws arbitrary: w)
    (auto simp: write32_block_def block_events_def returnM_run thenM_Ret [OF write32_run] emit_def)

lemma keeps_write32_block [keeps_intros]: "keeps steps_ok (write32_block base ws)"
  unfolding write32_block_def by (intro keeps_intros)

subsection \<open>The register file that a history leaves\<close>

text \<open>
  What the program last wrote to an address, if anything: the abstract register file. A device
  register that hardware does not change holds this value.
\<close>

fun last_write :: "event list \<Rightarrow> u64 \<Rightarrow> u32 option" where
  "last_write [] a = None"
| "last_write (Mmio_Write b v # h) a = (if a = b then Some v else last_write h a)"
| "last_write (_ # h) a = last_write h a"

text \<open>All values written to one address, oldest first: what a FIFO behind the address receives.\<close>

fun writes_to :: "event list \<Rightarrow> u64 \<Rightarrow> u32 list" where
  "writes_to [] a = []"
| "writes_to (Mmio_Write b v # h) a = (if a = b then writes_to h a @ [v] else writes_to h a)"
| "writes_to (_ # h) a = writes_to h a"

lemma last_write_append:
  "last_write (h1 @ h2) a = (case last_write h1 a of None \<Rightarrow> last_write h2 a | Some v \<Rightarrow> Some v)"
  by (induction h1 a rule: last_write.induct) auto

lemma writes_to_append: "writes_to (h1 @ h2) a = writes_to h2 a @ writes_to h1 a"
  by (induction h1 a rule: writes_to.induct) auto

lemma block_events_Nil [simp]: "block_events base [] = []"
  by (simp add: block_events_def)

lemma block_events_Cons [simp]:
  "block_events base ((off, v) # ws) = block_events base ws @ [Mmio_Write (base + ucast off) v]"
  by (simp add: block_events_def)

lemma block_events_append: "block_events base (vs @ ws) = block_events base ws @ block_events base vs"
  by (simp add: block_events_def)

lemma ucast_down_up [simp]: "(ucast (ucast (a :: u32) :: u64) :: u32) = a"
  by (rule bit_word_eqI) (simp add: bit_simps)

lemma ucast_u32_u64_eq [simp]: "(ucast (a :: u32) :: u64) = ucast b \<longleftrightarrow> a = b"
  by (metis ucast_down_up)

text \<open>Two offsets of one window name the same register exactly when they are equal.\<close>

lemma last_write_block:
  "last_write (block_events base ws) (base + ucast r) = map_of (rev ws) r"
proof (induction ws rule: rev_induct)
  case Nil
  show ?case by simp
next
  case (snoc x ws)
  then show ?case
    by (cases x) (auto simp: block_events_def)
qed

lemma last_write_block_other:
  "(\<forall>(off, v) \<in> set ws. base + ucast off \<noteq> a) \<Longrightarrow> last_write (block_events base ws) a = None"
  by (induction ws) (auto simp: last_write_append)

lemma last_write_block_frame:
  "(\<forall>(off, v) \<in> set ws. base + ucast off \<noteq> a) \<Longrightarrow> last_write (block_events base ws @ h) a = last_write h a"
  by (simp add: last_write_append last_write_block_other)

text \<open>Operations that write no register: the register file stays as it is.\<close>

definition same_regs :: "world \<Rightarrow> world \<Rightarrow> bool" where
  "same_regs w w' \<longleftrightarrow> last_write (hist w') = last_write (hist w)"

lemma reflp_same_regs [keeps_intros]: "reflp same_regs"
  by (simp add: reflp_def same_regs_def)

lemma transp_same_regs [keeps_intros]: "transp same_regs"
  by (rule transpI) (simp add: same_regs_def)

lemma keeps_store_same_regs [keeps_intros]:
  "keeps same_regs (malloc E ob)" "keeps same_regs (free_obj p)" "keeps same_regs (load as p)"
  "keeps same_regs (store p ob)"
  by (auto intro!: keepsI simp: same_regs_def malloc_def free_obj_def load_def store_def Let_def
      split: if_splits option.splits)

lemma keeps_read32_same_regs [keeps_intros]: "keeps same_regs (read32_data E base off)"
  by (rule keepsI) (auto simp: same_regs_def read32_run fun_eq_iff)

lemma keeps_read32_same_store [keeps_intros]: "keeps same_store (read32_data E base off)"
  by (rule keepsI) (auto simp: same_store_def read32_run)

definition no_register_write :: "event \<Rightarrow> bool" where
  "no_register_write e = (case e of Mmio_Write a v \<Rightarrow> False | _ \<Rightarrow> True)"

lemma keeps_emit_same_regs [keeps_intros]: "no_register_write e \<Longrightarrow> keeps same_regs (modifyM (emit e))"
  by (rule keeps_modifyM) (cases e; simp add: same_regs_def no_register_write_def fun_eq_iff)

subsection \<open>Compute control commands\<close>

record ctl_cmd_t =
  ctl_cmd_size :: u32
  a_baseaddr :: u32
  b_baseaddr :: u32
  c_baseaddr :: u32
  a_row :: u16
  a_col :: u16
  b_col :: u16
  work_id :: u16

text \<open>\<open>gen_ctl_cmd\<close> fills the command that its first argument points to.\<close>

definition gen_ctl_cmd ::
  "ctl_cmd_t \<Rightarrow> u32 \<Rightarrow> u32 \<Rightarrow> u32 \<Rightarrow> u32 \<Rightarrow> u16 \<Rightarrow> u16 \<Rightarrow> u16 \<Rightarrow> u16 \<Rightarrow> ctl_cmd_t" where
  "gen_ctl_cmd ctl_cmd a_base b_base c_base cmd_size ar ac bc wid =
     ctl_cmd\<lparr>ctl_cmd_size := cmd_size, a_baseaddr := a_base, b_baseaddr := b_base,
       c_baseaddr := c_base, a_row := ar, a_col := ac, b_col := bc, work_id := wid\<rparr>"

definition pack16 :: "u16 \<Rightarrow> u16 \<Rightarrow> u32" where
  "pack16 hi lo = (push_bit 16 (ucast hi) AND 0xffff0000) OR (ucast lo AND 0x0000ffff)"

definition issue_ctl_cmd :: "u64 \<Rightarrow> u32 \<Rightarrow> ctl_cmd_t \<Rightarrow> unit io" where
  "issue_ctl_cmd axil_base offset ctl_cmd =
     thenM (write32_data axil_base (ucast offset) (ctl_cmd_size ctl_cmd)) (
     thenM (write32_data axil_base (ucast offset) (a_baseaddr ctl_cmd)) (
     thenM (write32_data axil_base (ucast offset) (b_baseaddr ctl_cmd)) (
     thenM (write32_data axil_base (ucast offset) (c_baseaddr ctl_cmd)) (
     thenM (write32_data axil_base (ucast offset) (pack16 (a_row ctl_cmd) (a_col ctl_cmd))) (
     write32_data axil_base (ucast offset) (pack16 (b_col ctl_cmd) (work_id ctl_cmd)))))))"

definition wait_compute :: "env \<Rightarrow> u64 \<Rightarrow> u32 \<Rightarrow> u32 io" where
  "wait_compute E axil_base offset =
     (\<lambda>w. map_option (\<lambda>(v, w'). (Ret v, w'))
        (poll_until (mmio_sample E (axil_base + ucast offset)) (\<lambda>compute_done. compute_done \<noteq> 0) 0 w))"

text \<open>The words of one command as the accelerator's FIFO receives them.\<close>

definition ctl_cmd_words :: "ctl_cmd_t \<Rightarrow> u32 list" where
  "ctl_cmd_words c = [ctl_cmd_size c, a_baseaddr c, b_baseaddr c, c_baseaddr c,
     pack16 (a_row c) (a_col c), pack16 (b_col c) (work_id c)]"

lemma issue_ctl_cmd_run [run_simps]:
  "issue_ctl_cmd base off c w =
     Some (Ret (), w\<lparr>hist := rev (map (Mmio_Write (base + ucast off)) (ctl_cmd_words c)) @ hist w\<rparr>)"
  by (simp add: issue_ctl_cmd_def run_simps ctl_cmd_words_def emit_def)

lemma issue_ctl_cmd_fifo:
  assumes "issue_ctl_cmd base off c w = Some (r, w')"
  shows "writes_to (hist w') (base + ucast off) =
           writes_to (hist w) (base + ucast off) @ ctl_cmd_words c"
  using assms by (auto simp: issue_ctl_cmd_run ctl_cmd_words_def)

lemma mask16_eq: "(0xffff :: u32) = mask 16" "(0xffff0000 :: u32) = push_bit 16 (mask 16)"
  by (simp_all add: mask_eq_exp_minus_1 push_bit_eq_mult)

lemma bit_pack16 [word_bits]:
  "bit (pack16 hi lo) n \<longleftrightarrow> (if n < 16 then bit lo n else n < 32 \<and> bit hi (n - 16))"
  by (auto simp: pack16_def mask16_eq bit_simps dest: bit_imp_le_length)

lemma pack16_high: "drop_bit 16 (pack16 hi lo) = ucast hi"
  by (rule bit_word_eqI) (auto simp: word_bits bit_simps dest: bit_imp_le_length)

lemma pack16_low: "pack16 hi lo AND 0x0000ffff = ucast lo"
  by (rule bit_word_eqI) (auto simp: word_bits mask16_eq bit_simps dest: bit_imp_le_length)

subsection \<open>The wait for the accelerator\<close>

text \<open>
  \<open>wait_compute\<close> returns the first value of the job counter that is not 0, right after reading
  it, and never returns while the counter reads 0: nothing bounds the wait.
\<close>

theorem wait_compute_first:
  "wait_compute E base off w =
    (if \<exists>n. sample_value (mmio_sample E (base + ucast off)) n w \<noteq> 0
     then let n = LEAST n. sample_value (mmio_sample E (base + ucast off)) n w \<noteq> 0
          in Some (Ret (sample_value (mmio_sample E (base + ucast off)) n w),
                   sampled (mmio_sample E (base + ucast off)) (Suc n) w)
     else None)"
proof -
  let ?S = "mmio_sample E (base + ucast off)" and ?stop = "\<lambda>compute_done. compute_done \<noteq> (0 :: u32)"
  show ?thesis
  proof (cases "\<exists>n. sample_value ?S n w \<noteq> 0")
    case True
    define n where "n = (LEAST n. sample_value ?S n w \<noteq> 0)"
    have "sample_value ?S n w \<noteq> 0" unfolding n_def using True by (rule LeastI_ex)
    moreover have "\<forall>m<n. \<not> ?stop (sample_value ?S m w)" unfolding n_def by (auto dest: not_less_Least)
    ultimately have "poll_until ?S ?stop 0 w = Some (sample_value ?S n w, sampled ?S (Suc n) w)"
      by (intro poll_until_first) simp_all
    then show ?thesis using True by (simp add: wait_compute_def Let_def n_def [symmetric] del: sampled.simps)
  next
    case False
    then have "poll_until ?S ?stop 0 w = None"
      using poll_until_returns_iff [of ?S ?stop 0 w] by (cases "poll_until ?S ?stop 0 w") auto
    with False show ?thesis by (simp add: wait_compute_def)
  qed
qed

end
