(* ===== verification/Reconic_Dev.thy ===== *)
theory Reconic_Dev
  imports Control_Api Address_Conv
begin

text \<open>
  The RecoNIC device of \<open>src/lib/reconic.c\<close>: physical addresses through \<open>/proc/self/pagemap\<close>,
  the windows of the QDMA AXI bridge, the two bump allocators (host huge pages and device
  memory) and the creation of the device. The lemmas decode the bridge windows, show where an
  allocation lands, and derive the separation of a sequence of allocations in the locale
  \<open>bump_region\<close>, interpreted for both memories.
\<close>

definition HARDWARE_PAGE_SIZE :: u64 where
  "HARDWARE_PAGE_SIZE = 4096"

definition HARDWARE_PAGE_SIZE_ALIGNMENT_MASK :: u64 where
  "HARDWARE_PAGE_SIZE_ALIGNMENT_MASK = 0xfffffffffffff000"

definition HARDWARE_PAGE_SIZE_ADDRESS_MASK :: u64 where
  "HARDWARE_PAGE_SIZE_ADDRESS_MASK = 0x0000000000000fff"

definition PAGE_SHIFT :: nat where
  "PAGE_SHIFT = 12"

definition PAGEMAP_LENGTH :: u64 where
  "PAGEMAP_LENGTH = 8"

definition HUGE_PAGE_SHIFT :: nat where
  "HUGE_PAGE_SHIFT = 21"

text \<open>\<open>MAP_FAILED\<close> of the C library.\<close>

definition MAP_FAILED :: u64 where
  "MAP_FAILED = - 1"

subsection \<open>Physical addresses\<close>

text \<open>
  \<open>fopen\<close> may fail; the code does not check, and the following \<open>fseek\<close> then works on a NULL
  stream, which is a fault. A short read returns -1 without closing the file.
\<close>

definition get_page_frame_number_of_address :: "env \<Rightarrow> u64 \<Rightarrow> u64 io" where
  "get_page_frame_number_of_address E addr =
     bindM (getsM (\<lambda>w. env_pagemap_open E (hist w))) (\<lambda>opened.
     thenM (modifyM (emit (Pagemap_Open opened))) (
     if \<not> opened then faultM Bad_Pointer else
     let offset = addr div env_pagesize E * PAGEMAP_LENGTH in
     bindM (getsM (\<lambda>w. env_pagemap_seek E (hist w) offset)) (\<lambda>sought.
     thenM (modifyM (emit (Pagemap_Seek offset sought))) (
     if \<not> sought then exitM 1 else
     bindM (getsM (\<lambda>w. env_pagemap_read E (hist w))) (\<lambda>(return_code, page_frame_number).
     thenM (modifyM (emit (Pagemap_Read return_code page_frame_number))) (
     if word_of_nat return_code \<noteq> PAGEMAP_LENGTH - 1 then returnM (- 1)
     else
       thenM (modifyM (emit Pagemap_Close))
         (returnM (page_frame_number AND 0x7FFFFFFFFFFFFF))))))))"

definition get_buffer_paddr :: "env \<Rightarrow> u64 \<Rightarrow> u64 io" where
  "get_buffer_paddr E buffer =
     bindM (get_page_frame_number_of_address E buffer) (\<lambda>page_frame_number.
     let distance_from_page_boundary = (ucast (buffer mod env_pagesize E) :: u32)
     in returnM (push_bit PAGE_SHIFT page_frame_number + ucast distance_from_page_boundary))"

subsection \<open>The windows of the AXI bridge\<close>

definition get_win_size :: u64 where
  "get_win_size = AXI_BAR_SIZE"

text \<open>The six registers of window \<open>i\<close>, in program order.\<close>

definition bdf_window :: "u32 \<Rightarrow> u32 \<Rightarrow> u32 \<Rightarrow> u32 \<Rightarrow> (u32 \<times> u32) list" where
  "bdf_window bdf_addr_high bdf_addr_low bdf_win_config i =
     [(AXIB_BDF_ADDR_TRANSLATE_ADDR_LSB + i * 0x20, bdf_addr_low),
      (AXIB_BDF_ADDR_TRANSLATE_ADDR_MSB + i * 0x20, bdf_addr_high + i * 0x20),
      (AXIB_BDF_PASID_RESERVED_ADDR + i * 0x20, 0),
      (AXIB_BDF_FUNCTION_NUM_ADDR + i * 0x20, 0),
      (AXIB_BDF_MAP_CONTROL_ADDR + i * 0x20, bdf_win_config),
      (AXIB_BDF_RESERVED_ADDR + i * 0x20, 0)]"

definition config_rn_dev_axib_bdf :: "ptr \<Rightarrow> u32 \<Rightarrow> u32 \<Rightarrow> unit io" where
  "config_rn_dev_axib_bdf rn_dev high_addr low_addr =
     (if rn_dev = NULL then exitM EXIT_FAILURE else
      let win_size = get_win_size in
      bindM (load as_rn_dev rn_dev) (\<lambda>d.
      bindM (load as_win_size (rn_winSize d)) (\<lambda>ws.
      let ws = ws\<lparr>win_size_msb := ucast (drop_bit 32 (win_size AND 0xffffffff00000000))\<rparr>;
          ws = ws\<lparr>win_size_lsb := ucast (win_size AND 0x00000000ffffffff)\<rparr>;
          bdf_addr_mask_high = ADDR_MASK - win_size_msb ws;
          bdf_addr_mask_low = ADDR_MASK - win_size_lsb ws;
          bdf_addr_high = high_addr AND bdf_addr_mask_high;
          bdf_addr_low = low_addr AND bdf_addr_mask_low;
          bdf_win_size_in_4Kpage =
            (ucast (drop_bit 12 (drop_bit 3 AXI_BAR_SIZE + 1) AND 0x00000000ffffffff) :: u32);
          bdf_win_config = 0xC0000000 OR bdf_win_size_in_4Kpage
      in thenM (store (rn_winSize d) (O_win_size ws))
           (write32_block (rn_axil_ctl d)
              (concat (map (\<lambda>i. bdf_window bdf_addr_high bdf_addr_low bdf_win_config (word_of_nat i))
                 [0..<8]))))))"

subsection \<open>Buffer allocation\<close>

text \<open>
  The alignment step, the same code for both memories: a buffer of at most a page does not cross
  a page boundary and a larger one starts on a page.
\<close>

definition place_buffer :: "u64 \<Rightarrow> u64 \<Rightarrow> u64" where
  "place_buffer buffer_offset buf_size =
     (if buf_size \<le> HARDWARE_PAGE_SIZE then
        (if HARDWARE_PAGE_SIZE < (buffer_offset AND HARDWARE_PAGE_SIZE_ADDRESS_MASK) + buf_size
         then (buffer_offset + HARDWARE_PAGE_SIZE) AND HARDWARE_PAGE_SIZE_ALIGNMENT_MASK
         else buffer_offset)
      else
        (if buffer_offset AND HARDWARE_PAGE_SIZE_ADDRESS_MASK \<noteq> 0
         then (buffer_offset + HARDWARE_PAGE_SIZE) AND HARDWARE_PAGE_SIZE_ALIGNMENT_MASK
         else buffer_offset))"

definition allocate_host_arm :: "env \<Rightarrow> ptr \<Rightarrow> ptr \<Rightarrow> u64 \<Rightarrow> ptr io" where
  "allocate_host_arm E rn_dev rdma_buffer buf_size =
     bindM (load as_rn_dev rn_dev) (\<lambda>d.
     let buffer_offset = place_buffer (rn_buffer_offset d) buf_size in
     bindM (load as_rdma_buff (rn_base_buf d)) (\<lambda>base_buf.
     let buffer = buf_buffer base_buf + buffer_offset in
     thenM (store rn_dev (O_rn_dev (d\<lparr>rn_buffer_offset := buffer_offset + buf_size\<rparr>))) (
     bindM (load as_rdma_buff rdma_buffer) (\<lambda>b.
     let b = b\<lparr>buf_buffer := buffer, buf_buf_size := ucast buf_size\<rparr> in
     thenM (store rdma_buffer (O_rdma_buff b)) (
     bindM (get_buffer_paddr E buffer) (\<lambda>paddr.
     thenM (store rdma_buffer (O_rdma_buff (b\<lparr>buf_dma_addr := paddr\<rparr>)))
       (returnM rdma_buffer)))))))"

definition allocate_device_arm :: "ptr \<Rightarrow> ptr \<Rightarrow> u64 \<Rightarrow> ptr io" where
  "allocate_device_arm rn_dev rdma_buffer buf_size =
     bindM (load as_rn_dev rn_dev) (\<lambda>d.
     let dev_buffer_offset = place_buffer (rn_dev_buffer_offset d) buf_size in
     bindM (load as_rdma_buff rdma_buffer) (\<lambda>b.
     let b = b\<lparr>buf_buffer := dev_buffer_offset OR DEVICE_MEM_OFFSET,
               buf_dma_addr := dev_buffer_offset OR DEVICE_MEM_OFFSET,
               buf_buf_size := ucast buf_size\<rparr>
     in thenM (store rn_dev (O_rn_dev (d\<lparr>rn_dev_buffer_offset := dev_buffer_offset + buf_size\<rparr>))) (
        thenM (store rdma_buffer (O_rdma_buff b)) (
        thenM (assertM (dev_buffer_offset + buf_size \<le> DEVICE_MEM_SIZE))
          (returnM rdma_buffer)))))"

definition allocate_rdma_buffer :: "env \<Rightarrow> ptr \<Rightarrow> u64 \<Rightarrow> string \<Rightarrow> ptr io" where
  "allocate_rdma_buffer E rn_dev buf_size buf_location =
     bindM (malloc E (O_rdma_buff (junk_rdma_buff E))) (\<lambda>rdma_buffer.
     if rdma_buffer = NULL then exitM EXIT_FAILURE
     else if buf_location = HOST_MEM then allocate_host_arm E rn_dev rdma_buffer buf_size
     else if buf_location = DEVICE_MEM then allocate_device_arm rn_dev rdma_buffer buf_size
     else exitM EXIT_FAILURE)"

subsection \<open>System calls on files and mappings\<close>

definition sys_open :: "env \<Rightarrow> string \<Rightarrow> i32 io" where
  "sys_open E path = (\<lambda>w. let fd = env_open E (hist w) path
     in Some (Ret fd, emit (Sys_Open path fd) w))"

definition sys_close :: "i32 \<Rightarrow> unit io" where
  "sys_close fd = modifyM (emit (Sys_Close fd))"

definition sys_mmap :: "env \<Rightarrow> u64 \<Rightarrow> i32 \<Rightarrow> u64 io" where
  "sys_mmap E bytes fd = (\<lambda>w. let a = env_mmap E (hist w) bytes fd
     in Some (Ret a, emit (Sys_Mmap bytes fd a) w))"

definition sys_mlock :: "env \<Rightarrow> u64 \<Rightarrow> u64 \<Rightarrow> i32 io" where
  "sys_mlock E a bytes = (\<lambda>w. let rc = env_mlock E (hist w) a bytes
     in Some (Ret rc, emit (Sys_Mlock a bytes rc) w))"

subsection \<open>Creation of the device\<close>

text \<open>The bytes of the huge pages, in the 32-bit arithmetic of the source.\<close>

definition hugepage_bytes :: "u32 \<Rightarrow> u64" where
  "hugepage_bytes num_hugepages = ucast (num_hugepages * push_bit HUGE_PAGE_SHIFT 1)"

text \<open>The second half of \<open>create_rn_dev\<close>: the pre-allocated host buffer and the bridge.\<close>

definition create_base_buf :: "env \<Rightarrow> ptr \<Rightarrow> u32 \<Rightarrow> unit io" where
  "create_base_buf E rn_dev num_hugepages_request =
     bindM (malloc E (O_rdma_buff (junk_rdma_buff E))) (\<lambda>base_buf.
     bindM (load as_rn_dev rn_dev) (\<lambda>d.
     thenM (store rn_dev (O_rn_dev (d\<lparr>rn_base_buf := base_buf\<rparr>))) (
     if base_buf = NULL then exitM EXIT_FAILURE else
     bindM (sys_mmap E (hugepage_bytes num_hugepages_request) (- 1)) (\<lambda>buffer.
     bindM (load as_rdma_buff base_buf) (\<lambda>b.
     thenM (store base_buf (O_rdma_buff (b\<lparr>buf_buffer := buffer\<rparr>))) (
     bindM (sys_mlock E buffer (hugepage_bytes num_hugepages_request)) (\<lambda>rc.
     if rc = - 1 then exitM EXIT_FAILURE else
     bindM (get_buffer_paddr E buffer) (\<lambda>paddr.
     thenM (store base_buf (O_rdma_buff (b\<lparr>buf_buffer := buffer, buf_dma_addr := paddr\<rparr>)))
       (config_rn_dev_axib_bdf rn_dev (hi32 paddr) (lo32 paddr))))))))))"

text \<open>Returns the device and the value left in \<open>*pcie_resource_fd\<close>.\<close>

definition create_rn_dev :: "env \<Rightarrow> string \<Rightarrow> u32 \<Rightarrow> u32 \<Rightarrow> (ptr \<times> i32) io" where
  "create_rn_dev E pcie_resource num_hugepages_request num_qp =
     bindM (malloc E (O_rn_dev (junk_rn_dev E))) (\<lambda>rn_dev.
     bindM (malloc E (O_win_size (junk_win_size E))) (\<lambda>winSize.
     if rn_dev = NULL then exitM EXIT_FAILURE else
     bindM (load as_rn_dev rn_dev) (\<lambda>d.
     let d = d\<lparr>rn_axil_map_size := RN_SCR_MAP_SIZE, rn_rdma_dev := NULL, rn_base_buf := NULL,
               rn_winSize := winSize\<rparr> in
     thenM (store rn_dev (O_rn_dev d)) (
     thenM (store winSize (O_win_size \<lparr>win_size_lsb = 0, win_size_msb = 0\<rparr>)) (
     bindM (sys_open E pcie_resource) (\<lambda>scr.
     if scr = - 1 then exitM EXIT_FAILURE else
     bindM (sys_mmap E (ucast RN_SCR_MAP_SIZE) scr) (\<lambda>axil_scr_base.
     if axil_scr_base = MAP_FAILED then thenM (sys_close scr) (exitM EXIT_FAILURE) else
     thenM (store rn_dev (O_rn_dev (d\<lparr>rn_axil_ctl := axil_scr_base, rn_num_qp := ucast num_qp\<rparr>))) (
     thenM (create_base_buf E rn_dev num_hugepages_request) (
     bindM (load as_rn_dev rn_dev) (\<lambda>d.
     thenM (store rn_dev (O_rn_dev (d\<lparr>rn_buffer_offset := 0, rn_dev_buffer_offset := 0\<rparr>)))
       (returnM (rn_dev, scr))))))))))))"

subsection \<open>Frames\<close>

lemma keeps_get_page_frame_number [keeps_intros]:
  "keeps steps_ok (get_page_frame_number_of_address E addr)"
  "keeps same_store (get_page_frame_number_of_address E addr)"
  unfolding get_page_frame_number_of_address_def by (intro keeps_intros)+

lemma keeps_get_buffer_paddr [keeps_intros]:
  "keeps steps_ok (get_buffer_paddr E buffer)" "keeps same_store (get_buffer_paddr E buffer)"
  unfolding get_buffer_paddr_def by (intro keeps_intros)+

lemma keeps_config_rn_dev_axib_bdf [keeps_intros]:
  "keeps steps_ok (config_rn_dev_axib_bdf rn_dev high_addr low_addr)"
  unfolding config_rn_dev_axib_bdf_def by (intro keeps_intros)

lemma keeps_allocate_rdma_buffer [keeps_intros]:
  "keeps steps_ok (allocate_rdma_buffer E rn_dev buf_size buf_location)"
  unfolding allocate_rdma_buffer_def allocate_host_arm_def allocate_device_arm_def
  by (intro keeps_intros)

lemma keeps_sys [keeps_intros]:
  "keeps steps_ok (sys_open E path)" "keeps steps_ok (sys_close fd)"
  "keeps steps_ok (sys_mmap E bytes fd)" "keeps steps_ok (sys_mlock E a bytes)"
  by (auto intro!: keepsI simp: sys_open_def sys_close_def sys_mmap_def sys_mlock_def modifyM_run
      Let_def steps_ok_emit)

lemma keeps_create_rn_dev [keeps_intros]:
  "keeps steps_ok (create_rn_dev E pcie_resource num_hugepages_request num_qp)"
  unfolding create_rn_dev_def create_base_buf_def by (intro keeps_intros)

lemma keeps_allocate_same_regs [keeps_intros]:
  "keeps same_regs (allocate_rdma_buffer E rn_dev buf_size buf_location)"
  unfolding allocate_rdma_buffer_def allocate_host_arm_def allocate_device_arm_def
    get_buffer_paddr_def get_page_frame_number_of_address_def
  by (intro keeps_intros) (simp_all add: no_register_write_def)

subsection \<open>Where a buffer is placed\<close>

lemma unat_page_offset: "unat (x AND HARDWARE_PAGE_SIZE_ADDRESS_MASK) = unat x mod 4096"
proof -
  have "x AND HARDWARE_PAGE_SIZE_ADDRESS_MASK = take_bit 12 x"
    by (simp add: HARDWARE_PAGE_SIZE_ADDRESS_MASK_def take_bit_eq_mask mask_eq_exp_minus_1)
  then show ?thesis by (simp add: unsigned_take_bit_eq) (simp add: take_bit_eq_mod)
qed

lemma unat_page_start:
  "unat (x AND HARDWARE_PAGE_SIZE_ALIGNMENT_MASK) = unat x - unat x mod 4096"
proof -
  have "HARDWARE_PAGE_SIZE_ALIGNMENT_MASK = NOT (mask 12)"
    by (simp add: HARDWARE_PAGE_SIZE_ALIGNMENT_MASK_def mask_eq_exp_minus_1)
  then have "x AND HARDWARE_PAGE_SIZE_ALIGNMENT_MASK = x AND NOT (mask 12)" by (simp only:)
  also have "\<dots> = push_bit 12 (drop_bit 12 x)"
    by (rule bit_word_eqI) (auto simp: bit_simps)
  also have "\<dots> = x - take_bit 12 x"
    using bits_ident [of 12 x] by (simp add: eq_diff_eq)
  finally have *: "x AND HARDWARE_PAGE_SIZE_ALIGNMENT_MASK = x - take_bit 12 x" .
  have t: "unat (take_bit 12 x) = unat x mod 4096"
    by (simp add: unsigned_take_bit_eq) (simp add: take_bit_eq_mod)
  then have "take_bit 12 x \<le> x" by (simp add: word_le_nat_alt)
  from unat_sub [OF this] * t show ?thesis by simp
qed

text \<open>
  The placement: it only moves forward, by less than a page; a buffer of at most a page ends in
  the page where it starts, and a larger one starts on a page boundary.
\<close>

lemma place_buffer_spec:
  fixes off n :: u64
  assumes "unat off + 4096 < 2 ^ 64"
  shows "unat off \<le> unat (place_buffer off n) \<and> unat (place_buffer off n) < unat off + 4096 \<and>
     (unat n \<le> 4096 \<longrightarrow> unat (place_buffer off n) mod 4096 + unat n \<le> 4096) \<and>
     (4096 < unat n \<longrightarrow> unat (place_buffer off n) mod 4096 = 0)"
proof -
  have up: "unat ((off + HARDWARE_PAGE_SIZE) AND HARDWARE_PAGE_SIZE_ALIGNMENT_MASK) =
      unat off + 4096 - unat off mod 4096"
    using assms by (subst unat_page_start) (simp add: unat_u64_add HARDWARE_PAGE_SIZE_def)
  have in_page: "unat off mod 4096 < 4096" by simp
  have aligned: "(unat off + 4096 - unat off mod 4096) mod 4096 = 0"
  proof -
    have "unat off + 4096 - unat off mod 4096 = (unat off div 4096 + 1) * 4096"
      using div_mult_mod_eq [of "unat off" 4096] by (simp only: distrib_right)
    then show ?thesis by simp
  qed
  have size: "n \<le> HARDWARE_PAGE_SIZE \<longleftrightarrow> unat n \<le> 4096"
    by (simp add: HARDWARE_PAGE_SIZE_def word_le_nat_alt)
  have zero: "off AND HARDWARE_PAGE_SIZE_ADDRESS_MASK = 0 \<longleftrightarrow> unat off mod 4096 = 0"
    by (metis unat_page_offset unat_eq_zero)
  show ?thesis
  proof (cases "unat n \<le> 4096")
    case True
    have "unat ((off AND HARDWARE_PAGE_SIZE_ADDRESS_MASK) + n) = unat off mod 4096 + unat n"
      using True in_page by (subst unat_u64_add) (simp_all add: unat_page_offset)
    then have cross: "HARDWARE_PAGE_SIZE < (off AND HARDWARE_PAGE_SIZE_ADDRESS_MASK) + n \<longleftrightarrow>
        4096 < unat off mod 4096 + unat n"
      by (simp add: HARDWARE_PAGE_SIZE_def word_less_nat_alt)
    have "0 < unat off mod 4096" if "4096 < unat off mod 4096 + unat n" using that True by arith
    with True size cross up aligned in_page show ?thesis
      unfolding place_buffer_def by auto
  next
    case False
    with size zero up aligned in_page show ?thesis
      unfolding place_buffer_def by auto
  qed
qed

subsection \<open>The effect of an allocation\<close>

lemma allocate_host_effect:
  assumes ok: "world_ok w" and rn: "heap w rn = Some (O_rn_dev d)"
    and base: "heap w (rn_base_buf d) = Some (O_rdma_buff b)"
    and run: "allocate_rdma_buffer E rn n HOST_MEM w = Some (Ret p, w')"
  defines "off \<equiv> place_buffer (rn_buffer_offset d) n"
  shows "p = next_ptr w \<and> p \<noteq> NULL \<and> next_ptr w' = Suc p \<and>
    (\<exists>dma w1 w2. get_buffer_paddr E (buf_buffer b + off) w1 = Some (Ret dma, w2) \<and>
       heap w' = (heap w)(rn \<mapsto> O_rn_dev (d\<lparr>rn_buffer_offset := off + n\<rparr>),
         p \<mapsto> O_rdma_buff \<lparr>buf_buffer = buf_buffer b + off, buf_dma_addr = dma,
           buf_buf_size = ucast n\<rparr>))"
proof -
  from run obtain p1 w1 where m: "malloc E (O_rdma_buff (junk_rdma_buff E)) w = Some (Ret p1, w1)"
    and p1: "p1 \<noteq> NULL" and arm: "allocate_host_arm E rn p1 n w1 = Some (Ret p, w')"
    unfolding allocate_rdma_buffer_def by (elim bindM_RetE) (auto simp: exitM_def split: if_splits)
  from m p1 have p1_eq: "p1 = next_ptr w"
    and w1: "w1 = w\<lparr>next_ptr := Suc p1, heap := (heap w)(p1 \<mapsto> O_rdma_buff (junk_rdma_buff E))\<rparr>"
    by (auto elim: malloc_RetE)
  from ok rn base have fresh: "rn \<noteq> p1" "rn_base_buf d \<noteq> p1"
    using world_ok_fresh [OF ok] by (auto simp: p1_eq)
  let ?b = "(junk_rdma_buff E)\<lparr>buf_buffer := buf_buffer b + off, buf_buf_size := ucast n\<rparr>"
  let ?w2 = "w\<lparr>next_ptr := Suc p1, heap := (heap w)(p1 \<mapsto> O_rdma_buff ?b,
      rn \<mapsto> O_rn_dev (d\<lparr>rn_buffer_offset := off + n\<rparr>))\<rparr>"
  have arm_run: "allocate_host_arm E rn p1 n w1 =
      bindM (get_buffer_paddr E (buf_buffer b + off)) (\<lambda>paddr.
        thenM (store p1 (O_rdma_buff (?b\<lparr>buf_dma_addr := paddr\<rparr>))) (returnM p1)) ?w2"
    using rn base fresh
    by (simp add: allocate_host_arm_def w1 run_simps Let_def off_def fun_upd_twist)
  from arm [unfolded arm_run] obtain dma w3 where
      paddr: "get_buffer_paddr E (buf_buffer b + off) ?w2 = Some (Ret dma, w3)"
    and rest: "thenM (store p1 (O_rdma_buff (?b\<lparr>buf_dma_addr := dma\<rparr>))) (returnM p1) w3 = Some (Ret p, w')"
    by (rule bindM_RetE)
  from keepsD [OF keeps_get_buffer_paddr(2) paddr]
  have same: "heap w3 = heap ?w2" "next_ptr w3 = Suc p1" by (simp_all add: same_store_def)
  have "w' = w3\<lparr>heap := (heap w3)(p1 \<mapsto> O_rdma_buff (?b\<lparr>buf_dma_addr := dma\<rparr>))\<rparr>" "p = p1"
    using rest by (auto elim!: thenM_RetE store_RetE simp: returnM_def)
  with same p1 p1_eq paddr fresh show ?thesis
    by (auto intro!: exI [of _ dma] simp: fun_upd_twist)
qed

lemma allocate_device_effect:
  assumes ok: "world_ok w" and rn: "heap w rn = Some (O_rn_dev d)"
    and run: "allocate_rdma_buffer E rn n DEVICE_MEM w = Some (Ret p, w')"
  defines "off \<equiv> place_buffer (rn_dev_buffer_offset d) n"
  shows "p = next_ptr w \<and> p \<noteq> NULL \<and> next_ptr w' = Suc p \<and> off + n \<le> DEVICE_MEM_SIZE \<and>
    heap w' = (heap w)(rn \<mapsto> O_rn_dev (d\<lparr>rn_dev_buffer_offset := off + n\<rparr>),
      p \<mapsto> O_rdma_buff \<lparr>buf_buffer = off OR DEVICE_MEM_OFFSET,
        buf_dma_addr = off OR DEVICE_MEM_OFFSET, buf_buf_size = ucast n\<rparr>)"
proof -
  from run obtain p1 w1 where m: "malloc E (O_rdma_buff (junk_rdma_buff E)) w = Some (Ret p1, w1)"
    and p1: "p1 \<noteq> NULL" and arm: "allocate_device_arm rn p1 n w1 = Some (Ret p, w')"
    unfolding allocate_rdma_buffer_def by (elim bindM_RetE) (auto simp: exitM_def split: if_splits)
  from m p1 have p1_eq: "p1 = next_ptr w"
    and w1: "w1 = w\<lparr>next_ptr := Suc p1, heap := (heap w)(p1 \<mapsto> O_rdma_buff (junk_rdma_buff E))\<rparr>"
    by (auto elim: malloc_RetE)
  from ok rn have fresh: "rn \<noteq> p1"
    using world_ok_fresh [OF ok] by (auto simp: p1_eq)
  from arm show ?thesis
    using rn fresh p1 p1_eq
    by (auto simp: allocate_device_arm_def w1 run_simps Let_def off_def assertM_def fun_upd_twist
        split: if_splits)
qed

text \<open>What every successful allocation does to the store, for both memories.\<close>

lemma allocate_frame:
  assumes ok: "world_ok w" and rn: "heap w rn = Some (O_rn_dev d)"
    and base: "heap w (rn_base_buf d) = Some (O_rdma_buff b)"
    and run: "allocate_rdma_buffer E rn n loc w = Some (Ret p, w')"
  shows "p = next_ptr w \<and> world_ok w' \<and> next_ptr w' = Suc (next_ptr w) \<and>
    (\<exists>b'. heap w' p = Some (O_rdma_buff b') \<and> buf_buf_size b' = ucast n) \<and>
    (\<exists>d'. heap w' rn = Some (O_rn_dev d') \<and> rn_base_buf d' = rn_base_buf d) \<and>
    (\<forall>x. x \<noteq> rn \<and> x \<noteq> p \<longrightarrow> heap w' x = heap w x)"
proof -
  have ok': "world_ok w'"
    using keepsD [OF keeps_allocate_rdma_buffer run] ok by (simp add: steps_ok_def)
  have fresh: "rn \<noteq> next_ptr w" using rn world_ok_fresh [OF ok] by auto
  consider "loc = HOST_MEM" | "loc = DEVICE_MEM"
    using run by (auto simp: allocate_rdma_buffer_def exitM_def elim!: bindM_RetE split: if_splits)
  then show ?thesis
  proof cases
    case 1
    from allocate_host_effect [OF ok rn base run [unfolded 1]] ok' fresh show ?thesis by auto
  next
    case 2
    from allocate_device_effect [OF ok rn run [unfolded 2]] ok' fresh show ?thesis by auto
  qed
qed

subsection \<open>Sequences of allocations\<close>

text \<open>
  A run of an allocator next to another one that shares its state: the regions the first one
  handed out, in order.
\<close>

inductive bump_trace ::
    "('s \<Rightarrow> nat \<Rightarrow> nat \<Rightarrow> 's \<Rightarrow> bool) \<Rightarrow> ('s \<Rightarrow> 's \<Rightarrow> bool) \<Rightarrow> 's \<Rightarrow> (nat \<times> nat) list \<Rightarrow> 's \<Rightarrow> bool"
  for own other where
  trace_end: "bump_trace own other s [] s"
| trace_own: "own s a n s1 \<Longrightarrow> bump_trace own other s1 rs s2 \<Longrightarrow> bump_trace own other s ((a, n) # rs) s2"
| trace_other: "other s s1 \<Longrightarrow> bump_trace own other s1 rs s2 \<Longrightarrow> bump_trace own other s rs s2"

text \<open>
  The contract of a bump allocator: a region starts at or after the mark and the mark moves
  behind it, and nobody else moves the mark back. Then the regions of a run are in ascending
  order and do not overlap.
\<close>

locale bump_region =
  fixes mark :: "'s \<Rightarrow> nat"
    and own :: "'s \<Rightarrow> nat \<Rightarrow> nat \<Rightarrow> 's \<Rightarrow> bool"
    and other :: "'s \<Rightarrow> 's \<Rightarrow> bool"
  assumes own_forward: "own s a n s' \<Longrightarrow> mark s \<le> a \<and> a + n \<le> mark s'"
    and other_forward: "other s s' \<Longrightarrow> mark s \<le> mark s'"
begin

lemma trace_bounds:
  "bump_trace own other s rs s' \<Longrightarrow>
   mark s \<le> mark s' \<and> (\<forall>(a, n) \<in> set rs. mark s \<le> a \<and> a + n \<le> mark s')"
  by (induction rule: bump_trace.induct) (force dest: own_forward other_forward)+

lemma trace_separate:
  "bump_trace own other s rs s' \<Longrightarrow> sorted_wrt (\<lambda>(a, n) (b, m). a + n \<le> b) rs"
proof (induction rule: bump_trace.induct)
  case (trace_own s a n s1 rs s2)
  then show ?case using trace_bounds [OF trace_own.hyps(2)] own_forward [OF trace_own.hyps(1)]
    by fastforce
qed simp_all

end

text \<open>
  One allocation in host memory, with the region that the returned structure describes. The code
  does not check the bound of the huge pages, so staying inside the address space is part of the
  step; the same for device memory, where the code checks the upper end only after the sum.
\<close>

definition host_alloc :: "env \<Rightarrow> ptr \<Rightarrow> world \<Rightarrow> nat \<Rightarrow> nat \<Rightarrow> world \<Rightarrow> bool" where
  "host_alloc E rn w a n w' \<longleftrightarrow>
     (\<exists>d b size p b'. world_ok w \<and> heap w rn = Some (O_rn_dev d) \<and>
        heap w (rn_base_buf d) = Some (O_rdma_buff b) \<and>
        unat (buf_buffer b) + unat (rn_buffer_offset d) + unat size + 4096 < 2 ^ 64 \<and>
        allocate_rdma_buffer E rn size HOST_MEM w = Some (Ret p, w') \<and>
        heap w' p = Some (O_rdma_buff b') \<and> a = unat (buf_buffer b') \<and> n = unat size)"

definition device_alloc :: "env \<Rightarrow> ptr \<Rightarrow> world \<Rightarrow> nat \<Rightarrow> nat \<Rightarrow> world \<Rightarrow> bool" where
  "device_alloc E rn w a n w' \<longleftrightarrow>
     (\<exists>d b size p b'. world_ok w \<and> heap w rn = Some (O_rn_dev d) \<and>
        heap w (rn_base_buf d) = Some (O_rdma_buff b) \<and>
        unat (rn_dev_buffer_offset d) + unat size + 4096 < 2 ^ 64 \<and>
        allocate_rdma_buffer E rn size DEVICE_MEM w = Some (Ret p, w') \<and>
        heap w' p = Some (O_rdma_buff b') \<and> a = unat (buf_dma_addr b') \<and> n = unat size)"

definition any_host_alloc :: "env \<Rightarrow> ptr \<Rightarrow> world \<Rightarrow> world \<Rightarrow> bool" where
  "any_host_alloc E rn w w' \<longleftrightarrow> (\<exists>a n. host_alloc E rn w a n w')"

definition any_device_alloc :: "env \<Rightarrow> ptr \<Rightarrow> world \<Rightarrow> world \<Rightarrow> bool" where
  "any_device_alloc E rn w w' \<longleftrightarrow> (\<exists>a n. device_alloc E rn w a n w')"

text \<open>The marks of the two allocators, as addresses.\<close>

definition host_mark :: "ptr \<Rightarrow> world \<Rightarrow> nat" where
  "host_mark rn w = (case heap w rn of
       Some (O_rn_dev d) \<Rightarrow> (case heap w (rn_base_buf d) of
           Some (O_rdma_buff b) \<Rightarrow> unat (buf_buffer b) + unat (rn_buffer_offset d)
         | _ \<Rightarrow> 0)
     | _ \<Rightarrow> 0)"

definition device_mark :: "ptr \<Rightarrow> world \<Rightarrow> nat" where
  "device_mark rn w = (case heap w rn of
       Some (O_rn_dev d) \<Rightarrow> unat DEVICE_MEM_OFFSET + unat (rn_dev_buffer_offset d)
     | _ \<Rightarrow> 0)"

lemma device_address_unat:
  assumes "unat off \<le> 2 ^ 32"
  shows "unat (off OR DEVICE_MEM_OFFSET) = unat DEVICE_MEM_OFFSET + unat off"
    and "is_device_address (off OR DEVICE_MEM_OFFSET) = 1"
proof -
  have "unat (take_bit 33 off) = unat off"
    using assms by (simp only: unsigned_take_bit_eq) (simp add: take_bit_nat_eq_self)
  then have "take_bit 33 off = off" by (rule unsigned_word_eqI)
  then have hi: "\<not> bit off k" if "33 \<le> k" for k
    using that by (metis bit_take_bit_iff linorder_not_le)
  have low: "off AND push_bit 48 c = 0" for c
    using hi by (intro bit_word_eqI) (auto simp: bit_simps)
  have offset: "DEVICE_MEM_OFFSET = push_bit 48 0xa350" "(0xfff0000000000000 :: u64) = push_bit 48 0xfff0"
    by (simp_all add: DEVICE_MEM_OFFSET_def push_bit_eq_mult)
  from low have "off AND DEVICE_MEM_OFFSET = 0" unfolding offset .
  then have "off OR DEVICE_MEM_OFFSET = off + DEVICE_MEM_OFFSET"
    by (simp add: disjunctive_add_eq_or)
  then show "unat (off OR DEVICE_MEM_OFFSET) = unat DEVICE_MEM_OFFSET + unat off"
    using assms by (simp add: unat_u64_add DEVICE_MEM_OFFSET_def)
  from low have "off AND 0xfff0000000000000 = 0" unfolding offset .
  then have "(off OR DEVICE_MEM_OFFSET) AND 0xfff0000000000000 = DEVICE_MEM_OFFSET"
    by (simp add: bit.conj_disj_distrib2) (simp add: DEVICE_MEM_OFFSET_def)
  then show "is_device_address (off OR DEVICE_MEM_OFFSET) = 1"
    by (simp add: is_device_address_def)
qed

lemma host_alloc_forward:
  "host_alloc E rn w a n w' \<Longrightarrow> host_mark rn w \<le> a \<and> a + n \<le> host_mark rn w' \<and>
     device_mark rn w \<le> device_mark rn w'"
proof -
  assume "host_alloc E rn w a n w'"
  then obtain d b size p b' where ok: "world_ok w" and rn: "heap w rn = Some (O_rn_dev d)"
    and base: "heap w (rn_base_buf d) = Some (O_rdma_buff b)"
    and fits: "unat (buf_buffer b) + unat (rn_buffer_offset d) + unat size + 4096 < 2 ^ 64"
    and run: "allocate_rdma_buffer E rn size HOST_MEM w = Some (Ret p, w')"
    and p: "heap w' p = Some (O_rdma_buff b')" "a = unat (buf_buffer b')" "n = unat size"
    by (auto simp: host_alloc_def)
  let ?off = "place_buffer (rn_buffer_offset d) size"
  have spec: "unat (rn_buffer_offset d) \<le> unat ?off" "unat ?off < unat (rn_buffer_offset d) + 4096"
    using place_buffer_spec [of "rn_buffer_offset d" size] fits by auto
  from allocate_host_effect [OF ok rn base run] obtain dma where
    p_new: "p = next_ptr w" and
    heap: "heap w' = (heap w)(rn \<mapsto> O_rn_dev (d\<lparr>rn_buffer_offset := ?off + size\<rparr>),
      p \<mapsto> O_rdma_buff \<lparr>buf_buffer = buf_buffer b + ?off, buf_dma_addr = dma, buf_buf_size = ucast size\<rparr>)"
    by blast
  have fresh: "rn \<noteq> p" "rn_base_buf d \<noteq> p" "rn_base_buf d \<noteq> rn"
    using world_ok_fresh [OF ok] rn base by (auto simp: p_new)
  have sums: "unat (buf_buffer b + ?off) = unat (buf_buffer b) + unat ?off"
    "unat (?off + size) = unat ?off + unat size"
    using fits spec by (auto intro: unat_u64_add)
  show ?thesis
    using rn base p heap fresh spec sums by (auto simp: host_mark_def device_mark_def)
qed

lemma device_alloc_forward:
  "device_alloc E rn w a n w' \<Longrightarrow> device_mark rn w \<le> a \<and> a + n \<le> device_mark rn w' \<and>
     host_mark rn w \<le> host_mark rn w'"
proof -
  assume "device_alloc E rn w a n w'"
  then obtain d b size p b' where ok: "world_ok w" and rn: "heap w rn = Some (O_rn_dev d)"
    and base: "heap w (rn_base_buf d) = Some (O_rdma_buff b)"
    and fits: "unat (rn_dev_buffer_offset d) + unat size + 4096 < 2 ^ 64"
    and run: "allocate_rdma_buffer E rn size DEVICE_MEM w = Some (Ret p, w')"
    and p: "heap w' p = Some (O_rdma_buff b')" "a = unat (buf_dma_addr b')" "n = unat size"
    by (auto simp: device_alloc_def)
  let ?off = "place_buffer (rn_dev_buffer_offset d) size"
  have spec: "unat (rn_dev_buffer_offset d) \<le> unat ?off"
    "unat ?off < unat (rn_dev_buffer_offset d) + 4096"
    using place_buffer_spec [of "rn_dev_buffer_offset d" size] fits by auto
  from allocate_device_effect [OF ok rn run] have
    p_new: "p = next_ptr w" and bound: "?off + size \<le> DEVICE_MEM_SIZE" and
    heap: "heap w' = (heap w)(rn \<mapsto> O_rn_dev (d\<lparr>rn_dev_buffer_offset := ?off + size\<rparr>),
      p \<mapsto> O_rdma_buff \<lparr>buf_buffer = ?off OR DEVICE_MEM_OFFSET,
        buf_dma_addr = ?off OR DEVICE_MEM_OFFSET, buf_buf_size = ucast size\<rparr>)"
    by blast+
  have fresh: "rn \<noteq> p" "rn_base_buf d \<noteq> p" "rn_base_buf d \<noteq> rn"
    using world_ok_fresh [OF ok] rn base by (auto simp: p_new)
  have sum: "unat (?off + size) = unat ?off + unat size"
    using fits spec by (auto intro: unat_u64_add)
  with bound have "unat ?off \<le> 2 ^ 32" by (simp add: DEVICE_MEM_SIZE_def word_le_nat_alt)
  note addr = device_address_unat(1) [OF this]
  show ?thesis
    using rn base p heap fresh spec sum addr by (auto simp: host_mark_def device_mark_def)
qed

interpretation host_region: bump_region "host_mark rn" "host_alloc E rn" "any_device_alloc E rn"
  for E rn
  by unfold_locales (auto simp: any_device_alloc_def dest: host_alloc_forward device_alloc_forward)

interpretation device_region: bump_region "device_mark rn" "device_alloc E rn" "any_host_alloc E rn"
  for E rn
  by unfold_locales (auto simp: any_host_alloc_def dest: host_alloc_forward device_alloc_forward)

subsection \<open>The windows of the bridge\<close>

text \<open>The six registers of a window, and the register file after a list of writes to all eight.\<close>

definition BDF_REGS :: "u32 list" where
  "BDF_REGS = [AXIB_BDF_ADDR_TRANSLATE_ADDR_LSB, AXIB_BDF_ADDR_TRANSLATE_ADDR_MSB, AXIB_BDF_PASID_RESERVED_ADDR,
     AXIB_BDF_FUNCTION_NUM_ADDR, AXIB_BDF_MAP_CONTROL_ADDR, AXIB_BDF_RESERVED_ADDR]"

lemma bdf_windows_lookup:
  fixes h l c :: u32
  assumes "j < 8"
  defines "ws \<equiv> concat (map (\<lambda>i. bdf_window h l c (word_of_nat i)) [0..<8])"
  shows "map (\<lambda>r. map_of (rev ws) (r + word_of_nat j * 0x20)) BDF_REGS =
    [Some l, Some (h + word_of_nat j * 0x20), Some 0, Some 0, Some c, Some 0]"
proof -
  have "j \<in> set [0..<8]" using assms by simp
  moreover have "\<forall>j \<in> set [0..<8]. map (\<lambda>r. map_of (rev ws) (r + word_of_nat j * 0x20)) BDF_REGS =
      [Some l, Some (h + word_of_nat j * 0x20), Some 0, Some 0, Some c, Some 0]"
    unfolding ws_def by (simp add: upt_conv_Cons bdf_window_def BDF_REGS_def reg_defs)
  ultimately show ?thesis by blast
qed

lemma window_base_sum:
  fixes base a :: u64
  assumes same: "drop_bit 40 a = drop_bit 40 base"
  defines "k \<equiv> (ucast (take_bit 3 (drop_bit 37 a)) :: u32)"
  shows "join32 ((hi32 base AND 0xffffff00) + k * 0x20) 0 + take_bit 37 a = a"
proof -
  have m: "(0xffffff00 :: u32) = push_bit 8 (mask 24)" "k * 0x20 = push_bit 5 k"
    by (simp_all add: mask_eq_exp_minus_1 push_bit_eq_mult)
  have k: "bit k n \<longleftrightarrow> n < 3 \<and> bit a (37 + n)" for n
    by (auto simp: k_def bit_simps)
  have high: "bit base n = bit a n" if "40 \<le> n" for n
    using that arg_cong [OF same, of "\<lambda>x. bit x (n - 40)"] by (simp add: bit_simps)
  have "(hi32 base AND 0xffffff00) AND k * 0x20 = 0"
    unfolding m by (rule bit_word_eqI) (auto simp: bit_simps k)
  then have "(hi32 base AND 0xffffff00) + k * 0x20 = (hi32 base AND 0xffffff00) OR k * 0x20"
    by (rule disjunctive_add_eq_or)
  note sum = this
  let ?h = "(hi32 base AND 0xffffff00) OR k * 0x20"
  have "join32 ?h 0 AND take_bit 37 a = 0"
    unfolding m by (rule bit_word_eqI) (auto simp: bit_simps word_bits k)
  then have "join32 ?h 0 + take_bit 37 a = join32 ?h 0 OR take_bit 37 a"
    by (rule disjunctive_add_eq_or)
  also have "\<dots> = a"
  proof (rule bit_word_eqI)
    fix n assume "n < LENGTH(64)"
    then consider "n < 37" | "37 \<le> n" "n < 40" | "40 \<le> n" "n < 64" by fastforce
    then show "bit (join32 ?h 0 OR take_bit 37 a) n = bit a n"
      unfolding m by cases (auto simp: bit_simps word_bits k high)
  qed
  finally show ?thesis by (simp only: sum)
qed

text \<open>A host address in its masked form, cut into pieces of 128 GB.\<close>

lemma masked_pieces:
  fixes addr :: u64
  shows "\<exists>i<8. \<exists>off<2 ^ 37. join32 (hi32 addr AND 0xff) (lo32 addr AND 0xffffffff) = word_of_nat i * 2 ^ 37 + off \<and>
    join32 ((hi32 addr AND 0xffffff00) + word_of_nat i * 0x20) 0 + off = addr"
proof -
  let ?k = "take_bit 3 (drop_bit 37 addr)"
  have m: "(0xff :: u32) = mask 8" by (simp add: mask_eq_exp_minus_1)
  have i: "unat ?k < 8" by (simp add: unsigned_take_bit_eq) (simp add: take_bit_eq_mod)
  have off: "take_bit 37 addr < 2 ^ 37"
    using take_bit_nat_less_exp [of 37 "unat addr"] by (simp add: word_less_nat_alt unsigned_take_bit_eq)
  have "push_bit 37 ?k AND take_bit 37 addr = 0" by (rule bit_word_eqI) (auto simp: bit_simps)
  then have "push_bit 37 ?k + take_bit 37 addr = push_bit 37 ?k OR take_bit 37 addr" by (rule disjunctive_add_eq_or)
  also have "\<dots> = join32 (hi32 addr AND 0xff) (lo32 addr AND 0xffffffff)"
    unfolding m mask32_eq by (rule bit_word_eqI) (auto simp: bit_simps word_bits)
  finally have masked: "join32 (hi32 addr AND 0xff) (lo32 addr AND 0xffffffff) = word_of_nat (unat ?k) * 2 ^ 37 + take_bit 37 addr"
    by (simp add: push_bit_eq_mult)
  have "(word_of_nat (unat ?k) :: u32) = ucast ?k" by (simp add: of_nat_unat)
  with window_base_sum [of addr addr] masked i off show ?thesis
    by (intro exI [where x = "unat ?k"] conjI exI [where x = "take_bit 37 addr"]) simp_all
qed

lemma config_axib_bdf_run:
  assumes "rn \<noteq> NULL" and "heap w rn = Some (O_rn_dev d)"
    and "heap w (rn_winSize d) = Some (O_win_size ws)"
  shows "config_rn_dev_axib_bdf rn hi lo w = Some (Ret (),
    w\<lparr>heap := (heap w)(rn_winSize d \<mapsto> O_win_size \<lparr>win_size_lsb = 0xffffffff, win_size_msb = 0xff\<rparr>),
      hist := block_events (rn_axil_ctl d)
        (concat (map (\<lambda>i. bdf_window (hi AND 0xffffff00) 0 0xc2000000 (word_of_nat i)) [0..<8]))
        @ hist w\<rparr>)"
  using assms
  by (cases ws) (simp add: config_rn_dev_axib_bdf_def Let_def run_simps get_win_size_def
      AXI_BAR_SIZE_def ADDR_MASK_def del: upt_Suc)

subsection \<open>Properties\<close>

text \<open>
  C27: what \<open>config_rn_dev_axib_bdf\<close> programs. The window size becomes the 40-bit mask, and each of the
  eight windows has its registers: the translation address is the upper 24 bits of the base
  followed by \<open>i * 128\<close> GB, the configuration word is 0xC2000000, and the rest is 0; no other
  register is written and nothing else in the store changes. These translation addresses undo the
  mask that the library applies to a host address before the engine gets it: every address with
  the upper 24 bits of the base is, for the number \<open>i\<close> of the 128 GB piece in which its masked form
  lies, the \<open>i\<close>-th translation address plus the offset in the piece. (The bridge itself is not
  modelled.)
\<close>

theorem bdf_windows_programmed:
  assumes "rn \<noteq> NULL" and "heap w rn = Some (O_rn_dev d)"
    and "heap w (rn_winSize d) = Some (O_win_size ws)"
  shows "\<exists>w'. config_rn_dev_axib_bdf rn hi lo w = Some (Ret (), w') \<and>
    heap w' = (heap w)(rn_winSize d \<mapsto> O_win_size \<lparr>win_size_lsb = 0xffffffff, win_size_msb = 0xff\<rparr>) \<and>
    (\<forall>i<8. map (\<lambda>r. last_write (hist w') (rn_axil_ctl d + ucast (r + word_of_nat i * 0x20))) BDF_REGS =
       [Some 0, Some ((hi AND 0xffffff00) + word_of_nat i * 0x20), Some 0, Some 0, Some 0xc2000000, Some 0]) \<and>
    (\<forall>a. (\<forall>i<8. a \<notin> (\<lambda>r. rn_axil_ctl d + ucast (r + word_of_nat i * 0x20)) ` set BDF_REGS) \<longrightarrow>
       last_write (hist w') a = last_write (hist w) a) \<and>
    (\<forall>addr. hi32 addr AND 0xffffff00 = hi AND 0xffffff00 \<longrightarrow>
       (\<exists>i<8. \<exists>off<2 ^ 37. join32 (hi32 addr AND 0xff) (lo32 addr AND 0xffffffff) = word_of_nat i * 2 ^ 37 + off \<and>
          join32 ((hi AND 0xffffff00) + word_of_nat i * 0x20) 0 + off = addr))"
proof -
  let ?ws = "concat (map (\<lambda>i. bdf_window (hi AND 0xffffff00) 0 0xc2000000 (word_of_nat i)) [0..<8])"
  let ?w' = "w\<lparr>heap := (heap w)(rn_winSize d \<mapsto> O_win_size \<lparr>win_size_lsb = 0xffffffff, win_size_msb = 0xff\<rparr>),
      hist := block_events (rn_axil_ctl d) ?ws @ hist w\<rparr>"
  have regs: "map (\<lambda>r. last_write (hist ?w') (rn_axil_ctl d + ucast (r + word_of_nat i * 0x20))) BDF_REGS =
       [Some 0, Some ((hi AND 0xffffff00) + word_of_nat i * 0x20), Some 0, Some 0, Some 0xc2000000, Some 0]" if "i < 8" for i
    using bdf_windows_lookup [OF that, of "hi AND 0xffffff00" 0 "0xc2000000"]
    by (simp add: BDF_REGS_def last_write_append last_write_block del: upt_Suc)
  have frame: "last_write (hist ?w') a = last_write (hist w) a"
    if "\<forall>i<8. a \<notin> (\<lambda>r. rn_axil_ctl d + ucast (r + word_of_nat i * 0x20)) ` set BDF_REGS" for a
  proof -
    have "\<forall>(off, v) \<in> set ?ws. rn_axil_ctl d + ucast off \<noteq> a"
      using that by (auto simp: bdf_window_def BDF_REGS_def simp del: upt_Suc)
    then show ?thesis using last_write_block_frame by simp
  qed
  have pieces: "\<exists>i<8. \<exists>off<2 ^ 37. join32 (hi32 addr AND 0xff) (lo32 addr AND 0xffffffff) = word_of_nat i * 2 ^ 37 + off \<and>
          join32 ((hi AND 0xffffff00) + word_of_nat i * 0x20) 0 + off = addr"
    if "hi32 addr AND 0xffffff00 = hi AND 0xffffff00" for addr
    using masked_pieces [of addr] by (simp add: that)
  from regs frame pieces config_axib_bdf_run [OF assms, of hi lo] show ?thesis
    by (intro exI [where x = ?w'] conjI) (simp_all del: upt_Suc)
qed

theorem bdf_windows_programmed_witness:
  "\<exists>w'. config_rn_dev_axib_bdf 1 0x123 0x45678000 demo_world = Some (Ret (), w') \<and>
    last_write (hist w') (0x10000000 + ucast (AXIB_BDF_ADDR_TRANSLATE_ADDR_MSB + 7 * 0x20)) = Some 0x1e0"
proof -
  obtain w' where run: "config_rn_dev_axib_bdf 1 0x123 0x45678000 demo_world = Some (Ret (), w')"
    and regs: "\<forall>i<8. map (\<lambda>r. last_write (hist w') (rn_axil_ctl demo_rn + ucast (r + word_of_nat i * 0x20))) BDF_REGS =
       [Some 0, Some ((0x123 AND 0xffffff00) + word_of_nat i * 0x20), Some 0, Some 0, Some 0xc2000000, Some 0]"
    using bdf_windows_programmed [of 1 demo_world demo_rn _ "0x123" "0x45678000"] by auto
  from regs [rule_format, of 7] run show ?thesis by (simp add: BDF_REGS_def)
qed

text \<open>
  A host allocation succeeds with a fresh buffer structure that points into the huge pages at
  or after the current offset, moves the offset behind the buffer, and keeps a buffer of at most
  4 KB within one hardware page and starts a larger one on a page; nothing else in the store
  changes. The physical address is the one that the page map gives for the buffer.
\<close>

theorem allocate_host_buffer:
  assumes "world_ok w" and "heap w rn = Some (O_rn_dev d)"
    and "heap w (rn_base_buf d) = Some (O_rdma_buff b)"
    and "unat (rn_buffer_offset d) + 4096 < 2 ^ 64"
    and "allocate_rdma_buffer E rn n HOST_MEM w = Some (Ret p, w')"
  shows "\<exists>off dma w1 w2.
    unat (rn_buffer_offset d) \<le> unat off \<and> unat off < unat (rn_buffer_offset d) + 4096 \<and>
    (unat n \<le> 4096 \<longrightarrow> unat off mod 4096 + unat n \<le> 4096) \<and>
    (4096 < unat n \<longrightarrow> unat off mod 4096 = 0) \<and>
    get_buffer_paddr E (buf_buffer b + off) w1 = Some (Ret dma, w2) \<and>
    p = next_ptr w \<and> heap w p = None \<and>
    heap w' = (heap w)(rn \<mapsto> O_rn_dev (d\<lparr>rn_buffer_offset := off + n\<rparr>),
      p \<mapsto> O_rdma_buff \<lparr>buf_buffer = buf_buffer b + off, buf_dma_addr = dma, buf_buf_size = ucast n\<rparr>)"
  using allocate_host_effect [OF assms(1,2,3,5)] place_buffer_spec [OF assms(4), of n]
    world_ok_fresh [OF assms(1)]
  by - (rule exI [where x = "place_buffer (rn_buffer_offset d) n"], auto)

text \<open>
  A device allocation succeeds with a fresh buffer structure whose two addresses agree and
  are recognised as device memory by \<open>is_device_address\<close>; the whole buffer lies in the 4 GB of the
  device, at or after the current offset, with the same page rule.
\<close>

theorem allocate_device_buffer:
  assumes "world_ok w" and "heap w rn = Some (O_rn_dev d)"
    and "unat (rn_dev_buffer_offset d) + unat n + 4096 < 2 ^ 64"
    and "allocate_rdma_buffer E rn n DEVICE_MEM w = Some (Ret p, w')"
  shows "\<exists>off a. a = off OR DEVICE_MEM_OFFSET \<and> is_device_address a = 1 \<and>
    unat (rn_dev_buffer_offset d) \<le> unat off \<and> unat off + unat n \<le> 4294967296 \<and>
    (unat n \<le> 4096 \<longrightarrow> unat off mod 4096 + unat n \<le> 4096) \<and>
    (4096 < unat n \<longrightarrow> unat off mod 4096 = 0) \<and>
    p = next_ptr w \<and> heap w p = None \<and>
    heap w' = (heap w)(rn \<mapsto> O_rn_dev (d\<lparr>rn_dev_buffer_offset := off + n\<rparr>),
      p \<mapsto> O_rdma_buff \<lparr>buf_buffer = a, buf_dma_addr = a, buf_buf_size = ucast n\<rparr>)"
proof -
  let ?off = "place_buffer (rn_dev_buffer_offset d) n"
  have spec: "unat (rn_dev_buffer_offset d) \<le> unat ?off"
    "unat ?off < unat (rn_dev_buffer_offset d) + 4096"
    "unat n \<le> 4096 \<longrightarrow> unat ?off mod 4096 + unat n \<le> 4096"
    "4096 < unat n \<longrightarrow> unat ?off mod 4096 = 0"
    using place_buffer_spec [of "rn_dev_buffer_offset d" n] assms(3) by auto
  note effect = allocate_device_effect [OF assms(1,2,4)]
  have "unat (?off + n) = unat ?off + unat n" using spec assms(3) by (intro unat_u64_add) auto
  moreover have "?off + n \<le> DEVICE_MEM_SIZE" using effect by blast
  ultimately have "unat ?off + unat n \<le> 4294967296"
    by (simp add: DEVICE_MEM_SIZE_def word_le_nat_alt)
  with device_address_unat(2) [of ?off] effect spec world_ok_fresh [OF assms(1)] show ?thesis
    by - (rule exI [where x = ?off], rule exI [where x = "?off OR DEVICE_MEM_OFFSET"], auto)
qed

text \<open>
  C20: buffers allocated one after the other never overlap: in every run that allocates in host
  memory and device memory in any order, the host buffers lie in ascending order without
  overlap.
\<close>

theorem host_buffers_separate:
  "bump_trace (host_alloc E rn) (any_device_alloc E rn) w regions w' \<Longrightarrow>
   sorted_wrt (\<lambda>(a, n) (b, m). a + n \<le> b) regions"
  by (rule host_region.trace_separate)

text \<open>
  C26: the same for device memory: the device buffers of any run with host allocations in between
  lie in ascending order without overlap.
\<close>

theorem device_buffers_separate:
  "bump_trace (device_alloc E rn) (any_host_alloc E rn) w regions w' \<Longrightarrow>
   sorted_wrt (\<lambda>(a, n) (b, m). a + n \<le> b) regions"
  by (rule device_region.trace_separate)

text \<open>Runs on the concrete state, at which the properties are evaluated.\<close>

lemma idle_paddr_run:
  "\<exists>paddr w'. get_buffer_paddr idle_env a w = Some (Ret paddr, w')"
  by (simp add: get_buffer_paddr_def get_page_frame_number_of_address_def run_simps Let_def
      PAGEMAP_LENGTH_def)

lemma idle_store_paddr_run:
  assumes "heap w p \<noteq> None"
  shows "\<exists>w'. bindM (get_buffer_paddr idle_env a) (\<lambda>paddr.
      thenM (store p (ob paddr)) (returnM p)) w = Some (Ret p, w')"
proof -
  obtain paddr w1 where run: "get_buffer_paddr idle_env a w = Some (Ret paddr, w1)"
    using idle_paddr_run by blast
  from keepsD [OF keeps_get_buffer_paddr(2) run] assms have "heap w1 p \<noteq> None"
    by (simp add: same_store_def)
  with run show ?thesis by (simp add: run_simps)
qed

lemma idle_host_run:
  assumes "world_ok w" and "heap w rn = Some (O_rn_dev d)"
    and "heap w (rn_base_buf d) = Some (O_rdma_buff b)"
  shows "\<exists>w'. allocate_rdma_buffer idle_env rn n HOST_MEM w = Some (Ret (next_ptr w), w')"
proof -
  have "0 < next_ptr w" "rn \<noteq> next_ptr w" "rn_base_buf d \<noteq> next_ptr w" "rn_base_buf d \<noteq> rn"
    using assms world_ok_fresh [OF assms(1)] by (auto simp: world_ok_def)
  with assms show ?thesis
    by (auto simp: allocate_rdma_buffer_def allocate_host_arm_def run_simps Let_def
        intro!: idle_store_paddr_run)
qed

lemma idle_device_run:
  assumes "world_ok w" and "heap w rn = Some (O_rn_dev d)"
    and "place_buffer (rn_dev_buffer_offset d) n + n \<le> DEVICE_MEM_SIZE"
  shows "\<exists>w'. allocate_rdma_buffer idle_env rn n DEVICE_MEM w = Some (Ret (next_ptr w), w')"
proof -
  have "0 < next_ptr w" "rn \<noteq> next_ptr w"
    using assms world_ok_fresh [OF assms(1)] by (auto simp: world_ok_def)
  with assms show ?thesis
    by (simp add: allocate_rdma_buffer_def allocate_device_arm_def run_simps Let_def assertM_def)
qed

lemma demo_device_fits: "place_buffer 0 64 + 64 \<le> DEVICE_MEM_SIZE"
  "place_buffer (place_buffer 0 64 + 64) 4096 + 4096 \<le> DEVICE_MEM_SIZE"
  by (simp_all add: place_buffer_def HARDWARE_PAGE_SIZE_def HARDWARE_PAGE_SIZE_ADDRESS_MASK_def
      HARDWARE_PAGE_SIZE_ALIGNMENT_MASK_def DEVICE_MEM_SIZE_def)

theorem allocate_host_buffer_witness:
  "\<exists>w'. allocate_rdma_buffer idle_env 1 64 HOST_MEM demo_world = Some (Ret 4, w') \<and>
     (\<exists>b. heap w' 4 = Some (O_rdma_buff b) \<and> buf_buf_size b = 64)"
proof -
  obtain w' where run: "allocate_rdma_buffer idle_env 1 64 HOST_MEM demo_world = Some (Ret 4, w')"
    using idle_host_run [OF demo_world_ok, of 1 demo_rn] by auto
  from allocate_host_buffer [OF demo_world_ok _ _ _ run, of demo_rn] run show ?thesis by auto
qed

theorem allocate_device_buffer_witness:
  "\<exists>w'. allocate_rdma_buffer idle_env 1 64 DEVICE_MEM demo_world = Some (Ret 4, w') \<and>
     (\<exists>b. heap w' 4 = Some (O_rdma_buff b) \<and> is_device_address (buf_dma_addr b) = 1)"
proof -
  obtain w' where run: "allocate_rdma_buffer idle_env 1 64 DEVICE_MEM demo_world = Some (Ret 4, w')"
    using idle_device_run [OF demo_world_ok, of 1 demo_rn] demo_device_fits by auto
  from allocate_device_buffer [OF demo_world_ok _ _ run, of demo_rn] run show ?thesis by auto
qed

text \<open>Two buffers after each other in one memory, on the concrete state.\<close>

lemma host_allocI:
  assumes "world_ok w" and "heap w rn = Some (O_rn_dev d)"
    and "heap w (rn_base_buf d) = Some (O_rdma_buff b)"
    and "unat (buf_buffer b) + unat (rn_buffer_offset d) + unat n + 4096 < 2 ^ 64"
    and "allocate_rdma_buffer E rn n HOST_MEM w = Some (Ret p, w')"
  shows "\<exists>a. host_alloc E rn w a (unat n) w'"
proof -
  have "\<exists>b'. heap w' p = Some (O_rdma_buff b')"
    using allocate_host_effect [OF assms(1-3,5)] by auto
  with assms show ?thesis unfolding host_alloc_def by blast
qed

lemma device_allocI:
  assumes "world_ok w" and "heap w rn = Some (O_rn_dev d)"
    and "heap w (rn_base_buf d) = Some (O_rdma_buff b)"
    and "unat (rn_dev_buffer_offset d) + unat n + 4096 < 2 ^ 64"
    and "allocate_rdma_buffer E rn n DEVICE_MEM w = Some (Ret p, w')"
  shows "\<exists>a. device_alloc E rn w a (unat n) w'"
proof -
  have "\<exists>b'. heap w' p = Some (O_rdma_buff b')"
    using allocate_device_effect [OF assms(1,2,5)] by auto
  with assms show ?thesis unfolding device_alloc_def by blast
qed

lemma demo_place: "place_buffer 0 64 = 0"
  by (simp add: place_buffer_def HARDWARE_PAGE_SIZE_def HARDWARE_PAGE_SIZE_ADDRESS_MASK_def)

lemma demo_host_trace:
  "\<exists>a c w'. bump_trace (host_alloc idle_env 1) (any_device_alloc idle_env 1) demo_world
     [(a, 64), (c, 4096)] w'"
proof -
  obtain w1 where run1: "allocate_rdma_buffer idle_env 1 64 HOST_MEM demo_world = Some (Ret 4, w1)"
    using idle_host_run [OF demo_world_ok, of 1 demo_rn] by auto
  let ?d1 = "demo_rn\<lparr>rn_buffer_offset := 64\<rparr>"
  have w1: "heap w1 1 = Some (O_rn_dev ?d1)" "heap w1 (rn_base_buf ?d1) = heap demo_world 3"
    using allocate_host_effect [OF demo_world_ok _ _ run1, of demo_rn] by (auto simp: demo_place)
  have ok1: "world_ok w1"
    using keepsD [OF keeps_allocate_rdma_buffer run1] demo_world_ok by (simp add: steps_ok_def)
  obtain w2 where run2:
      "allocate_rdma_buffer idle_env 1 4096 HOST_MEM w1 = Some (Ret (next_ptr w1), w2)"
    using idle_host_run [OF ok1 w1(1)] w1 by auto
  obtain a where "host_alloc idle_env 1 demo_world a 64 w1"
    using host_allocI [OF demo_world_ok _ _ _ run1, of demo_rn] by auto
  moreover obtain c where "host_alloc idle_env 1 w1 c 4096 w2"
    using host_allocI [OF ok1 w1(1) _ _ run2] w1(2) by auto
  ultimately show ?thesis by (blast intro: trace_own trace_end)
qed

lemma demo_device_trace:
  "\<exists>a c w'. bump_trace (device_alloc idle_env 1) (any_host_alloc idle_env 1) demo_world
     [(a, 64), (c, 4096)] w'"
proof -
  obtain w1 where run1: "allocate_rdma_buffer idle_env 1 64 DEVICE_MEM demo_world = Some (Ret 4, w1)"
    using idle_device_run [OF demo_world_ok, of 1 demo_rn] demo_device_fits by auto
  let ?d1 = "demo_rn\<lparr>rn_dev_buffer_offset := 64\<rparr>"
  have w1: "heap w1 1 = Some (O_rn_dev ?d1)" "heap w1 (rn_base_buf ?d1) = heap demo_world 3"
    using allocate_device_effect [OF demo_world_ok _ run1, of demo_rn] by (auto simp: demo_place)
  have ok1: "world_ok w1"
    using keepsD [OF keeps_allocate_rdma_buffer run1] demo_world_ok by (simp add: steps_ok_def)
  obtain w2 where run2:
      "allocate_rdma_buffer idle_env 1 4096 DEVICE_MEM w1 = Some (Ret (next_ptr w1), w2)"
    using idle_device_run [OF ok1 w1(1), of 4096] demo_device_fits by (auto simp: demo_place)
  obtain a where "device_alloc idle_env 1 demo_world a 64 w1"
    using device_allocI [OF demo_world_ok _ _ _ run1, of demo_rn] by auto
  moreover obtain c where "device_alloc idle_env 1 w1 c 4096 w2"
    using device_allocI [OF ok1 w1(1) _ _ run2] w1(2) by auto
  ultimately show ?thesis by (blast intro: trace_own trace_end)
qed

theorem host_buffers_separate_witness:
  "\<exists>a c w'. bump_trace (host_alloc idle_env 1) (any_device_alloc idle_env 1) demo_world
     [(a, 64), (c, 4096)] w' \<and> a + 64 \<le> c"
proof -
  obtain a c w' where "bump_trace (host_alloc idle_env 1) (any_device_alloc idle_env 1) demo_world
      [(a, 64), (c, 4096)] w'" using demo_host_trace by blast
  from this host_buffers_separate [OF this] show ?thesis by auto
qed

theorem device_buffers_separate_witness:
  "\<exists>a c w'. bump_trace (device_alloc idle_env 1) (any_host_alloc idle_env 1) demo_world
     [(a, 64), (c, 4096)] w' \<and> a + 64 \<le> c"
proof -
  obtain a c w' where "bump_trace (device_alloc idle_env 1) (any_host_alloc idle_env 1) demo_world
      [(a, 64), (c, 4096)] w'" using demo_device_trace by blast
  from this device_buffers_separate [OF this] show ?thesis by auto
qed

end
