(* ===== verification/Rdma_Config.thy ===== *)
theory Rdma_Config
  imports Reconic_Dev
begin

text \<open>
  The RDMA device of \<open>src/lib/rdma_api.c\<close>, up to the memory regions: creation, global
  configuration, protection domains. The lemmas give the register file that each operation
  leaves and decode its fields; the locale \<open>reg_bank\<close> shows once that banks of registers at a
  stride of 256 bytes never collide, and is interpreted for the queues and for the protection
  domains.
\<close>

definition RQE_SIZE :: u32 where
  "RQE_SIZE = 512"

subsection \<open>Register banks\<close>

definition get_rdma_per_q_config_addr :: "u32 \<Rightarrow> u32 \<Rightarrow> u32" where
  "get_rdma_per_q_config_addr offset qpid = offset + 0x100 * (qpid - 1)"

definition get_rdma_pd_config_addr :: "u32 \<Rightarrow> u32 \<Rightarrow> u32" where
  "get_rdma_pd_config_addr offset pd_num = offset + 0x100 * pd_num"

subsection \<open>Addresses for the engine\<close>

text \<open>
  The two halves of an address as the engine gets it: unchanged for device memory, masked with
  the window size for host memory. The source repeats this block for every address.
\<close>

definition engine_lsb :: "win_size_t \<Rightarrow> u64 \<Rightarrow> u32" where
  "engine_lsb ws a = (if is_device_address a \<noteq> 0 then lo32 a else lo32 a AND win_size_lsb ws)"

definition engine_msb :: "win_size_t \<Rightarrow> u64 \<Rightarrow> u32" where
  "engine_msb ws a = (if is_device_address a \<noteq> 0 then hi32 a else hi32 a AND win_size_msb ws)"

definition engine_address :: "win_size_t \<Rightarrow> u64 \<Rightarrow> u64" where
  "engine_address ws a = (if is_device_address a \<noteq> 0 then a
     else a AND join32 (win_size_msb ws) (win_size_lsb ws))"

lemma join_engine: "join32 (engine_msb ws a) (engine_lsb ws a) = engine_address ws a"
  by (simp add: engine_msb_def engine_lsb_def engine_address_def join32_AND)

subsection \<open>Creating the device\<close>

definition create_rdma_dev :: "env \<Rightarrow> ptr \<Rightarrow> ptr io" where
  "create_rdma_dev E rn_dev =
     bindM (load as_rn_dev rn_dev) (\<lambda>rn.
     let num_qp = (ucast (rn_num_qp rn) :: u32) in
     bindM (malloc E (O_rdma_dev (junk_rdma_dev E))) (\<lambda>rdma_dev.
     bindM (malloc E (O_glb_csr (junk_glb_csr E))) (\<lambda>glb_csr.
     bindM (load as_rdma_dev rdma_dev) (\<lambda>rd.
     thenM (store rdma_dev (O_rdma_dev (rd\<lparr>rd_glb_csr := glb_csr\<rparr>))) (
     bindM (malloc E (O_qp_table (replicate (unat num_qp) NULL))) (\<lambda>qps_ptr.
     thenM (store rdma_dev (O_rdma_dev (rd\<lparr>rd_glb_csr := glb_csr, rd_qps_ptr := qps_ptr,
       rd_axil_ctl := rn_axil_ctl rn\<rparr>))) (
     thenM (if 0 < num_qp then store qps_ptr (O_qp_table (replicate (unat num_qp) NULL))
            else returnM ()) (
     thenM (store rdma_dev (O_rdma_dev (rd\<lparr>rd_glb_csr := glb_csr, rd_qps_ptr := qps_ptr,
       rd_axil_ctl := rn_axil_ctl rn, rd_winSize := rn_winSize rn, rd_rn_dev := rn_dev,
       rd_num_qp := ucast (rn_num_qp rn)\<rparr>))) (
     thenM (store rn_dev (O_rn_dev (rn\<lparr>rn_rdma_dev := rdma_dev\<rparr>)))
       (returnM rdma_dev))))))))))"

subsection \<open>Global configuration\<close>

text \<open>The writes of \<open>config_rdma_global_csr\<close>, in program order.\<close>

definition global_csr_writes :: "win_size_t \<Rightarrow> rdma_glb_csr_t \<Rightarrow> (u32 \<times> u32) list" where
  "global_csr_writes ws gc =
     [(RN_RDMA_GCSR_DATBUFBA, engine_lsb ws (gc_data_buf_baseaddr gc)),
      (RN_RDMA_GCSR_DATBUFBAMSB, engine_msb ws (gc_data_buf_baseaddr gc)),
      (RN_RDMA_GCSR_DATBUFSZ, gc_data_buf_size gc),
      (RN_RDMA_GCSR_IPKTERRQBA, engine_lsb ws (gc_ipkt_err_stat_q_baseaddr gc)),
      (RN_RDMA_GCSR_IPKTERRQBAMSB, engine_msb ws (gc_ipkt_err_stat_q_baseaddr gc)),
      (RN_RDMA_GCSR_IPKTERRQSZ, ucast (gc_ipkt_err_stat_q_size gc)),
      (RN_RDMA_GCSR_ERRBUFBA, engine_lsb ws (gc_err_buf_baseaddr gc)),
      (RN_RDMA_GCSR_ERRBUFBAMSB, engine_msb ws (gc_err_buf_baseaddr gc)),
      (RN_RDMA_GCSR_ERRBUFSZ, gc_err_buf_size gc),
      (RN_RDMA_GCSR_RESPERRPKTBA, engine_lsb ws (gc_resp_err_pkt_buf_baseaddr gc)),
      (RN_RDMA_GCSR_RESPERRPKTBAMSB, engine_msb ws (gc_resp_err_pkt_buf_baseaddr gc)),
      (RN_RDMA_GCSR_RESPERRSZ, lo32 (gc_resp_err_pkt_buf_size gc)),
      (RN_RDMA_GCSR_RESPERRSZMSB, hi32 (gc_resp_err_pkt_buf_size gc)),
      (RN_RDMA_GCSR_INTEN, gc_interrupt_enable gc),
      (RN_RDMA_GCSR_MACXADDLSB, mac_lsb (gc_src_mac gc)),
      (RN_RDMA_GCSR_MACXADDMSB, mac_msb (gc_src_mac gc)),
      (RN_RDMA_GCSR_IPV4XADD, gc_src_ip gc),
      (RN_RDMA_GCSR_XRNICCONF, gc_xrnic_conf gc),
      (RN_RDMA_GCSR_XRNICADCONF, gc_xrnic_advanced_conf gc)]"

definition config_rdma_global_csr :: "ptr \<Rightarrow> unit io" where
  "config_rdma_global_csr rdma_dev =
     bindM (load as_rdma_dev rdma_dev) (\<lambda>rd.
     bindM (load as_win_size (rd_winSize rd)) (\<lambda>ws.
     bindM (load as_glb_csr (rd_glb_csr rd)) (\<lambda>gc.
     write32_block (rd_axil_ctl rd) (global_csr_writes ws gc))))"

text \<open>The two configuration words that \<open>open_rdma_dev\<close> assembles from their fields.\<close>

definition make_xrnic_conf :: "u32 \<Rightarrow> u32 \<Rightarrow> u32" where
  "make_xrnic_conf udp_sport num_qp =
     (let reserved1 = 0; reserved2 = 0; err_buf_en = 1; tx_ack_gen = 0; en_ernic = 1;
          config_8bit = (push_bit 6 reserved1 AND 0x000000c0) OR (push_bit 5 err_buf_en AND 0x00000020)
            OR (push_bit 3 tx_ack_gen AND 0x00000018) OR (push_bit 1 reserved2 AND 0x00000006)
            OR (en_ernic AND 0x00000001)
      in (push_bit 16 udp_sport AND 0xffff0000) OR (push_bit 8 num_qp AND 0x0000ff00)
         OR (config_8bit AND 0x000000ff))"

definition make_xrnic_advanced_conf :: u32 where
  "make_xrnic_advanced_conf =
     (let sw_override_enable = 0; retry_cnt_fatal_dis = 1; base_count_width = 10;
          sw_override_qp_num = 0;
          config_16bit = 0x0000000f AND ((sw_override_enable AND 0x00000001)
            OR (push_bit 2 retry_cnt_fatal_dis AND 0x00000004))
      in config_16bit OR (push_bit 16 base_count_width AND 0x000f0000)
         OR (push_bit 24 sw_override_qp_num AND 0xff000000))"

definition open_rdma_dev ::
    "ptr \<Rightarrow> mac_addr_t \<Rightarrow> u32 \<Rightarrow> u32 \<Rightarrow> u16 \<Rightarrow> u16 \<Rightarrow> u64 \<Rightarrow> u16 \<Rightarrow> u64 \<Rightarrow> u16 \<Rightarrow> u16 \<Rightarrow> u64
       \<Rightarrow> u64 \<Rightarrow> u64 \<Rightarrow> unit io" where
  "open_rdma_dev rdma_dev local_mac local_ip udp_sport num_data_buf per_data_buf_size
     data_buf_baseaddr ipkt_err_stat_q_size ipkt_err_stat_q_baseaddr num_err_buf per_err_buf_size
     err_buf_baseaddr resp_err_pkt_buf_size resp_err_pkt_buf_baseaddr =
     bindM (load as_rdma_dev rdma_dev) (\<lambda>rd.
     bindM (load as_glb_csr (rd_glb_csr rd)) (\<lambda>gc.
     let data_buf_size = push_bit 16 (ucast per_data_buf_size) OR ucast num_data_buf;
         err_buf_size = push_bit 16 (ucast per_err_buf_size) OR ucast num_err_buf;
         gc = gc\<lparr>gc_data_buf_size := data_buf_size, gc_data_buf_baseaddr := data_buf_baseaddr,
           gc_ipkt_err_stat_q_size := ipkt_err_stat_q_size,
           gc_ipkt_err_stat_q_baseaddr := ipkt_err_stat_q_baseaddr,
           gc_err_buf_size := err_buf_size, gc_err_buf_baseaddr := err_buf_baseaddr,
           gc_resp_err_pkt_buf_size := resp_err_pkt_buf_size,
           gc_resp_err_pkt_buf_baseaddr := resp_err_pkt_buf_baseaddr,
           gc_interrupt_enable := 0x000000FF,
           gc_src_mac := \<lparr>mac_lsb = mac_lsb local_mac, mac_msb = mac_msb local_mac\<rparr>,
           gc_src_ip := local_ip, gc_udp_sport := ucast udp_sport,
           gc_num_qp_enabled := ucast (rd_num_qp rd),
           gc_xrnic_conf := make_xrnic_conf udp_sport (rd_num_qp rd),
           gc_xrnic_advanced_conf := make_xrnic_advanced_conf\<rparr>
     in thenM (store (rd_glb_csr rd) (O_glb_csr gc))
          (config_rdma_global_csr rdma_dev)))"

subsection \<open>Protection domains and memory regions\<close>

definition allocate_rdma_pd :: "env \<Rightarrow> ptr \<Rightarrow> u32 \<Rightarrow> ptr io" where
  "allocate_rdma_pd E rdma_dev pd_num =
     (if rdma_dev \<noteq> NULL then
        bindM (malloc E (O_pd (junk_pd E))) (\<lambda>rdma_pd.
        bindM (load as_pd rdma_pd) (\<lambda>pd.
        let pd = pd\<lparr>pd_pd_num := pd_num, pd_pd_access_type := 2 AND 0x0000ffff\<rparr> in
        thenM (store rdma_pd (O_pd pd)) (
        bindM (load as_rdma_dev rdma_dev) (\<lambda>rd.
        thenM (write32_data (rd_axil_ctl rd)
                (ucast (get_rdma_pd_config_addr RN_RDMA_PDT_PDPDNUM pd_num)) pd_num) (
        thenM (store rdma_pd (O_pd (pd\<lparr>pd_mr_buffer := NULL\<rparr>)))
          (returnM rdma_pd))))))
      else exitM EXIT_FAILURE)"

text \<open>The fields of the entry that registration fills in.\<close>

definition fill_pd :: "win_size_t \<Rightarrow> u32 \<Rightarrow> ptr \<Rightarrow> rdma_buff_t \<Rightarrow> rdma_pd_t \<Rightarrow> rdma_pd_t" where
  "fill_pd ws r_key rdma_buf b pd =
     (let buffer_size = (ucast (buf_buf_size b) :: u64)
      in pd\<lparr>pd_mr_buffer := rdma_buf,
            pd_dma_addr_lsb := engine_lsb ws (buf_dma_addr b),
            pd_dma_addr_msb := engine_msb ws (buf_dma_addr b),
            pd_virtual_addr_lsb := lo32 (buf_buffer b),
            pd_virtual_addr_msb := hi32 (buf_buffer b),
            pd_buffer_size_lsb := lo32 buffer_size,
            pd_buffer_size_msb := ucast (hi32 buffer_size),
            pd_r_key := r_key\<rparr>)"

definition pd_writes :: "rdma_pd_t \<Rightarrow> u32 \<Rightarrow> u64 \<Rightarrow> (u32 \<times> u32) list" where
  "pd_writes pd r_key buffer_size =
     (let pd_num = pd_pd_num pd
      in [(get_rdma_pd_config_addr RN_RDMA_PDT_VIRTADDRLSB pd_num, pd_virtual_addr_lsb pd),
          (get_rdma_pd_config_addr RN_RDMA_PDT_VIRTADDRMSB pd_num, pd_virtual_addr_msb pd),
          (get_rdma_pd_config_addr RN_RDMA_PDT_BUFBASEADDRLSB pd_num, pd_dma_addr_lsb pd),
          (get_rdma_pd_config_addr RN_RDMA_PDT_BUFBASEADDRMSB pd_num, pd_dma_addr_msb pd),
          (get_rdma_pd_config_addr RN_RDMA_PDT_BUFRKEY pd_num, r_key),
          (get_rdma_pd_config_addr RN_RDMA_PDT_WRRDBUFLEN pd_num, ucast buffer_size),
          (get_rdma_pd_config_addr RN_RDMA_PDT_ACCESSDESC pd_num,
             push_bit 16 (ucast (pd_buffer_size_msb pd)) OR ucast (pd_pd_access_type pd))])"

text \<open>
  \<open>rdma_dev\<close> is followed to its window size before the NULL check, so a NULL device is a fault
  and the check never sees it.
\<close>

definition rdma_register_memory_region :: "ptr \<Rightarrow> ptr \<Rightarrow> u32 \<Rightarrow> ptr \<Rightarrow> unit io" where
  "rdma_register_memory_region rdma_dev rdma_pd r_key rdma_buf =
     bindM (load as_rdma_dev rdma_dev) (\<lambda>rd.
     bindM (load as_win_size (rd_winSize rd)) (\<lambda>ws.
     if rdma_dev = NULL then exitM EXIT_FAILURE
     else if rdma_pd = NULL then exitM EXIT_FAILURE
     else if rdma_buf = NULL then exitM EXIT_FAILURE
     else
       bindM (load as_pd rdma_pd) (\<lambda>pd.
       bindM (load as_rdma_buff rdma_buf) (\<lambda>b.
       let pd = fill_pd ws r_key rdma_buf b pd in
       thenM (store rdma_pd (O_pd pd)) (
       if rd_axil_ctl rd = 0 then exitM EXIT_FAILURE
       else write32_block (rd_axil_ctl rd)
              (pd_writes pd r_key (ucast (buf_buf_size b))))))))"

definition allocate_hugepages_buffer :: "env \<Rightarrow> u32 \<Rightarrow> ptr io" where
  "allocate_hugepages_buffer E num_hugepages =
     bindM (malloc E (O_rdma_buff (junk_rdma_buff E))) (\<lambda>rdma_buffer.
     if rdma_buffer = NULL then exitM EXIT_FAILURE else
     bindM (sys_mmap E (hugepage_bytes num_hugepages) (- 1)) (\<lambda>buffer.
     bindM (load as_rdma_buff rdma_buffer) (\<lambda>b.
     thenM (store rdma_buffer (O_rdma_buff (b\<lparr>buf_buffer := buffer\<rparr>))) (
     if buffer = 0 then exitM EXIT_FAILURE else
     bindM (sys_mlock E buffer (hugepage_bytes num_hugepages)) (\<lambda>rc.
     if rc = - 1 then exitM EXIT_FAILURE else
     bindM (get_buffer_paddr E buffer) (\<lambda>paddr.
     thenM (store rdma_buffer (O_rdma_buff (b\<lparr>buf_buffer := buffer, buf_dma_addr := paddr\<rparr>)))
       (returnM rdma_buffer)))))))"

subsection \<open>Frames\<close>

lemma keeps_create_rdma_dev [keeps_intros]: "keeps steps_ok (create_rdma_dev E rn_dev)"
  unfolding create_rdma_dev_def by (intro keeps_intros)

lemma keeps_config_rdma_global_csr [keeps_intros]: "keeps steps_ok (config_rdma_global_csr rdma_dev)"
  unfolding config_rdma_global_csr_def by (intro keeps_intros)

lemma keeps_open_rdma_dev [keeps_intros]:
  "keeps steps_ok (open_rdma_dev rdma_dev mac ip port a b c d e f g h i j)"
  unfolding open_rdma_dev_def by (intro keeps_intros)

lemma keeps_allocate_rdma_pd [keeps_intros]: "keeps steps_ok (allocate_rdma_pd E rdma_dev pd_num)"
  unfolding allocate_rdma_pd_def by (intro keeps_intros)

lemma keeps_rdma_register_memory_region [keeps_intros]:
  "keeps steps_ok (rdma_register_memory_region rdma_dev rdma_pd r_key rdma_buf)"
  unfolding rdma_register_memory_region_def by (intro keeps_intros)

lemma keeps_allocate_hugepages_buffer [keeps_intros]:
  "keeps steps_ok (allocate_hugepages_buffer E num_hugepages)"
  unfolding allocate_hugepages_buffer_def by (intro keeps_intros)

subsection \<open>Banks of registers do not collide\<close>

text \<open>
  A bank repeated at a stride of 256 bytes, for \<open>count\<close> instances from \<open>first\<close> on: what the
  address functions promise to every register program.
\<close>

locale reg_bank =
  fixes addr :: "u32 \<Rightarrow> u32 \<Rightarrow> u32" and regs :: "u32 list" and base first :: u32 and count :: nat
  assumes shape: "bank_ok base regs"
    and stride: "addr r i = r + 0x100 * (i - first)"
    and fits: "unat base + 0x100 * count \<le> 2 ^ 32"
begin

lemma reg_offset: "r \<in> set regs \<Longrightarrow> unat base \<le> unat r \<and> unat r < unat base + 0x100"
proof -
  assume "r \<in> set regs"
  then have "base \<le> r" "r - base < 0x100" using shape by (auto simp: bank_ok_def)
  then show ?thesis by (simp add: word_le_nat_alt word_less_nat_alt unat_sub)
qed

lemma addr_unat:
  assumes "r \<in> set regs" and "unat (i - first) < count"
  shows "unat (addr r i) = unat r + 0x100 * unat (i - first)"
proof -
  have "0x100 * Suc (unat (i - first)) \<le> 0x100 * count" using assms(2) by (intro mult_le_mono2) simp
  then have small: "unat r + 0x100 * unat (i - first) < 2 ^ 32"
    using reg_offset [OF assms(1)] fits by simp
  let ?k = "i - first"
  have "unat (0x100 * ?k) = 0x100 * unat ?k"
    using small unat_mult_lem [of "0x100" ?k] by (simp del: right_diff_distrib_numeral)
  with small unat_add_lem [of r "0x100 * ?k"] show ?thesis
    unfolding stride by (simp del: right_diff_distrib_numeral)
qed

lemma addr_bounds:
  assumes "r \<in> set regs" and "unat (i - first) < count"
  shows "unat base \<le> unat (addr r i) \<and> unat (addr r i) < unat base + 0x100 * count"
proof -
  have "0x100 * Suc (unat (i - first)) \<le> 0x100 * count" using assms(2) by (intro mult_le_mono2) simp
  with addr_unat [OF assms] reg_offset [OF assms(1)] show ?thesis by simp
qed

lemma addr_inject:
  assumes "r \<in> set regs" "unat (i - first) < count" "r' \<in> set regs" "unat (i' - first) < count"
  shows "addr r i = addr r' i' \<longleftrightarrow> r = r' \<and> i = i'"
proof
  assume eq: "addr r i = addr r' i'"
  let ?k = "unat (i - first)" and ?k' = "unat (i' - first)"
  have eq': "unat r + 0x100 * ?k = unat r' + 0x100 * ?k'"
    using eq addr_unat [OF assms(1,2)] addr_unat [OF assms(3,4)] by simp
  from this reg_offset [OF assms(1)] reg_offset [OF assms(3)]
  have "?k = ?k'" by linarith
  moreover from this eq' have "unat r = unat r'" by simp
  ultimately have "i - first = i' - first" "r = r'" by (simp_all add: word_unat_eq_iff)
  then show "r = r' \<and> i = i'" by simp
qed simp

end

interpretation queue_bank: reg_bank get_rdma_per_q_config_addr QCSR_REGS RN_RDMA_QCSR_QPCONFi 1 256
  by unfold_locales (rule QCSR_bank_ok, simp_all add: get_rdma_per_q_config_addr_def reg_defs)

interpretation pd_bank: reg_bank get_rdma_pd_config_addr PDT_REGS RN_RDMA_PDT_PDPDNUM 0 512
  by unfold_locales (rule PDT_bank_ok, simp_all add: get_rdma_pd_config_addr_def reg_defs)

subsection \<open>Effects\<close>

lemma config_rdma_global_csr_run:
  assumes "heap w p = Some (O_rdma_dev rd)" and "heap w (rd_winSize rd) = Some (O_win_size ws)"
    and "heap w (rd_glb_csr rd) = Some (O_glb_csr gc)"
  shows "config_rdma_global_csr p w =
    Some (Ret (), w\<lparr>hist := block_events (rd_axil_ctl rd) (global_csr_writes ws gc) @ hist w\<rparr>)"
  using assms by (simp add: config_rdma_global_csr_def run_simps)

text \<open>A pair of registers read as one 64-bit value.\<close>

definition reg64 :: "event list \<Rightarrow> u64 \<Rightarrow> u32 \<Rightarrow> u32 \<Rightarrow> u64 option" where
  "reg64 h base msb lsb =
     (case (last_write h (base + ucast msb), last_write h (base + ucast lsb)) of
        (Some m, Some l) \<Rightarrow> Some (join32 m l)
      | _ \<Rightarrow> None)"

definition reg32 :: "event list \<Rightarrow> u64 \<Rightarrow> u32 \<Rightarrow> u32 option" where
  "reg32 h base r = last_write h (base + ucast r)"

lemma reg_block:
  "reg32 (block_events base ws @ h) base r =
     (case map_of (rev ws) r of None \<Rightarrow> reg32 h base r | Some v \<Rightarrow> Some v)"
  by (simp add: reg32_def last_write_append last_write_block split: option.split)

lemma reg64_eq: "reg64 h base msb lsb =
     (case (reg32 h base msb, reg32 h base lsb) of
        (Some m, Some l) \<Rightarrow> Some (join32 m l)
      | _ \<Rightarrow> None)"
  by (simp add: reg64_def reg32_def)

lemma mask_bits:
  "(0xffff0000 :: u32) = push_bit 16 (mask 16)" "(0x0000ff00 :: u32) = push_bit 8 (mask 8)"
  "(0x000000ff :: u32) = mask 8"
  by (simp_all add: mask_eq_exp_minus_1 push_bit_eq_mult)

text \<open>The fields of the configuration word, as the comment in the source lists them.\<close>

lemma xrnic_conf_fields:
  "drop_bit 16 (make_xrnic_conf port n) = take_bit 16 port"
  "take_bit 8 (drop_bit 8 (make_xrnic_conf port n)) = take_bit 8 n"
  "take_bit 8 (make_xrnic_conf port n) = 0x21"
proof -
  have h: "push_bit 16 port AND 0xffff0000 = push_bit 16 (take_bit 16 port)"
    "push_bit 8 n AND 0x0000ff00 = push_bit 8 (take_bit 8 n)"
    unfolding mask_bits by (rule bit_word_eqI; auto simp: bit_simps)+
  have "make_xrnic_conf port n = (push_bit 16 port AND 0xffff0000) OR (push_bit 8 n AND 0x0000ff00) OR 0x21"
    by (simp add: make_xrnic_conf_def)
  then have e: "make_xrnic_conf port n =
      push_bit 16 (take_bit 16 port) OR push_bit 8 (take_bit 8 n) OR 0x21"
    unfolding h .
  have b: "\<not> bit (0x21 :: u32) k" if "8 \<le> k" for k
  proof -
    have "take_bit 8 (0x21 :: u32) = 0x21" by simp
    with that show ?thesis by (metis bit_take_bit_iff linorder_not_le)
  qed
  show "drop_bit 16 (make_xrnic_conf port n) = take_bit 16 port"
    unfolding e by (rule bit_word_eqI) (auto simp: bit_simps b)
  show "take_bit 8 (drop_bit 8 (make_xrnic_conf port n)) = take_bit 8 n"
    unfolding e by (rule bit_word_eqI) (auto simp: bit_simps b)
  show "take_bit 8 (make_xrnic_conf port n) = 0x21"
    unfolding e using b by (intro bit_word_eqI) (auto simp: bit_simps)
qed

text \<open>What \<open>open_rdma_dev\<close> records in the global structure.\<close>

definition opened_csr :: "rdma_glb_csr_t \<Rightarrow> u32 \<Rightarrow> mac_addr_t \<Rightarrow> u32 \<Rightarrow> u32 \<Rightarrow> u16 \<Rightarrow> u16 \<Rightarrow> u64 \<Rightarrow> u16
    \<Rightarrow> u64 \<Rightarrow> u16 \<Rightarrow> u16 \<Rightarrow> u64 \<Rightarrow> u64 \<Rightarrow> u64 \<Rightarrow> rdma_glb_csr_t" where
  "opened_csr gc num_qp mac ip port ndata data_size data iq_size iq nerr err_size err resp_size resp =
     gc\<lparr>gc_data_buf_size := push_bit 16 (ucast data_size) OR ucast ndata,
       gc_data_buf_baseaddr := data, gc_ipkt_err_stat_q_size := iq_size,
       gc_ipkt_err_stat_q_baseaddr := iq, gc_err_buf_size := push_bit 16 (ucast err_size) OR ucast nerr,
       gc_err_buf_baseaddr := err, gc_resp_err_pkt_buf_size := resp_size,
       gc_resp_err_pkt_buf_baseaddr := resp, gc_interrupt_enable := 0x000000FF,
       gc_src_mac := \<lparr>mac_lsb = mac_lsb mac, mac_msb = mac_msb mac\<rparr>, gc_src_ip := ip,
       gc_udp_sport := ucast port, gc_num_qp_enabled := ucast num_qp,
       gc_xrnic_conf := make_xrnic_conf port num_qp,
       gc_xrnic_advanced_conf := make_xrnic_advanced_conf\<rparr>"

lemma open_rdma_dev_run:
  fixes ndata data_size iq_size nerr err_size :: u16 and ip port :: u32
    and data iq err resp_size resp :: u64 and mac :: mac_addr_t
  assumes "heap w p = Some (O_rdma_dev rd)" and "heap w (rd_winSize rd) = Some (O_win_size ws)"
    and "heap w (rd_glb_csr rd) = Some (O_glb_csr gc)"
  defines "gc' \<equiv> opened_csr gc (rd_num_qp rd) mac ip port ndata data_size data iq_size iq nerr err_size err
      resp_size resp"
  shows "open_rdma_dev p mac ip port ndata data_size data iq_size iq nerr err_size err
      resp_size resp w = Some (Ret (), w\<lparr>heap := (heap w)(rd_glb_csr rd \<mapsto> O_glb_csr gc'),
        hist := block_events (rd_axil_ctl rd) (global_csr_writes ws gc') @ hist w\<rparr>)"
proof -
  have "rd_winSize rd \<noteq> rd_glb_csr rd" "p \<noteq> rd_glb_csr rd" using assms by auto
  with assms(1-3) show ?thesis
    by (simp add: open_rdma_dev_def run_simps config_rdma_global_csr_run Let_def gc'_def opened_csr_def)
qed

text \<open>The registers of the global configuration, in the order of the writes.\<close>

definition GLOBAL_REGS :: "u32 list" where
  "GLOBAL_REGS = [RN_RDMA_GCSR_DATBUFBA, RN_RDMA_GCSR_DATBUFBAMSB, RN_RDMA_GCSR_DATBUFSZ,
     RN_RDMA_GCSR_IPKTERRQBA, RN_RDMA_GCSR_IPKTERRQBAMSB, RN_RDMA_GCSR_IPKTERRQSZ,
     RN_RDMA_GCSR_ERRBUFBA, RN_RDMA_GCSR_ERRBUFBAMSB, RN_RDMA_GCSR_ERRBUFSZ,
     RN_RDMA_GCSR_RESPERRPKTBA, RN_RDMA_GCSR_RESPERRPKTBAMSB, RN_RDMA_GCSR_RESPERRSZ, RN_RDMA_GCSR_RESPERRSZMSB,
     RN_RDMA_GCSR_INTEN, RN_RDMA_GCSR_MACXADDLSB, RN_RDMA_GCSR_MACXADDMSB, RN_RDMA_GCSR_IPV4XADD,
     RN_RDMA_GCSR_XRNICCONF, RN_RDMA_GCSR_XRNICADCONF]"

subsection \<open>Properties\<close>

text \<open>
  C28: \<open>open_rdma_dev\<close> leaves the register file it is asked for: every base address as
  the engine sees it, the sizes packed as size and count, the local MAC and IP address, and the
  two configuration words: UDP port, number of queues, error buffer and engine enabled (the
  comment in front of the code asks for a disabled error buffer); retry-count fatal disabled, base
  count width 10. Every address other than those of these nineteen registers keeps what was last written to it,
  and in the store only the structure of the global configuration changes.
\<close>

theorem open_rdma_dev_registers:
  assumes "heap w p = Some (O_rdma_dev rd)" and "heap w (rd_winSize rd) = Some (O_win_size ws)"
    and "heap w (rd_glb_csr rd) = Some (O_glb_csr gc)"
  shows "\<exists>w' conf. open_rdma_dev p mac ip port ndata data_size data iq_size iq nerr err_size err
      resp_size resp w = Some (Ret (), w') \<and>
    reg64 (hist w') (rd_axil_ctl rd) RN_RDMA_GCSR_DATBUFBAMSB RN_RDMA_GCSR_DATBUFBA = Some (engine_address ws data) \<and>
    reg64 (hist w') (rd_axil_ctl rd) RN_RDMA_GCSR_IPKTERRQBAMSB RN_RDMA_GCSR_IPKTERRQBA = Some (engine_address ws iq) \<and>
    reg64 (hist w') (rd_axil_ctl rd) RN_RDMA_GCSR_ERRBUFBAMSB RN_RDMA_GCSR_ERRBUFBA = Some (engine_address ws err) \<and>
    reg64 (hist w') (rd_axil_ctl rd) RN_RDMA_GCSR_RESPERRPKTBAMSB RN_RDMA_GCSR_RESPERRPKTBA = Some (engine_address ws resp) \<and>
    reg64 (hist w') (rd_axil_ctl rd) RN_RDMA_GCSR_RESPERRSZMSB RN_RDMA_GCSR_RESPERRSZ = Some resp_size \<and>
    reg32 (hist w') (rd_axil_ctl rd) RN_RDMA_GCSR_DATBUFSZ = Some (push_bit 16 (ucast data_size) OR ucast ndata) \<and>
    reg32 (hist w') (rd_axil_ctl rd) RN_RDMA_GCSR_ERRBUFSZ = Some (push_bit 16 (ucast err_size) OR ucast nerr) \<and>
    reg32 (hist w') (rd_axil_ctl rd) RN_RDMA_GCSR_IPKTERRQSZ = Some (ucast iq_size) \<and>
    reg32 (hist w') (rd_axil_ctl rd) RN_RDMA_GCSR_INTEN = Some 0xff \<and>
    reg64 (hist w') (rd_axil_ctl rd) RN_RDMA_GCSR_MACXADDMSB RN_RDMA_GCSR_MACXADDLSB = Some (join32 (mac_msb mac) (mac_lsb mac)) \<and>
    reg32 (hist w') (rd_axil_ctl rd) RN_RDMA_GCSR_IPV4XADD = Some ip \<and>
    reg32 (hist w') (rd_axil_ctl rd) RN_RDMA_GCSR_XRNICCONF = Some conf \<and>
      drop_bit 16 conf = take_bit 16 port \<and> take_bit 8 (drop_bit 8 conf) = take_bit 8 (rd_num_qp rd) \<and>
      take_bit 8 conf = 0x21 \<and>
    reg32 (hist w') (rd_axil_ctl rd) RN_RDMA_GCSR_XRNICADCONF = Some 0x000a0004 \<and>
    (\<forall>a. a \<notin> (\<lambda>r. rd_axil_ctl rd + ucast r) ` set GLOBAL_REGS \<longrightarrow> last_write (hist w') a = last_write (hist w) a) \<and>
    (\<exists>gc'. heap w' = (heap w)(rd_glb_csr rd \<mapsto> O_glb_csr gc'))"
proof -
  let ?conf = "make_xrnic_conf port (rd_num_qp rd)"
  have adv: "make_xrnic_advanced_conf = 0x000a0004" by (simp add: make_xrnic_advanced_conf_def)
  note run = open_rdma_dev_run [OF assms, of mac ip port ndata data_size data iq_size iq nerr err_size err
      resp_size resp]
  have frame: "last_write (block_events (rd_axil_ctl rd) (global_csr_writes ws gc') @ hist w) a = last_write (hist w) a"
    if "a \<notin> (\<lambda>r. rd_axil_ctl rd + ucast r) ` set GLOBAL_REGS" for gc' a
    using that by (intro last_write_block_frame) (auto simp: global_csr_writes_def GLOBAL_REGS_def)
  show ?thesis
    by (intro exI [where x = ?conf] exI conjI, rule run)
      ((intro allI impI, simp add: frame del: image_iff; fail) | simp add: reg64_eq reg_block xrnic_conf_fields opened_csr_def
        global_csr_writes_def reg_defs join_engine adv del: block_events_Cons)+
qed

theorem open_rdma_dev_registers_witness:
  "\<exists>w'. open_rdma_dev 4 \<lparr>mac_lsb = 0x35123456, mac_msb = 0x000a\<rparr> 0xc0a80101 0x12b7 16 4096
      0x12345679000 8192 0xa350000000001000 16 256 0x1234567a000 65536 0x1234567b000
      demo_rdma_world = Some (Ret (), w') \<and>
    reg64 (hist w') 0x10000000 RN_RDMA_GCSR_DATBUFBAMSB RN_RDMA_GCSR_DATBUFBA = Some 0x2345679000 \<and>
    reg64 (hist w') 0x10000000 RN_RDMA_GCSR_IPKTERRQBAMSB RN_RDMA_GCSR_IPKTERRQBA = Some 0xa350000000001000"
  using open_rdma_dev_registers [of demo_rdma_world 4 demo_rdma
      "\<lparr>win_size_lsb = 0xffffffff, win_size_msb = 0xff\<rparr>" "junk_glb_csr idle_env" "\<lparr>mac_lsb = 0x35123456, mac_msb = 0x000a\<rparr>"
      "0xc0a80101" "0x12b7" 16 4096 "0x12345679000" 8192 "0xa350000000001000" 16 256 "0x1234567a000"
      65536 "0x1234567b000"]
  by (auto simp: engine_address_def is_device_address_def DEVICE_MEM_OFFSET_def join32_def)

text \<open>
  C30: registers of different queues, of different protection domains, and of the two kinds never
  share an address: for queue numbers 1 to 256 and domain numbers below 512 the address functions
  are injective in the register and the number together, the domain entries lie below all queue
  registers, and everything lies inside the window that \<open>create_rn_dev\<close> maps.
\<close>

theorem register_banks_disjoint:
  assumes "r \<in> set QCSR_REGS" "r' \<in> set QCSR_REGS" "q - 1 < 256" "q' - 1 < 256"
    and "p \<in> set PDT_REGS" "p' \<in> set PDT_REGS" "d < 512" "d' < 512"
  shows "(get_rdma_per_q_config_addr r q = get_rdma_per_q_config_addr r' q' \<longleftrightarrow> r = r' \<and> q = q') \<and>
    (get_rdma_pd_config_addr p d = get_rdma_pd_config_addr p' d' \<longleftrightarrow> p = p' \<and> d = d') \<and>
    get_rdma_pd_config_addr p d < get_rdma_per_q_config_addr r q \<and>
    get_rdma_per_q_config_addr r q < RN_SCR_MAP_SIZE"
proof -
  have q: "unat (q - 1) < 256" "unat (q' - 1) < 256" "unat (d - 0) < 512" "unat (d' - 0) < 512"
    using assms(3,4,7,8) by (simp_all add: word_less_nat_alt)
  have "unat (get_rdma_pd_config_addr p d) < 0x60000"
    using pd_bank.addr_bounds [OF assms(5) q(3)] by (simp add: reg_defs)
  moreover have "0x60200 \<le> unat (get_rdma_per_q_config_addr r q)"
    "unat (get_rdma_per_q_config_addr r q) < 0x70200"
    using queue_bank.addr_bounds [OF assms(1) q(1)] by (simp_all add: reg_defs)
  ultimately have "get_rdma_pd_config_addr p d < get_rdma_per_q_config_addr r q"
    "get_rdma_per_q_config_addr r q < RN_SCR_MAP_SIZE"
    by (simp_all add: word_less_nat_alt RN_SCR_MAP_SIZE_def)
  with queue_bank.addr_inject [OF assms(1) q(1) assms(2) q(2)]
    pd_bank.addr_inject [OF assms(5) q(3) assms(6) q(4)] show ?thesis by blast
qed

theorem register_banks_disjoint_witness:
  "get_rdma_per_q_config_addr RN_RDMA_QCSR_SQPIi 2 \<noteq> get_rdma_per_q_config_addr RN_RDMA_QCSR_CQHEADi 3 \<and>
   get_rdma_pd_config_addr RN_RDMA_PDT_ACCESSDESC 7 \<noteq> get_rdma_pd_config_addr RN_RDMA_PDT_BUFRKEY 8"
  using register_banks_disjoint [of RN_RDMA_QCSR_SQPIi RN_RDMA_QCSR_CQHEADi 2 3 RN_RDMA_PDT_ACCESSDESC
      RN_RDMA_PDT_BUFRKEY 7 8]
  by (simp add: QCSR_REGS_def PDT_REGS_def)

text \<open>
  Creating the RDMA device gives a fresh structure whose queue table has one empty slot per
  queue pair, that shares window, registers and size of the RecoNIC device, and that the RecoNIC
  device points to; a failed allocation of the device or of a non-empty table is a NULL
  dereference, since the code does not test them.
\<close>

theorem create_rdma_dev_effect:
  assumes "world_ok w" and "heap w rn = Some (O_rn_dev d)" and "create_rdma_dev E rn w = Some (r, w')"
  shows "if env_malloc_fails E (next_ptr w) \<or>
            (env_malloc_fails E (next_ptr w + 2) \<and> rn_num_qp d \<noteq> 0)
         then r = Fault Bad_Pointer
         else \<exists>rd. r = Ret (next_ptr w) \<and> heap w' (next_ptr w) = Some (O_rdma_dev rd) \<and>
           heap w' rn = Some (O_rn_dev (d\<lparr>rn_rdma_dev := next_ptr w\<rparr>)) \<and>
           rd_rn_dev rd = rn \<and> rd_axil_ctl rd = rn_axil_ctl d \<and> rd_winSize rd = rn_winSize d \<and>
           rd_num_qp rd = ucast (rn_num_qp d) \<and>
           (rn_num_qp d \<noteq> 0 \<longrightarrow>
              heap w' (rd_qps_ptr rd) = Some (O_qp_table (replicate (unat (rn_num_qp d)) NULL)))"
proof -
  have n: "0 < next_ptr w" "heap w 0 = None" "heap w (next_ptr w) = None"
      "heap w (Suc (next_ptr w)) = None" "heap w (Suc (Suc (next_ptr w))) = None"
    using assms(1) by (auto simp: world_ok_def)
  then have ne: "rn \<noteq> next_ptr w" "rn \<noteq> Suc (next_ptr w)" "rn \<noteq> Suc (Suc (next_ptr w))"
    using assms(2) by auto
  have u: "unat (ucast (rn_num_qp d) :: u32) = unat (rn_num_qp d)"
    using unat_u8_less [of "rn_num_qp d"] by (simp add: unsigned_ucast_eq take_bit_nat_eq_self)
  have pos: "(0 :: u32) < ucast (rn_num_qp d) \<longleftrightarrow> rn_num_qp d \<noteq> 0"
    using unat_gt_0 [of "rn_num_qp d"] u by (simp add: word_less_nat_alt)
  show ?thesis
    using assms(2,3) n ne
    by (auto simp: create_rdma_dev_def bindM_def thenM_def malloc_def load_def store_def Let_def
        returnM_def pos u split: if_splits)
qed

theorem create_rdma_dev_effect_witness:
  "\<exists>w' rd. create_rdma_dev idle_env 1 demo_world = Some (Ret 4, w') \<and>
     heap w' 4 = Some (O_rdma_dev rd) \<and>
     heap w' (rd_qps_ptr rd) = Some (O_qp_table [NULL, NULL, NULL, NULL])"
proof -
  obtain r w' where run: "create_rdma_dev idle_env 1 demo_world = Some (r, w')"
    by (simp add: create_rdma_dev_def bindM_def thenM_def malloc_def load_def store_def Let_def
        returnM_def split: if_splits)
  have four: "replicate 4 NULL = [NULL, NULL, NULL, NULL]" by (simp add: numeral_eq_Suc)
  from create_rdma_dev_effect [OF demo_world_ok _ run, of demo_rn] run show ?thesis
    by (auto simp: four)
qed

text \<open>
  C29: registering a memory region for a domain with a number below 512 programs the entry of this
  domain: the virtual address of the buffer, its address as the engine sees it, the key, the
  whole 32-bit length, and the access rights that the structure held before (for a domain of
  \<open>allocate_rdma_pd\<close>, 2); the entry of every other domain keeps its registers, and so does everything else. The structure
  records the buffer, both addresses, the length and the key, and keeps its domain number and its
  access rights; nothing else in the store changes.
\<close>

theorem register_memory_region_entry:
  assumes "heap w rdev = Some (O_rdma_dev rd)" and "heap w (rd_winSize rd) = Some (O_win_size ws)"
    and "heap w p = Some (O_pd pd)" and "heap w buf = Some (O_rdma_buff b)"
    and "rdev \<noteq> NULL" "p \<noteq> NULL" "buf \<noteq> NULL" "rd_axil_ctl rd \<noteq> 0" and "pd_pd_num pd < 512"
  shows "\<exists>w' pd'. rdma_register_memory_region rdev p key buf w = Some (Ret (), w') \<and>
    heap w' = (heap w)(p \<mapsto> O_pd pd') \<and> pd_mr_buffer pd' = buf \<and> pd_r_key pd' = key \<and>
    join32 (pd_dma_addr_msb pd') (pd_dma_addr_lsb pd') = engine_address ws (buf_dma_addr b) \<and>
    join32 (pd_virtual_addr_msb pd') (pd_virtual_addr_lsb pd') = buf_buffer b \<and>
    pd_buffer_size_lsb pd' = buf_buf_size b \<and> pd_buffer_size_msb pd' = 0 \<and>
    pd_pd_num pd' = pd_pd_num pd \<and> pd_pd_access_type pd' = pd_pd_access_type pd \<and>
    (let pdr = (\<lambda>r. get_rdma_pd_config_addr r (pd_pd_num pd)) in
     reg64 (hist w') (rd_axil_ctl rd) (pdr RN_RDMA_PDT_VIRTADDRMSB) (pdr RN_RDMA_PDT_VIRTADDRLSB) =
       Some (buf_buffer b) \<and>
     reg64 (hist w') (rd_axil_ctl rd) (pdr RN_RDMA_PDT_BUFBASEADDRMSB) (pdr RN_RDMA_PDT_BUFBASEADDRLSB) =
       Some (engine_address ws (buf_dma_addr b)) \<and>
     reg32 (hist w') (rd_axil_ctl rd) (pdr RN_RDMA_PDT_BUFRKEY) = Some key \<and>
     reg32 (hist w') (rd_axil_ctl rd) (pdr RN_RDMA_PDT_WRRDBUFLEN) = Some (buf_buf_size b) \<and>
     reg32 (hist w') (rd_axil_ctl rd) (pdr RN_RDMA_PDT_ACCESSDESC) = Some (ucast (pd_pd_access_type pd))) \<and>
    (\<forall>r \<in> set PDT_REGS. \<forall>d. d < 512 \<and> d \<noteq> pd_pd_num pd \<longrightarrow>
       reg32 (hist w') (rd_axil_ctl rd) (get_rdma_pd_config_addr r d) =
       reg32 (hist w) (rd_axil_ctl rd) (get_rdma_pd_config_addr r d)) \<and>
    (\<forall>a. a \<notin> (\<lambda>r. rd_axil_ctl rd + ucast (get_rdma_pd_config_addr r (pd_pd_num pd))) ` set PDT_REGS \<longrightarrow>
       last_write (hist w') a = last_write (hist w) a)"
proof -
  let ?pd = "fill_pd ws key buf b pd" and ?n = "pd_pd_num pd"
  let ?ws = "pd_writes ?pd key (ucast (buf_buf_size b))"
  let ?w' = "w\<lparr>heap := (heap w)(p \<mapsto> O_pd ?pd), hist := block_events (rd_axil_ctl rd) ?ws @ hist w\<rparr>"
  have run: "rdma_register_memory_region rdev p key buf w = Some (Ret (), ?w')"
    using assms by (simp add: rdma_register_memory_region_def run_simps Let_def)
  have n: "pd_pd_num ?pd = ?n" "pd_pd_access_type ?pd = pd_pd_access_type pd"
    by (simp_all add: fill_pd_def Let_def)
  have msb: "(ucast (hi32 (ucast (buf_buf_size b) :: u64)) :: u16) = 0"
    by (rule bit_word_eqI) (auto simp: bit_simps word_bits dest: bit_imp_le_length)
  have len: "(ucast (ucast (buf_buf_size b) :: u64) :: u32) = buf_buf_size b" by simp
  have lo: "lo32 (ucast (buf_buf_size b) :: u64) = buf_buf_size b"
    by (rule bit_word_eqI) (auto simp: bit_simps word_bits dest: bit_imp_le_length)
  have other: "map_of (rev ?ws) (get_rdma_pd_config_addr r d) = None"
    if "r \<in> set PDT_REGS" "d < 512" "d \<noteq> ?n" for r d
  proof -
    have "get_rdma_pd_config_addr r d \<noteq> get_rdma_pd_config_addr r' ?n" if "r' \<in> set PDT_REGS" for r'
      using pd_bank.addr_inject [of r d r' ?n] that \<open>r \<in> _\<close> \<open>d < 512\<close> \<open>d \<noteq> ?n\<close> assms(9)
      by (simp add: word_less_nat_alt)
    then show ?thesis by (auto simp: map_of_eq_None_iff pd_writes_def n PDT_REGS_def Let_def)
  qed
  show ?thesis
  proof (intro exI [where x = ?w'] exI [where x = ?pd] conjI)
    show "let pdr = \<lambda>r. get_rdma_pd_config_addr r ?n in
      reg64 (hist ?w') (rd_axil_ctl rd) (pdr RN_RDMA_PDT_VIRTADDRMSB) (pdr RN_RDMA_PDT_VIRTADDRLSB) =
        Some (buf_buffer b) \<and>
      reg64 (hist ?w') (rd_axil_ctl rd) (pdr RN_RDMA_PDT_BUFBASEADDRMSB) (pdr RN_RDMA_PDT_BUFBASEADDRLSB) =
        Some (engine_address ws (buf_dma_addr b)) \<and>
      reg32 (hist ?w') (rd_axil_ctl rd) (pdr RN_RDMA_PDT_BUFRKEY) = Some key \<and>
      reg32 (hist ?w') (rd_axil_ctl rd) (pdr RN_RDMA_PDT_WRRDBUFLEN) = Some (buf_buf_size b) \<and>
      reg32 (hist ?w') (rd_axil_ctl rd) (pdr RN_RDMA_PDT_ACCESSDESC) = Some (ucast (pd_pd_access_type pd))"
      by (simp add: reg64_eq reg_block pd_writes_def n Let_def get_rdma_pd_config_addr_def reg_defs
          del: block_events_Cons) (simp add: fill_pd_def Let_def join_engine msb len)
    show "\<forall>r \<in> set PDT_REGS. \<forall>d. d < 512 \<and> d \<noteq> ?n \<longrightarrow>
       reg32 (hist ?w') (rd_axil_ctl rd) (get_rdma_pd_config_addr r d) =
       reg32 (hist w) (rd_axil_ctl rd) (get_rdma_pd_config_addr r d)"
      using other by (simp add: reg_block del: block_events_Cons)
    show "\<forall>a. a \<notin> (\<lambda>r. rd_axil_ctl rd + ucast (get_rdma_pd_config_addr r (pd_pd_num pd))) ` set PDT_REGS \<longrightarrow>
       last_write (hist ?w') a = last_write (hist w) a"
    proof (intro allI impI)
      fix a assume "a \<notin> (\<lambda>r. rd_axil_ctl rd + ucast (get_rdma_pd_config_addr r (pd_pd_num pd))) ` set PDT_REGS"
      then have "\<forall>(off, v) \<in> set ?ws. rd_axil_ctl rd + ucast off \<noteq> a"
        by (auto simp: pd_writes_def n PDT_REGS_def Let_def)
      then show "last_write (hist ?w') a = last_write (hist w) a" by (simp add: last_write_block_frame)
    qed
  qed (use run in \<open>simp_all add: fill_pd_def Let_def join_engine msb lo\<close>)
qed

theorem register_memory_region_entry_witness:
  "\<exists>w' pd'. rdma_register_memory_region 4 7 8 3 demo_pd_world = Some (Ret (), w') \<and>
    heap w' 7 = Some (O_pd pd') \<and> pd_mr_buffer pd' = 3 \<and> pd_pd_access_type pd' = 2 \<and>
    reg32 (hist w') 0x10000000 (get_rdma_pd_config_addr RN_RDMA_PDT_ACCESSDESC 0) = Some 2"
  using register_memory_region_entry [of demo_pd_world 4 demo_rdma
      "\<lparr>win_size_lsb = 0xffffffff, win_size_msb = 0xff\<rparr>" 7
      "junk_pd idle_env\<lparr>pd_pd_access_type := 2\<rparr>" 3
      "\<lparr>buf_buffer = 0x7f0000000000, buf_dma_addr = 0x12345678000, buf_buf_size = 0\<rparr>" 8]
  by (auto simp: idle_env_def Let_def)

end
