(* ===== verification/Memory_Api.thy ===== *)
theory Memory_Api
  imports World
begin

text \<open>
  \<open>src/lib/memory_api.c\<close>: moving data between a host buffer and the device memory through the
  character device, in chunks of at most \<open>RW_MAX_SIZE\<close> bytes. Both functions are the same
  do-while loop around a different chunk; the locale \<open>chunked_transfer\<close> states what a chunk
  promises and proves the loop once, and both functions interpret it. The effect is stated on
  an abstract machine that replays the recorded system calls.
\<close>

definition DEVICE_MEMORY_ADDRESS_MASK :: u64 where
  "DEVICE_MEMORY_ADDRESS_MASK = 0x0000001FFFFFFFFF"

definition RW_MAX_SIZE :: u64 where
  "RW_MAX_SIZE = 0x7ffff000"

text \<open>\<open>EIO\<close> of the C library, as the negative \<open>ssize_t\<close> that the functions return.\<close>

definition minus_EIO :: i64 where
  "minus_EIO = - 5"

subsection \<open>System calls\<close>

definition sys_lseek :: "env \<Rightarrow> i32 \<Rightarrow> i64 \<Rightarrow> world \<Rightarrow> i64 \<times> world" where
  "sys_lseek E fd offset w =
     (let rc = env_lseek E (hist w) fd offset in (rc, emit (Sys_Lseek fd offset rc) w))"

definition sys_read :: "env \<Rightarrow> i32 \<Rightarrow> u64 \<Rightarrow> u64 \<Rightarrow> world \<Rightarrow> i64 \<times> world" where
  "sys_read E fd buf bytes w =
     (let (rc, data) = env_read E (hist w) fd bytes
      in (rc, emit (Sys_Read fd buf bytes rc data) w))"

definition sys_write :: "env \<Rightarrow> i32 \<Rightarrow> u64 \<Rightarrow> u64 \<Rightarrow> world \<Rightarrow> i64 \<times> world" where
  "sys_write E fd buf bytes w =
     (let rc = env_write E (hist w) fd buf bytes in (rc, emit (Sys_Write fd buf bytes rc) w))"

subsection \<open>One chunk\<close>

text \<open>
  The body of the loop up to the point where the counters advance: seek to the offset, transfer,
  and compare the results. \<open>False\<close> is each of the four paths that return \<open>-EIO\<close>.
\<close>

definition seek_chunk :: "env \<Rightarrow> i32 \<Rightarrow> u64 \<Rightarrow> world \<Rightarrow> bool \<times> world" where
  "seek_chunk E fd offset w =
     (let (rc, w) = sys_lseek E fd offset w
      in if is_negative rc then (False, w)
         else if rc \<noteq> offset then (False, w)
         else (True, w))"

definition read_chunk :: "env \<Rightarrow> i32 \<Rightarrow> u64 \<Rightarrow> u64 \<Rightarrow> u64 \<Rightarrow> world \<Rightarrow> bool \<times> world" where
  "read_chunk E fd buf offset bytes w =
     (case seek_chunk E fd offset w of
        (False, w) \<Rightarrow> (False, w)
      | (True, w) \<Rightarrow>
         (let (rc, w) = sys_read E fd buf bytes w
          in if is_negative rc then (False, w)
             else if rc \<noteq> bytes then (False, w)
             else (True, w)))"

definition write_chunk :: "env \<Rightarrow> i32 \<Rightarrow> u64 \<Rightarrow> u64 \<Rightarrow> u64 \<Rightarrow> world \<Rightarrow> bool \<times> world" where
  "write_chunk E fd buf offset bytes w =
     (case seek_chunk E fd offset w of
        (False, w) \<Rightarrow> (False, w)
      | (True, w) \<Rightarrow>
         (let (rc, w) = sys_write E fd buf bytes w
          in if is_negative rc then (False, w)
             else if rc \<noteq> bytes then (False, w)
             else (True, w)))"

subsection \<open>The loop\<close>

text \<open>
  The do-while loop, over its three running variables. \<open>None\<close> as the value is the early return
  of \<open>-EIO\<close>, \<open>Some count\<close> the loop left by its condition. Its return is proved below
  (\<open>chunk_loop_returns\<close>), for every chunk.
\<close>

definition chunk_bytes :: "u64 \<Rightarrow> u64 \<Rightarrow> u64" where
  "chunk_bytes nbytes count =
     (let bytes = nbytes - count in if RW_MAX_SIZE < bytes then RW_MAX_SIZE else bytes)"

partial_function (option) chunk_loop ::
    "(u64 \<Rightarrow> u64 \<Rightarrow> u64 \<Rightarrow> world \<Rightarrow> bool \<times> world) \<Rightarrow> u64 \<Rightarrow> u64 \<Rightarrow> u64 \<Rightarrow> u64 \<Rightarrow> world
       \<Rightarrow> (u64 option \<times> world) option" where
  "chunk_loop chunk nbytes count buf offset w =
     (let bytes = chunk_bytes nbytes count;
          r = chunk buf offset bytes w
      in if \<not> fst r then Some (None, snd r)
         else if count + bytes < nbytes
              then chunk_loop chunk nbytes (count + bytes) (buf + bytes) (offset + bytes) (snd r)
              else Some (Some (count + bytes), snd r))"

definition finish_transfer :: "u64 \<Rightarrow> (u64 option \<times> world) option \<Rightarrow> (i64 outcome \<times> world) option" where
  "finish_transfer nbytes r =
     (case r of
        None \<Rightarrow> None
      | Some (None, w) \<Rightarrow> Some (Ret minus_EIO, w)
      | Some (Some count, w) \<Rightarrow>
          Some (Ret (if count \<noteq> nbytes then minus_EIO else count), w))"

definition read_to_buffer :: "env \<Rightarrow> i32 \<Rightarrow> u64 \<Rightarrow> u64 \<Rightarrow> u64 \<Rightarrow> i64 io" where
  "read_to_buffer E fd buffer nbytes dev_offset =
     (\<lambda>w. let offset = dev_offset AND DEVICE_MEMORY_ADDRESS_MASK
          in finish_transfer nbytes (chunk_loop (read_chunk E fd) nbytes 0 buffer offset w))"

definition write_from_buffer :: "env \<Rightarrow> i32 \<Rightarrow> u64 \<Rightarrow> u64 \<Rightarrow> u64 \<Rightarrow> i64 io" where
  "write_from_buffer E fd buffer nbytes dev_offset =
     (\<lambda>w. let offset = dev_offset AND DEVICE_MEMORY_ADDRESS_MASK
          in finish_transfer nbytes (chunk_loop (write_chunk E fd) nbytes 0 buffer offset w))"

subsection \<open>The loop always returns\<close>

lemma RW_MAX_SIZE_pos: "0 < RW_MAX_SIZE"
  by (simp add: RW_MAX_SIZE_def)

lemma chunk_bytes_le: "chunk_bytes nbytes count \<le> nbytes - count"
  by (auto simp: chunk_bytes_def Let_def)

lemma chunk_bytes_pos: "count < nbytes \<Longrightarrow> 0 < chunk_bytes nbytes count"
  using RW_MAX_SIZE_pos by (auto simp: chunk_bytes_def Let_def word_neq_0_conv [symmetric])

lemma unat_rest:
  fixes nbytes count bytes :: u64
  assumes "count \<le> nbytes" and "bytes \<le> nbytes - count"
  shows "unat (nbytes - (count + bytes)) = unat (nbytes - count) - unat bytes"
    and "count + bytes \<le> nbytes" and "count + bytes < nbytes \<longleftrightarrow> bytes < nbytes - count"
proof -
  have "nbytes - (count + bytes) = (nbytes - count) - bytes" by (simp only: diff_diff_eq)
  then show u: "unat (nbytes - (count + bytes)) = unat (nbytes - count) - unat bytes"
    using unat_sub [OF assms(2)] by (simp only:)
  have c: "unat (nbytes - count) = unat nbytes - unat count" "unat count \<le> unat nbytes"
    using assms(1) by (simp_all add: unat_sub word_le_nat_alt)
  have b: "unat bytes \<le> unat nbytes - unat count"
    using assms(2) c by (simp add: word_le_nat_alt)
  then have "unat count + unat bytes < 2 ^ 64"
    using c(2) unat_u64_less [of nbytes] by simp
  then have s: "unat (count + bytes) = unat count + unat bytes"
    by (simp add: unat_word_ariths)
  show "count + bytes \<le> nbytes" using s b c(2) by (simp add: word_le_nat_alt)
  show "count + bytes < nbytes \<longleftrightarrow> bytes < nbytes - count"
    using s b c by (auto simp: word_less_nat_alt)
qed

lemma chunk_loop_returns: "count \<le> nbytes \<Longrightarrow> \<exists>r. chunk_loop chunk nbytes count buf offset w = Some r"
proof (induction "unat (nbytes - count)" arbitrary: count buf offset w rule: less_induct)
  case less
  let ?b = "chunk_bytes nbytes count"
  show ?case
  proof (cases "fst (chunk buf offset ?b w) \<and> count + ?b < nbytes")
    case True
    have rest: "unat (nbytes - (count + ?b)) = unat (nbytes - count) - unat ?b"
      and le: "count + ?b \<le> nbytes" and "?b < nbytes - count"
      using unat_rest [OF less.prems chunk_bytes_le] True by auto
    then have "0 < nbytes - count" by (metis word_coorder.extremum_strict word_neq_0_conv)
    then have "count < nbytes" using less.prems by (metis cancel_comm_monoid_add_class.diff_cancel
          order_less_le less_irrefl)
    then have "unat (nbytes - (count + ?b)) < unat (nbytes - count)"
      using chunk_bytes_pos [of count nbytes] chunk_bytes_le [of nbytes count]
      by (simp add: rest word_less_nat_alt word_le_nat_alt)
    from less.hyps [OF this le] True show ?thesis
      by (simp add: chunk_loop.simps [of chunk nbytes count] Let_def)
  next
    case False
    then show ?thesis by (auto simp: chunk_loop.simps [of chunk nbytes count] Let_def)
  qed
qed

subsection \<open>Frames\<close>

text \<open>A relation that every event keeps is kept by a chunk and by the loop.\<close>

lemma seek_chunk_keeps: "transp R \<Longrightarrow> (\<And>e w. R w (emit e w)) \<Longrightarrow> R w (snd (seek_chunk E fd off w))"
  by (auto simp: seek_chunk_def sys_lseek_def Let_def)

lemma write_chunk_keeps:
  assumes "transp R" and "\<And>e w. R w (emit e w)"
  shows "R w (snd (write_chunk E fd buf off n w))"
proof -
  have "R w w1 \<Longrightarrow> R w (emit e w1)" for w1 e using assms by (blast dest: transpD)
  with seek_chunk_keeps [OF assms, of w E fd off] show ?thesis
    by (cases "seek_chunk E fd off w") (auto simp: write_chunk_def sys_write_def Let_def split: bool.split)
qed

lemma read_chunk_keeps:
  assumes "transp R" and "\<And>e w. R w (emit e w)"
  shows "R w (snd (read_chunk E fd buf off n w))"
proof -
  have "R w w1 \<Longrightarrow> R w (emit e w1)" for w1 e using assms by (blast dest: transpD)
  with seek_chunk_keeps [OF assms, of w E fd off] show ?thesis
    by (cases "seek_chunk E fd off w")
      (auto simp: read_chunk_def sys_read_def Let_def split: bool.split prod.split)
qed

lemma chunk_loop_keeps:
  assumes "transp R" and chunk: "\<And>buf off b w. R w (snd (chunk buf off b w))"
    and run: "chunk_loop chunk nbytes count buf off w = Some r"
  shows "R w (snd r)"
proof -
  have "\<forall>R. transp R \<longrightarrow> (\<forall>buf off b w. R w (snd (chunk buf off b w))) \<longrightarrow> R w (snd r)"
  proof (rule chunk_loop.raw_induct [OF _ run])
    fix f and chunk :: "u64 \<Rightarrow> u64 \<Rightarrow> u64 \<Rightarrow> world \<Rightarrow> bool \<times> world" and nbytes count buf off w r
    assume IH: "\<And>(chunk :: u64 \<Rightarrow> u64 \<Rightarrow> u64 \<Rightarrow> world \<Rightarrow> bool \<times> world) nbytes count buf off w r. f chunk nbytes count buf off w = Some r \<Longrightarrow>
        \<forall>R. transp R \<longrightarrow> (\<forall>buf off b w. R w (snd (chunk buf off b w))) \<longrightarrow> R w (snd r)"
      and eq: "(let bytes = chunk_bytes nbytes count; r = chunk buf off bytes w
         in if \<not> fst r then Some (None, snd r)
            else if count + bytes < nbytes
                 then f chunk nbytes (count + bytes) (buf + bytes) (off + bytes) (snd r)
                 else Some (Some (count + bytes), snd r)) = Some r"
    show "\<forall>R. transp R \<longrightarrow> (\<forall>buf off b w. R w (snd (chunk buf off b w))) \<longrightarrow> R w (snd r)"
    proof (intro allI impI)
      fix R :: "world \<Rightarrow> world \<Rightarrow> bool"
      assume R: "transp R" "\<forall>buf off b w. R w (snd (chunk buf off b w))"
      let ?w1 = "snd (chunk buf off (chunk_bytes nbytes count) w)"
      have "R w ?w1" using R(2) by blast
      moreover have "snd r = ?w1 \<or> R ?w1 (snd r)"
        using eq R by (auto simp: Let_def split: if_splits dest!: IH)
      ultimately show "R w (snd r)" using R(1) by (auto dest: transpD)
    qed
  qed
  with assms(1) chunk show ?thesis by blast
qed

lemma keeps_finish_transfer:
  "(\<And>w r. run w = Some r \<Longrightarrow> R w (snd r)) \<Longrightarrow> keeps R (\<lambda>w. finish_transfer n (run w))"
  by (rule keepsI) (force simp: finish_transfer_def split: option.splits)

lemma same_store_emit: "same_store w (emit e w)"
  by (simp add: same_store_def)

lemma keeps_write_from_buffer [keeps_intros]:
  "keeps steps_ok (write_from_buffer E fd buf n off)" "keeps same_store (write_from_buffer E fd buf n off)"
  unfolding write_from_buffer_def Let_def
  by (intro keeps_finish_transfer, erule chunk_loop_keeps [rotated 2],
      auto intro: write_chunk_keeps transp_steps_ok transp_same_store steps_ok_emit same_store_emit)+

lemma keeps_read_to_buffer [keeps_intros]:
  "keeps steps_ok (read_to_buffer E fd buf n off)" "keeps same_store (read_to_buffer E fd buf n off)"
  unfolding read_to_buffer_def Let_def
  by (intro keeps_finish_transfer, erule chunk_loop_keeps [rotated 2],
      auto intro: read_chunk_keeps transp_steps_ok transp_same_store steps_ok_emit same_store_emit)+

subsection \<open>What a chunk promises, and what the loop makes of it\<close>

text \<open>
  \<open>moved w w' buf off n\<close>: from \<open>w\<close> to \<open>w'\<close>, \<open>n\<close> bytes went between the buffer at \<open>buf\<close> and the
  device at \<open>off\<close>. A successful chunk moves its bytes, and adjacent moves add up.
\<close>

locale chunked_transfer =
  fixes chunk :: "u64 \<Rightarrow> u64 \<Rightarrow> u64 \<Rightarrow> world \<Rightarrow> bool \<times> world"
    and moved :: "world \<Rightarrow> world \<Rightarrow> u64 \<Rightarrow> u64 \<Rightarrow> nat \<Rightarrow> bool"
  assumes chunk_moves: "chunk buf off bytes w = (True, w') \<Longrightarrow> moved w w' buf off (unat bytes)"
    and moved_trans: "moved w w1 buf off n \<Longrightarrow>
      moved w1 w2 (buf + word_of_nat n) (off + word_of_nat n) m \<Longrightarrow> n + m < 2 ^ 64 \<Longrightarrow>
      moved w w2 buf off (n + m)"
begin

lemma loop_moves:
  "count \<le> nbytes \<Longrightarrow> chunk_loop chunk nbytes count buf off w = Some (Some c, w') \<Longrightarrow>
   c = nbytes \<and> moved w w' buf off (unat (nbytes - count))"
proof (induction "unat (nbytes - count)" arbitrary: count buf off w rule: less_induct)
  case less
  let ?b = "chunk_bytes nbytes count"
  obtain ok w1 where ch: "chunk buf off ?b w = (ok, w1)" by fastforce
  with less.prems(2) have ok: "chunk buf off ?b w = (True, w1)"
    by (auto simp: chunk_loop.simps [of chunk nbytes count] Let_def split: if_splits)
  note step = chunk_moves [OF ok]
  have ble: "?b \<le> nbytes - count" by (rule chunk_bytes_le)
  note rest = unat_rest [OF less.prems(1) ble]
  show ?case
  proof (cases "count + ?b < nbytes")
    case True
    then have "?b < nbytes - count" using rest(3) by simp
    then have "count < nbytes" using less.prems(1)
      by (metis diff_self order_less_le word_coorder.extremum_strict)
    then have "unat (nbytes - (count + ?b)) < unat (nbytes - count)"
      using chunk_bytes_pos [of count nbytes] ble
      by (simp add: rest(1) word_less_nat_alt word_le_nat_alt)
    moreover have "chunk_loop chunk nbytes (count + ?b) (buf + ?b) (off + ?b) w1 = Some (Some c, w')"
      using less.prems(2) True ok by (simp add: chunk_loop.simps [of chunk nbytes count] Let_def)
    ultimately have IH: "c = nbytes \<and> moved w1 w' (buf + ?b) (off + ?b) (unat (nbytes - (count + ?b)))"
      using less.hyps rest(2) by blast
    have "unat ?b + unat (nbytes - (count + ?b)) = unat (nbytes - count)"
      using ble by (simp add: rest(1) word_le_nat_alt)
    with IH step show ?thesis
      using moved_trans [of w w1 buf off "unat ?b" w' "unat (nbytes - (count + ?b))"]
        unat_u64_less [of "nbytes - count"] by simp
  next
    case False
    then have "?b = nbytes - count" using rest(3) ble by simp
    with less.prems(2) ok False step show ?thesis
      by (simp add: chunk_loop.simps [of chunk nbytes count] Let_def)
  qed
qed

lemma transfer_total:
  "\<exists>r w'. finish_transfer nbytes (chunk_loop chunk nbytes 0 buf off w) = Some (Ret r, w') \<and>
     (r = minus_EIO \<or> r = nbytes \<and> moved w w' buf off (unat nbytes))"
proof -
  obtain r w' where run: "chunk_loop chunk nbytes 0 buf off w = Some (r, w')"
    using chunk_loop_returns [of 0 nbytes chunk buf off w] by (auto simp: word_coorder.extremum)
  show ?thesis
  proof (cases r)
    case None
    then show ?thesis by (simp add: finish_transfer_def run)
  next
    case (Some c)
    with run have "c = nbytes \<and> moved w w' buf off (unat (nbytes - 0))"
      by (intro loop_moves) (auto simp: word_coorder.extremum)
    with Some show ?thesis by (simp add: finish_transfer_def run)
  qed
qed

end

subsection \<open>The replay machine\<close>

text \<open>
  What the recorded system calls mean for the bytes: the host memory, the memory behind the
  character device and the position of each descriptor, as POSIX defines \<open>lseek\<close>, \<open>read\<close> and
  \<open>write\<close>. The history determines them from the state before the first event.
\<close>

record machine =
  m_host :: "u64 \<Rightarrow> u8"
  m_dev :: "u64 \<Rightarrow> u8"
  m_pos :: "i32 \<Rightarrow> u64"

text \<open>\<open>n\<close> bytes of \<open>src\<close> from \<open>s\<close> on, copied to \<open>d\<close>.\<close>

definition copy_bytes :: "(u64 \<Rightarrow> u8) \<Rightarrow> (u64 \<Rightarrow> u8) \<Rightarrow> u64 \<Rightarrow> u64 \<Rightarrow> nat \<Rightarrow> (u64 \<Rightarrow> u8)" where
  "copy_bytes dst src d s n = (\<lambda>a. if unat (a - d) < n then src (s + (a - d)) else dst a)"

definition store_bytes :: "(u64 \<Rightarrow> u8) \<Rightarrow> u64 \<Rightarrow> u8 list \<Rightarrow> (u64 \<Rightarrow> u8)" where
  "store_bytes dst d bs = (\<lambda>a. if unat (a - d) < List.length bs then bs ! unat (a - d) else dst a)"

definition transferred :: "i64 \<Rightarrow> nat" where
  "transferred rc = (if is_negative rc then 0 else unat rc)"

fun replay_event :: "event \<Rightarrow> machine \<Rightarrow> machine" where
  "replay_event (Sys_Lseek fd offset rc) m =
     (if is_negative rc then m else m\<lparr>m_pos := (m_pos m)(fd := rc)\<rparr>)"
| "replay_event (Sys_Read fd buf n rc bs) m =
     m\<lparr>m_host := store_bytes (m_host m) buf bs,
       m_pos := (m_pos m)(fd := m_pos m fd + word_of_nat (transferred rc))\<rparr>"
| "replay_event (Sys_Write fd buf n rc) m =
     m\<lparr>m_dev := copy_bytes (m_dev m) (m_host m) (m_pos m fd) buf (transferred rc),
       m_pos := (m_pos m)(fd := m_pos m fd + word_of_nat (transferred rc))\<rparr>"
| "replay_event (Mem_Store a bs) m = m\<lparr>m_host := store_bytes (m_host m) a bs\<rparr>"
| "replay_event (Sys_Open path fd) m = m\<lparr>m_pos := (m_pos m)(fd := 0)\<rparr>"
| "replay_event _ m = m"

primrec replay :: "machine \<Rightarrow> event list \<Rightarrow> machine" where
  "replay m0 [] = m0"
| "replay m0 (e # h) = replay_event e (replay m0 h)"

text \<open>
  A kernel whose \<open>read\<close> delivers the bytes that are on the device at the position of the
  descriptor, as many as its result says.
\<close>

primrec reads_faithful :: "machine \<Rightarrow> event list \<Rightarrow> bool" where
  "reads_faithful m0 [] \<longleftrightarrow> True"
| "reads_faithful m0 (e # h) \<longleftrightarrow> reads_faithful m0 h \<and>
     (case e of
        Sys_Read fd buf n rc bs \<Rightarrow>
          bs = map (\<lambda>i. m_dev (replay m0 h) (m_pos (replay m0 h) fd + word_of_nat i))
                 [0..<transferred rc]
      | _ \<Rightarrow> True)"

text \<open>\<open>n\<close> bytes went from the buffer to the device, and nothing else changed in either memory.\<close>

definition stored_to_device :: "world \<Rightarrow> world \<Rightarrow> u64 \<Rightarrow> u64 \<Rightarrow> nat \<Rightarrow> bool" where
  "stored_to_device w w' buf off n \<longleftrightarrow>
     (\<forall>m0. m_host (replay m0 (hist w')) = m_host (replay m0 (hist w)) \<and>
           m_dev (replay m0 (hist w')) =
             copy_bytes (m_dev (replay m0 (hist w))) (m_host (replay m0 (hist w))) off buf n)"

text \<open>\<open>n\<close> bytes went from the device to the buffer, provided the kernel reads faithfully.\<close>

definition loaded_from_device :: "world \<Rightarrow> world \<Rightarrow> u64 \<Rightarrow> u64 \<Rightarrow> nat \<Rightarrow> bool" where
  "loaded_from_device w w' buf off n \<longleftrightarrow>
     (\<exists>es. hist w' = es @ hist w) \<and>
     (\<forall>m0. reads_faithful m0 (hist w') \<longrightarrow>
           m_dev (replay m0 (hist w')) = m_dev (replay m0 (hist w)) \<and>
           m_host (replay m0 (hist w')) =
             copy_bytes (m_host (replay m0 (hist w))) (m_dev (replay m0 (hist w))) buf off n)"

lemma reads_faithful_suffix: "reads_faithful m0 (es @ h) \<Longrightarrow> reads_faithful m0 h"
  by (induction es) auto

text \<open>Copies of adjacent ranges add up.\<close>

lemma copy_bytes_add:
  assumes "n + m < 2 ^ 64"
  shows "copy_bytes (copy_bytes dst src d s n) src (d + word_of_nat n) (s + word_of_nat n) m =
         copy_bytes dst src d s (n + m)"
proof (rule ext)
  fix a
  let ?x = "a - d" and ?n = "word_of_nat n :: u64"
  have n: "unat ?n = n" using assms by (simp add: unat_of_nat_u64)
  have shift: "a - (d + ?n) = ?x - ?n" "s + ?n + (?x - ?n) = s + ?x"
    by (simp_all only: diff_diff_eq) simp
  show "copy_bytes (copy_bytes dst src d s n) src (d + ?n) (s + ?n) m a =
        copy_bytes dst src d s (n + m) a"
  proof (cases "n \<le> unat ?x")
    case True
    then have "unat (?x - ?n) = unat ?x - n"
      using n by (simp add: unat_sub word_le_nat_alt)
    with True show ?thesis unfolding copy_bytes_def shift by auto
  next
    case False
    have "n \<le> unat (?x - ?n) + n" by simp
    moreover have "\<not> unat (?x - ?n) < m"
    proof
      assume "unat (?x - ?n) < m"
      then have "unat (?x - ?n + ?n) = unat (?x - ?n) + n"
        using assms n by (subst unat_u64_add) auto
      with False show False by simp
    qed
    ultimately show ?thesis using False unfolding copy_bytes_def shift by auto
  qed
qed

lemma store_bytes_map:
  "store_bytes dst d (map (\<lambda>i. src (s + word_of_nat i)) [0..<n]) = copy_bytes dst src d s n"
  by (rule ext) (simp add: store_bytes_def copy_bytes_def)

subsection \<open>Both directions are chunked transfers\<close>

lemma seek_chunk_True:
  "seek_chunk E fd off w = (True, w') \<Longrightarrow>
     \<not> is_negative off \<and> hist w' = Sys_Lseek fd off off # hist w"
  by (auto simp: seek_chunk_def sys_lseek_def Let_def split: if_splits)

lemma write_chunk_True:
  assumes "write_chunk E fd buf off n w = (True, w')"
  shows "\<not> is_negative off \<and> \<not> is_negative n \<and>
     hist w' = Sys_Write fd buf n n # Sys_Lseek fd off off # hist w"
  using assms
  by (auto simp: write_chunk_def sys_write_def Let_def dest!: seek_chunk_True
      split: if_splits prod.splits bool.splits)

lemma read_chunk_True:
  assumes "read_chunk E fd buf off n w = (True, w')"
  shows "\<not> is_negative off \<and> \<not> is_negative n \<and>
     (\<exists>bs. hist w' = Sys_Read fd buf n n bs # Sys_Lseek fd off off # hist w)"
  using assms
  by (auto simp: read_chunk_def sys_read_def Let_def dest!: seek_chunk_True
      split: if_splits prod.splits bool.splits)

lemma stored_to_device_trans:
  "stored_to_device w w1 buf off n \<Longrightarrow>
   stored_to_device w1 w2 (buf + word_of_nat n) (off + word_of_nat n) m \<Longrightarrow> n + m < 2 ^ 64 \<Longrightarrow>
   stored_to_device w w2 buf off (n + m)"
  by (simp add: stored_to_device_def copy_bytes_add)

lemma loaded_from_device_trans:
  assumes "loaded_from_device w w1 buf off n"
    and "loaded_from_device w1 w2 (buf + word_of_nat n) (off + word_of_nat n) m"
    and "n + m < 2 ^ 64"
  shows "loaded_from_device w w2 buf off (n + m)"
proof -
  from assms(1,2) obtain es where es: "hist w2 = es @ hist w1" and grows: "\<exists>fs. hist w2 = fs @ hist w"
    unfolding loaded_from_device_def by auto
  have faithful: "reads_faithful m0 (hist w1)" if "reads_faithful m0 (hist w2)" for m0
    using that unfolding es by (rule reads_faithful_suffix)
  show ?thesis
    using assms grows faithful by (simp add: loaded_from_device_def copy_bytes_add)
qed

interpretation device_write: chunked_transfer "write_chunk E fd" stored_to_device for E fd
proof unfold_locales
  fix buf off n w w'
  assume "write_chunk E fd buf off n w = (True, w')"
  from write_chunk_True [OF this] show "stored_to_device w w' buf off (unat n)"
    by (simp add: stored_to_device_def transferred_def)
qed (rule stored_to_device_trans)

interpretation device_read: chunked_transfer "read_chunk E fd" loaded_from_device for E fd
proof unfold_locales
  fix buf off n w w'
  assume "read_chunk E fd buf off n w = (True, w')"
  from read_chunk_True [OF this] show "loaded_from_device w w' buf off (unat n)"
    by (auto simp: loaded_from_device_def transferred_def store_bytes_map)
qed (rule loaded_from_device_trans)

lemmas transfer_totals = device_write.transfer_total device_read.transfer_total

text \<open>A loop whose chunks succeed succeeds: with \<open>transfer_total\<close> this decides the result.\<close>

lemma chunk_loop_succeeds:
  assumes chunk: "\<And>buf off b w. \<not> is_negative off \<Longrightarrow> b \<le> RW_MAX_SIZE \<Longrightarrow> fst (chunk buf off b w)"
  shows "count \<le> nbytes \<Longrightarrow> unat off + unat (nbytes - count) < 2 ^ 63 \<Longrightarrow>
    \<exists>c w'. chunk_loop chunk nbytes count buf off w = Some (Some c, w')"
proof (induction "unat (nbytes - count)" arbitrary: count buf off w rule: less_induct)
  case less
  let ?b = "chunk_bytes nbytes count"
  have ble: "?b \<le> nbytes - count" by (rule chunk_bytes_le)
  note rest = unat_rest [OF less.prems(1) ble]
  have "\<not> is_negative off"
    using less.prems(2) by (intro not_negative) simp
  moreover have "?b \<le> RW_MAX_SIZE" by (auto simp: chunk_bytes_def Let_def)
  ultimately have ok: "fst (chunk buf off ?b w)" by (rule chunk)
  show ?case
  proof (cases "count + ?b < nbytes")
    case True
    then have "count < nbytes" using rest(3) less.prems(1)
      by (metis diff_self order_less_le word_coorder.extremum_strict)
    then have "unat (nbytes - (count + ?b)) < unat (nbytes - count)"
      using chunk_bytes_pos [of count nbytes] ble
      by (simp add: rest(1) word_less_nat_alt word_le_nat_alt)
    moreover have "unat (off + ?b) = unat off + unat ?b"
      using less.prems(2) ble by (intro unat_u64_add) (simp add: word_le_nat_alt)
    ultimately have "\<exists>c w'. chunk_loop chunk nbytes (count + ?b) (buf + ?b) (off + ?b)
        (snd (chunk buf off ?b w)) = Some (Some c, w')"
      using rest(1,2) less.prems(2) ble by (intro less.hyps) (auto simp: word_le_nat_alt)
    with ok True show ?thesis by (simp add: chunk_loop.simps [of chunk nbytes count] Let_def)
  next
    case False
    with ok show ?thesis by (simp add: chunk_loop.simps [of chunk nbytes count] Let_def)
  qed
qed

text \<open>A kernel whose seeks and transfers on the device descriptor are complete.\<close>

definition device_writes_complete :: "env \<Rightarrow> i32 \<Rightarrow> bool" where
  "device_writes_complete E fd \<longleftrightarrow>
     (\<forall>h off. env_lseek E h fd off = off) \<and> (\<forall>h buf n. env_write E h fd buf n = n)"

definition device_reads_complete :: "env \<Rightarrow> i32 \<Rightarrow> bool" where
  "device_reads_complete E fd \<longleftrightarrow>
     (\<forall>h off. env_lseek E h fd off = off) \<and> (\<forall>h n. fst (env_read E h fd n) = n)"

lemma RW_MAX_SIZE_not_negative: "n \<le> RW_MAX_SIZE \<Longrightarrow> \<not> is_negative n"
  by (rule not_negative) (simp add: RW_MAX_SIZE_def word_le_nat_alt)

lemma write_chunk_complete:
  "device_writes_complete E fd \<Longrightarrow> \<not> is_negative off \<Longrightarrow> n \<le> RW_MAX_SIZE \<Longrightarrow>
   fst (write_chunk E fd buf off n w)"
  by (simp add: device_writes_complete_def write_chunk_def seek_chunk_def sys_lseek_def
      sys_write_def Let_def RW_MAX_SIZE_not_negative)

lemma read_chunk_complete:
  "device_reads_complete E fd \<Longrightarrow> \<not> is_negative off \<Longrightarrow> n \<le> RW_MAX_SIZE \<Longrightarrow>
   fst (read_chunk E fd buf off n w)"
  by (simp add: device_reads_complete_def read_chunk_def seek_chunk_def sys_lseek_def
      sys_read_def Let_def RW_MAX_SIZE_not_negative split_beta)

lemma masked_offset_less: "unat (off AND DEVICE_MEMORY_ADDRESS_MASK) < 2 ^ 37"
proof -
  have "off AND DEVICE_MEMORY_ADDRESS_MASK = take_bit 37 off"
    by (simp add: DEVICE_MEMORY_ADDRESS_MASK_def take_bit_eq_mask mask_eq_exp_minus_1)
  then show ?thesis
    by (simp add: unsigned_take_bit_eq) (simp add: take_bit_eq_mod)
qed

lemma masked_transfer_fits:
  "unat nbytes < 2 ^ 62 \<Longrightarrow> unat (off AND DEVICE_MEMORY_ADDRESS_MASK) + unat (nbytes - 0) < 2 ^ 63"
  using masked_offset_less [of off] by simp

subsection \<open>Properties\<close>

text \<open>
  C12: \<open>write_from_buffer\<close> always returns. It returns \<open>-EIO\<close>, or the whole size, and then the
  device holds exactly the bytes of the buffer at the masked offset and nothing else has changed,
  for every size, also when it takes several chunks. When the kernel completes every seek and
  write, it does return the size.
\<close>

theorem write_from_buffer_correct:
  "\<exists>r w'. write_from_buffer E fd buffer nbytes dev_offset w = Some (Ret r, w') \<and>
     (r = minus_EIO \<or> r = nbytes \<and> (\<forall>m0.
        m_host (replay m0 (hist w')) = m_host (replay m0 (hist w)) \<and>
        m_dev (replay m0 (hist w')) =
          copy_bytes (m_dev (replay m0 (hist w))) (m_host (replay m0 (hist w)))
            (dev_offset AND DEVICE_MEMORY_ADDRESS_MASK) buffer (unat nbytes))) \<and>
     (device_writes_complete E fd \<and> unat nbytes < 2 ^ 62 \<longrightarrow> r = nbytes)"
proof -
  let ?off = "dev_offset AND DEVICE_MEMORY_ADDRESS_MASK"
  have "\<exists>c w'. chunk_loop (write_chunk E fd) nbytes 0 buffer ?off w = Some (Some c, w')"
    if "device_writes_complete E fd" "unat nbytes < 2 ^ 62"
    using that by (intro chunk_loop_succeeds write_chunk_complete masked_transfer_fits) simp_all
  with device_write.loop_moves [of 0 nbytes E fd buffer ?off w]
    device_write.transfer_total [of nbytes E fd buffer ?off w]
  show ?thesis
    by (fastforce simp: write_from_buffer_def finish_transfer_def stored_to_device_def)
qed

theorem write_from_buffer_correct_witness:
  "\<exists>w'. write_from_buffer idle_env 3 0x1000 16 0x40 idle_world = Some (Ret 16, w')"
  using write_from_buffer_correct [of idle_env 3 "0x1000" 16 "0x40" idle_world]
  by (auto simp: device_writes_complete_def)

text \<open>
  C13: \<open>read_to_buffer\<close> always returns. It returns \<open>-EIO\<close>, or the whole size, and then, if the
  kernel delivered the bytes of the device, the buffer holds exactly the bytes at the masked
  offset and nothing else has changed. When the kernel completes every seek and read, it does
  return the size.
\<close>

theorem read_to_buffer_correct:
  "\<exists>r w'. read_to_buffer E fd buffer nbytes dev_offset w = Some (Ret r, w') \<and>
     (r = minus_EIO \<or> r = nbytes \<and> (\<forall>m0. reads_faithful m0 (hist w') \<longrightarrow>
        m_dev (replay m0 (hist w')) = m_dev (replay m0 (hist w)) \<and>
        m_host (replay m0 (hist w')) =
          copy_bytes (m_host (replay m0 (hist w))) (m_dev (replay m0 (hist w)))
            buffer (dev_offset AND DEVICE_MEMORY_ADDRESS_MASK) (unat nbytes))) \<and>
     (device_reads_complete E fd \<and> unat nbytes < 2 ^ 62 \<longrightarrow> r = nbytes)"
proof -
  let ?off = "dev_offset AND DEVICE_MEMORY_ADDRESS_MASK"
  have "\<exists>c w'. chunk_loop (read_chunk E fd) nbytes 0 buffer ?off w = Some (Some c, w')"
    if "device_reads_complete E fd" "unat nbytes < 2 ^ 62"
    using that by (intro chunk_loop_succeeds read_chunk_complete masked_transfer_fits) simp_all
  with device_read.loop_moves [of 0 nbytes E fd buffer ?off w]
    device_read.transfer_total [of nbytes E fd buffer ?off w]
  show ?thesis
    by (fastforce simp: read_to_buffer_def finish_transfer_def loaded_from_device_def)
qed

theorem read_to_buffer_correct_witness:
  "\<exists>w'. read_to_buffer idle_env 3 0x1000 16 0x40 idle_world = Some (Ret 16, w')"
  using read_to_buffer_correct [of idle_env 3 "0x1000" 16 "0x40" idle_world]
  by (auto simp: device_reads_complete_def)

end
