(* ===== verification/Rdma_Qp.thy ===== *)
theory Rdma_Qp
  imports Rdma_Config Memory_Api Auxiliary
begin

text \<open>
  Queue pairs of \<open>src/lib/rdma_api.c\<close>: their creation with all per-queue registers, the packet
  sequence numbers, and the construction of work queue elements in host or device memory. The
  lemmas give the register bank of the new queue, the layout of an element in memory, and that
  it reaches the send queue unchanged wherever the queue is.
\<close>

subsection \<open>The table of queue pairs\<close>

text \<open>\<open>rdma_dev->qps_ptr[qpid]\<close>, which is in bounds for the elements that were allocated.\<close>

definition qps_index :: "rdma_dev_t \<Rightarrow> u32 \<Rightarrow> ptr io" where
  "qps_index rd qpid =
     bindM (load as_qp_table (rd_qps_ptr rd)) (\<lambda>table.
     if unat qpid < List.length table then returnM (table ! unat qpid) else faultM Out_Of_Bounds)"

definition set_qps_index :: "rdma_dev_t \<Rightarrow> u32 \<Rightarrow> ptr \<Rightarrow> unit io" where
  "set_qps_index rd qpid qp =
     bindM (load as_qp_table (rd_qps_ptr rd)) (\<lambda>table.
     if unat qpid < List.length table
     then store (rd_qps_ptr rd) (O_qp_table (table[unat qpid := qp]))
     else faultM Out_Of_Bounds)"

subsection \<open>Packet sequence numbers\<close>

definition config_last_rq_psn :: "ptr \<Rightarrow> u32 \<Rightarrow> u32 \<Rightarrow> unit io" where
  "config_last_rq_psn rdma_dev qpid last_rq_psn =
     (let rq_opcode = 0x0000000a;
          rq_conf = (push_bit 24 rq_opcode AND 0xff000000) OR (last_rq_psn AND 0x00ffffff)
      in bindM (load as_rdma_dev rdma_dev) (\<lambda>rd.
         thenM (write32_data (rd_axil_ctl rd)
                 (ucast (get_rdma_per_q_config_addr RN_RDMA_QCSR_LSTRQREQi qpid)) rq_conf) (
         bindM (qps_index rd qpid) (\<lambda>qp.
         bindM (load as_qp qp) (\<lambda>q.
         store qp (O_qp (q\<lparr>qp_last_rq_psn := last_rq_psn\<rparr>)))))))"

definition config_sq_psn :: "ptr \<Rightarrow> u32 \<Rightarrow> u32 \<Rightarrow> unit io" where
  "config_sq_psn rdma_dev qpid sq_psn =
     bindM (load as_rdma_dev rdma_dev) (\<lambda>rd.
     thenM (write32_data (rd_axil_ctl rd)
             (ucast (get_rdma_per_q_config_addr RN_RDMA_QCSR_SQPSNi qpid)) sq_psn) (
     bindM (qps_index rd qpid) (\<lambda>qp.
     bindM (load as_qp qp) (\<lambda>q.
     store qp (O_qp (q\<lparr>qp_sq_psn := sq_psn\<rparr>))))))"

subsection \<open>Creating a queue pair\<close>

definition make_qp_config :: u32 where
  "make_qp_config =
     (let en_qp = 1; mtu_config = 4; rq_buffer_entry_size = RQE_SIZE
      in (en_qp AND 0x00000001) OR (0xc AND 0x0000000c) OR (0x30 AND 0x000000f0)
         OR (push_bit 8 mtu_config AND 0x0000ff00)
         OR (push_bit 16 rq_buffer_entry_size AND 0xffff0000))"

definition make_qp_adv_conf :: "u32 \<Rightarrow> u32" where
  "make_qp_adv_conf partion_key =
     (let traffic_class = 0; time_to_live = 64
      in (push_bit 16 partion_key AND 0xffff0000) OR (push_bit 8 time_to_live AND 0x0000ff00)
         OR (traffic_class AND 0x000000ff))"

text \<open>
  The first half of \<open>allocate_rdma_qp\<close>: the structure and its three buffers, up to the entry in
  the table. Returns the queue pair with the structure it stored.
\<close>

definition build_qp ::
    "env \<Rightarrow> ptr \<Rightarrow> rdma_dev_t \<Rightarrow> u32 \<Rightarrow> u32 \<Rightarrow> ptr \<Rightarrow> u64 \<Rightarrow> u64 \<Rightarrow> u32 \<Rightarrow> string \<Rightarrow> ptr \<Rightarrow> u32
       \<Rightarrow> (ptr \<times> rdma_qp_t) io" where
  "build_qp E rdma_dev rd qpid dst_qpid pd_entry cq_cidb_addr rq_cidb_addr qdepth buf_location
     dst_mac dst_ip =
     bindM (malloc E (O_qp (junk_qp E))) (\<lambda>qp.
     let q = (junk_qp E)\<lparr>qp_rdma_dev := rdma_dev, qp_qpid := qpid, qp_dst_qpid := dst_qpid\<rparr>;
         sq_size = rd_num_qp rd * qdepth * 64;
         cq_size = rd_num_qp rd * qdepth * 4;
         rq_size = rd_num_qp rd * qdepth * RQE_SIZE
     in thenM (store qp (O_qp q)) (
     bindM (allocate_rdma_buffer E (rd_rn_dev rd) (ucast sq_size) buf_location) (\<lambda>sq.
     let q = q\<lparr>qp_sq := sq, qp_sq_pidb := 0, qp_sq_cidb := 0\<rparr> in
     thenM (store qp (O_qp q)) (
     bindM (allocate_rdma_buffer E (rd_rn_dev rd) (ucast cq_size) buf_location) (\<lambda>cq.
     let q = q\<lparr>qp_cq := cq, qp_cq_cidb := 0, qp_cq_cidb_addr := cq_cidb_addr\<rparr> in
     thenM (store qp (O_qp q)) (
     bindM (allocate_rdma_buffer E (rd_rn_dev rd) (ucast rq_size) buf_location) (\<lambda>rq.
     let q = q\<lparr>qp_rq := rq, qp_rq_cidb := 0, qp_rq_pidb := 0, qp_rq_cidb_addr := rq_cidb_addr,
               qp_pd_entry := pd_entry, qp_qdepth := qdepth, qp_dst_mac := dst_mac,
               qp_dst_ip := dst_ip\<rparr> in
     thenM (store qp (O_qp q)) (
     thenM (set_qps_index rd qpid qp)
       (returnM (qp, q))))))))))"

text \<open>
  The second half: the per-queue registers. The writes up to the protection domain, in program
  order, given the structures that the code follows on the way.
\<close>

definition qp_writes ::
    "win_size_t \<Rightarrow> rdma_qp_t \<Rightarrow> rdma_buff_t \<Rightarrow> rdma_buff_t \<Rightarrow> rdma_buff_t \<Rightarrow> u32 \<Rightarrow> (u32 \<times> u32) list" where
  "qp_writes ws q sq cq rq partion_key =
     (let r = (\<lambda>offset. get_rdma_per_q_config_addr offset (qp_qpid q)); qdepth = qp_qdepth q
      in [(r RN_RDMA_QCSR_SQBAi, engine_lsb ws (buf_dma_addr sq)),
          (r RN_RDMA_QCSR_SQBAMSBi, engine_msb ws (buf_dma_addr sq)),
          (r RN_RDMA_QCSR_CQBAi, engine_lsb ws (buf_dma_addr cq)),
          (r RN_RDMA_QCSR_CQBAMSBi, engine_msb ws (buf_dma_addr cq)),
          (r RN_RDMA_QCSR_RQBAi, engine_lsb ws (buf_dma_addr rq)),
          (r RN_RDMA_QCSR_RQBAMSBi, engine_msb ws (buf_dma_addr rq)),
          (r RN_RDMA_QCSR_CQDBADDi, engine_lsb ws (qp_cq_cidb_addr q)),
          (r RN_RDMA_QCSR_CQDBADDMSBi, engine_msb ws (qp_cq_cidb_addr q)),
          (r RN_RDMA_QCSR_RQWPTRDBADDi, engine_lsb ws (qp_rq_cidb_addr q)),
          (r RN_RDMA_QCSR_RQWPTRDBADDMSBi, engine_msb ws (qp_rq_cidb_addr q)),
          (r RN_RDMA_QCSR_DESTQPCONFi, qp_dst_qpid q),
          (r RN_RDMA_QCSR_QDEPTHi, qdepth OR push_bit 16 qdepth),
          (r RN_RDMA_QCSR_QPCONFi, make_qp_config),
          (r RN_RDMA_QCSR_QPADVCONFi, make_qp_adv_conf partion_key)])"

definition program_qp :: "rdma_dev_t \<Rightarrow> win_size_t \<Rightarrow> rdma_qp_t \<Rightarrow> u32 \<Rightarrow> unit io" where
  "program_qp rd ws q partion_key =
     (let r = (\<lambda>offset. get_rdma_per_q_config_addr offset (qp_qpid q)); base = rd_axil_ctl rd
      in if base = 0 then exitM EXIT_FAILURE else
         thenM (write32_block base [(r RN_RDMA_QCSR_IPDESADDR1i, qp_dst_ip q)]) (
         bindM (load as_mac (qp_dst_mac q)) (\<lambda>mac.
         thenM (write32_block base [(r RN_RDMA_QCSR_MACDESADDLSBi, mac_lsb mac),
                                    (r RN_RDMA_QCSR_MACDESADDMSBi, mac_msb mac)]) (
         bindM (load as_rdma_buff (qp_sq q)) (\<lambda>sq.
         bindM (load as_rdma_buff (qp_cq q)) (\<lambda>cq.
         bindM (load as_rdma_buff (qp_rq q)) (\<lambda>rq.
         thenM (write32_block base (qp_writes ws q sq cq rq partion_key)) (
         bindM (load as_pd (qp_pd_entry q)) (\<lambda>pd.
         write32_block base [(r RN_RDMA_QCSR_PDi, pd_pd_num pd)]))))))))) "

definition allocate_rdma_qp ::
    "env \<Rightarrow> ptr \<Rightarrow> u32 \<Rightarrow> u32 \<Rightarrow> ptr \<Rightarrow> u64 \<Rightarrow> u64 \<Rightarrow> u32 \<Rightarrow> string \<Rightarrow> ptr \<Rightarrow> u32 \<Rightarrow> u32 \<Rightarrow> ptr io" where
  "allocate_rdma_qp E rdma_dev qpid dst_qpid pd_entry cq_cidb_addr rq_cidb_addr qdepth
     buf_location dst_mac dst_ip partion_key =
     bindM (load as_rdma_dev rdma_dev) (\<lambda>rd.
     bindM (load as_win_size (rd_winSize rd)) (\<lambda>ws.
     bindM (build_qp E rdma_dev rd qpid dst_qpid pd_entry cq_cidb_addr rq_cidb_addr qdepth
              buf_location dst_mac dst_ip) (\<lambda>(qp, q).
     thenM (program_qp rd ws q partion_key)
       (returnM qp))))"

subsection \<open>Work queue elements\<close>

text \<open>
  The 64 bytes of an element: the fields in the order of the structure, little-endian and without
  padding.
\<close>

definition le_bytes :: "nat \<Rightarrow> 'a::len word \<Rightarrow> u8 list" where
  "le_bytes n x = map (byte_of x) [0..<n]"

definition wqe_bytes :: "rdma_wqe_t \<Rightarrow> u8 list" where
  "wqe_bytes e =
     le_bytes 2 (wqe_wrid e) @ le_bytes 2 (wqe_reserved e) @
     concat (map (le_bytes 4)
       [wqe_laddr_low e, wqe_laddr_high e, wqe_length e, wqe_opcode e, wqe_remote_offset_low e,
        wqe_remote_offset_high e, wqe_r_key e, wqe_send_small_payload0 e,
        wqe_send_small_payload1 e, wqe_send_small_payload2 e, wqe_send_small_payload3 e,
        wqe_immdt_data e, wqe_reserved0 e, wqe_reserved1 e, wqe_reserved2 e])"

definition WQE_SIZE :: u64 where
  "WQE_SIZE = 64"

text \<open>The fields, over the zeroes of the \<open>memset\<close>.\<close>

definition make_wqe ::
    "win_size_t \<Rightarrow> u16 \<Rightarrow> u64 \<Rightarrow> u32 \<Rightarrow> u32 \<Rightarrow> u64 \<Rightarrow> u32 \<Rightarrow> u32 \<Rightarrow> u32 \<Rightarrow> u32 \<Rightarrow> u32 \<Rightarrow> u32 \<Rightarrow> rdma_wqe_t" where
  "make_wqe ws wrid laddr len opcode remote_offset r_key p0 p1 p2 p3 immdt_data =
     \<lparr>wqe_wrid = wrid, wqe_reserved = 0,
      wqe_laddr_low = engine_lsb ws laddr, wqe_laddr_high = engine_msb ws laddr,
      wqe_length = len, wqe_opcode = opcode AND 0x000000ff,
      wqe_remote_offset_low = lo32 remote_offset, wqe_remote_offset_high = hi32 remote_offset,
      wqe_r_key = r_key, wqe_send_small_payload0 = p0, wqe_send_small_payload1 = p1,
      wqe_send_small_payload2 = p2, wqe_send_small_payload3 = p3, wqe_immdt_data = immdt_data,
      wqe_reserved0 = 0, wqe_reserved1 = 0, wqe_reserved2 = 0\<rparr>"

text \<open>
  The element is cleared and filled where it stands: in the send queue when that is in host
  memory, otherwise in a temporary object that is then written to the device and freed. The send
  queue is a part of the one huge page mapping and the code compares \<open>wqe_idx\<close> with nothing: an
  index beyond the depth addresses what lies behind the queue, and is no fault here.
\<close>

definition create_a_wqe ::
    "env \<Rightarrow> ptr \<Rightarrow> u32 \<Rightarrow> u16 \<Rightarrow> u32 \<Rightarrow> u64 \<Rightarrow> u32 \<Rightarrow> u32 \<Rightarrow> u64 \<Rightarrow> u32 \<Rightarrow> u32 \<Rightarrow> u32 \<Rightarrow> u32 \<Rightarrow> u32 \<Rightarrow> u32
       \<Rightarrow> unit io" where
  "create_a_wqe E rdma_dev qpid wrid wqe_idx laddr len opcode remote_offset r_key p0 p1 p2 p3
     immdt_data =
     bindM (load as_rdma_dev rdma_dev) (\<lambda>rd.
     bindM (load as_win_size (rd_winSize rd)) (\<lambda>ws.
     bindM (qps_index rd qpid) (\<lambda>qp.
     bindM (load as_qp qp) (\<lambda>q.
     bindM (load as_rdma_buff (qp_sq q)) (\<lambda>sq.
     let wqe = make_wqe ws wrid laddr len opcode remote_offset r_key p0 p1 p2 p3 immdt_data;
         fill = (\<lambda>a. thenM (modifyM (emit (Mem_Store a (replicate 64 0))))
                       (modifyM (emit (Mem_Store a (wqe_bytes wqe)))))
     in if is_device_address (buf_dma_addr sq) \<noteq> 0 then
          bindM (malloc E O_wqe) (\<lambda>p.
          if p = NULL then faultM Bad_Pointer else
          thenM (fill (env_obj_addr E p)) (
          bindM (getsM g_fpga_fd) (\<lambda>fpga_fd.
          bindM (write_from_buffer E fpga_fd (env_obj_addr E p) WQE_SIZE
                  (buf_dma_addr sq + ucast wqe_idx * WQE_SIZE)) (\<lambda>rc.
          if is_negative rc then exitM EXIT_FAILURE
          else free_obj p))))
        else fill (buf_buffer sq + ucast wqe_idx * WQE_SIZE))))))"

subsection \<open>Frames\<close>

lemma keeps_qps_index [keeps_intros]: "keeps steps_ok (qps_index rd qpid)"
  "keeps steps_ok (set_qps_index rd qpid qp)" "keeps same_regs (qps_index rd qpid)"
  "keeps same_regs (set_qps_index rd qpid qp)"
  unfolding qps_index_def set_qps_index_def by (intro keeps_intros)+

lemma keeps_config_psn [keeps_intros]: "keeps steps_ok (config_last_rq_psn rdma_dev qpid psn)"
  "keeps steps_ok (config_sq_psn rdma_dev qpid psn)"
  unfolding config_last_rq_psn_def config_sq_psn_def by (intro keeps_intros)+

lemma keeps_build_qp [keeps_intros]:
  "keeps steps_ok (build_qp E rdma_dev rd qpid dst_qpid pd cqa rqa qdepth loc mac ip)"
  "keeps same_regs (build_qp E rdma_dev rd qpid dst_qpid pd cqa rqa qdepth loc mac ip)"
  unfolding build_qp_def by (intro keeps_intros)+

lemma keeps_allocate_rdma_qp [keeps_intros]:
  "keeps steps_ok (allocate_rdma_qp E rdma_dev qpid dst_qpid pd cqa rqa qdepth loc mac ip key)"
  unfolding allocate_rdma_qp_def program_qp_def by (intro keeps_intros)

subsection \<open>The effect of building a queue pair\<close>

lemma qps_index_run [run_simps]:
  "heap w (rd_qps_ptr rd) = Some (O_qp_table table) \<Longrightarrow> unat qpid < List.length table \<Longrightarrow>
   qps_index rd qpid w = Some (Ret (table ! unat qpid), w)"
  by (simp add: qps_index_def run_simps)

lemma set_qps_index_RetE:
  assumes "set_qps_index rd qpid qp w = Some (Ret x, w')"
    and "heap w (rd_qps_ptr rd) = Some (O_qp_table table)"
  obtains "unat qpid < List.length table"
    "w' = w\<lparr>heap := (heap w)(rd_qps_ptr rd \<mapsto> O_qp_table (table[unat qpid := qp]))\<rparr>"
  using assms by (auto simp: set_qps_index_def run_simps faultM_def split: if_splits)

text \<open>The structure that a successful run builds, as a function of the three buffers.\<close>

definition built_qp ::
    "env \<Rightarrow> ptr \<Rightarrow> u32 \<Rightarrow> u32 \<Rightarrow> ptr \<Rightarrow> u64 \<Rightarrow> u64 \<Rightarrow> u32 \<Rightarrow> ptr \<Rightarrow> u32 \<Rightarrow> ptr \<Rightarrow> ptr \<Rightarrow> ptr \<Rightarrow> rdma_qp_t" where
  "built_qp E rdma_dev qpid dst_qpid pd cqa rqa qdepth mac ip sq cq rq =
     (junk_qp E)\<lparr>qp_rdma_dev := rdma_dev, qp_qpid := qpid, qp_dst_qpid := dst_qpid, qp_sq := sq,
       qp_sq_pidb := 0, qp_sq_cidb := 0, qp_cq := cq, qp_cq_cidb := 0, qp_cq_cidb_addr := cqa,
       qp_rq := rq, qp_rq_cidb := 0, qp_rq_pidb := 0, qp_rq_cidb_addr := rqa, qp_pd_entry := pd,
       qp_qdepth := qdepth, qp_dst_mac := mac, qp_dst_ip := ip\<rparr>"

lemma world_ok_store: "world_ok w \<Longrightarrow> heap w p \<noteq> None \<Longrightarrow> world_ok (w\<lparr>heap := (heap w)(p \<mapsto> ob)\<rparr>)"
  by (auto simp: world_ok_def)

text \<open>One buffer of the queue pair: allocated, and the structure stored again with it.\<close>

lemma build_stage:
  assumes ok: "world_ok w" and rn: "heap w rn = Some (O_rn_dev d)"
    and base: "heap w (rn_base_buf d) = Some (O_rdma_buff bb)" and qp: "heap w qp = Some (O_qp q0)"
    and al: "allocate_rdma_buffer E rn n loc w = Some (Ret p, w0)"
    and st: "store qp (O_qp q1) w0 = Some (Ret u, w1)"
  shows "p = next_ptr w \<and> world_ok w1 \<and> next_ptr w1 = Suc (next_ptr w) \<and>
    (\<exists>d1. heap w1 rn = Some (O_rn_dev d1) \<and> heap w1 (rn_base_buf d1) = Some (O_rdma_buff bb)) \<and>
    heap w1 qp = Some (O_qp q1) \<and>
    (\<exists>b1. heap w1 (next_ptr w) = Some (O_rdma_buff b1) \<and> buf_buf_size b1 = ucast n) \<and>
    (\<forall>x. x \<noteq> rn \<and> x \<noteq> qp \<and> x \<noteq> next_ptr w \<longrightarrow> heap w1 x = heap w x)"
proof -
  note frame = allocate_frame [OF ok rn base al]
  have ne: "qp \<noteq> rn" "qp \<noteq> next_ptr w" "rn \<noteq> next_ptr w" "rn_base_buf d \<noteq> rn"
    "rn_base_buf d \<noteq> next_ptr w" "rn_base_buf d \<noteq> qp"
    using rn base qp world_ok_fresh [OF ok] by auto
  from st have w1: "w1 = w0\<lparr>heap := (heap w0)(qp \<mapsto> O_qp q1)\<rparr>" and live: "heap w0 qp \<noteq> None"
    by (auto elim!: store_RetE)
  have "world_ok w1" using world_ok_store [OF _ live] frame w1 by simp
  moreover from frame obtain d1 where d1: "heap w0 rn = Some (O_rn_dev d1)" "rn_base_buf d1 = rn_base_buf d"
    by blast
  then have "heap w1 rn = Some (O_rn_dev d1) \<and> heap w1 (rn_base_buf d1) = Some (O_rdma_buff bb)"
    using frame ne base by (simp add: w1)
  ultimately show ?thesis using frame ne by (auto simp: w1)
qed

text \<open>The stages of a successful run: three buffers, the structure stored again after each.\<close>

lemma build_qp_RetE:
  fixes E :: env and rd :: rdma_dev_t
  assumes "build_qp E rdev rd qpid dst pd cqa rqa qdepth loc mac ip w = Some (Ret (qp, q), w')"
  defines "init \<equiv> (junk_qp E)\<lparr>qp_rdma_dev := rdev, qp_qpid := qpid, qp_dst_qpid := dst\<rparr>"
  defines "with_sq \<equiv> (\<lambda>sq. init\<lparr>qp_sq := sq, qp_sq_pidb := 0, qp_sq_cidb := 0\<rparr>)"
  defines "with_cq \<equiv> (\<lambda>sq cq. (with_sq sq)\<lparr>qp_cq := cq, qp_cq_cidb := 0, qp_cq_cidb_addr := cqa\<rparr>)"
  obtains w0 u0 w1 sq w2 u1 w3 cq w4 u2 w5 rq w6 u3 w7 u4 where
    "malloc E (O_qp (junk_qp E)) w = Some (Ret qp, w0)" "store qp (O_qp init) w0 = Some (Ret u0, w1)"
    "allocate_rdma_buffer E (rd_rn_dev rd) (ucast (rd_num_qp rd * qdepth * 64)) loc w1 = Some (Ret sq, w2)"
    "store qp (O_qp (with_sq sq)) w2 = Some (Ret u1, w3)"
    "allocate_rdma_buffer E (rd_rn_dev rd) (ucast (rd_num_qp rd * qdepth * 4)) loc w3 = Some (Ret cq, w4)"
    "store qp (O_qp (with_cq sq cq)) w4 = Some (Ret u2, w5)"
    "allocate_rdma_buffer E (rd_rn_dev rd) (ucast (rd_num_qp rd * qdepth * RQE_SIZE)) loc w5 = Some (Ret rq, w6)"
    "q = built_qp E rdev qpid dst pd cqa rqa qdepth mac ip sq cq rq"
    "store qp (O_qp q) w6 = Some (Ret u3, w7)" "set_qps_index rd qpid qp w7 = Some (Ret u4, w')"
  using assms(1) that
  unfolding build_qp_def Let_def built_qp_def init_def with_sq_def with_cq_def returnM_def
  by (elim bindM_RetE thenM_RetE) simp

lemma build_qp_effect:
  assumes ok: "world_ok w" and rn: "heap w (rd_rn_dev rd) = Some (O_rn_dev d)"
    and base: "heap w (rn_base_buf d) = Some (O_rdma_buff bb)"
    and tab: "heap w (rd_qps_ptr rd) = Some (O_qp_table table)"
    and run: "build_qp E rdev rd qpid dst pd cqa rqa qdepth loc mac ip w = Some (Ret (qp, q), w')"
  shows "qp = next_ptr w \<and> unat qpid < List.length table \<and>
    q = built_qp E rdev qpid dst pd cqa rqa qdepth mac ip (Suc qp) (Suc (Suc qp)) (Suc (Suc (Suc qp))) \<and>
    heap w' (rd_qps_ptr rd) = Some (O_qp_table (table[unat qpid := qp])) \<and>
    heap w' qp = Some (O_qp q) \<and>
    (\<exists>b. heap w' (Suc qp) = Some (O_rdma_buff b) \<and> buf_buf_size b = rd_num_qp rd * qdepth * 64) \<and>
    (\<exists>b. heap w' (Suc (Suc qp)) = Some (O_rdma_buff b) \<and> buf_buf_size b = rd_num_qp rd * qdepth * 4) \<and>
    (\<exists>b. heap w' (Suc (Suc (Suc qp))) = Some (O_rdma_buff b) \<and>
       buf_buf_size b = rd_num_qp rd * qdepth * RQE_SIZE) \<and>
    (\<forall>x. x < next_ptr w \<and> x \<noteq> rd_rn_dev rd \<and> x \<noteq> rd_qps_ptr rd \<longrightarrow> heap w' x = heap w x)"
proof -
  let ?full = "\<lambda>sq cq rq. built_qp E rdev qpid dst pd cqa rqa qdepth mac ip sq cq rq"
  let ?init = "(junk_qp E)\<lparr>qp_rdma_dev := rdev, qp_qpid := qpid, qp_dst_qpid := dst\<rparr>"
  let ?with_sq = "\<lambda>sq. ?init\<lparr>qp_sq := sq, qp_sq_pidb := 0, qp_sq_cidb := 0\<rparr>"
  let ?with_cq = "\<lambda>sq cq. (?with_sq sq)\<lparr>qp_cq := cq, qp_cq_cidb := 0, qp_cq_cidb_addr := cqa\<rparr>"
  let ?rn = "rd_rn_dev rd" and ?tab = "rd_qps_ptr rd"
  from run obtain p0 w0 u0 w1 sq w2 u1 w3 cq w4 u2 w5 rq w6 u3 w7 u4 where
      m: "malloc E (O_qp (junk_qp E)) w = Some (Ret p0, w0)"
    and s0: "store p0 (O_qp ?init) w0 = Some (Ret u0, w1)"
    and a1: "allocate_rdma_buffer E ?rn (ucast (rd_num_qp rd * qdepth * 64)) loc w1 = Some (Ret sq, w2)"
    and s1: "store p0 (O_qp (?with_sq sq)) w2 = Some (Ret u1, w3)"
    and a2: "allocate_rdma_buffer E ?rn (ucast (rd_num_qp rd * qdepth * 4)) loc w3 = Some (Ret cq, w4)"
    and s2: "store p0 (O_qp (?with_cq sq cq)) w4 = Some (Ret u2, w5)"
    and a3: "allocate_rdma_buffer E ?rn (ucast (rd_num_qp rd * qdepth * RQE_SIZE)) loc w5 = Some (Ret rq, w6)"
    and s3: "store p0 (O_qp (?full sq cq rq)) w6 = Some (Ret u3, w7)"
    and ix: "set_qps_index rd qpid p0 w7 = Some (Ret u4, w')" and res: "qp = p0" "q = ?full sq cq rq"
    by (rule build_qp_RetE) blast
  have p0: "p0 = next_ptr w" "p0 \<noteq> NULL"
    and w0: "w0 = w\<lparr>next_ptr := Suc p0, heap := (heap w)(p0 \<mapsto> O_qp (junk_qp E))\<rparr>"
    using m s0 world_ok_NULL [OF ok] ok [unfolded world_ok_def] by (auto simp: malloc_def Let_def store_def split: if_splits)
  have w1: "w1 = w\<lparr>next_ptr := Suc p0, heap := (heap w)(p0 \<mapsto> O_qp ?init)\<rparr>"
    using s0 by (auto simp: w0 elim!: store_RetE)
  have ne: "?rn \<noteq> p0" "rn_base_buf d \<noteq> p0" "?tab \<noteq> p0" "?tab \<noteq> ?rn" "?tab < p0" "?rn < p0"
    using rn base tab world_ok_fresh [OF ok] ok by (auto simp: p0(1) world_ok_def)
  have ok1: "world_ok w1" using ok by (auto simp: w1 p0(1) world_ok_def less_Suc_eq)
  have n1: "next_ptr w1 = Suc p0" "heap w1 ?rn = Some (O_rn_dev d)"
    "heap w1 (rn_base_buf d) = Some (O_rdma_buff bb)" "heap w1 p0 = Some (O_qp ?init)"
    using ne rn base by (simp_all add: w1)
  note st1 = build_stage [OF ok1 n1(2-4) a1 s1]
  then have f1: "sq = Suc p0" "world_ok w3" "next_ptr w3 = Suc (Suc p0)" "heap w3 p0 = Some (O_qp (?with_sq sq))"
    using n1(1) by simp_all
  obtain d1 where d1: "heap w3 ?rn = Some (O_rn_dev d1)" "heap w3 (rn_base_buf d1) = Some (O_rdma_buff bb)"
    using st1 by blast
  note st2 = build_stage [OF f1(2) d1 f1(4) a2 s2]
  then have f2: "cq = Suc (Suc p0)" "world_ok w5" "next_ptr w5 = Suc (Suc (Suc p0))"
    "heap w5 p0 = Some (O_qp (?with_cq sq cq))"
    using f1(3) by simp_all
  obtain d2 where d2: "heap w5 ?rn = Some (O_rn_dev d2)" "heap w5 (rn_base_buf d2) = Some (O_rdma_buff bb)"
    using st2 by blast
  note st3 = build_stage [OF f2(2) d2 f2(4) a3 s3]
  then have rq: "rq = Suc (Suc (Suc p0))" "heap w7 p0 = Some (O_qp (?full sq cq rq))"
    using f2(3) by simp_all
  have others: "heap w7 x = heap w x" if "x < p0" "x \<noteq> ?rn" for x
  proof -
    have "heap w7 x = heap w5 x" using st3 that f2(3) by simp
    also have "\<dots> = heap w3 x" using st2 that f1(3) by simp
    also have "\<dots> = heap w1 x" using st1 that n1(1) by simp
    finally show ?thesis using that by (simp add: w1)
  qed
  have table: "heap w7 ?tab = Some (O_qp_table table)" using others ne tab by simp
  from ix table have w': "w' = w7\<lparr>heap := (heap w7)(?tab \<mapsto> O_qp_table (table[unat qpid := p0]))\<rparr>"
    and bound: "unat qpid < List.length table"
    by (auto elim: set_qps_index_RetE)
  have bufs: "\<exists>b. heap w7 (Suc p0) = Some (O_rdma_buff b) \<and> buf_buf_size b = rd_num_qp rd * qdepth * 64"
    "\<exists>b. heap w7 (Suc (Suc p0)) = Some (O_rdma_buff b) \<and> buf_buf_size b = rd_num_qp rd * qdepth * 4"
    "\<exists>b. heap w7 (Suc (Suc (Suc p0))) = Some (O_rdma_buff b) \<and>
       buf_buf_size b = rd_num_qp rd * qdepth * RQE_SIZE"
  proof -
    have "heap w7 (Suc p0) = heap w3 (Suc p0)" "heap w7 (Suc (Suc p0)) = heap w5 (Suc (Suc p0))"
      using st2 st3 f1(3) f2(3) ne(5,6) by simp_all
    then show "\<exists>b. heap w7 (Suc p0) = Some (O_rdma_buff b) \<and> buf_buf_size b = rd_num_qp rd * qdepth * 64"
      "\<exists>b. heap w7 (Suc (Suc p0)) = Some (O_rdma_buff b) \<and> buf_buf_size b = rd_num_qp rd * qdepth * 4"
      "\<exists>b. heap w7 (Suc (Suc (Suc p0))) = Some (O_rdma_buff b) \<and>
         buf_buf_size b = rd_num_qp rd * qdepth * RQE_SIZE"
      using st1 st2 st3 n1(1) f1(3) f2(3) by simp_all
  qed
  show ?thesis
    using bufs others rq bound ne res p0(1) f1(1) f2(1) by (auto simp: w')
qed

subsection \<open>The register bank of a new queue pair\<close>

text \<open>All writes of \<open>program_qp\<close>, once the structures it follows are known.\<close>

definition qp_bank ::
    "win_size_t \<Rightarrow> rdma_qp_t \<Rightarrow> mac_addr_t \<Rightarrow> rdma_buff_t \<Rightarrow> rdma_buff_t \<Rightarrow> rdma_buff_t \<Rightarrow> u32 \<Rightarrow> rdma_pd_t
       \<Rightarrow> (u32 \<times> u32) list" where
  "qp_bank ws q mac sq cq rq key pd =
     (let r = (\<lambda>offset. get_rdma_per_q_config_addr offset (qp_qpid q))
      in (r RN_RDMA_QCSR_IPDESADDR1i, qp_dst_ip q) # (r RN_RDMA_QCSR_MACDESADDLSBi, mac_lsb mac) #
         (r RN_RDMA_QCSR_MACDESADDMSBi, mac_msb mac) # qp_writes ws q sq cq rq key @
         [(r RN_RDMA_QCSR_PDi, pd_pd_num pd)])"

lemma program_qp_effect:
  assumes "program_qp rd ws q key w = Some (Ret u, w')"
  shows "\<exists>mac sq cq rq pd. heap w (qp_dst_mac q) = Some (O_mac mac) \<and>
    heap w (qp_sq q) = Some (O_rdma_buff sq) \<and> heap w (qp_cq q) = Some (O_rdma_buff cq) \<and>
    heap w (qp_rq q) = Some (O_rdma_buff rq) \<and> heap w (qp_pd_entry q) = Some (O_pd pd) \<and>
    rd_axil_ctl rd \<noteq> 0 \<and> heap w' = heap w \<and>
    hist w' = block_events (rd_axil_ctl rd) (qp_bank ws q mac sq cq rq key pd) @ hist w"
  using assms
  by (auto simp: program_qp_def exitM_def write32_block_run as_obj_eq Let_def qp_bank_def
      block_events_append split: if_splits elim!: bindM_RetE thenM_RetE load_RetE)

lemma qp_config_value: "make_qp_config = 0x0200043d"
  by (simp add: make_qp_config_def RQE_SIZE_def)

lemma qp_adv_conf_fields:
  "drop_bit 16 (make_qp_adv_conf key) = take_bit 16 key"
  "take_bit 16 (make_qp_adv_conf key) = 0x4000"
proof -
  have h: "push_bit 16 key AND 0xffff0000 = push_bit 16 (take_bit 16 key)"
    unfolding mask_bits by (rule bit_word_eqI) (auto simp: bit_simps)
  have "make_qp_adv_conf key = (push_bit 16 key AND 0xffff0000) OR 0x4000"
    by (simp add: make_qp_adv_conf_def)
  then have e: "make_qp_adv_conf key = push_bit 16 (take_bit 16 key) OR 0x4000" unfolding h .
  have b: "\<not> bit (0x4000 :: u32) k" if "16 \<le> k" for k
  proof -
    have "take_bit 16 (0x4000 :: u32) = 0x4000" by simp
    with that show ?thesis by (metis bit_take_bit_iff linorder_not_le)
  qed
  show "drop_bit 16 (make_qp_adv_conf key) = take_bit 16 key"
    unfolding e by (rule bit_word_eqI) (auto simp: bit_simps b)
  show "take_bit 16 (make_qp_adv_conf key) = 0x4000"
    unfolding e using b by (intro bit_word_eqI) (auto simp: bit_simps)
qed

lemma qp_bank_regs:
  "\<forall>(a, v) \<in> set (qp_bank ws q mac sq cq rq key pd).
     \<exists>r \<in> set QCSR_REGS. a = get_rdma_per_q_config_addr r (qp_qpid q)"
  by (simp add: qp_bank_def qp_writes_def QCSR_REGS_def Let_def)

text \<open>The writes to one queue's bank do not touch another queue's.\<close>

lemma other_queue_untouched:
  assumes "\<forall>(a, v) \<in> set ws. \<exists>r \<in> set QCSR_REGS. a = get_rdma_per_q_config_addr r q"
    and "r \<in> set QCSR_REGS" "q - 1 < 256" "q' - 1 < 256" "q' \<noteq> q"
  shows "map_of (rev ws) (get_rdma_per_q_config_addr r q') = None"
proof -
  have "get_rdma_per_q_config_addr r q' \<noteq> a" if "(a, v) \<in> set ws" for a v
  proof -
    from assms(1) that obtain s where s: "s \<in> set QCSR_REGS" "a = get_rdma_per_q_config_addr s q" by blast
    have "unat (q' - 1) < 256" "unat (q - 1) < 256" using assms(3,4) by (simp_all add: word_less_nat_alt)
    from queue_bank.addr_inject [OF assms(2) this(1) s(1) this(2)] assms(5) s(2) show ?thesis by simp
  qed
  then show ?thesis by (force simp: map_of_eq_None_iff)
qed

lemma qp_bank_regs_values:
  assumes "hist w' = block_events (rd_axil_ctl rd) (qp_bank ws q mac sq cq rq key pd) @ h0"
  shows "let A = (\<lambda>r. get_rdma_per_q_config_addr r (qp_qpid q)); base = rd_axil_ctl rd; h = hist w' in
    reg64 h base (A RN_RDMA_QCSR_SQBAMSBi) (A RN_RDMA_QCSR_SQBAi) = Some (engine_address ws (buf_dma_addr sq)) \<and>
    reg64 h base (A RN_RDMA_QCSR_CQBAMSBi) (A RN_RDMA_QCSR_CQBAi) = Some (engine_address ws (buf_dma_addr cq)) \<and>
    reg64 h base (A RN_RDMA_QCSR_RQBAMSBi) (A RN_RDMA_QCSR_RQBAi) = Some (engine_address ws (buf_dma_addr rq)) \<and>
    reg64 h base (A RN_RDMA_QCSR_CQDBADDMSBi) (A RN_RDMA_QCSR_CQDBADDi) = Some (engine_address ws (qp_cq_cidb_addr q)) \<and>
    reg64 h base (A RN_RDMA_QCSR_RQWPTRDBADDMSBi) (A RN_RDMA_QCSR_RQWPTRDBADDi) = Some (engine_address ws (qp_rq_cidb_addr q)) \<and>
    reg64 h base (A RN_RDMA_QCSR_MACDESADDMSBi) (A RN_RDMA_QCSR_MACDESADDLSBi) = Some (join32 (mac_msb mac) (mac_lsb mac)) \<and>
    reg32 h base (A RN_RDMA_QCSR_IPDESADDR1i) = Some (qp_dst_ip q) \<and>
    reg32 h base (A RN_RDMA_QCSR_DESTQPCONFi) = Some (qp_dst_qpid q) \<and>
    reg32 h base (A RN_RDMA_QCSR_QDEPTHi) = Some (qp_qdepth q OR push_bit 16 (qp_qdepth q)) \<and>
    reg32 h base (A RN_RDMA_QCSR_QPCONFi) = Some 0x0200043d \<and>
    reg32 h base (A RN_RDMA_QCSR_QPADVCONFi) = Some (make_qp_adv_conf key) \<and>
    reg32 h base (A RN_RDMA_QCSR_PDi) = Some (pd_pd_num pd)"
  unfolding assms Let_def
  by (simp add: reg64_eq reg_block qp_bank_def qp_writes_def Let_def get_rdma_per_q_config_addr_def
      reg_defs join_engine qp_config_value del: block_events_Cons)

subsection \<open>Properties\<close>

text \<open>
  C3: when \<open>allocate_rdma_qp\<close> returns, the queue number was inside the queue table (which has
  \<open>num_qp\<close> slots numbered from 0), the table holds the new structure there, all doorbell counters
  are 0, the three queue buffers are fresh with 64, 4 and 512 bytes per entry, and the queue's
  bank of registers holds what the caller asked for: the three buffers and the two doorbell
  addresses as the engine sees them, the destination, the depth in both halves, the enable bits,
  and the protection domain. The banks of all other queues keep their registers.
\<close>

theorem allocate_rdma_qp_effect:
  assumes "world_ok w" and "heap w rdev = Some (O_rdma_dev rd)"
    and "heap w (rd_winSize rd) = Some (O_win_size ws)"
    and "heap w (rd_rn_dev rd) = Some (O_rn_dev d)" and "heap w (rn_base_buf d) = Some (O_rdma_buff bb)"
    and "heap w (rd_qps_ptr rd) = Some (O_qp_table table)"
    and "allocate_rdma_qp E rdev qpid dst pdp cqa rqa qdepth loc macp ip key w = Some (Ret qp, w')"
    and "qpid - 1 < 256"
  shows "qp = next_ptr w \<and> unat qpid < List.length table \<and>
    heap w' (rd_qps_ptr rd) = Some (O_qp_table (table[unat qpid := qp])) \<and>
    (\<exists>q sq cq rq mac pd. heap w' qp = Some (O_qp q) \<and> qp_qpid q = qpid \<and> qp_rdma_dev q = rdev \<and>
       qp_sq_pidb q = 0 \<and> qp_sq_cidb q = 0 \<and> qp_cq_cidb q = 0 \<and> qp_rq_cidb q = 0 \<and> qp_rq_pidb q = 0 \<and>
       qp_qdepth q = qdepth \<and> qp_pd_entry q = pdp \<and> distinct [qp, qp_sq q, qp_cq q, qp_rq q] \<and>
       heap w' (qp_sq q) = Some (O_rdma_buff sq) \<and> buf_buf_size sq = rd_num_qp rd * qdepth * 64 \<and>
       heap w' (qp_cq q) = Some (O_rdma_buff cq) \<and> buf_buf_size cq = rd_num_qp rd * qdepth * 4 \<and>
       heap w' (qp_rq q) = Some (O_rdma_buff rq) \<and> buf_buf_size rq = rd_num_qp rd * qdepth * 512 \<and>
       heap w' macp = Some (O_mac mac) \<and> heap w' pdp = Some (O_pd pd) \<and>
       (let A = (\<lambda>r. get_rdma_per_q_config_addr r qpid); base = rd_axil_ctl rd; h = hist w' in
        reg64 h base (A RN_RDMA_QCSR_SQBAMSBi) (A RN_RDMA_QCSR_SQBAi) = Some (engine_address ws (buf_dma_addr sq)) \<and>
        reg64 h base (A RN_RDMA_QCSR_CQBAMSBi) (A RN_RDMA_QCSR_CQBAi) = Some (engine_address ws (buf_dma_addr cq)) \<and>
        reg64 h base (A RN_RDMA_QCSR_RQBAMSBi) (A RN_RDMA_QCSR_RQBAi) = Some (engine_address ws (buf_dma_addr rq)) \<and>
        reg64 h base (A RN_RDMA_QCSR_CQDBADDMSBi) (A RN_RDMA_QCSR_CQDBADDi) = Some (engine_address ws cqa) \<and>
        reg64 h base (A RN_RDMA_QCSR_RQWPTRDBADDMSBi) (A RN_RDMA_QCSR_RQWPTRDBADDi) = Some (engine_address ws rqa) \<and>
        reg64 h base (A RN_RDMA_QCSR_MACDESADDMSBi) (A RN_RDMA_QCSR_MACDESADDLSBi) = Some (join32 (mac_msb mac) (mac_lsb mac)) \<and>
        reg32 h base (A RN_RDMA_QCSR_IPDESADDR1i) = Some ip \<and>
        reg32 h base (A RN_RDMA_QCSR_DESTQPCONFi) = Some dst \<and>
        reg32 h base (A RN_RDMA_QCSR_QDEPTHi) = Some (qdepth OR push_bit 16 qdepth) \<and>
        reg32 h base (A RN_RDMA_QCSR_QPCONFi) = Some 0x0200043d \<and>
        reg32 h base (A RN_RDMA_QCSR_QPADVCONFi) = Some (make_qp_adv_conf key) \<and>
        reg32 h base (A RN_RDMA_QCSR_PDi) = Some (pd_pd_num pd))) \<and>
    (\<forall>r \<in> set QCSR_REGS. \<forall>q'. q' - 1 < 256 \<and> q' \<noteq> qpid \<longrightarrow>
       reg32 (hist w') (rd_axil_ctl rd) (get_rdma_per_q_config_addr r q') =
       reg32 (hist w) (rd_axil_ctl rd) (get_rdma_per_q_config_addr r q'))"
proof -
  from assms(7) obtain q w1 u where
      build: "build_qp E rdev rd qpid dst pdp cqa rqa qdepth loc macp ip w = Some (Ret (qp, q), w1)"
    and prog: "program_qp rd ws q key w1 = Some (Ret u, w')"
    using assms(2,3) by (auto simp: allocate_rdma_qp_def run_simps returnM_def
        elim!: bindM_RetE thenM_RetE split: prod.splits)
  note built = build_qp_effect [OF assms(1,4,5,6) build]
  from program_qp_effect [OF prog] obtain mac sq cq rq pd where
      objs: "heap w1 (qp_dst_mac q) = Some (O_mac mac)" "heap w1 (qp_sq q) = Some (O_rdma_buff sq)"
        "heap w1 (qp_cq q) = Some (O_rdma_buff cq)" "heap w1 (qp_rq q) = Some (O_rdma_buff rq)"
        "heap w1 (qp_pd_entry q) = Some (O_pd pd)" "heap w' = heap w1"
    and hist: "hist w' = block_events (rd_axil_ctl rd) (qp_bank ws q mac sq cq rq key pd) @ hist w1"
    by blast
  have q: "qp_qpid q = qpid" "qp_rdma_dev q = rdev" "qp_sq_pidb q = 0" "qp_sq_cidb q = 0"
    "qp_cq_cidb q = 0" "qp_rq_cidb q = 0" "qp_rq_pidb q = 0" "qp_qdepth q = qdepth" "qp_pd_entry q = pdp"
    "qp_dst_mac q = macp" "qp_dst_ip q = ip" "qp_dst_qpid q = dst" "qp_cq_cidb_addr q = cqa"
    "qp_rq_cidb_addr q = rqa" "distinct [qp, qp_sq q, qp_cq q, qp_rq q]"
    using built by (simp_all add: built_qp_def)
  have same: "reg32 (hist w1) base r = reg32 (hist w) base r" for base r
    using keepsD [OF keeps_build_qp(2) build] by (simp add: same_regs_def reg32_def)
  have others: "reg32 (hist w') (rd_axil_ctl rd) (get_rdma_per_q_config_addr r q') =
       reg32 (hist w) (rd_axil_ctl rd) (get_rdma_per_q_config_addr r q')"
    if "r \<in> set QCSR_REGS" "q' - 1 < 256" "q' \<noteq> qpid" for r q'
    using other_queue_untouched [OF qp_bank_regs [of ws q mac sq cq rq key pd], of r q'] that assms(8) q(1)
    by (simp add: hist reg_block same)
  note bank = qp_bank_regs_values [of w' rd ws q mac sq cq rq key pd, OF hist, unfolded q]
  have table: "qp = next_ptr w" "unat qpid < List.length table"
    "heap w' (rd_qps_ptr rd) = Some (O_qp_table (table[unat qpid := qp]))" "heap w' qp = Some (O_qp q)"
    unfolding objs(6) using built by blast+
  have bufs: "heap w' (qp_sq q) = Some (O_rdma_buff sq)" "heap w' (qp_cq q) = Some (O_rdma_buff cq)"
    "heap w' (qp_rq q) = Some (O_rdma_buff rq)" "heap w' macp = Some (O_mac mac)"
    "heap w' pdp = Some (O_pd pd)"
    using objs q by simp_all
  have sizes: "buf_buf_size sq = rd_num_qp rd * qdepth * 64" "buf_buf_size cq = rd_num_qp rd * qdepth * 4"
    "buf_buf_size rq = rd_num_qp rd * qdepth * 512"
    using built objs by (auto simp: built_qp_def RQE_SIZE_def)
  have untouched: "\<forall>r \<in> set QCSR_REGS. \<forall>q'. q' - 1 < 256 \<and> q' \<noteq> qpid \<longrightarrow>
       reg32 (hist w') (rd_axil_ctl rd) (get_rdma_per_q_config_addr r q') =
       reg32 (hist w) (rd_axil_ctl rd) (get_rdma_per_q_config_addr r q')"
    using others by blast
  show ?thesis
    by (rule conjI [OF table(1) conjI [OF table(2) conjI [OF table(3) conjI [OF _ untouched]]]],
        rule exI [where x = q], rule exI [where x = sq], rule exI [where x = cq],
        rule exI [where x = rq], rule exI [where x = mac], rule exI [where x = pd],
        intro conjI table bufs sizes q bank)
qed

lemma demo_allocate_qp_run:
  "\<exists>w'. allocate_rdma_qp idle_env 4 2 5 7 0x12345679000 0x1234567a000 64 DEVICE_MEM 8 0xc0a80102 4660
     demo_pd_world = Some (Ret 9, w')"
  by (simp add: allocate_rdma_qp_def build_qp_def program_qp_def set_qps_index_def run_simps Let_def
      allocate_rdma_buffer_def allocate_device_arm_def assertM_def place_buffer_def RQE_SIZE_def
      HARDWARE_PAGE_SIZE_def HARDWARE_PAGE_SIZE_ADDRESS_MASK_def DEVICE_MEM_SIZE_def
      HARDWARE_PAGE_SIZE_ALIGNMENT_MASK_def)

theorem allocate_rdma_qp_effect_witness:
  "\<exists>w'. allocate_rdma_qp idle_env 4 2 5 7 0x12345679000 0x1234567a000 64 DEVICE_MEM 8 0xc0a80102 4660
     demo_pd_world = Some (Ret 9, w') \<and>
     heap w' 6 = Some (O_qp_table [NULL, NULL, 9, NULL]) \<and>
     reg32 (hist w') 0x10000000 (get_rdma_per_q_config_addr RN_RDMA_QCSR_QDEPTHi 2) = Some 0x400040"
proof -
  obtain w' where run: "allocate_rdma_qp idle_env 4 2 5 7 0x12345679000 0x1234567a000 64 DEVICE_MEM 8
      0xc0a80102 4660 demo_pd_world = Some (Ret 9, w')"
    using demo_allocate_qp_run by blast
  have table: "[NULL, NULL, NULL, NULL][2 := 9] = [NULL, NULL, 9, NULL]" by (simp add: numeral_2_eq_2)
  from allocate_rdma_qp_effect [OF demo_pd_world_ok _ _ _ _ _ run, of demo_rdma _ demo_rn] run table
  show ?thesis by (auto simp: Let_def)
qed

subsection \<open>Work queue elements in memory\<close>

lemma keeps_create_a_wqe [keeps_intros]:
  "keeps steps_ok (create_a_wqe E rdev qpid wrid idx laddr len opcode roff key p0 p1 p2 p3 imm)"
  unfolding create_a_wqe_def Let_def by (intro keeps_intros)

lemma length_le_bytes [simp]: "List.length (le_bytes n x) = n"
  by (simp add: le_bytes_def)

lemma length_wqe_bytes [simp]: "List.length (wqe_bytes e) = 64"
  by (simp add: wqe_bytes_def)

lemma le_bytes_join32: "le_bytes 4 (l :: u32) @ le_bytes 4 (h :: u32) = le_bytes 8 (join32 h l)"
  by (simp add: le_bytes_def byte_of_join32 upt_rec)

text \<open>Storing a list over zeroes, and copying what was just stored.\<close>

lemma store_bytes_over:
  "List.length xs = List.length ys \<Longrightarrow> store_bytes (store_bytes m a xs) a ys = store_bytes m a ys"
  by (rule ext) (simp add: store_bytes_def)

lemma copy_stored:
  "copy_bytes dst (store_bytes src s xs) d s (List.length xs) = store_bytes dst d xs"
  by (rule ext) (simp add: copy_bytes_def store_bytes_def)

lemma WQE_SIZE_unat: "unat WQE_SIZE = 64"
  by (simp add: WQE_SIZE_def)

text \<open>A completed transfer of one element to the device.\<close>

lemma wqe_transfer:
  assumes "write_from_buffer E fd a WQE_SIZE off w = Some (Ret rc, w')" and "\<not> is_negative rc"
  shows "stored_to_device w w' a (off AND DEVICE_MEMORY_ADDRESS_MASK) 64 \<and> same_store w w'"
proof -
  have "is_negative minus_EIO" by (simp add: is_negative_def minus_EIO_def)
  with assms device_write.transfer_total [of WQE_SIZE E fd a "off AND DEVICE_MEMORY_ADDRESS_MASK" w]
  show ?thesis
    using keepsD [OF keeps_write_from_buffer(2) assms(1)]
    by (auto simp: write_from_buffer_def WQE_SIZE_unat)
qed

lemma create_a_wqe_host_run:
  assumes "heap w rdev = Some (O_rdma_dev rd)" and "heap w (rd_winSize rd) = Some (O_win_size ws)"
    and "heap w (rd_qps_ptr rd) = Some (O_qp_table table)" and "unat qpid < List.length table"
    and "heap w (table ! unat qpid) = Some (O_qp q)" and "heap w (qp_sq q) = Some (O_rdma_buff sq)"
    and "is_device_address (buf_dma_addr sq) = 0"
  shows "create_a_wqe E rdev qpid wrid idx laddr len opcode roff key p0 p1 p2 p3 imm w =
    (let a = buf_buffer sq + ucast idx * WQE_SIZE
     in Some (Ret (), emit (Mem_Store a (wqe_bytes (make_wqe ws wrid laddr len opcode roff key p0 p1 p2 p3 imm)))
          (emit (Mem_Store a (replicate 64 0)) w)))"
  using assms by (simp add: create_a_wqe_def run_simps Let_def)

text \<open>
  C6: \<open>create_a_wqe\<close> puts the same 64 bytes into slot \<open>wqe_idx\<close> of the send queue wherever the
  queue is: into host memory at the queue's virtual address and nothing else, or, when the queue
  is in device memory and the call returns, into device memory at the queue's address (as
  \<open>write_from_buffer\<close> masks it) and nothing else there. The temporary element is freed.
\<close>

theorem create_a_wqe_reaches_queue:
  assumes "world_ok w" and "heap w rdev = Some (O_rdma_dev rd)"
    and "heap w (rd_winSize rd) = Some (O_win_size ws)"
    and "heap w (rd_qps_ptr rd) = Some (O_qp_table table)" and "unat qpid < List.length table"
    and "heap w (table ! unat qpid) = Some (O_qp q)" and "heap w (qp_sq q) = Some (O_rdma_buff sq)"
    and "create_a_wqe E rdev qpid wrid idx laddr len opcode roff key p0 p1 p2 p3 imm w = Some (Ret (), w')"
  shows "heap w' = heap w \<and>
    (\<forall>m0. let bytes = wqe_bytes (make_wqe ws wrid laddr len opcode roff key p0 p1 p2 p3 imm);
             m = replay m0 (hist w); m' = replay m0 (hist w')
         in if is_device_address (buf_dma_addr sq) = 0
            then m_dev m' = m_dev m \<and>
                 m_host m' = store_bytes (m_host m) (buf_buffer sq + 64 * ucast idx) bytes
            else m_dev m' = store_bytes (m_dev m)
                   ((buf_dma_addr sq + 64 * ucast idx) AND DEVICE_MEMORY_ADDRESS_MASK) bytes)"
proof (cases "is_device_address (buf_dma_addr sq) = 0")
  case True
  from assms(8) [unfolded create_a_wqe_host_run [OF assms(2-7) True] Let_def] True show ?thesis
    by (auto simp: store_bytes_over WQE_SIZE_def mult.commute)
next
  case False
  let ?e = "make_wqe ws wrid laddr len opcode roff key p0 p1 p2 p3 imm" and ?p = "next_ptr w"
  let ?a = "env_obj_addr E ?p" and ?off = "buf_dma_addr sq + ucast idx * WQE_SIZE"
  let ?w1 = "w\<lparr>next_ptr := Suc ?p, heap := (heap w)(?p \<mapsto> O_wqe)\<rparr>"
  let ?w2 = "emit (Mem_Store ?a (wqe_bytes ?e)) (emit (Mem_Store ?a (replicate 64 0)) ?w1)"
  have ok: "\<not> env_malloc_fails E ?p" "?p \<noteq> 0"
    using assms False by (auto simp: create_a_wqe_def run_simps Let_def faultM_def world_ok_def)
  obtain rc w3 where tr: "write_from_buffer E (g_fpga_fd w) ?a WQE_SIZE ?off ?w2 = Some (Ret rc, w3)"
    and pos: "\<not> is_negative rc" and fr: "free_obj ?p w3 = Some (Ret (), w')"
    using assms(2-8) False ok
    by (auto simp: create_a_wqe_def run_simps Let_def exitM_def split: if_splits elim!: bindM_RetE)
  note moved = wqe_transfer [OF tr pos]
  have w': "heap w' = heap w" "hist w' = hist w3"
    using fr moved ok world_ok_fresh [OF assms(1)]
    by (auto simp: free_obj_def same_store_def split: if_splits)
  have "m_dev (replay m0 (hist w3)) = store_bytes (m_dev (replay m0 (hist w)))
      (?off AND DEVICE_MEMORY_ADDRESS_MASK) (wqe_bytes ?e)" for m0
    using moved copy_stored [of _ "store_bytes (m_host (replay m0 (hist w))) ?a (replicate 64 0)" ?a "wqe_bytes ?e"]
    by (simp add: stored_to_device_def)
  with w' False show ?thesis by (simp add: WQE_SIZE_def mult.commute Let_def)
qed

lemma demo_table_index: "[NULL, NULL, 9, NULL] ! 2 = (9 :: ptr)"
  by (simp add: numeral_2_eq_2)

theorem create_a_wqe_reaches_queue_witness:
  "\<exists>w'. create_a_wqe idle_env 4 2 7 3 0x1234567b000 4096 2 0 8 0 0 0 0 0 demo_qp_world = Some (Ret (), w') \<and>
     (\<forall>m0. m_host (replay m0 (hist w')) = store_bytes (m_host m0) 0x7f00000010c0
        (wqe_bytes (make_wqe \<lparr>win_size_lsb = 0xffffffff, win_size_msb = 0xff\<rparr> 7 0x1234567b000 4096 2 0 8 0 0 0 0 0)))"
proof -
  have host: "is_device_address 0x12345679000 = 0"
    by (simp add: is_device_address_def DEVICE_MEM_OFFSET_def)
  obtain w' where run: "create_a_wqe idle_env 4 2 7 3 0x1234567b000 4096 2 0 8 0 0 0 0 0 demo_qp_world =
      Some (Ret (), w')"
    by (simp add: create_a_wqe_host_run [where sq = demo_sq and q = demo_qp and rd = demo_rdma
          and table = "[NULL, NULL, 9, NULL]"] demo_table_index host Let_def)
  from create_a_wqe_reaches_queue [OF demo_qp_world_ok _ _ _ _ _ _ run, of demo_rdma _ _ demo_qp demo_sq] run
  show ?thesis by (simp add: demo_table_index host Let_def)
qed

text \<open>
  The layout of a work queue element: little-endian, with the work request number at byte 0,
  the local address as the engine sees it at byte 4, the length at 12, the opcode byte at 16, the
  remote offset at 20, the key at 28, and zero in the reserved bytes.
\<close>

theorem wqe_layout:
  "let bs = wqe_bytes (make_wqe ws wrid laddr len opcode roff key p0 p1 p2 p3 imm) in
   List.length bs = 64 \<and> take 2 bs = le_bytes 2 wrid \<and> take 2 (drop 2 bs) = [0, 0] \<and>
   take 8 (drop 4 bs) = le_bytes 8 (engine_address ws laddr) \<and> take 4 (drop 12 bs) = le_bytes 4 len \<and>
   take 4 (drop 16 bs) = [byte_of opcode 0, 0, 0, 0] \<and> take 8 (drop 20 bs) = le_bytes 8 roff \<and>
   take 4 (drop 28 bs) = le_bytes 4 key \<and> take 4 (drop 48 bs) = le_bytes 4 imm \<and>
   drop 52 bs = replicate 12 0"
proof -
  have opc: "byte_of (opcode AND 0xff) 0 = byte_of opcode 0" "0 < i \<Longrightarrow> byte_of (opcode AND 0xff) i = 0" for i
    unfolding mask_bits(3) by (rule bit_word_eqI; auto simp: byte_of_def bit_simps)+
  have z: "byte_of (0 :: u16) i = 0" "byte_of (0 :: u32) i = 0" for i by (simp_all add: byte_of_def)
  have z4: "le_bytes 4 (0 :: u32) = [0, 0, 0, 0]" "le_bytes 2 (0 :: u16) = [0, 0]"
    and op4: "le_bytes 4 (opcode AND 0xff) = [byte_of opcode 0, 0, 0, 0]"
    by (simp_all add: le_bytes_def upt_rec z opc)
  have addr: "le_bytes 8 (engine_address ws laddr) = le_bytes 4 (engine_lsb ws laddr) @ le_bytes 4 (engine_msb ws laddr)"
    and off: "le_bytes 8 roff = le_bytes 4 (lo32 roff) @ le_bytes 4 (hi32 roff)"
    by (simp_all add: le_bytes_join32 join_engine)
  show ?thesis
    unfolding Let_def addr off
    by (simp add: wqe_bytes_def make_wqe_def z4 op4) (simp add: numeral_eq_Suc)
qed

end
