(* ===== verification/Rdma_Post.thy ===== *)
theory Rdma_Post
  imports Rdma_Qp
begin

text \<open>
  Posting and completing work in \<open>src/lib/rdma_api.c\<close>: the polls on the completion and receive
  counters, single and batched sends, receives and their release, and the register dump. The
  lemmas bound the poll of the completion queue and give its result, say when the unbounded
  waits return, and characterise what each post leaves in the structures and registers.
\<close>

subsection \<open>The register dump\<close>

definition dump_global_regs :: "u32 list" where
  "dump_global_regs = [
     RN_RDMA_GCSR_ERRBUFWPTR, RN_RDMA_GCSR_IPKTERRQWPTR, RN_RDMA_GCSR_INSRRPKTCNT,
     RN_RDMA_GCSR_INAMPKTCNT, RN_RDMA_GCSR_OUTIOPKTCNT, RN_RDMA_GCSR_OUTAMPKTCNT,
     RN_RDMA_GCSR_LSTINPKT, RN_RDMA_GCSR_LSTOUTPKT, RN_RDMA_GCSR_ININVDUPCNT,
     RN_RDMA_GCSR_INNCKPKTSTS, RN_RDMA_GCSR_OUTRNRPKTSTS, RN_RDMA_GCSR_WQEPROCSTS,
     RN_RDMA_GCSR_QPMSTS, RN_RDMA_GCSR_INALLDRPPKTCNT, RN_RDMA_GCSR_INNAKPKTCNT,
     RN_RDMA_GCSR_OUTNAKPKTCNT, RN_RDMA_GCSR_RESPHNDSTS, RN_RDMA_GCSR_RETRYCNTSTS,
     RN_RDMA_GCSR_INCNPPKTCNT, RN_RDMA_GCSR_OUTCNPPKTCNT, RN_RDMA_GCSR_OUTRDRSPPKTCNT,
     RN_RDMA_GCSR_INTSTS, RN_RDMA_GCSR_RQINTSTS1, RN_RDMA_GCSR_RQINTSTS2,
     RN_RDMA_GCSR_RQINTSTS3, RN_RDMA_GCSR_RQINTSTS4, RN_RDMA_GCSR_RQINTSTS5,
     RN_RDMA_GCSR_RQINTSTS6, RN_RDMA_GCSR_RQINTSTS7, RN_RDMA_GCSR_RQINTSTS8,
     RN_RDMA_GCSR_CQINTSTS1, RN_RDMA_GCSR_CQINTSTS2, RN_RDMA_GCSR_CQINTSTS3,
     RN_RDMA_GCSR_CQINTSTS4, RN_RDMA_GCSR_CQINTSTS5, RN_RDMA_GCSR_CQINTSTS6,
     RN_RDMA_GCSR_CQINTSTS7, RN_RDMA_GCSR_CQINTSTS8]"

definition dump_queue_regs :: "u32 list" where
  "dump_queue_regs = [
     RN_RDMA_QCSR_CQHEADi, RN_RDMA_QCSR_STATSSNi, RN_RDMA_QCSR_STATMSNi, RN_RDMA_QCSR_STATQPi,
     RN_RDMA_QCSR_STATCURSQPTRi, RN_RDMA_QCSR_STATRESPSNi, RN_RDMA_QCSR_STATRQBUFCAi,
     RN_RDMA_QCSR_STATWQEi, RN_RDMA_QCSR_STATRQPIDBi, RN_RDMA_QCSR_STATRQBUFCAMSBi]"

text \<open>The dump reads every register once, in order; what it prints is left out.\<close>

definition dump_registers :: "env \<Rightarrow> ptr \<Rightarrow> u8 \<Rightarrow> u32 \<Rightarrow> unit io" where
  "dump_registers E rdma_dev is_sender qpid =
     bindM (load as_rdma_dev rdma_dev) (\<lambda>rd.
     forM (dump_global_regs
           @ map (\<lambda>r. get_rdma_per_q_config_addr r qpid) dump_queue_regs
           @ (if is_sender \<noteq> 0 then [get_rdma_per_q_config_addr RN_RDMA_QCSR_SQPIi qpid] else []))
       (\<lambda>r. thenM (read32_data E (rd_axil_ctl rd) (ucast r)) (returnM ())))"

subsection \<open>Polling\<close>

text \<open>
  The wait for a new receive. Nothing bounds it: \<open>None\<close> is a wait that never ends. The first read
  comes before the queue pair is followed.
\<close>

definition poll_rq_pidb :: "env \<Rightarrow> ptr \<Rightarrow> u32 \<Rightarrow> i32 io" where
  "poll_rq_pidb E rdma_dev qpid =
     bindM (load as_rdma_dev rdma_dev) (\<lambda>rd.
     bindM (qps_index rd qpid) (\<lambda>qp.
     let addr = ucast (get_rdma_per_q_config_addr RN_RDMA_QCSR_STATRQPIDBi qpid) in
     bindM (read32_data E (rd_axil_ctl rd) addr) (\<lambda>rq_pidb.
     thenM (if env_DEBUG E then dump_registers E rdma_dev 0 qpid else returnM ()) (
     bindM (load as_qp qp) (\<lambda>q.
     bindM (\<lambda>w. map_option (\<lambda>(v, w'). (Ret v, w'))
              (poll_until (mmio_sample E (rd_axil_ctl rd + addr)) (\<lambda>v. v \<noteq> qp_rq_pidb q) rq_pidb w))
       (\<lambda>rq_pidb.
     thenM (store qp (O_qp (q\<lparr>qp_rq_pidb := rq_pidb\<rparr>)))
       (returnM rq_pidb)))))))"

text \<open>
  The wait for a completion, up to \<open>TIMEOUT_THRESHOLD\<close> further reads. The counter never exceeds
  the threshold by more than one, so it is a natural number here. \<open>None\<close> is the jump to
  \<open>timeout_action\<close>.
\<close>

function poll_cq_loop :: "env \<Rightarrow> u64 \<Rightarrow> i32 \<Rightarrow> i32 \<Rightarrow> nat \<Rightarrow> world \<Rightarrow> i32 option \<times> world" where
  "poll_cq_loop E addr sq_cidb cq_cidb timeout_cnt w =
     (if cq_cidb \<noteq> sq_cidb then (Some cq_cidb, w)
      else
        let r = mmio_sample E addr w
        in if timeout_cnt + 1 > unat TIMEOUT_THRESHOLD then (None, snd r)
           else poll_cq_loop E addr sq_cidb (fst r) (timeout_cnt + 1) (snd r))"
  by pat_completeness auto
termination
  by (relation "measure (\<lambda>(E, addr, sq, cq, t, w). unat TIMEOUT_THRESHOLD - t)") auto

declare poll_cq_loop.simps [simp del]

lemma threshold [simp]: "unat TIMEOUT_THRESHOLD = 1000"
  by (simp add: TIMEOUT_THRESHOLD_def)

definition poll_cq_cidb :: "env \<Rightarrow> ptr \<Rightarrow> u32 \<Rightarrow> i32 \<Rightarrow> i32 io" where
  "poll_cq_cidb E rdma_dev qpid sq_cidb =
     bindM (load as_rdma_dev rdma_dev) (\<lambda>rd.
     let addr = ucast (get_rdma_per_q_config_addr RN_RDMA_QCSR_CQHEADi qpid) in
     bindM (read32_data E (rd_axil_ctl rd) addr) (\<lambda>cq_cidb.
     bindM (\<lambda>w. let r = poll_cq_loop E (rd_axil_ctl rd + addr) sq_cidb cq_cidb 0 w
                in Some (Ret (fst r), snd r)) (\<lambda>result.
     case result of
       Some cq_cidb \<Rightarrow> returnM cq_cidb
     | None \<Rightarrow> thenM (dump_registers E rdma_dev 1 qpid) (returnM (- 1)))))"

subsection \<open>Sends\<close>

text \<open>
  A \<open>Debug\<close> line that reads a register: the read happens only when the global \<open>debug\<close> is set.
\<close>

definition debug_read :: "env \<Rightarrow> u64 \<Rightarrow> u32 \<Rightarrow> unit io" where
  "debug_read E base r =
     bindM (getsM g_debug) (\<lambda>debug.
     if debug then thenM (read32_data E base (ucast r)) (returnM ()) else returnM ())"

definition rdma_post_send :: "env \<Rightarrow> ptr \<Rightarrow> u32 \<Rightarrow> i32 io" where
  "rdma_post_send E rdma_dev qpid =
     (if rdma_dev = NULL then exitM EXIT_FAILURE else
      bindM (load as_rdma_dev rdma_dev) (\<lambda>rd.
      bindM (qps_index rd qpid) (\<lambda>qp.
      let sqpi = get_rdma_per_q_config_addr RN_RDMA_QCSR_SQPIi qpid in
      thenM (debug_read E (rd_axil_ctl rd) sqpi) (
      bindM (load as_qp qp) (\<lambda>q.
      let q = q\<lparr>qp_sq_pidb := qp_sq_pidb q + 1\<rparr> in
      thenM (store qp (O_qp q)) (
      thenM (write32_data (rd_axil_ctl rd) (ucast sqpi) (qp_sq_pidb q)) (
      thenM (debug_read E (rd_axil_ctl rd) sqpi) (
      bindM (poll_cq_cidb E rdma_dev qpid (qp_sq_cidb q)) (\<lambda>cq_cidb.
      let q = q\<lparr>qp_cq_cidb := cq_cidb, qp_sq_cidb := qp_sq_cidb q + 1\<rparr> in
      thenM (store qp (O_qp q))
        (returnM (if is_negative (qp_cq_cidb q) then - 1 else 0)))))))))))"

text \<open>The wait of the batched send, over the counters in the queue pair.\<close>

lemma bindM_mono [partial_function_mono]:
  fixes m :: "('x \<Rightarrow> 'y option) \<Rightarrow> ('s, 'a) prog" and F :: "('x \<Rightarrow> 'y option) \<Rightarrow> 'a \<Rightarrow> ('s, 'b) prog"
  assumes "\<And>w. monotone option.le_fun option_ord (\<lambda>g. m g w)"
    and "\<And>a w. monotone option.le_fun option_ord (\<lambda>g. F g a w)"
  shows "monotone option.le_fun option_ord (\<lambda>g. bindM (m g) (F g) w)"
proof (rule monotoneI)
  fix g h :: "'x \<Rightarrow> 'y option"
  assume le: "option.le_fun g h"
  have m: "m g w = None \<or> m g w = m h w"
    using assms(1) [of w] le unfolding monotone_on_def flat_ord_def by blast
  have f: "F g a w = None \<or> F g a w = F h a w" for a w
    using assms(2) [of a w] le unfolding monotone_on_def flat_ord_def by blast
  show "option_ord (bindM (m g) (F g) w) (bindM (m h) (F h) w)"
  proof (cases "m g w")
    case None
    then show ?thesis by (simp add: bindM_def flat_ord_def)
  next
    case (Some x)
    with m have "m h w = Some x" by simp
    with Some f show ?thesis
      by (cases x, cases "fst x") (auto simp: bindM_def flat_ord_def)
  qed
qed

partial_function (option) batch_loop :: "env \<Rightarrow> ptr \<Rightarrow> u32 \<Rightarrow> ptr \<Rightarrow> unit io" where
  "batch_loop E rdma_dev qpid qp w =
     bindM (load as_qp qp) (\<lambda>q w.
     if sint (qp_cq_cidb q) < sint (qp_sq_pidb q) then
       bindM (poll_cq_cidb E rdma_dev qpid (qp_sq_cidb q)) (\<lambda>cq_cidb.
       bindM (store qp (O_qp (q\<lparr>qp_cq_cidb := cq_cidb, qp_sq_cidb := cq_cidb\<rparr>))) (\<lambda>_.
       batch_loop E rdma_dev qpid qp)) w
     else returnM () w) w"

definition rdma_post_batch_send :: "env \<Rightarrow> ptr \<Rightarrow> u32 \<Rightarrow> u32 \<Rightarrow> i32 io" where
  "rdma_post_batch_send E rdma_dev qpid batch_size =
     (if rdma_dev = NULL then exitM EXIT_FAILURE else
      bindM (load as_rdma_dev rdma_dev) (\<lambda>rd.
      bindM (qps_index rd qpid) (\<lambda>qp.
      let sqpi = get_rdma_per_q_config_addr RN_RDMA_QCSR_SQPIi qpid in
      thenM (debug_read E (rd_axil_ctl rd) sqpi) (
      bindM (load as_qp qp) (\<lambda>q.
      let q = q\<lparr>qp_sq_pidb := qp_sq_pidb q + batch_size\<rparr> in
      thenM (store qp (O_qp q)) (
      if qp_qdepth q < batch_size \<or> qp_qdepth q < qp_sq_pidb q then exitM EXIT_FAILURE else
      thenM (write32_data (rd_axil_ctl rd) (ucast sqpi) (qp_sq_pidb q)) (
      thenM (debug_read E (rd_axil_ctl rd) sqpi) (
      thenM (batch_loop E rdma_dev qpid qp) (
      bindM (load as_qp qp) (\<lambda>q.
      returnM (if is_negative (qp_cq_cidb q) then - 1 else 0)))))))))))"

subsection \<open>Receives\<close>

definition write_rq_cidb :: "ptr \<Rightarrow> ptr \<Rightarrow> u32 \<Rightarrow> unit io" where
  "write_rq_cidb rdma_dev qp db_val =
     bindM (load as_qp qp) (\<lambda>q.
     thenM (store qp (O_qp (q\<lparr>qp_rq_cidb := db_val\<rparr>))) (
     bindM (load as_rdma_dev rdma_dev) (\<lambda>rd.
     write32_data (rd_axil_ctl rd)
       (ucast (get_rdma_per_q_config_addr RN_RDMA_QCSR_RQCIi (qp_qpid q))) db_val)))"

text \<open>
  The address of the received element. \<open>qdepth\<close> is unsigned and the counter is a signed \<open>int\<close>, so
  the two products are widened differently.
\<close>

definition rq_element :: "u64 \<Rightarrow> u32 \<Rightarrow> i32 \<Rightarrow> u64" where
  "rq_element buffer qdepth rq_pidb =
     (if rq_pidb = 0 then buffer + ucast ((qdepth - 1) * RQE_SIZE)
      else buffer + scast ((rq_pidb - 1) * RQE_SIZE))"

text \<open>Returns the address, 0 for the NULL of the two early returns.\<close>

definition rdma_post_receive :: "env \<Rightarrow> ptr \<Rightarrow> ptr \<Rightarrow> u64 io" where
  "rdma_post_receive E rdma_dev qp =
     (if rdma_dev = NULL then returnM 0
      else if qp = NULL then returnM 0
      else
        bindM (load as_qp qp) (\<lambda>q.
        bindM (poll_rq_pidb E rdma_dev (qp_qpid q)) (\<lambda>rq_pidb.
        if rq_pidb = - 1 then exitM EXIT_FAILURE else
        bindM (load as_qp qp) (\<lambda>q.
        bindM (load as_rdma_buff (qp_rq q)) (\<lambda>rq.
        returnM (rq_element (buf_buffer rq) (qp_qdepth q) rq_pidb))))))"

definition rdma_release_rq_consumed :: "env \<Rightarrow> ptr \<Rightarrow> ptr \<Rightarrow> u8 io" where
  "rdma_release_rq_consumed E rdma_dev qp =
     bindM (load as_rdma_dev rdma_dev) (\<lambda>rd.
     bindM (load as_qp qp) (\<lambda>q.
     bindM (read32_data E (rd_axil_ctl rd)
              (ucast (get_rdma_per_q_config_addr RN_RDMA_QCSR_STATRQPIDBi (qp_qpid q)))) (\<lambda>rq_pidb.
     let rc = (if rq_pidb \<noteq> qp_rq_pidb q then 1 else 0) in
     thenM (write_rq_cidb rdma_dev qp (qp_rq_pidb q))
       (returnM rc))))"

subsection \<open>Frames\<close>

lemma sampled_keeps:
  assumes "reflp R" and "transp R" and "\<And>w. R w (snd (sample w))"
  shows "R w (sampled sample n w)"
proof (induction n arbitrary: w)
  case 0
  then show ?case using assms(1) by (simp add: reflpD)
next
  case (Suc n)
  from Suc [of "snd (sample w)"] assms(2,3) show ?case by (auto dest: transpD)
qed

lemma keeps_poll_until:
  assumes "reflp R" and "transp R" and "\<And>w. R w (snd (sample w))"
  shows "keeps R (\<lambda>w. map_option (\<lambda>(v, w'). (Ret v, w')) (poll_until sample stop v w))"
proof (rule keepsI)
  fix w r w'
  assume "map_option (\<lambda>(v, w'). (Ret v, w')) (poll_until sample stop v w) = Some (r, w')"
  then obtain x where x: "poll_until sample stop v w = Some x" "w' = snd x" by auto
  from poll_until_reaches [OF x(1)] have "w' = w \<or> (\<exists>n. w' = sampled sample n w)"
    using x(2) by (auto simp del: sampled.simps)
  then show "R w w'" using sampled_keeps [OF assms] assms(1) by (auto dest: reflpD)
qed

lemma mmio_sample_keeps:
  "steps_ok w (snd (mmio_sample E a w))" "same_store w (snd (mmio_sample E a w))"
  "same_regs w (snd (mmio_sample E a w))"
  by (simp_all add: mmio_sample_def Let_def steps_ok_emit same_store_emit same_regs_def fun_eq_iff)

lemma poll_cq_loop_keeps:
  assumes R: "reflp R" "transp R" "\<And>w. R w (snd (mmio_sample E a w))"
  shows "R w (snd (poll_cq_loop E a sq cq t w))"
proof (induction "1000 - t" arbitrary: t w cq rule: less_induct)
  case less
  let ?w1 = "snd (mmio_sample E a w)"
  have now: "R w w" "R w ?w1" using R by (auto dest: reflpD)
  show ?case
  proof (cases "cq \<noteq> sq \<or> 1000 < t + 1")
    case True
    with now show ?thesis by (subst poll_cq_loop.simps) (auto simp: Let_def)
  next
    case False
    then have "1000 - (t + 1) < 1000 - t" by arith
    then have "R ?w1 (snd (poll_cq_loop E a sq (fst (mmio_sample E a w)) (t + 1) ?w1))"
      by (rule less)
    with now R(2) False show ?thesis
      by (subst poll_cq_loop.simps) (auto simp: Let_def dest: transpD)
  qed
qed

lemma keeps_poll_cq_loop:
  assumes "reflp R" "transp R" "\<And>w. R w (snd (mmio_sample E a w))"
  shows "keeps R (\<lambda>w. Some (Ret (fst (poll_cq_loop E a sq cq t w)), snd (poll_cq_loop E a sq cq t w)))"
  using poll_cq_loop_keeps [OF assms] by (auto intro!: keepsI)

lemma keeps_case_option [keeps_intros]:
  "keeps R m \<Longrightarrow> (\<And>x. keeps R (f x)) \<Longrightarrow> keeps R (case r of None \<Rightarrow> m | Some x \<Rightarrow> f x)"
  by (cases r) simp_all

lemma keeps_dump_registers [keeps_intros]:
  "keeps steps_ok (dump_registers E rdev s qpid)" "keeps same_store (dump_registers E rdev s qpid)"
  "keeps same_regs (dump_registers E rdev s qpid)"
  unfolding dump_registers_def by (intro keeps_intros)+

lemma keeps_poll_cq_cidb [keeps_intros]:
  "keeps steps_ok (poll_cq_cidb E rdev qpid sq)" "keeps same_store (poll_cq_cidb E rdev qpid sq)"
  "keeps same_regs (poll_cq_cidb E rdev qpid sq)"
  unfolding poll_cq_cidb_def Let_def
  by (intro keeps_intros keeps_poll_cq_loop mmio_sample_keeps)+

lemma keeps_poll_rq_pidb [keeps_intros]: "keeps steps_ok (poll_rq_pidb E rdev qpid)"
  unfolding poll_rq_pidb_def Let_def
  by (intro keeps_intros keeps_poll_until mmio_sample_keeps)

lemma keeps_debug_read [keeps_intros]:
  "keeps steps_ok (debug_read E base r)" "keeps same_store (debug_read E base r)"
  "keeps same_regs (debug_read E base r)"
  unfolding debug_read_def by (intro keeps_intros)+

lemma keeps_rdma_post_send [keeps_intros]: "keeps steps_ok (rdma_post_send E rdev qpid)"
  unfolding rdma_post_send_def Let_def by (intro keeps_intros)

text \<open>The batched wait keeps what the poll and the update of the counters keep, however long it takes.\<close>

lemma keeps_batch_loop:
  assumes R: "reflp R" "transp R" and load: "\<And>p. keeps R (load as_qp p)" and store: "\<And>p q. keeps R (store p (O_qp q))"
    and poll: "\<And>E rdev qpid c. keeps R (poll_cq_cidb E rdev qpid c)"
  shows "keeps R (batch_loop E rdev qpid qp)"
proof (rule keepsI)
  fix w r w' assume run: "batch_loop E rdev qpid qp w = Some (r, w')"
  have "R w (snd (r, w'))"
  proof (rule batch_loop.raw_induct [of "\<lambda>E rdev qpid qp w x. R w (snd x)", OF _ run])
    fix f E rdev qpid qp w x
    assume IH: "\<And>E rdev qpid qp w x. f E rdev qpid qp w = Some x \<Longrightarrow> R w (snd x)"
      and eq: "bindM (load as_qp qp) (\<lambda>q w.
         if sint (qp_cq_cidb q) < sint (qp_sq_pidb q) then
           bindM (poll_cq_cidb E rdev qpid (qp_sq_cidb q)) (\<lambda>cq_cidb.
           bindM (store qp (O_qp (q\<lparr>qp_cq_cidb := cq_cidb, qp_sq_cidb := cq_cidb\<rparr>))) (\<lambda>_.
           f E rdev qpid qp)) w
         else returnM () w) w = Some x"
    have f: "keeps R (f E rdev qpid qp)" for E rdev qpid qp by (rule keepsI) (use IH in fastforce)
    have branch: "keeps R (\<lambda>w. if b then m w else m' w)" if "keeps R m" "keeps R m'" for b and m m' :: "unit io"
      using that by (cases b) simp_all
    have "keeps R (bindM (load as_qp qp) (\<lambda>q w.
         if sint (qp_cq_cidb q) < sint (qp_sq_pidb q) then
           bindM (poll_cq_cidb E rdev qpid (qp_sq_cidb q)) (\<lambda>cq_cidb.
           bindM (store qp (O_qp (q\<lparr>qp_cq_cidb := cq_cidb, qp_sq_cidb := cq_cidb\<rparr>))) (\<lambda>_.
           f E rdev qpid qp)) w
         else returnM () w))"
      by (intro keeps_intros branch R load store poll f)
    from keepsD [OF this] eq show "R w (snd x)" by (cases x) auto
  qed
  then show "R w w'" by simp
qed

lemma keeps_batch_send [keeps_intros]: "keeps steps_ok (rdma_post_batch_send E rdev qpid batch)"
  unfolding rdma_post_batch_send_def Let_def by (intro keeps_intros keeps_batch_loop)

lemma keeps_receive [keeps_intros]: "keeps steps_ok (rdma_post_receive E rdev qp)"
  "keeps steps_ok (write_rq_cidb rdev qp v)" "keeps steps_ok (rdma_release_rq_consumed E rdev qp)"
  unfolding rdma_post_receive_def write_rq_cidb_def rdma_release_rq_consumed_def
  by (intro keeps_intros)+

subsection \<open>The bounded poll\<close>

lemma poll_cq_loop_done: "cq \<noteq> sq \<Longrightarrow> poll_cq_loop E a sq cq t w = (Some cq, w)"
  by (subst poll_cq_loop.simps) simp

lemma poll_cq_loop_step:
  "t < 1000 \<Longrightarrow> poll_cq_loop E a sq sq t w =
     poll_cq_loop E a sq (sample_value (mmio_sample E a) 0 w) (Suc t) (sampled (mmio_sample E a) 1 w)"
  by (subst poll_cq_loop.simps) (simp add: Let_def sample_value_def)

lemma poll_cq_loop_last:
  "poll_cq_loop E a sq sq 1000 w = (None, sampled (mmio_sample E a) 1 w)"
  by (subst poll_cq_loop.simps) (simp add: Let_def)

text \<open>A completion within the bound is returned; otherwise the poll gives up after it.\<close>

lemma poll_cq_loop_hit:
  assumes "n + t < 1000" and "\<forall>m<n. sample_value (mmio_sample E a) m w = sq"
    and "sample_value (mmio_sample E a) n w \<noteq> sq"
  shows "poll_cq_loop E a sq sq t w =
    (Some (sample_value (mmio_sample E a) n w), sampled (mmio_sample E a) (Suc n) w)"
  using assms
proof (induction n arbitrary: t w)
  case 0
  then show ?case by (simp add: poll_cq_loop_step poll_cq_loop_done)
next
  case (Suc n)
  let ?w1 = "snd (mmio_sample E a w)"
  have "sample_value (mmio_sample E a) 0 w = sq" using Suc.prems(2) by blast
  moreover have "\<forall>m<n. sample_value (mmio_sample E a) m ?w1 = sq"
    using Suc.prems(2) by (auto simp flip: sample_value_Suc)
  moreover have "sample_value (mmio_sample E a) n ?w1 \<noteq> sq"
    using Suc.prems(3) by (simp add: sample_value_Suc)
  ultimately show ?case
    using Suc.IH [of "Suc t" ?w1] Suc.prems(1) by (simp add: poll_cq_loop_step sample_value_Suc)
qed

lemma poll_cq_loop_miss:
  assumes "t \<le> 1000" and "\<forall>m. m + t < 1000 \<longrightarrow> sample_value (mmio_sample E a) m w = sq"
  shows "poll_cq_loop E a sq sq t w = (None, sampled (mmio_sample E a) (Suc (1000 - t)) w)"
  using assms
proof (induction "1000 - t" arbitrary: t w)
  case 0
  then show ?case by (simp add: poll_cq_loop_last)
next
  case (Suc k)
  let ?w1 = "snd (mmio_sample E a w)"
  have t: "t < 1000" "1000 - t = Suc (1000 - Suc t)" using Suc.hyps(2) by simp_all
  have "sample_value (mmio_sample E a) 0 w = sq" using Suc.prems(2) t by simp
  moreover have "\<forall>m. m + Suc t < 1000 \<longrightarrow> sample_value (mmio_sample E a) m ?w1 = sq"
  proof (intro allI impI)
    fix m assume "m + Suc t < 1000"
    then show "sample_value (mmio_sample E a) m ?w1 = sq"
      using Suc.prems(2) [rule_format, of "Suc m"] by (simp add: sample_value_Suc)
  qed
  ultimately show ?case
    using Suc.hyps(1) [of "Suc t" ?w1] Suc.hyps(2) t by (simp add: poll_cq_loop_step)
qed

text \<open>The register that the poll reads, as an address.\<close>

definition cq_head_addr :: "rdma_dev_t \<Rightarrow> u32 \<Rightarrow> u64" where
  "cq_head_addr rd qpid = rd_axil_ctl rd + ucast (get_rdma_per_q_config_addr RN_RDMA_QCSR_CQHEADi qpid)"

lemma dump_registers_run:
  assumes "heap w rdev = Some (O_rdma_dev rd)"
  shows "\<exists>w'. dump_registers E rdev s qpid w = Some (Ret (), w')"
proof -
  have "\<exists>w'. forM rs (\<lambda>r. thenM (read32_data E base (ucast r)) (returnM ())) w = Some (Ret (), w')"
    for rs :: "u32 list" and base w
    by (induction rs arbitrary: w) (simp_all add: run_simps)
  with assms show ?thesis by (simp add: dump_registers_def run_simps)
qed

lemma poll_cq_cidb_unfold:
  assumes "heap w rdev = Some (O_rdma_dev rd)"
  shows "poll_cq_cidb E rdev qpid sq w =
    (let a = cq_head_addr rd qpid; r = poll_cq_loop E a sq (sample_value (mmio_sample E a) 0 w) 0
           (sampled (mmio_sample E a) 1 w)
     in case fst r of Some c \<Rightarrow> Some (Ret c, snd r)
        | None \<Rightarrow> thenM (dump_registers E rdev 1 qpid) (returnM (- 1)) (snd r))"
  using assms
  by (simp add: poll_cq_cidb_def run_simps Let_def cq_head_addr_def sample_value_def mmio_sample_def
      bindM_def split: option.split)

text \<open>The result of the whole poll: the two ways it can end, and nothing else.\<close>

lemma poll_cq_cidb_cases:
  fixes E :: env and qpid :: u32
  assumes rd: "heap w rdev = Some (O_rdma_dev rd)"
  defines "S \<equiv> mmio_sample E (cq_head_addr rd qpid)"
  shows "(\<exists>n\<le>1000. sample_value S n w \<noteq> sq \<and> (\<forall>m<n. sample_value S m w = sq) \<and>
       poll_cq_cidb E rdev qpid sq w = Some (Ret (sample_value S n w), sampled S (Suc n) w)) \<or>
    ((\<forall>n\<le>1000. sample_value S n w = sq) \<and>
       (\<exists>w'. poll_cq_cidb E rdev qpid sq w = Some (Ret (- 1), w')))"
proof -
  let ?w1 = "sampled S 1 w"
  note run = poll_cq_cidb_unfold [OF rd, of E qpid sq, folded S_def]
  show ?thesis
  proof (cases "\<exists>n\<le>1000. sample_value S n w \<noteq> sq")
    case True
    define n where "n = (LEAST n. sample_value S n w \<noteq> sq)"
    from True obtain k where k: "k \<le> 1000" "sample_value S k w \<noteq> sq" by blast
    have n: "sample_value S n w \<noteq> sq" "n \<le> 1000"
      using LeastI [of "\<lambda>n. sample_value S n w \<noteq> sq", OF k(2)]
        Least_le [of "\<lambda>n. sample_value S n w \<noteq> sq", OF k(2)] k(1)
      by (simp_all add: n_def)
    have before: "\<forall>m<n. sample_value S m w = sq" unfolding n_def by (blast dest: not_less_Least)
    have "poll_cq_cidb E rdev qpid sq w = Some (Ret (sample_value S n w), sampled S (Suc n) w)"
    proof (cases n)
      case 0
      with n run show ?thesis by (simp add: Let_def poll_cq_loop_done S_def)
    next
      case (Suc k)
      from before Suc have "sample_value S 0 w = sq" "\<forall>m<k. sample_value S m ?w1 = sq"
        by (auto simp flip: sample_value_Suc)
      moreover from n Suc have "sample_value S k ?w1 \<noteq> sq" "k + 0 < 1000"
        by (simp_all add: sample_value_Suc)
      ultimately show ?thesis
        using run poll_cq_loop_hit [of k 0 E "cq_head_addr rd qpid" ?w1 sq] Suc
        by (simp add: Let_def S_def sample_value_Suc)
    qed
    with n before show ?thesis by blast
  next
    case False
    then have first: "sample_value S 0 w = sq"
      and rest: "\<forall>m. m + 0 < 1000 \<longrightarrow> sample_value S m ?w1 = sq"
      by (auto simp flip: sample_value_Suc)
    let ?w2 = "sampled S (Suc 1000) ?w1"
    have "same_store w ?w1" "same_store ?w1 ?w2"
      unfolding S_def by (rule sampled_keeps [OF reflp_same_store transp_same_store mmio_sample_keeps(2)])+
    then have "heap ?w2 rdev = Some (O_rdma_dev rd)" using rd by (simp add: same_store_def)
    then obtain w' where "dump_registers E rdev 1 qpid ?w2 = Some (Ret (), w')"
      using dump_registers_run by blast
    then have "\<exists>w'. poll_cq_cidb E rdev qpid sq w = Some (Ret (- 1), w')"
      using run first poll_cq_loop_miss [OF _ rest [unfolded S_def]]
      by (simp add: Let_def S_def run_simps)
    with False show ?thesis by blast
  qed
qed

text \<open>The poll never hangs and changes neither the store nor the registers.\<close>

lemma poll_cq_cidb_run:
  assumes "heap w rdev = Some (O_rdma_dev rd)"
  shows "\<exists>c w'. poll_cq_cidb E rdev qpid sq w = Some (Ret c, w') \<and> (c \<noteq> sq \<or> c = - 1) \<and>
    same_store w w' \<and> same_regs w w'"
proof -
  from poll_cq_cidb_cases [OF assms, of E qpid sq]
  obtain c w' where run: "poll_cq_cidb E rdev qpid sq w = Some (Ret c, w')" and c: "c \<noteq> sq \<or> c = - 1"
    by blast
  from keepsD [OF keeps_poll_cq_cidb(2) run] keepsD [OF keeps_poll_cq_cidb(3) run] run c
  show ?thesis by blast
qed

lemma debug_read_run:
  "\<exists>w'. debug_read E base r w = Some (Ret (), w')"
  by (simp add: debug_read_def run_simps)

text \<open>A register write is seen by the register file, whatever is only read afterwards.\<close>

lemma same_regs_write:
  "same_regs (emit (Mmio_Write a v) w) w' \<Longrightarrow>
   last_write (hist w') = (\<lambda>b. if b = a then Some v else last_write (hist w) b)"
  by (auto simp: same_regs_def fun_eq_iff)

subsection \<open>The batched wait\<close>

text \<open>
  Whatever ends the loop, only the two completion counters have changed, and the one has reached
  the producer counter.
\<close>

definition waited :: "ptr \<Rightarrow> rdma_qp_t \<Rightarrow> world \<Rightarrow> world \<Rightarrow> bool" where
  "waited qp q w w' \<longleftrightarrow> (\<exists>c s. heap w' = (heap w)(qp \<mapsto> O_qp (q\<lparr>qp_cq_cidb := c, qp_sq_cidb := s\<rparr>)) \<and>
     \<not> sint c < sint (qp_sq_pidb q))"

lemma batch_loop_Ret:
  assumes run: "batch_loop E rdev qpid qp w = Some (Ret u, w')" and q: "heap w qp = Some (O_qp q)"
  shows "waited qp q w w'"
proof -
  let ?P = "\<lambda>E rdev qpid qp w r. \<forall>q u. heap w qp = Some (O_qp q) \<longrightarrow> fst r = Ret u \<longrightarrow> waited qp q w (snd r)"
  have "?P E rdev qpid qp w (Ret u, w')"
  proof (rule batch_loop.raw_induct [of ?P, OF _ run], intro allI impI)
    fix f E rdev qpid qp w r q u
    assume IH: "\<And>E rdev qpid qp w r. f E rdev qpid qp w = Some r \<Longrightarrow> ?P E rdev qpid qp w r"
      and eq: "bindM (load as_qp qp) (\<lambda>q w.
         if sint (qp_cq_cidb q) < sint (qp_sq_pidb q) then
           bindM (poll_cq_cidb E rdev qpid (qp_sq_cidb q)) (\<lambda>cq_cidb.
           bindM (store qp (O_qp (q\<lparr>qp_cq_cidb := cq_cidb, qp_sq_cidb := cq_cidb\<rparr>))) (\<lambda>_.
           f E rdev qpid qp)) w
         else returnM () w) w = Some r"
      and q: "heap w qp = Some (O_qp q)" and r: "fst r = Ret u"
    show "waited qp q w (snd r)"
    proof (cases "sint (qp_cq_cidb q) < sint (qp_sq_pidb q)")
      case False
      have "heap w = (heap w)(qp \<mapsto> O_qp (q\<lparr>qp_cq_cidb := qp_cq_cidb q, qp_sq_cidb := qp_sq_cidb q\<rparr>))"
        using q by (auto simp: fun_eq_iff)
      moreover have "snd r = w" using eq q False by (auto simp: run_simps)
      ultimately show ?thesis unfolding waited_def using False by blast
    next
      case True
      with eq q r obtain w2 where "bindM (poll_cq_cidb E rdev qpid (qp_sq_cidb q)) (\<lambda>cq_cidb.
           bindM (store qp (O_qp (q\<lparr>qp_cq_cidb := cq_cidb, qp_sq_cidb := cq_cidb\<rparr>))) (\<lambda>_.
           f E rdev qpid qp)) w = Some (Ret u, w2)" and w2: "r = (Ret u, w2)"
        by (cases r) (auto simp: run_simps)
      then obtain c w1 where p: "poll_cq_cidb E rdev qpid (qp_sq_cidb q) w = Some (Ret c, w1)"
        and rest: "f E rdev qpid qp (w1\<lparr>heap := (heap w1)(qp \<mapsto> O_qp (q\<lparr>qp_cq_cidb := c, qp_sq_cidb := c\<rparr>))\<rparr>)
          = Some r" by (auto elim!: bindM_RetE store_RetE)
      have "heap w1 = heap w" using keepsD [OF keeps_poll_cq_cidb(2) p] by (simp add: same_store_def)
      with IH [OF rest] r show ?thesis by (simp add: waited_def)
    qed
  qed
  with q show ?thesis by simp
qed

text \<open>
  A completion counter that is stuck below the producer counter keeps the loop going for ever:
  each poll gives the stuck value or -1, and both are below the producer counter.
\<close>

lemma batch_loop_stuck:
  assumes rd: "heap w rdev = Some (O_rdma_dev rd)" and q: "heap w qp = Some (O_qp q)"
    and stuck: "\<And>h. env_mmio_read E h (cq_head_addr rd qpid) = v"
    and below: "sint v < sint (qp_sq_pidb q)" "sint (qp_cq_cidb q) < sint (qp_sq_pidb q)"
      "0 \<le> sint (qp_sq_pidb q)"
  shows "batch_loop E rdev qpid qp w = None"
proof (rule ccontr)
  assume "batch_loop E rdev qpid qp w \<noteq> None"
  then obtain r where run: "batch_loop E rdev qpid qp w = Some r" by blast
  let ?P = "\<lambda>E rdev qpid qp w. \<exists>rd q v. heap w rdev = Some (O_rdma_dev rd) \<and> heap w qp = Some (O_qp q) \<and>
    (\<forall>h. env_mmio_read E h (cq_head_addr rd qpid) = v) \<and> sint v < sint (qp_sq_pidb q) \<and>
    sint (qp_cq_cidb q) < sint (qp_sq_pidb q) \<and> 0 \<le> sint (qp_sq_pidb q)"
  have "\<not> ?P E rdev qpid qp w"
  proof (rule batch_loop.raw_induct [of "\<lambda>E rdev qpid qp w r. \<not> ?P E rdev qpid qp w", OF _ run], rule notI)
    fix f E rdev qpid qp w r
    assume IH: "\<And>E rdev qpid qp w r. f E rdev qpid qp w = Some r \<Longrightarrow> \<not> ?P E rdev qpid qp w"
      and eq: "bindM (load as_qp qp) (\<lambda>q w.
         if sint (qp_cq_cidb q) < sint (qp_sq_pidb q) then
           bindM (poll_cq_cidb E rdev qpid (qp_sq_cidb q)) (\<lambda>cq_cidb.
           bindM (store qp (O_qp (q\<lparr>qp_cq_cidb := cq_cidb, qp_sq_cidb := cq_cidb\<rparr>))) (\<lambda>_.
           f E rdev qpid qp)) w
         else returnM () w) w = Some r"
      and P: "?P E rdev qpid qp w"
    from P obtain rd q v where rd: "heap w rdev = Some (O_rdma_dev rd)" and q: "heap w qp = Some (O_qp q)"
      and stuck: "\<forall>h. env_mmio_read E h (cq_head_addr rd qpid) = v"
      and below: "sint v < sint (qp_sq_pidb q)" "sint (qp_cq_cidb q) < sint (qp_sq_pidb q)"
        "0 \<le> sint (qp_sq_pidb q)" by blast
    have "sample_value (mmio_sample E (cq_head_addr rd qpid)) n w = v" for n
      using stuck by (simp add: sample_value_def mmio_sample_def Let_def)
    with poll_cq_cidb_cases [OF rd, of E qpid "qp_sq_cidb q"] obtain c w1 where
      p: "poll_cq_cidb E rdev qpid (qp_sq_cidb q) w = Some (Ret c, w1)" and c: "c = v \<or> c = - 1"
      by auto
    have w1: "heap w1 = heap w" using keepsD [OF keeps_poll_cq_cidb(2) p] by (simp add: same_store_def)
    let ?q = "q\<lparr>qp_cq_cidb := c, qp_sq_cidb := c\<rparr>"
    let ?w1 = "w1\<lparr>heap := (heap w1)(qp \<mapsto> O_qp ?q)\<rparr>"
    from eq q below p w1 have "f E rdev qpid qp ?w1 = Some r" by (simp add: run_simps)
    from IH [OF this] have "\<not> ?P E rdev qpid qp ?w1" .
    moreover have "rdev \<noteq> qp" using rd q by auto
    then have "heap ?w1 rdev = Some (O_rdma_dev rd) \<and> heap ?w1 qp = Some (O_qp ?q) \<and>
      (\<forall>h. env_mmio_read E h (cq_head_addr rd qpid) = v) \<and> sint v < sint (qp_sq_pidb ?q) \<and>
      sint (qp_cq_cidb ?q) < sint (qp_sq_pidb ?q) \<and> 0 \<le> sint (qp_sq_pidb ?q)"
      using rd w1 stuck below c by auto
    then have "?P E rdev qpid qp ?w1" by blast
    ultimately show False by contradiction
  qed
  with assms show False by blast
qed

text \<open>The batched send up to its loop, when the queue has room.\<close>

lemma batch_send_enters_loop:
  assumes "rdev \<noteq> NULL" and rd: "heap w rdev = Some (O_rdma_dev rd)"
    and "heap w (rd_qps_ptr rd) = Some (O_qp_table table)" and "unat qpid < List.length table"
    and q: "heap w (table ! unat qpid) = Some (O_qp q)"
    and room: "batch \<le> qp_qdepth q" "qp_sq_pidb q + batch \<le> qp_qdepth q"
  shows "\<exists>w1. rdma_post_batch_send E rdev qpid batch w =
      thenM (batch_loop E rdev qpid (table ! unat qpid)) (bindM (load as_qp (table ! unat qpid)) (\<lambda>q.
        returnM (if is_negative (qp_cq_cidb q) then - 1 else 0))) w1 \<and>
    heap w1 = (heap w)(table ! unat qpid \<mapsto> O_qp (q\<lparr>qp_sq_pidb := qp_sq_pidb q + batch\<rparr>)) \<and>
    last_write (hist w1) = (last_write (hist w))
      (rd_axil_ctl rd + ucast (get_rdma_per_q_config_addr RN_RDMA_QCSR_SQPIi qpid) \<mapsto> qp_sq_pidb q + batch)"
proof -
  let ?qp = "table ! unat qpid" and ?r = "get_rdma_per_q_config_addr RN_RDMA_QCSR_SQPIi qpid"
  obtain w1 where d1: "debug_read E (rd_axil_ctl rd) ?r w = Some (Ret (), w1)"
    using debug_read_run by blast
  have w1: "heap w1 = heap w" "last_write (hist w1) = last_write (hist w)"
    using keepsD [OF keeps_debug_read(2) d1] keepsD [OF keeps_debug_read(3) d1]
    by (simp_all add: same_store_def same_regs_def)
  let ?q1 = "q\<lparr>qp_sq_pidb := qp_sq_pidb q + batch\<rparr>"
  let ?w2 = "w1\<lparr>heap := (heap w1)(?qp \<mapsto> O_qp ?q1)\<rparr>"
  let ?w3 = "emit (Mmio_Write (rd_axil_ctl rd + ucast ?r) (qp_sq_pidb q + batch)) ?w2"
  obtain w4 where d2: "debug_read E (rd_axil_ctl rd) ?r ?w3 = Some (Ret (), w4)"
    using debug_read_run by blast
  have w4: "heap w4 = heap ?w2" "last_write (hist w4) = last_write (hist ?w3)"
    using keepsD [OF keeps_debug_read(2) d2] keepsD [OF keeps_debug_read(3) d2]
    by (simp_all add: same_store_def same_regs_def)
  have regs: "last_write (hist w4) = (last_write (hist w))(rd_axil_ctl rd + ucast ?r \<mapsto> qp_sq_pidb q + batch)"
    by (auto simp: w4 w1 fun_eq_iff)
  show ?thesis
    using assms d1 d2 w1 w4(1)
    by (intro exI [where x = w4]) (simp add: regs rdma_post_batch_send_def run_simps Let_def linorder_not_less [symmetric])
qed

lemma nonneg_i32: "unat (x :: i32) < 2 ^ 31 \<Longrightarrow> 0 \<le> sint x"
  using not_negative [of x] by (simp add: is_negative_def)

text \<open>A completion counter that is already beyond the producer counter ends the loop at once.\<close>

lemma batch_loop_completes:
  assumes rd: "heap w rdev = Some (O_rdma_dev rd)" and q: "heap w qp = Some (O_qp q)"
    and fin: "\<And>h. env_mmio_read E h (cq_head_addr rd qpid) = v"
    and "sint (qp_sq_pidb q) \<le> sint v" and "v \<noteq> qp_sq_cidb q"
    and "sint (qp_cq_cidb q) < sint (qp_sq_pidb q)"
  shows "\<exists>w'. batch_loop E rdev qpid qp w = Some (Ret (), w') \<and>
    heap w' = (heap w)(qp \<mapsto> O_qp (q\<lparr>qp_cq_cidb := v, qp_sq_cidb := v\<rparr>))"
proof -
  have "sample_value (mmio_sample E (cq_head_addr rd qpid)) n w = v" for n
    using fin by (simp add: sample_value_def mmio_sample_def Let_def)
  with poll_cq_cidb_cases [OF rd, of E qpid "qp_sq_cidb q"] assms(5) obtain w1 where
    p: "poll_cq_cidb E rdev qpid (qp_sq_cidb q) w = Some (Ret v, w1)" by auto
  have "heap w1 = heap w" using keepsD [OF keeps_poll_cq_cidb(2) p] by (simp add: same_store_def)
  with p q assms(4,6) show ?thesis
    by (subst batch_loop.simps) (simp add: run_simps batch_loop.simps [of E rdev qpid qp "_\<lparr>heap := _\<rparr>"])
qed

subsection \<open>Received elements\<close>

lemma scast_small: "unat (x :: i32) < 2 ^ 31 \<Longrightarrow> (scast x :: u64) = ucast x"
proof -
  assume "unat x < 2 ^ 31"
  then have "take_bit 31 x = x"
    by (metis take_bit_nat_eq_self unsigned_take_bit_eq unsigned_word_eqI)
  then have "\<not> bit x 31" by (metis bit_take_bit_iff less_irrefl)
  show ?thesis
  proof (rule bit_word_eqI)
    fix n assume "n < LENGTH(64)"
    show "bit (scast x :: u64) n = bit (ucast x :: u64) n"
    proof (cases "n < 32")
      case False
      with \<open>\<not> bit x 31\<close> \<open>n < LENGTH(64)\<close> have "\<not> bit x (min n 31)" "\<not> bit x (min 31 n)" "\<not> bit x n"
        by (auto simp: min_def dest: bit_imp_le_length)
      with \<open>n < LENGTH(64)\<close> \<open>\<not> bit x 31\<close> show ?thesis by (auto simp: bit_simps)
    qed (use \<open>n < LENGTH(64)\<close> \<open>\<not> bit x 31\<close> in \<open>auto simp: bit_simps\<close>)
  qed
qed

lemma unat_ucast_u32_u64 [simp]: "unat (ucast (x :: u32) :: u64) = unat x"
  using unat_u32_less [of x] by (simp add: unsigned_ucast_eq take_bit_nat_eq_self)

text \<open>
  Where the element lies: a counter from 1 to the depth names one of the \<open>qdepth\<close> slots, the counter
  0 the last one; a greater counter names a place behind the queue.
\<close>

lemma rq_element_slot:
  assumes "0 < unat qdepth" and "unat qdepth * 512 < 2 ^ 31" and "unat v * 512 < 2 ^ 31"
  defines "k \<equiv> (if v = 0 then unat qdepth - 1 else unat v - 1)"
  shows "(k < unat qdepth \<longleftrightarrow> unat v \<le> unat qdepth) \<and> rq_element buffer qdepth v = buffer + word_of_nat (512 * k)"
proof -
  have pos: "0 < unat v" if "v \<noteq> 0" using that by (simp add: unat_gt_0)
  then have k: "k < unat qdepth \<longleftrightarrow> unat v \<le> unat qdepth" "k * 512 < 2 ^ 31" using assms(1-3) by (auto simp: k_def)
  let ?n = "(if v = 0 then qdepth else v)"
  have "?n \<noteq> 0" using assms(1) by auto
  then have "unat (?n - 1) = k" using assms(1)
    by (subst unat_sub) (auto simp: k_def word_le_nat_alt unat_gt_0 Suc_le_eq)
  with k(2) have u: "unat ((?n - 1) * RQE_SIZE) = 512 * k"
    using unat_mult_lem [of "?n - 1" RQE_SIZE] by (simp add: RQE_SIZE_def mult.commute)
  then have "(ucast ((?n - 1) * RQE_SIZE) :: u64) = word_of_nat (512 * k)"
    by (metis of_nat_unat ucast_id unat_ucast_u32_u64)
  moreover have "(scast ((v - 1) * RQE_SIZE) :: u64) = ucast ((v - 1) * RQE_SIZE)" if "v \<noteq> 0"
    using u k(2) that by (intro scast_small) simp
  ultimately show ?thesis using k by (auto simp: rq_element_def)
qed

text \<open>The register that the wait for a receive reads.\<close>

definition rq_status_addr :: "rdma_dev_t \<Rightarrow> u32 \<Rightarrow> u64" where
  "rq_status_addr rd qpid = rd_axil_ctl rd + ucast (get_rdma_per_q_config_addr RN_RDMA_QCSR_STATRQPIDBi qpid)"

lemma poll_rq_pidb_unfold:
  assumes "heap w rdev = Some (O_rdma_dev rd)" and "heap w (rd_qps_ptr rd) = Some (O_qp_table table)"
    and "unat qpid < List.length table" and "heap w (table ! unat qpid) = Some (O_qp q)"
    and "\<not> env_DEBUG E"
  shows "poll_rq_pidb E rdev qpid w =
    (let S = mmio_sample E (rq_status_addr rd qpid) in
     case poll_until S (\<lambda>v. v \<noteq> qp_rq_pidb q) (sample_value S 0 w) (sampled S 1 w) of
       None \<Rightarrow> None
     | Some (v, w') \<Rightarrow>
         thenM (store (table ! unat qpid) (O_qp (q\<lparr>qp_rq_pidb := v\<rparr>))) (returnM v) w')"
  using assms
  by (simp add: poll_rq_pidb_def run_simps Let_def rq_status_addr_def sample_value_def mmio_sample_def
      bindM_def split: option.split)

lemma poll_rq_pidb_first:
  fixes E :: env and rd :: rdma_dev_t and qpid :: u32
  defines "S \<equiv> mmio_sample E (rq_status_addr rd qpid)"
  assumes "heap w rdev = Some (O_rdma_dev rd)" and "heap w (rd_qps_ptr rd) = Some (O_qp_table table)"
    and "unat qpid < List.length table" and "heap w (table ! unat qpid) = Some (O_qp q)"
    and "\<not> env_DEBUG E"
    and "\<forall>m<n. sample_value S m w = qp_rq_pidb q" and "sample_value S n w \<noteq> qp_rq_pidb q"
  shows "\<exists>w'. poll_rq_pidb E rdev qpid w = Some (Ret (sample_value S n w), w') \<and>
    heap w' = (heap w)(table ! unat qpid \<mapsto> O_qp (q\<lparr>qp_rq_pidb := sample_value S n w\<rparr>))"
proof -
  have "poll_until S (\<lambda>v. v \<noteq> qp_rq_pidb q) (sample_value S 0 w) (sampled S 1 w) =
      Some (sample_value S n w, sampled S (Suc n) w)"
  proof (cases n)
    case 0
    with assms(8) show ?thesis by simp
  next
    case (Suc m)
    have "\<forall>k<m. \<not> sample_value S k (sampled S 1 w) \<noteq> qp_rq_pidb q" "\<not> sample_value S 0 w \<noteq> qp_rq_pidb q"
      using assms(7) Suc by (auto simp flip: sample_value_Suc)
    moreover have "sample_value S m (sampled S 1 w) \<noteq> qp_rq_pidb q"
      using assms(8) Suc by (simp flip: sample_value_Suc)
    ultimately show ?thesis
      using poll_until_first [of "\<lambda>v. v \<noteq> qp_rq_pidb q"] Suc by (simp add: sample_value_Suc)
  qed
  moreover have "same_store w (sampled S (Suc n) w)"
    unfolding S_def by (rule sampled_keeps [OF reflp_same_store transp_same_store mmio_sample_keeps(2)])
  ultimately show ?thesis
    using poll_rq_pidb_unfold [OF assms(2-6)] assms(5)
    by (simp add: Let_def S_def [symmetric] run_simps same_store_def del: sampled.simps)
qed

lemma poll_rq_pidb_None:
  assumes "heap w rdev = Some (O_rdma_dev rd)" and "heap w (rd_qps_ptr rd) = Some (O_qp_table table)"
    and "unat qpid < List.length table" and "heap w (table ! unat qpid) = Some (O_qp q)"
    and "\<not> env_DEBUG E"
    and "\<forall>n. sample_value (mmio_sample E (rq_status_addr rd qpid)) n w = qp_rq_pidb q"
  shows "poll_rq_pidb E rdev qpid w = None"
proof -
  let ?S = "mmio_sample E (rq_status_addr rd qpid)"
  have "\<nexists>r. poll_until ?S (\<lambda>v. v \<noteq> qp_rq_pidb q) (sample_value ?S 0 w) (sampled ?S 1 w) = Some r"
    using assms(6) by (subst poll_until_returns_iff) (simp flip: sample_value_Suc)
  then show ?thesis
    using poll_rq_pidb_unfold [OF assms(1-5)] by (auto simp: Let_def split: option.split)
qed

subsection \<open>Properties\<close>

text \<open>
  C5: \<open>poll_cq_cidb\<close> always returns. Among the first 1001 reads of the completion counter it
  returns the first value that differs from the expected counter, right after reading it; when
  all of them agree it returns -1.
\<close>

theorem poll_cq_cidb_bounded:
  assumes "heap w rdev = Some (O_rdma_dev rd)"
  shows "(\<exists>n\<le>1000. sample_value (mmio_sample E (cq_head_addr rd qpid)) n w \<noteq> sq \<and>
       (\<forall>m<n. sample_value (mmio_sample E (cq_head_addr rd qpid)) m w = sq) \<and>
       poll_cq_cidb E rdev qpid sq w =
         Some (Ret (sample_value (mmio_sample E (cq_head_addr rd qpid)) n w),
               sampled (mmio_sample E (cq_head_addr rd qpid)) (Suc n) w)) \<or>
    ((\<forall>n\<le>1000. sample_value (mmio_sample E (cq_head_addr rd qpid)) n w = sq) \<and>
       (\<exists>w'. poll_cq_cidb E rdev qpid sq w = Some (Ret (- 1), w') \<and> same_store w w'))"
  using poll_cq_cidb_cases [OF assms, of E qpid sq] keepsD [OF keeps_poll_cq_cidb(2)] by blast

lemma debug_read_hist:
  "\<exists>w' d. debug_read E base r w = Some (Ret (), w') \<and> hist w' = d @ hist w \<and> (\<not> g_debug w \<longrightarrow> d = []) \<and>
     g_debug w' = g_debug w"
  by (simp add: debug_read_def run_simps)

text \<open>
  The outcome of a poll that starts in state \<open>w\<close>: the first of at most 1001 reads that differs from the
  counter the caller has, or -1 when none does.
\<close>

definition polled :: "env \<Rightarrow> rdma_dev_t \<Rightarrow> u32 \<Rightarrow> i32 \<Rightarrow> world \<Rightarrow> i32 \<Rightarrow> bool" where
  "polled E rd qpid sq w c \<longleftrightarrow>
     (\<exists>n\<le>1000. sample_value (mmio_sample E (cq_head_addr rd qpid)) n w = c \<and> c \<noteq> sq \<and>
        (\<forall>m<n. sample_value (mmio_sample E (cq_head_addr rd qpid)) m w = sq)) \<or>
     (\<forall>n\<le>1000. sample_value (mmio_sample E (cq_head_addr rd qpid)) n w = sq) \<and> c = - 1"

lemma poll_cq_cidb_polled:
  assumes "heap w rdev = Some (O_rdma_dev rd)"
  shows "\<exists>c w'. poll_cq_cidb E rdev qpid sq w = Some (Ret c, w') \<and> polled E rd qpid sq w c \<and>
    same_store w w' \<and> same_regs w w'"
proof -
  from poll_cq_cidb_cases [OF assms, of E qpid sq]
  obtain c w' where run: "poll_cq_cidb E rdev qpid sq w = Some (Ret c, w')" and c: "polled E rd qpid sq w c"
    unfolding polled_def by blast
  from keepsD [OF keeps_poll_cq_cidb(2) run] keepsD [OF keeps_poll_cq_cidb(3) run] run c
  show ?thesis by blast
qed

lemma rdma_post_send_run:
  assumes "rdev \<noteq> NULL" and "heap w rdev = Some (O_rdma_dev rd)"
    and "heap w (rd_qps_ptr rd) = Some (O_qp_table table)" and "unat qpid < List.length table"
    and "heap w (table ! unat qpid) = Some (O_qp q)"
  shows "\<exists>d1 d2 wp c wc. hist wp = d2 @ Mmio_Write (rd_axil_ctl rd + ucast (get_rdma_per_q_config_addr RN_RDMA_QCSR_SQPIi qpid))
      (qp_sq_pidb q + 1) # d1 @ hist w \<and> (\<not> g_debug w \<longrightarrow> d1 = [] \<and> d2 = []) \<and>
    heap wp = (heap w)(table ! unat qpid \<mapsto> O_qp (q\<lparr>qp_sq_pidb := qp_sq_pidb q + 1\<rparr>)) \<and>
    last_write (hist wp) = (\<lambda>a.
      if a = rd_axil_ctl rd + ucast (get_rdma_per_q_config_addr RN_RDMA_QCSR_SQPIi qpid)
      then Some (qp_sq_pidb q + 1) else last_write (hist w) a) \<and>
    poll_cq_cidb E rdev qpid (qp_sq_cidb q) wp = Some (Ret c, wc) \<and> polled E rd qpid (qp_sq_cidb q) wp c \<and>
    last_write (hist wc) = last_write (hist wp) \<and>
    rdma_post_send E rdev qpid w = Some (Ret (if is_negative c then - 1 else 0), wc\<lparr>heap := (heap w)(table ! unat qpid \<mapsto>
      O_qp (q\<lparr>qp_sq_pidb := qp_sq_pidb q + 1, qp_cq_cidb := c, qp_sq_cidb := qp_sq_cidb q + 1\<rparr>))\<rparr>)"
proof -
  let ?qp = "table ! unat qpid" and ?r = "get_rdma_per_q_config_addr RN_RDMA_QCSR_SQPIi qpid"
  let ?q1 = "q\<lparr>qp_sq_pidb := qp_sq_pidb q + 1\<rparr>"
  obtain w1 h1 where d1: "debug_read E (rd_axil_ctl rd) ?r w = Some (Ret (), w1)"
    and h1: "hist w1 = h1 @ hist w" "\<not> g_debug w \<longrightarrow> h1 = []" "g_debug w1 = g_debug w"
    using debug_read_hist by blast
  have w1: "heap w1 = heap w" "last_write (hist w1) = last_write (hist w)"
    using keepsD [OF keeps_debug_read(2) d1] keepsD [OF keeps_debug_read(3) d1]
    by (simp_all add: same_store_def same_regs_def)
  let ?w2 = "w1\<lparr>heap := (heap w1)(?qp \<mapsto> O_qp ?q1)\<rparr>"
  let ?w3 = "emit (Mmio_Write (rd_axil_ctl rd + ucast ?r) (qp_sq_pidb q + 1)) ?w2"
  obtain w4 h2 where d2: "debug_read E (rd_axil_ctl rd) ?r ?w3 = Some (Ret (), w4)"
    and h2: "hist w4 = h2 @ hist ?w3" "\<not> g_debug ?w3 \<longrightarrow> h2 = []"
    using debug_read_hist by blast
  have w4: "same_store ?w3 w4" "same_regs ?w3 w4"
    using keepsD [OF keeps_debug_read(2) d2] keepsD [OF keeps_debug_read(3) d2] .
  have ne: "rdev \<noteq> ?qp" using assms(2,5) by auto
  then have "heap w4 rdev = Some (O_rdma_dev rd)" using w4 w1 assms(2) by (simp add: same_store_def)
  from poll_cq_cidb_polled [OF this, of E qpid "qp_sq_cidb q"] obtain c w5 where
    p: "poll_cq_cidb E rdev qpid (qp_sq_cidb q) w4 = Some (Ret c, w5)" "polled E rd qpid (qp_sq_cidb q) w4 c"
    and w5: "same_store w4 w5" "same_regs w4 w5" by blast
  have live: "heap w5 ?qp \<noteq> None" using w5 w4 by (simp add: same_store_def)
  have regs: "last_write (hist w4) = (\<lambda>a. if a = rd_axil_ctl rd + ucast ?r then Some (qp_sq_pidb q + 1)
      else last_write (hist w) a)" "last_write (hist w5) = last_write (hist w4)"
    using same_regs_write [OF w4(2)] w1 w5(2) by (simp_all add: fun_eq_iff same_regs_def)
  have heap4: "heap w4 = (heap w)(?qp \<mapsto> O_qp ?q1)" "heap w5 = heap w4"
    using w5 w4 w1 by (simp_all add: same_store_def)
  have run: "rdma_post_send E rdev qpid w = Some (Ret (if is_negative c then - 1 else 0), w5\<lparr>heap := (heap w)(?qp \<mapsto>
      O_qp (q\<lparr>qp_sq_pidb := qp_sq_pidb q + 1, qp_cq_cidb := c, qp_sq_cidb := qp_sq_cidb q + 1\<rparr>))\<rparr>)"
    using assms d1 d2 p(1) w1 live heap4 by (simp add: rdma_post_send_def run_simps Let_def)
  show ?thesis
    using h1 h2 run p heap4 regs
    by (intro exI [where x = h1] exI [where x = h2] exI [where x = w4] exI [where x = c] exI [where x = w5]) simp
qed

text \<open>
  C4: \<open>rdma_post_send\<close> on a live queue pair always returns, with exactly one more element posted.
  First, up to a state \<open>wp\<close>, the producer counter is incremented in the structure and written to the
  doorbell of the queue; the history has grown by exactly this write, or, with the debug flag, by
  further events that write no register. From \<open>wp\<close> on \<open>poll_cq_cidb\<close> runs: its result \<open>c\<close> is the first of up to 1001 reads
  that differs from the consumer counter, or -1 if none does. Then \<open>c\<close> is stored as the completion
  counter, the consumer counter is incremented, and the result is 0 or -1 as \<open>c\<close> is
  non-negative or negative; no other register and nothing else in the store changes.
\<close>

theorem rdma_post_send_effect:
  assumes "rdev \<noteq> NULL" and "heap w rdev = Some (O_rdma_dev rd)"
    and "heap w (rd_qps_ptr rd) = Some (O_qp_table table)" and "unat qpid < List.length table"
    and "heap w (table ! unat qpid) = Some (O_qp q)"
  shows "\<exists>d1 d2 wp c wc. hist wp = d2 @ Mmio_Write (rd_axil_ctl rd + ucast (get_rdma_per_q_config_addr RN_RDMA_QCSR_SQPIi qpid))
      (qp_sq_pidb q + 1) # d1 @ hist w \<and> (\<not> g_debug w \<longrightarrow> d1 = [] \<and> d2 = []) \<and>
    heap wp = (heap w)(table ! unat qpid \<mapsto> O_qp (q\<lparr>qp_sq_pidb := qp_sq_pidb q + 1\<rparr>)) \<and>
    last_write (hist wp) = (\<lambda>a.
      if a = rd_axil_ctl rd + ucast (get_rdma_per_q_config_addr RN_RDMA_QCSR_SQPIi qpid)
      then Some (qp_sq_pidb q + 1) else last_write (hist w) a) \<and>
    poll_cq_cidb E rdev qpid (qp_sq_cidb q) wp = Some (Ret c, wc) \<and> polled E rd qpid (qp_sq_cidb q) wp c \<and>
    last_write (hist wc) = last_write (hist wp) \<and>
    rdma_post_send E rdev qpid w = Some (Ret (if is_negative c then - 1 else 0), wc\<lparr>heap := (heap w)(table ! unat qpid \<mapsto>
      O_qp (q\<lparr>qp_sq_pidb := qp_sq_pidb q + 1, qp_cq_cidb := c, qp_sq_cidb := qp_sq_cidb q + 1\<rparr>))\<rparr>)"
  by (rule rdma_post_send_run [OF assms])

theorem rdma_post_send_effect_witness:
  "\<exists>w' q'. rdma_post_send (idle_env\<lparr>env_mmio_read := \<lambda>_ _. 3\<rparr>) 4 2 demo_qp_world = Some (Ret 0, w') \<and>
     last_write (hist w') (0x10000000 + ucast (get_rdma_per_q_config_addr RN_RDMA_QCSR_SQPIi 2)) = Some 1 \<and>
     heap w' 9 = Some (O_qp q') \<and> qp_cq_cidb q' = 3"
  using rdma_post_send_effect [of 4 demo_qp_world demo_rdma "[NULL, NULL, 9, NULL]" 2 demo_qp
      "idle_env\<lparr>env_mmio_read := \<lambda>_ _. 3\<rparr>"]
  by (auto simp: demo_table_index polled_def sample_value_def mmio_sample_def Let_def is_negative_def)

text \<open>A batched send that returns had room; it moved the doorbell and waited for the last element.\<close>

lemma batch_send_Ret:
  assumes "rdev \<noteq> NULL" and "heap w rdev = Some (O_rdma_dev rd)"
    and "heap w (rd_qps_ptr rd) = Some (O_qp_table table)" and "unat qpid < List.length table"
    and "heap w (table ! unat qpid) = Some (O_qp q)"
    and run: "rdma_post_batch_send E rdev qpid batch w = Some (Ret r, w')"
  shows "batch \<le> qp_qdepth q \<and> qp_sq_pidb q + batch \<le> qp_qdepth q \<and>
    (\<exists>c s. heap w' = (heap w)(table ! unat qpid \<mapsto>
        O_qp (q\<lparr>qp_sq_pidb := qp_sq_pidb q + batch, qp_cq_cidb := c, qp_sq_cidb := s\<rparr>)) \<and>
      sint (qp_sq_pidb q + batch) \<le> sint c \<and> r = (if is_negative c then - 1 else 0)) \<and>
    last_write (hist w') = (last_write (hist w))
      (rd_axil_ctl rd + ucast (get_rdma_per_q_config_addr RN_RDMA_QCSR_SQPIi qpid) \<mapsto> qp_sq_pidb q + batch)"
proof -
  let ?qp = "table ! unat qpid" and ?q = "q\<lparr>qp_sq_pidb := qp_sq_pidb q + batch\<rparr>"
  have room: "batch \<le> qp_qdepth q" "qp_sq_pidb q + batch \<le> qp_qdepth q"
  proof -
    obtain w1 where d1: "debug_read E (rd_axil_ctl rd)
        (get_rdma_per_q_config_addr RN_RDMA_QCSR_SQPIi qpid) w = Some (Ret (), w1)"
      using debug_read_run by blast
    have "heap w1 = heap w" using keepsD [OF keeps_debug_read(2) d1] by (simp add: same_store_def)
    with assms d1 have "\<not> (qp_qdepth q < batch \<or> qp_qdepth q < qp_sq_pidb q + batch)"
      by (auto simp: rdma_post_batch_send_def run_simps Let_def split: if_splits)
    then show "batch \<le> qp_qdepth q" "qp_sq_pidb q + batch \<le> qp_qdepth q" by auto
  qed
  from batch_send_enters_loop [OF assms(1-5) room, of E]
  obtain w1 where enter: "rdma_post_batch_send E rdev qpid batch w =
      thenM (batch_loop E rdev qpid ?qp) (bindM (load as_qp ?qp) (\<lambda>q.
        returnM (if is_negative (qp_cq_cidb q) then - 1 else 0))) w1"
    and w1: "heap w1 = (heap w)(?qp \<mapsto> O_qp ?q)"
    and regs: "last_write (hist w1) = (last_write (hist w))
      (rd_axil_ctl rd + ucast (get_rdma_per_q_config_addr RN_RDMA_QCSR_SQPIi qpid) \<mapsto> qp_sq_pidb q + batch)"
    by blast
  from run [unfolded enter] obtain u q' where loop: "batch_loop E rdev qpid ?qp w1 = Some (Ret u, w')"
    and q': "heap w' ?qp = Some (O_qp q')" and r: "r = (if is_negative (qp_cq_cidb q') then - 1 else 0)"
    by (elim thenM_RetE bindM_RetE load_RetE) (simp add: as_obj_eq returnM_def)
  have "waited ?qp ?q w1 w'" using batch_loop_Ret [OF loop] w1 by simp
  then obtain c s where w': "heap w' = (heap w)(?qp \<mapsto>
        O_qp (q\<lparr>qp_sq_pidb := qp_sq_pidb q + batch, qp_cq_cidb := c, qp_sq_cidb := s\<rparr>))"
      "sint (qp_sq_pidb q + batch) \<le> sint c" by (auto simp: waited_def w1)
  have "keeps same_regs (batch_loop E rdev qpid ?qp)" by (intro keeps_batch_loop keeps_intros)
  from keepsD [OF this loop] have "last_write (hist w') = last_write (hist w1)" by (simp add: same_regs_def)
  with w' room r q' regs show ?thesis by auto
qed

text \<open>
  \<open>rdma_post_batch_send\<close> never reports a failure: whenever it returns, the queue had room for
  the batch and it returns 0, since the loop only ends when the completion counter has reached
  the producer counter, which is not negative for a queue depth below \<open>2 ^ 31\<close>.
\<close>

theorem batch_send_never_fails:
  assumes "rdev \<noteq> NULL" and "heap w rdev = Some (O_rdma_dev rd)"
    and "heap w (rd_qps_ptr rd) = Some (O_qp_table table)" and "unat qpid < List.length table"
    and "heap w (table ! unat qpid) = Some (O_qp q)" and "unat (qp_qdepth q) < 2 ^ 31"
    and "rdma_post_batch_send E rdev qpid batch w = Some (Ret r, w')"
  shows "r = 0 \<and> batch \<le> qp_qdepth q \<and> qp_sq_pidb q + batch \<le> qp_qdepth q"
proof -
  from batch_send_Ret [OF assms(1-5,7)] obtain c :: i32 where
    room: "batch \<le> qp_qdepth q" "qp_sq_pidb q + batch \<le> qp_qdepth q"
    and c: "sint (qp_sq_pidb q + batch) \<le> sint c" and r: "r = (if is_negative c then - 1 else 0)" by blast
  have "0 \<le> sint (qp_sq_pidb q + batch)"
    using room assms(6) by (intro nonneg_i32) (auto simp: word_le_nat_alt)
  with c have "\<not> is_negative c" by (simp add: is_negative_def)
  with r room show ?thesis by simp
qed

text \<open>
  C17: a completion counter stuck below the target makes \<open>rdma_post_batch_send\<close> run for ever, although
  each single poll times out: the timeout value -1 is stored as the new counter and the loop
  condition takes it for incomplete work.
\<close>

theorem batch_send_hangs:
  assumes "rdev \<noteq> NULL" and "heap w rdev = Some (O_rdma_dev rd)"
    and "heap w (rd_qps_ptr rd) = Some (O_qp_table table)" and "unat qpid < List.length table"
    and "heap w (table ! unat qpid) = Some (O_qp q)" and "unat (qp_qdepth q) < 2 ^ 31"
    and "batch \<le> qp_qdepth q" and "qp_sq_pidb q + batch \<le> qp_qdepth q"
    and "\<And>h. env_mmio_read E h (cq_head_addr rd qpid) = v"
    and "sint v < sint (qp_sq_pidb q + batch)" and "sint (qp_cq_cidb q) < sint (qp_sq_pidb q + batch)"
  shows "rdma_post_batch_send E rdev qpid batch w = None"
proof -
  from batch_send_enters_loop [OF assms(1-5,7,8), of E] obtain w1 where
    run: "rdma_post_batch_send E rdev qpid batch w =
      thenM (batch_loop E rdev qpid (table ! unat qpid)) (bindM (load as_qp (table ! unat qpid)) (\<lambda>q.
        returnM (if is_negative (qp_cq_cidb q) then - 1 else 0))) w1"
    and w1: "heap w1 = (heap w)(table ! unat qpid \<mapsto> O_qp (q\<lparr>qp_sq_pidb := qp_sq_pidb q + batch\<rparr>))"
    by blast
  have "rdev \<noteq> table ! unat qpid" using assms(2,5) by auto
  then have "heap w1 rdev = Some (O_rdma_dev rd)" using w1 assms(2) by simp
  moreover have "0 \<le> sint (qp_sq_pidb q + batch)"
    using assms(6,8) by (intro nonneg_i32) (auto simp: word_le_nat_alt)
  ultimately have "batch_loop E rdev qpid (table ! unat qpid) w1 = None"
    using w1 assms(9-11) by (intro batch_loop_stuck) auto
  then show ?thesis using run by (simp add: run_simps)
qed

theorem batch_send_hangs_witness: "rdma_post_batch_send idle_env 4 2 8 demo_qp_world = None"
  using batch_send_hangs [of 4 demo_qp_world demo_rdma "[NULL, NULL, 9, NULL]" 2 demo_qp 8 idle_env 0]
  by (simp add: demo_table_index)

theorem batch_send_never_fails_witness:
  "\<exists>r w'. rdma_post_batch_send (idle_env\<lparr>env_mmio_read := \<lambda>_ _. 8\<rparr>) 4 2 8 demo_qp_world = Some (Ret r, w') \<and> r = 0"
proof -
  let ?E = "idle_env\<lparr>env_mmio_read := \<lambda>_ _. 8\<rparr>"
  obtain w1 where run: "rdma_post_batch_send ?E 4 2 8 demo_qp_world =
      thenM (batch_loop ?E 4 2 9) (bindM (load as_qp 9) (\<lambda>q.
        returnM (if is_negative (qp_cq_cidb q) then - 1 else 0))) w1"
    and w1: "heap w1 = (heap demo_qp_world)(9 \<mapsto> O_qp (demo_qp\<lparr>qp_sq_pidb := 8\<rparr>))"
    using batch_send_enters_loop [of 4 demo_qp_world demo_rdma "[NULL, NULL, 9, NULL]" 2 demo_qp 8 ?E]
    by (auto simp: demo_table_index)
  from batch_loop_completes [of w1 4 demo_rdma 9 "demo_qp\<lparr>qp_sq_pidb := 8\<rparr>" ?E 2 8] w1
  obtain w2 where loop: "batch_loop ?E 4 2 9 w1 = Some (Ret (), w2)"
    and w2: "heap w2 9 = Some (O_qp (demo_qp\<lparr>qp_sq_pidb := 8, qp_cq_cidb := 8, qp_sq_cidb := 8\<rparr>))"
    by auto
  have "\<exists>r. rdma_post_batch_send ?E 4 2 8 demo_qp_world = Some (Ret r, w2)"
    using run loop w2 by (simp add: run_simps)
  then obtain r where ret: "rdma_post_batch_send ?E 4 2 8 demo_qp_world = Some (Ret r, w2)" by blast
  from batch_send_never_fails [OF _ _ _ _ _ _ ret, of demo_rdma "[NULL, NULL, 9, NULL]" demo_qp] ret
  show ?thesis by (auto simp: demo_table_index)
qed

theorem poll_cq_cidb_bounded_witness:
  "\<exists>w'. poll_cq_cidb idle_env 4 2 0 demo_qp_world = Some (Ret (- 1), w')"
  using poll_cq_cidb_bounded [of demo_qp_world 4 demo_rdma idle_env 2 0]
  by (auto simp: sample_value_def mmio_sample_def Let_def)

text \<open>
  C19: on a live queue pair with a receive queue shorter than \<open>2 ^ 31\<close> bytes, and without the register
  dump of a \<open>DEBUG\<close> build, \<open>rdma_post_receive\<close> waits for the first read of the receive counter that
  differs from the counter last seen. If that is the \<open>n\<close>-th read, with the value \<open>v\<close>, the address
  returned is that of slot \<open>v - 1\<close> counted from the start of the receive queue, for 0 (a counter
  that has wrapped) that of the last slot; the counter is remembered in the queue pair and nothing
  else in the store changes. The code does not compare the counter with the depth: the slot lies
  in the queue exactly when the device reports a counter of at most the depth, and behind it for
  any greater one below \<open>2 ^ 22\<close>.
\<close>

theorem rdma_post_receive_slot:
  fixes E :: env and rd :: rdma_dev_t and q :: rdma_qp_t
  assumes "rdev \<noteq> NULL" and "qp \<noteq> NULL" and "\<not> env_DEBUG E"
    and "heap w rdev = Some (O_rdma_dev rd)" and "heap w (rd_qps_ptr rd) = Some (O_qp_table table)"
    and "unat (qp_qpid q) < List.length table" and "table ! unat (qp_qpid q) = qp"
    and "heap w qp = Some (O_qp q)" and "heap w (qp_rq q) = Some (O_rdma_buff rq)"
    and "0 < unat (qp_qdepth q)" and "unat (qp_qdepth q) * 512 < 2 ^ 31"
    and "\<forall>m<n. sample_value (mmio_sample E (rq_status_addr rd (qp_qpid q))) m w = qp_rq_pidb q"
    and "sample_value (mmio_sample E (rq_status_addr rd (qp_qpid q))) n w = v"
    and "v \<noteq> qp_rq_pidb q" and "unat v < 2 ^ 22"
  shows "\<exists>k w'. rdma_post_receive E rdev qp w = Some (Ret (buf_buffer rq + word_of_nat (512 * k)), w') \<and>
    k = (if v = 0 then unat (qp_qdepth q) - 1 else unat v - 1) \<and>
    (k < unat (qp_qdepth q) \<longleftrightarrow> unat v \<le> unat (qp_qdepth q)) \<and>
    heap w' = (heap w)(qp \<mapsto> O_qp (q\<lparr>qp_rq_pidb := v\<rparr>))"
proof -
  let ?k = "if v = 0 then unat (qp_qdepth q) - 1 else unat v - 1"
  from poll_rq_pidb_first [OF assms(4-6) _ assms(3), of q n] assms(7,8,12-14) obtain w' where
    p: "poll_rq_pidb E rdev (qp_qpid q) w = Some (Ret v, w')"
    and w': "heap w' = (heap w)(qp \<mapsto> O_qp (q\<lparr>qp_rq_pidb := v\<rparr>))" by auto
  have "v \<noteq> - 1"
  proof
    assume "v = - 1"
    then have "unat v = 2 ^ 32 - 1" by (simp add: unsigned_minus_1_eq_mask mask_eq_exp_minus_1)
    with assms(15) show False by simp
  qed
  moreover have "qp_rq q \<noteq> qp" using assms(8,9) by auto
  moreover have "unat v * 512 < 2 ^ 31" using assms(15) by simp
  from rq_element_slot [OF assms(10,11) this, of "buf_buffer rq"]
  have k: "?k < unat (qp_qdepth q) \<longleftrightarrow> unat v \<le> unat (qp_qdepth q)"
    and "rq_element (buf_buffer rq) (qp_qdepth q) v = buf_buffer rq + word_of_nat (512 * ?k)" by blast+
  ultimately have "rdma_post_receive E rdev qp w = Some (Ret (buf_buffer rq + word_of_nat (512 * ?k)), w')"
    using assms(1,2,8,9) p w' by (simp add: rdma_post_receive_def run_simps del: of_nat_mult)
  with k w' show ?thesis by blast
qed

theorem rdma_post_receive_slot_witness:
  "\<exists>w'. rdma_post_receive (idle_env\<lparr>env_mmio_read := \<lambda>_ _. 3\<rparr>) 4 9 demo_qp_world =
     Some (Ret (0x7f0000010000 + 1024), w')"
  using rdma_post_receive_slot [of 4 9 "idle_env\<lparr>env_mmio_read := \<lambda>_ _. 3\<rparr>" demo_qp_world demo_rdma
      "[NULL, NULL, 9, NULL]" demo_qp demo_rq 0 3]
  by (auto simp: demo_table_index sample_value_def mmio_sample_def Let_def)

text \<open>
  While the receive counter shows the value last seen, \<open>rdma_post_receive\<close> never returns: its
  wait has no bound.
\<close>

theorem rdma_post_receive_waits:
  assumes "rdev \<noteq> NULL" and "qp \<noteq> NULL" and "\<not> env_DEBUG E"
    and "heap w rdev = Some (O_rdma_dev rd)" and "heap w (rd_qps_ptr rd) = Some (O_qp_table table)"
    and "unat (qp_qpid q) < List.length table" and "table ! unat (qp_qpid q) = qp"
    and "heap w qp = Some (O_qp q)"
    and "\<forall>n. sample_value (mmio_sample E (rq_status_addr rd (qp_qpid q))) n w = qp_rq_pidb q"
  shows "rdma_post_receive E rdev qp w = None"
  using poll_rq_pidb_None [OF assms(4-6) _ assms(3) assms(9)] assms(1,2,7,8)
  by (simp add: rdma_post_receive_def run_simps)

theorem rdma_post_receive_waits_witness: "rdma_post_receive idle_env 4 9 demo_qp_world = None"
  using rdma_post_receive_waits [of 4 9 idle_env demo_qp_world demo_rdma "[NULL, NULL, 9, NULL]" demo_qp]
  by (simp add: demo_table_index sample_value_def mmio_sample_def Let_def)

text \<open>
  \<open>rdma_release_rq_consumed\<close> on a live queue pair returns 1 exactly when the receive counter
  has moved past the last element handed out, and gives the consumed elements back: the last
  counter seen is stored as the consumer counter and written to the queue's doorbell, the only
  register it writes.
\<close>

theorem rdma_release_rq_consumed_effect:
  assumes "heap w rdev = Some (O_rdma_dev rd)" and "heap w qp = Some (O_qp q)"
  shows "\<exists>w'. rdma_release_rq_consumed E rdev qp w =
      Some (Ret (if env_mmio_read E (hist w) (rq_status_addr rd (qp_qpid q)) = qp_rq_pidb q then 0 else 1), w') \<and>
    heap w' = (heap w)(qp \<mapsto> O_qp (q\<lparr>qp_rq_cidb := qp_rq_pidb q\<rparr>)) \<and>
    last_write (hist w') = (last_write (hist w))(rd_axil_ctl rd +
      ucast (get_rdma_per_q_config_addr RN_RDMA_QCSR_RQCIi (qp_qpid q)) \<mapsto> qp_rq_pidb q)"
proof -
  have "rdev \<noteq> qp" using assms by auto
  then show ?thesis
    using assms
    by (simp add: rdma_release_rq_consumed_def write_rq_cidb_def run_simps Let_def rq_status_addr_def
        fun_eq_iff)
qed

theorem rdma_release_rq_consumed_effect_witness:
  "\<exists>w'. rdma_release_rq_consumed (idle_env\<lparr>env_mmio_read := \<lambda>_ _. 3\<rparr>) 4 9 demo_qp_world = Some (Ret 1, w')"
  using rdma_release_rq_consumed_effect [of demo_qp_world 4 demo_rdma 9 demo_qp "idle_env\<lparr>env_mmio_read := \<lambda>_ _. 3\<rparr>"]
  by auto

end
