(* ===== verification/Rdma_Teardown.thy ===== *)
theory Rdma_Teardown
  imports Rdma_Post
begin

text \<open>
  Taking queue pairs and devices down, from \<open>src/lib/rdma_api.c\<close>: the recovery of a queue pair,
  the destruction of queue pairs, protection domains, RDMA devices and RecoNIC devices. The
  lemmas say when the waits of the recovery end, what the registers of a destroyed queue pair
  hold, which objects are released, and that nothing can be destroyed twice.
\<close>

subsection \<open>Recovery\<close>

text \<open>The first wait: \<open>while (1)\<close> until either of the two queue-empty bits is seen.\<close>

definition queues_empty_bits :: "u32 \<Rightarrow> u32" where
  "queues_empty_bits rt_value = drop_bit 9 rt_value AND 0x3"

definition wait_queues_empty :: "env \<Rightarrow> u64 \<Rightarrow> u32 io" where
  "wait_queues_empty E addr =
     (\<lambda>w. let r = mmio_sample E addr w
          in map_option (\<lambda>(v, w'). (Ret v, w'))
               (poll_until (mmio_sample E addr) (\<lambda>rt_value. queues_empty_bits rt_value \<noteq> 0)
                 (fst r) (snd r)))"

text \<open>
  The condition of the second wait reads both doorbells, the completion head first (C leaves the
  order of the two operands open; this is the order in which they are written).
\<close>

definition heads_agree :: "env \<Rightarrow> u64 \<Rightarrow> u64 \<Rightarrow> world \<Rightarrow> bool \<times> world" where
  "heads_agree E cq_head sq_pi w =
     (let r = mmio_sample E cq_head w; s = mmio_sample E sq_pi (snd r) in (fst r = fst s, snd s))"

function wait_heads :: "env \<Rightarrow> u64 \<Rightarrow> u64 \<Rightarrow> nat \<Rightarrow> world \<Rightarrow> bool \<times> world" where
  "wait_heads E cq_head sq_pi timeout_cnt w =
     (let r = heads_agree E cq_head sq_pi w
      in if fst r then (True, snd r)
         else if timeout_cnt + 1 > 100000 then (False, snd r)
         else wait_heads E cq_head sq_pi (timeout_cnt + 1) (snd r))"
  by pat_completeness auto
termination
  by (relation "measure (\<lambda>(E, a, b, t, w). 100000 - t)") auto

declare wait_heads.simps [simp del]

definition rdma_qp_fatal_recovery :: "env \<Rightarrow> ptr \<Rightarrow> u32 \<Rightarrow> unit io" where
  "rdma_qp_fatal_recovery E rdma_dev qpid =
     bindM (load as_rdma_dev rdma_dev) (\<lambda>rd.
     let base = rd_axil_ctl rd; reg = (\<lambda>r. ucast (get_rdma_per_q_config_addr r qpid) :: u64) in
     thenM (wait_queues_empty E (base + reg RN_RDMA_QCSR_STATQPi)) (
     bindM (\<lambda>w. let r = wait_heads E (base + reg RN_RDMA_QCSR_CQHEADi) (base + reg RN_RDMA_QCSR_SQPIi) 0 w
                in Some (Ret (fst r), snd r)) (\<lambda>agreed.
     if \<not> agreed then
       thenM (read32_data E base (reg RN_RDMA_QCSR_CQHEADi)) (
       thenM (read32_data E base (reg RN_RDMA_QCSR_SQPIi)) (
       exitM EXIT_FAILURE))
     else
       bindM (read32_data E base (reg RN_RDMA_QCSR_QPCONFi)) (\<lambda>rt_value.
       thenM (write32_data base (reg RN_RDMA_QCSR_QPCONFi) (rt_value AND NOT 1)) (
       bindM (read32_data E base (reg RN_RDMA_QCSR_QPCONFi)) (\<lambda>rt_value.
       thenM (write32_data base (reg RN_RDMA_QCSR_QPCONFi) (rt_value OR 0x40)) (
       thenM (read32_data E base (reg RN_RDMA_QCSR_QPCONFi)) (
       returnM ()))))))))"

subsection \<open>Destruction\<close>

definition destroy_rdma_pd_entry :: "ptr \<Rightarrow> unit io" where
  "destroy_rdma_pd_entry pd = (if pd \<noteq> NULL then free_obj pd else returnM ())"

text \<open>The nine registers that destruction resets, in program order.\<close>

definition reset_regs :: "u32 list" where
  "reset_regs = [
     RN_RDMA_QCSR_RQWPTRDBADDi, RN_RDMA_QCSR_SQPIi, RN_RDMA_QCSR_CQHEADi, RN_RDMA_QCSR_RQCIi,
     RN_RDMA_QCSR_STATRQPIDBi, RN_RDMA_QCSR_STATCURSQPTRi, RN_RDMA_QCSR_SQPSNi,
     RN_RDMA_QCSR_LSTRQREQi, RN_RDMA_QCSR_STATMSNi]"

text \<open>The register part of \<open>destroy_rdma_qp\<close>: from the override mode on to the override mode off.\<close>

definition reset_qp :: "env \<Rightarrow> u64 \<Rightarrow> u32 \<Rightarrow> unit io" where
  "reset_qp E base qpid =
     (let reg = (\<lambda>r. ucast (get_rdma_per_q_config_addr r qpid) :: u64);
          adconf = ucast RN_RDMA_GCSR_XRNICADCONF in
      bindM (read32_data E base adconf) (\<lambda>rt_value.
      thenM (write32_data base adconf (rt_value OR 0x00000001)) (
      bindM (read32_data E base (reg RN_RDMA_QCSR_QPCONFi)) (\<lambda>rt_value.
      thenM (write32_data base (reg RN_RDMA_QCSR_QPCONFi) (rt_value AND 0xfffffffe)) (
      thenM (write32_block base (map (\<lambda>r. (get_rdma_per_q_config_addr r qpid, 0)) reset_regs)) (
      bindM (read32_data E base (reg RN_RDMA_QCSR_QPCONFi)) (\<lambda>rt_value.
      thenM (read32_data E base (reg RN_RDMA_QCSR_CQHEADi)) (
      thenM (write32_data base (reg RN_RDMA_QCSR_QPCONFi) (rt_value OR 0x00000040)) (
      thenM (read32_data E base (reg RN_RDMA_QCSR_CQHEADi)) (
      bindM (read32_data E base adconf) (\<lambda>rt_value.
      thenM (write32_data base adconf (rt_value AND 0xfffffffe)) (
      thenM (read32_data E base (reg RN_RDMA_QCSR_CQHEADi)) (
      returnM ())))))))))))))"

definition destroy_rdma_qp :: "env \<Rightarrow> ptr \<Rightarrow> i32 io" where
  "destroy_rdma_qp E qp =
     (if qp \<noteq> NULL then
        bindM (load as_qp qp) (\<lambda>q.
        bindM (load as_rdma_dev (qp_rdma_dev q)) (\<lambda>rd.
        let base = rd_axil_ctl rd;
            reg = (\<lambda>r. ucast (get_rdma_per_q_config_addr r (qp_qpid q)) :: u64) in
        bindM (read32_data E base (reg RN_RDMA_QCSR_STATQPi)) (\<lambda>rt_value.
        thenM (if \<not> (rt_value AND 0x000000ff = 0 \<and> drop_bit 9 rt_value AND 0x00000003 = 0x3)
               then rdma_qp_fatal_recovery E (qp_rdma_dev q) (qp_qpid q) else returnM ()) (
        bindM (read32_data E base (reg RN_RDMA_QCSR_CQHEADi)) (\<lambda>rt_value.
        bindM (read32_data E base (reg RN_RDMA_QCSR_SQPIi)) (\<lambda>sq_pi.
        thenM (if rt_value \<noteq> sq_pi
               then rdma_qp_fatal_recovery E (qp_rdma_dev q) (qp_qpid q) else returnM ()) (
        thenM (reset_qp E base (qp_qpid q)) (
        thenM (free_obj (qp_sq q)) (
        thenM (free_obj (qp_rq q)) (
        thenM (free_obj (qp_cq q)) (
        thenM (destroy_rdma_pd_entry (qp_pd_entry q)) (
        returnM 0))))))))))))
      else returnM 0)"

definition destroy_rdma_dev :: "env \<Rightarrow> ptr \<Rightarrow> i32 io" where
  "destroy_rdma_dev E rdma_dev =
     (if rdma_dev \<noteq> NULL then
        bindM (load as_rdma_dev rdma_dev) (\<lambda>rd.
        thenM (free_obj (rd_glb_csr rd)) (
        thenM (forM [0..<unat (rd_num_qp rd)] (\<lambda>i.
                 bindM (qps_index rd (word_of_nat i)) (\<lambda>qp.
                 thenM (destroy_rdma_qp E qp) (returnM ())))) (
        thenM (write32_data (rd_axil_ctl rd) (ucast RN_RDMA_GCSR_XRNICCONF) 0) (
        returnM 0))))
      else returnM 0)"

definition destroy_rn_dev :: "env \<Rightarrow> ptr \<Rightarrow> i32 io" where
  "destroy_rn_dev E rn_dev =
     (if rn_dev \<noteq> NULL then
        bindM (load as_rn_dev rn_dev) (\<lambda>rn.
        thenM (free_obj (rn_base_buf rn)) (
        thenM (destroy_rdma_dev E (rn_rdma_dev rn)) (
        returnM 0)))
      else returnM 0)"

subsection \<open>Frames\<close>

lemma keeps_wait_queues_empty:
  assumes "reflp R" "transp R" "\<And>w. R w (snd (mmio_sample E a w))"
  shows "keeps R (wait_queues_empty E a)"
proof (rule keepsI)
  fix w r w'
  assume "wait_queues_empty E a w = Some (r, w')"
  then have "map_option (\<lambda>(v, w'). (Ret v, w'))
      (poll_until (mmio_sample E a) (\<lambda>rt_value. queues_empty_bits rt_value \<noteq> 0)
        (fst (mmio_sample E a w)) (snd (mmio_sample E a w))) = Some (r, w')"
    by (simp add: wait_queues_empty_def Let_def)
  from keepsD [OF keeps_poll_until [OF assms] this] assms(2) assms(3) [of w] show "R w w'"
    by (auto dest: transpD)
qed

lemma heads_agree_keeps:
  assumes "transp R" "\<And>a w. R w (snd (mmio_sample E a w))"
  shows "R w (snd (heads_agree E a b w))"
  using assms by (auto simp: heads_agree_def Let_def dest: transpD)

lemma wait_heads_keeps:
  assumes R: "reflp R" "transp R" "\<And>a w. R w (snd (mmio_sample E a w))"
  shows "R w (snd (wait_heads E a b t w))"
proof (induction "100000 - t" arbitrary: t w rule: less_induct)
  case less
  let ?w1 = "snd (heads_agree E a b w)"
  have now: "R w ?w1" using heads_agree_keeps [OF R(2,3)] .
  show ?case
  proof (cases "fst (heads_agree E a b w) \<or> 100000 < t + 1")
    case True
    with now show ?thesis by (subst wait_heads.simps) (auto simp: Let_def)
  next
    case False
    then have "100000 - (t + 1) < 100000 - t" by arith
    then have "R ?w1 (snd (wait_heads E a b (t + 1) ?w1))" by (rule less)
    with now R(2) False show ?thesis
      by (subst wait_heads.simps) (auto simp: Let_def dest: transpD)
  qed
qed

lemma keeps_wait_heads:
  assumes "reflp R" "transp R" "\<And>a w. R w (snd (mmio_sample E a w))"
  shows "keeps R (\<lambda>w. Some (Ret (fst (wait_heads E a b t w)), snd (wait_heads E a b t w)))"
  using wait_heads_keeps [OF assms] by (auto intro!: keepsI)

lemma keeps_write32_same_store [keeps_intros]: "keeps same_store (write32_data base off v)"
  by (rule keepsI) (auto simp: write32_run same_store_def)

lemma keeps_write32_block_same_store [keeps_intros]: "keeps same_store (write32_block base ws)"
  unfolding write32_block_def by (intro keeps_intros)

lemma keeps_fatal_recovery [keeps_intros]:
  "keeps steps_ok (rdma_qp_fatal_recovery E rdev qpid)"
  "keeps same_store (rdma_qp_fatal_recovery E rdev qpid)"
  unfolding rdma_qp_fatal_recovery_def Let_def
  by (intro keeps_intros keeps_wait_queues_empty keeps_wait_heads mmio_sample_keeps)+

lemma keeps_reset_qp [keeps_intros]:
  "keeps steps_ok (reset_qp E base qpid)" "keeps same_store (reset_qp E base qpid)"
  unfolding reset_qp_def Let_def by (intro keeps_intros)+

lemma keeps_destroy_rdma_qp [keeps_intros]: "keeps steps_ok (destroy_rdma_qp E qp)"
  unfolding destroy_rdma_qp_def destroy_rdma_pd_entry_def Let_def by (intro keeps_intros)

lemma keeps_destroy_dev [keeps_intros]:
  "keeps steps_ok (destroy_rdma_dev E rdev)" "keeps steps_ok (destroy_rn_dev E rn_dev)"
  unfolding destroy_rdma_dev_def destroy_rn_dev_def by (intro keeps_intros)+

subsection \<open>When the waits end\<close>

definition status_addr :: "rdma_dev_t \<Rightarrow> u32 \<Rightarrow> u64" where
  "status_addr rd qpid = rd_axil_ctl rd + ucast (get_rdma_per_q_config_addr RN_RDMA_QCSR_STATQPi qpid)"

definition heads_sample :: "env \<Rightarrow> rdma_dev_t \<Rightarrow> u32 \<Rightarrow> world \<Rightarrow> bool \<times> world" where
  "heads_sample E rd qpid = heads_agree E
     (rd_axil_ctl rd + ucast (get_rdma_per_q_config_addr RN_RDMA_QCSR_CQHEADi qpid))
     (rd_axil_ctl rd + ucast (get_rdma_per_q_config_addr RN_RDMA_QCSR_SQPIi qpid))"

lemma wait_queues_empty_first:
  assumes "\<forall>m<n. queues_empty_bits (sample_value (mmio_sample E a) m w) = 0"
    and "queues_empty_bits (sample_value (mmio_sample E a) n w) \<noteq> 0"
  shows "wait_queues_empty E a w =
    Some (Ret (sample_value (mmio_sample E a) n w), sampled (mmio_sample E a) (Suc n) w)"
proof (cases n)
  case 0
  with assms(2) show ?thesis by (simp add: wait_queues_empty_def Let_def sample_value_def split_beta)
next
  case (Suc m)
  let ?S = "mmio_sample E a" and ?w1 = "snd (mmio_sample E a w)"
  have "\<not> queues_empty_bits (fst (?S w)) \<noteq> 0"
    using assms(1) Suc by (auto simp: sample_value_def dest: spec [where x = 0])
  moreover have "\<forall>k<m. \<not> queues_empty_bits (sample_value ?S k ?w1) \<noteq> 0"
    using assms(1) Suc by (auto simp flip: sample_value_Suc)
  moreover have "queues_empty_bits (sample_value ?S m ?w1) \<noteq> 0"
    using assms(2) Suc by (simp add: sample_value_Suc)
  ultimately show ?thesis
    using poll_until_first [of "\<lambda>v. queues_empty_bits v \<noteq> 0" "fst (?S w)" m ?S ?w1] Suc
    by (simp add: wait_queues_empty_def Let_def sample_value_Suc)
qed

lemma wait_queues_empty_None:
  assumes "\<forall>n. queues_empty_bits (sample_value (mmio_sample E a) n w) = 0"
  shows "wait_queues_empty E a w = None"
proof -
  let ?S = "mmio_sample E a" and ?w1 = "snd (mmio_sample E a w)"
  have "queues_empty_bits (fst (?S w)) = 0"
    using assms by (auto simp: sample_value_def dest: spec [where x = 0])
  moreover have "\<forall>n. queues_empty_bits (sample_value ?S n ?w1) = 0"
    using assms by (auto simp flip: sample_value_Suc)
  ultimately show ?thesis
    using poll_until_returns_iff [of ?S "\<lambda>v. queues_empty_bits v \<noteq> 0" "fst (?S w)" ?w1]
    by (cases "poll_until ?S (\<lambda>v. queues_empty_bits v \<noteq> 0) (fst (?S w)) ?w1")
      (auto simp: wait_queues_empty_def Let_def)
qed

text \<open>The second wait gives up exactly when 100001 comparisons have all failed.\<close>

lemma wait_heads_result:
  assumes "t \<le> 100000"
  shows "fst (wait_heads E a b t w) \<longleftrightarrow>
    (\<exists>n. n + t \<le> 100000 \<and> sample_value (heads_agree E a b) n w)"
  using assms
proof (induction "100000 - t" arbitrary: t w rule: less_induct)
  case less
  let ?H = "heads_agree E a b"
  have split: "(\<exists>n. n + t \<le> 100000 \<and> sample_value ?H n w) \<longleftrightarrow>
      fst (?H w) \<or> (\<exists>n. n + Suc t \<le> 100000 \<and> sample_value ?H n (snd (?H w)))"
    (is "?L \<longleftrightarrow> ?R")
  proof
    assume ?L
    then obtain n where n: "n + t \<le> 100000" "sample_value ?H n w" by blast
    then show ?R by (cases n) (auto simp: sample_value_def)
  next
    assume ?R
    then show ?L
    proof (elim disjE exE conjE)
      assume "fst (?H w)"
      with less.prems show ?L by (intro exI [where x = 0]) (simp add: sample_value_def)
    next
      fix n assume "n + Suc t \<le> 100000" "sample_value ?H n (snd (?H w))"
      then show ?L by (intro exI [where x = "Suc n"]) (simp add: sample_value_Suc)
    qed
  qed
  show ?case
  proof (cases "fst (?H w) \<or> t = 100000")
    case True
    then show ?thesis unfolding split by (subst wait_heads.simps) (auto simp: Let_def)
  next
    case False
    with less.prems have "100000 - Suc t < 100000 - t" "Suc t \<le> 100000" by arith+
    from less.hyps [OF this] False less.prems show ?thesis
      unfolding split by (subst wait_heads.simps) (simp add: Let_def)
  qed
qed

text \<open>The two ways the recovery ends once a queue has drained.\<close>

lemma fatal_recovery_run:
  fixes E :: env and rd :: rdma_dev_t and qpid :: u32
  defines "S \<equiv> mmio_sample E (status_addr rd qpid)"
    and "H \<equiv> heads_sample E rd qpid"
    and "qpconf \<equiv> rd_axil_ctl rd + ucast (get_rdma_per_q_config_addr RN_RDMA_QCSR_QPCONFi qpid)"
  assumes rd: "heap w rdev = Some (O_rdma_dev rd)"
    and "\<forall>m<n. queues_empty_bits (sample_value S m w) = 0"
    and "queues_empty_bits (sample_value S n w) \<noteq> 0"
  shows "\<exists>w'. if \<exists>m\<le>100000. sample_value H m (sampled S (Suc n) w)
      then rdma_qp_fatal_recovery E rdev qpid w = Some (Ret (), w') \<and>
           (\<exists>v. last_write (hist w') = (last_write (hist w))(qpconf \<mapsto> v OR 0x40))
      else rdma_qp_fatal_recovery E rdev qpid w = Some (Exit EXIT_FAILURE, w') \<and>
           last_write (hist w') = last_write (hist w)"
proof -
  let ?w1 = "sampled S (Suc n) w" and ?c = "rd_axil_ctl rd + ucast (get_rdma_per_q_config_addr RN_RDMA_QCSR_CQHEADi qpid)"
    and ?s = "rd_axil_ctl rd + ucast (get_rdma_per_q_config_addr RN_RDMA_QCSR_SQPIi qpid)"
  let ?r = "wait_heads E ?c ?s 0 ?w1"
  have q: "wait_queues_empty E (status_addr rd qpid) w = Some (Ret (sample_value S n w), ?w1)"
    using assms(5,6) unfolding S_def by (rule wait_queues_empty_first)
  have a: "fst ?r \<longleftrightarrow> (\<exists>m\<le>100000. sample_value H m ?w1)"
    by (simp add: wait_heads_result H_def heads_sample_def)
  have "same_regs w ?w1" unfolding S_def
    by (rule sampled_keeps [OF reflp_same_regs transp_same_regs mmio_sample_keeps(3)])
  moreover have "same_regs ?w1 (snd ?r)"
    by (rule wait_heads_keeps [OF reflp_same_regs transp_same_regs mmio_sample_keeps(3)])
  ultimately have regs: "last_write (hist (snd ?r)) = last_write (hist w)"
    by (simp add: same_regs_def)
  show ?thesis
  proof (cases "fst ?r")
    case True
    with a show ?thesis using rd q regs
      by (auto simp: rdma_qp_fatal_recovery_def run_simps Let_def status_addr_def [symmetric]
          qpconf_def fun_eq_iff)
  next
    case False
    with a show ?thesis using rd q regs
      by (auto simp: rdma_qp_fatal_recovery_def run_simps Let_def status_addr_def [symmetric]
          fun_eq_iff)
  qed
qed

lemma fatal_recovery_None:
  assumes "heap w rdev = Some (O_rdma_dev rd)"
    and "\<forall>n. queues_empty_bits (sample_value (mmio_sample E (status_addr rd qpid)) n w) = 0"
  shows "rdma_qp_fatal_recovery E rdev qpid w = None"
  using wait_queues_empty_None [OF assms(2)] assms(1)
  by (simp add: rdma_qp_fatal_recovery_def run_simps Let_def status_addr_def [symmetric])

subsection \<open>The registers of a destroyed queue pair\<close>

text \<open>Operations that write at most one given register.\<close>

definition only_reg :: "u64 \<Rightarrow> world \<Rightarrow> world \<Rightarrow> bool" where
  "only_reg a w w' \<longleftrightarrow> (\<forall>b. b \<noteq> a \<longrightarrow> last_write (hist w') b = last_write (hist w) b)"

lemma only_reg_order [keeps_intros]: "reflp (only_reg a)" "transp (only_reg a)"
  by (auto simp: only_reg_def intro: reflpI transpI)

lemma same_regs_only: "same_regs w w' \<Longrightarrow> only_reg a w w'"
  by (simp add: same_regs_def only_reg_def)

lemma keeps_only_reg [keeps_intros]:
  "keeps (only_reg a) (load as p)" "keeps (only_reg a) (read32_data E base off)"
  "base + off = a \<Longrightarrow> keeps (only_reg a) (write32_data base off v)"
  by (auto intro!: keepsI simp: only_reg_def load_def read32_run write32_run split: option.splits)

lemma keeps_recovery_only_reg:
  assumes "heap w rdev = Some (O_rdma_dev rd)"
    and "a = rd_axil_ctl rd + ucast (get_rdma_per_q_config_addr RN_RDMA_QCSR_QPCONFi qpid)"
    and "rdma_qp_fatal_recovery E rdev qpid w = Some (r, w')"
  shows "only_reg a w w'"
proof -
  let ?rest = "\<lambda>rd. let base = rd_axil_ctl rd; reg = (\<lambda>r. ucast (get_rdma_per_q_config_addr r qpid) :: u64) in
     thenM (wait_queues_empty E (base + reg RN_RDMA_QCSR_STATQPi)) (
     bindM (\<lambda>w. let r = wait_heads E (base + reg RN_RDMA_QCSR_CQHEADi) (base + reg RN_RDMA_QCSR_SQPIi) 0 w
                in Some (Ret (fst r), snd r)) (\<lambda>agreed.
     if \<not> agreed then
       thenM (read32_data E base (reg RN_RDMA_QCSR_CQHEADi)) (
       thenM (read32_data E base (reg RN_RDMA_QCSR_SQPIi)) (
       exitM EXIT_FAILURE))
     else
       bindM (read32_data E base (reg RN_RDMA_QCSR_QPCONFi)) (\<lambda>rt_value.
       thenM (write32_data base (reg RN_RDMA_QCSR_QPCONFi) (rt_value AND NOT 1)) (
       bindM (read32_data E base (reg RN_RDMA_QCSR_QPCONFi)) (\<lambda>rt_value.
       thenM (write32_data base (reg RN_RDMA_QCSR_QPCONFi) (rt_value OR 0x40)) (
       thenM (read32_data E base (reg RN_RDMA_QCSR_QPCONFi)) (
       returnM ()))))))) :: unit io"
  have "keeps (only_reg a) (?rest rd)"
    unfolding Let_def
    by (intro keeps_intros keeps_wait_queues_empty keeps_wait_heads same_regs_only mmio_sample_keeps)
      (simp_all add: assms(2))
  moreover have "?rest rd w = Some (r, w')"
    using assms(1,3) by (simp add: rdma_qp_fatal_recovery_def run_simps)
  ultimately show ?thesis by (rule keepsD)
qed

lemma last_write_zero_block:
  "last_write (block_events base (map (\<lambda>r. (f r, 0)) rs)) a =
     (if \<exists>r \<in> set rs. a = base + ucast (f r) then Some 0 else None)"
  by (induction rs) (auto simp: last_write_append)

text \<open>The history of the reset, over the values that its reads returned.\<close>

lemma reset_qp_hist:
  fixes qpid :: u32
  defines "A \<equiv> (\<lambda>r. get_rdma_per_q_config_addr r qpid)"
  assumes run: "reset_qp E base qpid w = Some (Ret u, w')"
  shows "\<exists>a b c d e f g. hist w' =
    Mmio_Read (base + ucast (A RN_RDMA_QCSR_CQHEADi)) g #
    Mmio_Write (base + ucast RN_RDMA_GCSR_XRNICADCONF) (f AND 0xfffffffe) #
    Mmio_Read (base + ucast RN_RDMA_GCSR_XRNICADCONF) f #
    Mmio_Read (base + ucast (A RN_RDMA_QCSR_CQHEADi)) e #
    Mmio_Write (base + ucast (A RN_RDMA_QCSR_QPCONFi)) (c OR 0x40) #
    Mmio_Read (base + ucast (A RN_RDMA_QCSR_CQHEADi)) d #
    Mmio_Read (base + ucast (A RN_RDMA_QCSR_QPCONFi)) c #
    block_events base (map (\<lambda>r. (A r, 0)) reset_regs) @
    Mmio_Write (base + ucast (A RN_RDMA_QCSR_QPCONFi)) (b AND 0xfffffffe) #
    Mmio_Read (base + ucast (A RN_RDMA_QCSR_QPCONFi)) b #
    Mmio_Write (base + ucast RN_RDMA_GCSR_XRNICADCONF) (a OR 1) #
    Mmio_Read (base + ucast RN_RDMA_GCSR_XRNICADCONF) a # hist w"
  using run by (auto simp: reset_qp_def A_def run_simps Let_def simp del: block_events_Cons)

lemma reset_qp_registers:
  fixes qpid :: u32
  defines "A \<equiv> (\<lambda>r. get_rdma_per_q_config_addr r qpid)"
  assumes run: "reset_qp E base qpid w = Some (Ret u, w')"
  shows "(\<exists>v. reg32 (hist w') base RN_RDMA_GCSR_XRNICADCONF = Some (v AND 0xfffffffe)) \<and>
    (A RN_RDMA_QCSR_QPCONFi \<noteq> RN_RDMA_GCSR_XRNICADCONF \<longrightarrow>
       (\<exists>v. reg32 (hist w') base (A RN_RDMA_QCSR_QPCONFi) = Some (v OR 0x40))) \<and>
    (\<forall>x. x \<noteq> RN_RDMA_GCSR_XRNICADCONF \<and> x \<noteq> A RN_RDMA_QCSR_QPCONFi \<longrightarrow>
       reg32 (hist w') base x = (if x \<in> A ` set reset_regs then Some 0 else reg32 (hist w) base x))"
  using reset_qp_hist [OF run]
  by (auto simp: A_def reg32_def last_write_append last_write_zero_block)

subsection \<open>Released objects\<close>

definition release :: "ptr list \<Rightarrow> (ptr \<Rightarrow> obj option) \<Rightarrow> ptr \<Rightarrow> obj option" where
  "release ps h = (\<lambda>p. if p \<in> set ps \<and> p \<noteq> NULL then None else h p)"

lemma release_release [simp]: "release ps (release qs h) = release (ps @ qs) h"
  by (auto simp: release_def)

lemma release_Nil [simp]: "release [] h = h"
  by (simp add: release_def)

lemma destroy_pd_free: "destroy_rdma_pd_entry pd = free_obj pd"
  by (auto simp: destroy_rdma_pd_entry_def free_obj_def returnM_def)

lemma free_RetE:
  assumes "free_obj p w = Some (Ret u, w')"
  obtains "hist w' = hist w" "heap w' = release [p] (heap w)" "p = NULL \<or> heap w p \<noteq> None"
  using assms that by (auto simp: free_obj_def release_def fun_eq_iff split: if_splits)

lemma free_all_Ret:
  assumes "forM ps free_obj w = Some (Ret u, w')"
  shows "hist w' = hist w \<and> heap w' = release ps (heap w) \<and>
    (\<forall>p \<in> set ps. p \<noteq> NULL \<longrightarrow> heap w p \<noteq> None) \<and> distinct (filter (\<lambda>p. p \<noteq> NULL) ps)"
  using assms
proof (induction ps arbitrary: w)
  case Nil
  then show ?case by (simp add: returnM_def)
next
  case (Cons p ps)
  from Cons.prems obtain v w1 where
    f: "free_obj p w = Some (Ret v, w1)" and rest: "forM ps free_obj w1 = Some (Ret u, w')"
    by (auto elim: thenM_RetE)
  from f have "hist w1 = hist w" "heap w1 = release [p] (heap w)" "p = NULL \<or> heap w p \<noteq> None"
    by (auto elim: free_RetE)
  with Cons.IH [OF rest] show ?case by (auto simp: release_def fun_eq_iff split: if_splits)
qed

lemma free_all_run:
  assumes "\<forall>p \<in> set ps. p \<noteq> NULL \<longrightarrow> heap w p \<noteq> None" and "distinct (filter (\<lambda>p. p \<noteq> NULL) ps)"
  shows "\<exists>w'. forM ps free_obj w = Some (Ret (), w')"
  using assms
proof (induction ps arbitrary: w)
  case Nil
  then show ?case by (simp add: returnM_def)
next
  case (Cons p ps)
  show ?case
  proof (cases "p = NULL")
    case True
    with Cons show ?thesis by (simp add: run_simps)
  next
    case False
    with Cons.prems have "\<exists>w'. forM ps free_obj (w\<lparr>heap := (heap w)(p := None)\<rparr>) = Some (Ret (), w')"
      by (intro Cons.IH) auto
    with False Cons.prems show ?thesis by (simp add: thenM_Ret [OF free_run])
  qed
qed

text \<open>The objects that a queue pair owns, in the order in which they are freed.\<close>

definition owned :: "rdma_qp_t \<Rightarrow> ptr list" where
  "owned q = [qp_sq q, qp_rq q, qp_cq q, qp_pd_entry q]"

definition free_owned :: "rdma_qp_t \<Rightarrow> i32 io" where
  "free_owned q = thenM (forM (owned q) free_obj) (returnM 0)"

lemma thenM_assoc: "thenM (thenM a b) c = thenM a (thenM b c)"
  by (simp add: thenM_def bindM_assoc)

lemma thenM_bindM: "thenM (bindM a f) c = bindM a (\<lambda>x. thenM (f x) c)"
  by (simp add: thenM_def bindM_assoc)

lemma thenM_returnM [simp]: "thenM (returnM u) c = c"
  by (rule ext) (simp add: run_simps)

text \<open>The first half of the destruction: everything up to the register reset.\<close>

definition settle_qp :: "env \<Rightarrow> rdma_dev_t \<Rightarrow> rdma_qp_t \<Rightarrow> unit io" where
  "settle_qp E rd q =
     (let base = rd_axil_ctl rd;
          reg = (\<lambda>r. ucast (get_rdma_per_q_config_addr r (qp_qpid q)) :: u64) in
      bindM (read32_data E base (reg RN_RDMA_QCSR_STATQPi)) (\<lambda>rt_value.
      thenM (if \<not> (rt_value AND 0x000000ff = 0 \<and> drop_bit 9 rt_value AND 0x00000003 = 0x3)
             then rdma_qp_fatal_recovery E (qp_rdma_dev q) (qp_qpid q) else returnM ()) (
      bindM (read32_data E base (reg RN_RDMA_QCSR_CQHEADi)) (\<lambda>rt_value.
      bindM (read32_data E base (reg RN_RDMA_QCSR_SQPIi)) (\<lambda>sq_pi.
      if rt_value \<noteq> sq_pi
      then rdma_qp_fatal_recovery E (qp_rdma_dev q) (qp_qpid q) else returnM ())))))"

lemma destroy_rdma_qp_stages:
  assumes "qp \<noteq> NULL" and "heap w qp = Some (O_qp q)" and "heap w (qp_rdma_dev q) = Some (O_rdma_dev rd)"
  shows "destroy_rdma_qp E qp w =
    thenM (settle_qp E rd q) (thenM (reset_qp E (rd_axil_ctl rd) (qp_qpid q)) (free_owned q)) w"
  using assms
  by (simp add: destroy_rdma_qp_def run_simps settle_qp_def free_owned_def owned_def destroy_pd_free
      thenM_assoc thenM_bindM Let_def)

lemma keeps_settle_qp: "keeps same_store (settle_qp E rd q)"
  unfolding settle_qp_def Let_def by (intro keeps_intros)

lemma settle_qp_only_reg:
  assumes "heap w (qp_rdma_dev q) = Some (O_rdma_dev rd)"
    and "a = rd_axil_ctl rd + ucast (get_rdma_per_q_config_addr RN_RDMA_QCSR_QPCONFi (qp_qpid q))"
    and "settle_qp E rd q w = Some (r, w')"
  shows "only_reg a w w'"
proof -
  define R where "R w w' \<longleftrightarrow> heap w' = heap w \<and> (heap w (qp_rdma_dev q) = Some (O_rdma_dev rd) \<longrightarrow> only_reg a w w')"
    for w w'
  have R: "reflp R" "transp R"
    unfolding R_def using reflpD [OF only_reg_order(1)] transpD [OF only_reg_order(2)]
    by (auto intro!: reflpI transpI)
  have "keeps R (rdma_qp_fatal_recovery E (qp_rdma_dev q) (qp_qpid q))"
    using keepsD [OF keeps_fatal_recovery(2)] keeps_recovery_only_reg [OF _ assms(2)]
    by (auto intro!: keepsI simp: R_def same_store_def)
  moreover have "keeps R (read32_data E base off)" for base off
    by (auto intro!: keepsI simp: R_def read32_run only_reg_def)
  ultimately have "keeps R (settle_qp E rd q)"
    unfolding settle_qp_def Let_def using R by (intro keeps_intros)
  from keepsD [OF this assms(3)] assms(1) show ?thesis by (simp add: R_def)
qed

lemma destroy_rdma_qp_Ret:
  assumes "qp \<noteq> NULL" and "heap w qp = Some (O_qp q)" and "heap w (qp_rdma_dev q) = Some (O_rdma_dev rd)"
    and run: "destroy_rdma_qp E qp w = Some (Ret r, w')"
  shows "r = 0 \<and> heap w' = release (owned q) (heap w) \<and>
    (\<forall>p \<in> set (owned q). p \<noteq> NULL \<longrightarrow> heap w p \<noteq> None) \<and> distinct (filter (\<lambda>p. p \<noteq> NULL) (owned q)) \<and>
    (\<exists>w1 w2 u. only_reg (rd_axil_ctl rd + ucast (get_rdma_per_q_config_addr RN_RDMA_QCSR_QPCONFi (qp_qpid q))) w w1 \<and>
       reset_qp E (rd_axil_ctl rd) (qp_qpid q) w1 = Some (Ret u, w2) \<and> hist w' = hist w2)"
proof -
  from run obtain w1 w2 u v where s: "settle_qp E rd q w = Some (Ret v, w1)"
    and t: "reset_qp E (rd_axil_ctl rd) (qp_qpid q) w1 = Some (Ret u, w2)"
    and f: "free_owned q w2 = Some (Ret r, w')"
    unfolding destroy_rdma_qp_stages [of qp w q rd, OF assms(1-3)] by (elim thenM_RetE)
  have "heap w2 = heap w"
    using keepsD [OF keeps_settle_qp s] keepsD [OF keeps_reset_qp(2) t] by (simp add: same_store_def)
  moreover from f obtain u' where "forM (owned q) free_obj w2 = Some (Ret u', w')" "r = 0"
    by (auto simp: free_owned_def returnM_def elim!: thenM_RetE)
  ultimately show ?thesis
    using free_all_Ret [of "owned q" w2 u' w'] settle_qp_only_reg [OF assms(3) refl s] t by auto
qed

text \<open>A queue pair with nothing in flight, as its registers show it at every read.\<close>

definition qp_idle :: "env \<Rightarrow> rdma_dev_t \<Rightarrow> u32 \<Rightarrow> bool" where
  "qp_idle E rd qpid \<longleftrightarrow>
     (\<forall>h. env_mmio_read E h (status_addr rd qpid) AND 0x000000ff = 0 \<and>
          drop_bit 9 (env_mmio_read E h (status_addr rd qpid)) AND 0x00000003 = 0x3) \<and>
     (\<forall>h h'. env_mmio_read E h (cq_head_addr rd qpid) =
          env_mmio_read E h' (rd_axil_ctl rd + ucast (get_rdma_per_q_config_addr RN_RDMA_QCSR_SQPIi qpid)))"

lemma destroy_rdma_qp_idle:
  assumes "qp \<noteq> NULL" and "heap w qp = Some (O_qp q)" and "heap w (qp_rdma_dev q) = Some (O_rdma_dev rd)"
    and "qp_idle E rd (qp_qpid q)" and "\<forall>p \<in> set (owned q). p \<noteq> NULL \<longrightarrow> heap w p \<noteq> None"
    and "distinct (filter (\<lambda>p. p \<noteq> NULL) (owned q))"
  shows "\<exists>w'. destroy_rdma_qp E qp w = Some (Ret 0, w')"
proof -
  have "\<exists>w1. settle_qp E rd q w = Some (Ret (), w1)"
    using assms(4)
    by (simp add: settle_qp_def run_simps Let_def qp_idle_def status_addr_def cq_head_addr_def)
  then obtain w1 where s: "settle_qp E rd q w = Some (Ret (), w1)" ..
  obtain w2 where t: "reset_qp E (rd_axil_ctl rd) (qp_qpid q) w1 = Some (Ret (), w2)"
    by (simp add: reset_qp_def run_simps Let_def)
  have "heap w2 = heap w"
    using keepsD [OF keeps_settle_qp s] keepsD [OF keeps_reset_qp(2) t] by (simp add: same_store_def)
  then obtain w' where "forM (owned q) free_obj w2 = Some (Ret (), w')"
    using free_all_run [of "owned q" w2] assms(5,6) by auto
  with s t show ?thesis
    unfolding destroy_rdma_qp_stages [of qp w q rd, OF assms(1-3)] by (simp add: run_simps free_owned_def)
qed

subsection \<open>Whole devices\<close>

text \<open>The queue pairs that a device's table names, with all they own, as objects of the right kind.\<close>

definition plain :: "(ptr \<Rightarrow> obj option) \<Rightarrow> ptr list \<Rightarrow> bool" where
  "plain h ps \<longleftrightarrow> (\<forall>p \<in> set ps. p \<noteq> NULL \<longrightarrow> (\<exists>b. h p = Some (O_rdma_buff b)) \<or> (\<exists>d. h p = Some (O_pd d)))"

definition typed_table :: "(ptr \<Rightarrow> obj option) \<Rightarrow> ptr list \<Rightarrow> bool" where
  "typed_table h table \<longleftrightarrow> (\<forall>qp \<in> set table. qp = NULL \<or> (\<exists>q rd. h qp = Some (O_qp q) \<and>
     h (qp_rdma_dev q) = Some (O_rdma_dev rd) \<and> plain h (owned q)))"

definition owned_at :: "(ptr \<Rightarrow> obj option) \<Rightarrow> ptr \<Rightarrow> ptr list" where
  "owned_at h qp = (if qp = NULL then [] else case h qp of Some (O_qp q) \<Rightarrow> owned q | _ \<Rightarrow> [])"

definition idle_table :: "env \<Rightarrow> (ptr \<Rightarrow> obj option) \<Rightarrow> ptr list \<Rightarrow> bool" where
  "idle_table E h table \<longleftrightarrow> (\<forall>qp \<in> set table. \<forall>q rd. qp \<noteq> NULL \<longrightarrow> h qp = Some (O_qp q) \<longrightarrow>
     h (qp_rdma_dev q) = Some (O_rdma_dev rd) \<longrightarrow> qp_idle E rd (qp_qpid q))"

text \<open>Releasing buffers and domains leaves all other kinds of objects alone.\<close>

lemma plain_append [simp]: "plain h (ps @ qs) \<longleftrightarrow> plain h ps \<and> plain h qs"
  by (auto simp: plain_def)

lemma release_plain:
  assumes "plain h ps"
  shows "h p = Some (O_qp q) \<Longrightarrow> release ps h p = Some (O_qp q)"
    "h p = Some (O_rdma_dev rd) \<Longrightarrow> release ps h p = Some (O_rdma_dev rd)"
    "h p = Some (O_qp_table table) \<Longrightarrow> release ps h p = Some (O_qp_table table)"
  using assms by (auto simp: release_def plain_def)

lemma typed_at:
  assumes "typed_table h table" and "qp \<in> set table" and "qp \<noteq> NULL"
  obtains q rd where "h qp = Some (O_qp q)" "h (qp_rdma_dev q) = Some (O_rdma_dev rd)"
    "owned_at h qp = owned q" "plain h (owned q)"
  using assms by (fastforce simp: typed_table_def owned_at_def)

lemma release_cong: "set ps = set qs \<Longrightarrow> release ps h = release qs h"
  by (simp add: release_def)

definition destroy_slot :: "env \<Rightarrow> rdma_dev_t \<Rightarrow> nat \<Rightarrow> unit io" where
  "destroy_slot E rd i = bindM (qps_index rd (word_of_nat i)) (\<lambda>qp. thenM (destroy_rdma_qp E qp) (returnM ()))"

lemma destroy_slot_unfold:
  assumes "h (rd_qps_ptr rd) = Some (O_qp_table table)" and "i < List.length table" and "i < 2 ^ 32"
    and "heap w = release ps h" and "plain h ps"
  shows "destroy_slot E rd i w = thenM (destroy_rdma_qp E (table ! i)) (returnM ()) w"
proof -
  have "heap w (rd_qps_ptr rd) = Some (O_qp_table table)"
    using assms(1,4,5) by (simp add: release_plain)
  moreover have "unat (word_of_nat i :: u32) = i" using assms(3) by (simp add: unat_of_nat)
  ultimately show ?thesis using assms(2) by (simp add: destroy_slot_def run_simps)
qed

lemma destroy_slot_Ret:
  assumes "h (rd_qps_ptr rd) = Some (O_qp_table table)" and "i < List.length table" and "i < 2 ^ 32"
    and "heap w = release ps h" and "plain h ps" and "typed_table h table"
    and run: "destroy_slot E rd i w = Some (Ret u, w')"
  shows "heap w' = release (owned_at h (table ! i) @ ps) h \<and> plain h (owned_at h (table ! i)) \<and>
    distinct (filter (\<lambda>p. p \<noteq> NULL) (owned_at h (table ! i))) \<and>
    set (owned_at h (table ! i)) \<inter> set ps \<subseteq> {NULL}"
proof (cases "table ! i = NULL")
  case True
  with run assms(4) show ?thesis
    by (simp add: destroy_slot_unfold [OF assms(1-5)] destroy_rdma_qp_def owned_at_def returnM_run plain_def)
next
  case False
  then obtain q rd' where q: "h (table ! i) = Some (O_qp q)" "h (qp_rdma_dev q) = Some (O_rdma_dev rd')"
    "owned_at h (table ! i) = owned q" "plain h (owned q)"
    using typed_at [OF assms(6) nth_mem [OF assms(2)]] by blast
  from run obtain r where run': "destroy_rdma_qp E (table ! i) w = Some (Ret r, w')"
    by (auto simp: destroy_slot_unfold [OF assms(1-5)] returnM_def elim!: thenM_RetE)
  have "heap w (table ! i) = Some (O_qp q)" "heap w (qp_rdma_dev q) = Some (O_rdma_dev rd')"
    using q(1,2) assms(4,5) by (simp_all add: release_plain)
  from destroy_rdma_qp_Ret [OF False this run']
  have d: "heap w' = release (owned q) (heap w)" "\<forall>p \<in> set (owned q). p \<noteq> NULL \<longrightarrow> heap w p \<noteq> None"
    "distinct (filter (\<lambda>p. p \<noteq> NULL) (owned q))" by blast+
  then show ?thesis using q(3,4) assms(4) by (auto simp: release_def split: if_splits)
qed

definition owned_by :: "(ptr \<Rightarrow> obj option) \<Rightarrow> ptr list \<Rightarrow> ptr list" where
  "owned_by h qps = concat (map (owned_at h) qps)"

lemma teardown_loop_Ret:
  assumes "h (rd_qps_ptr rd) = Some (O_qp_table table)" and "typed_table h table"
    and "\<forall>i \<in> set is. i < List.length table \<and> i < 2 ^ 32"
    and "heap w = release ps h" and "plain h ps"
    and "forM is (destroy_slot E rd) w = Some (Ret u, w')"
  defines "os \<equiv> owned_by h (map ((!) table) is)"
  shows "heap w' = release (os @ ps) h \<and> plain h os \<and> distinct (filter (\<lambda>p. p \<noteq> NULL) os) \<and>
    set os \<inter> set ps \<subseteq> {NULL}"
  using assms(3-6) unfolding os_def
proof (induction "is" arbitrary: w ps)
  case Nil
  then show ?case by (simp add: owned_by_def returnM_def plain_def)
next
  case (Cons i js)
  from Cons.prems(4) obtain v w1 where one: "destroy_slot E rd i w = Some (Ret v, w1)"
    and rest: "forM js (destroy_slot E rd) w1 = Some (Ret u, w')"
    by (auto elim: thenM_RetE)
  let ?o = "owned_at h (table ! i)"
  from Cons.prems(1) have i: "i < List.length table" "i < 2 ^ 32" by simp_all
  from destroy_slot_Ret [OF assms(1) i Cons.prems(2,3) assms(2) one]
  have o: "heap w1 = release (?o @ ps) h" "plain h ?o" "distinct (filter (\<lambda>p. p \<noteq> NULL) ?o)"
    "set ?o \<inter> set ps \<subseteq> {NULL}" by blast+
  from Cons.IH [OF _ o(1) _ rest] Cons.prems(1,3) o(2)
  have r: "heap w' = release (owned_by h (map ((!) table) js) @ ?o @ ps) h"
    "plain h (owned_by h (map ((!) table) js))"
    "distinct (filter (\<lambda>p. p \<noteq> NULL) (owned_by h (map ((!) table) js)))"
    "set (owned_by h (map ((!) table) js)) \<inter> set (?o @ ps) \<subseteq> {NULL}" by auto
  have "release (owned_by h (map ((!) table) js) @ ?o @ ps) h = release (owned_by h (map ((!) table) (i # js)) @ ps) h"
    by (rule release_cong) (auto simp: owned_by_def)
  with o r show ?case by (auto simp: owned_by_def)
qed

lemma teardown_loop_idle:
  assumes "h (rd_qps_ptr rd) = Some (O_qp_table table)" and "typed_table h table" and "idle_table E h table"
    and "\<forall>i \<in> set is. i < List.length table \<and> i < 2 ^ 32"
    and "heap w = release ps h" and "plain h ps"
    and "distinct (filter (\<lambda>p. p \<noteq> NULL) (owned_by h (map ((!) table) is)))"
    and "set (owned_by h (map ((!) table) is)) \<inter> set ps \<subseteq> {NULL}"
  shows "\<exists>w'. forM is (destroy_slot E rd) w = Some (Ret (), w')"
  using assms(4-8)
proof (induction "is" arbitrary: w ps)
  case Nil
  then show ?case by (simp add: returnM_run)
next
  case (Cons i js)
  let ?qp = "table ! i" and ?o = "owned_at h (table ! i)"
  from Cons.prems(1) have i: "i < List.length table" "i < 2 ^ 32" by simp_all
  note unfold = destroy_slot_unfold [OF assms(1) i Cons.prems(2,3), of E]
  have "\<exists>w1. destroy_slot E rd i w = Some (Ret (), w1)"
  proof (cases "?qp = NULL")
    case True
    then show ?thesis by (simp add: unfold destroy_rdma_qp_def returnM_run)
  next
    case False
    then obtain q rd' where q: "h ?qp = Some (O_qp q)" "h (qp_rdma_dev q) = Some (O_rdma_dev rd')"
      "?o = owned q" "plain h (owned q)"
      using typed_at [OF assms(2) nth_mem [OF i(1)]] by blast
    have h: "heap w ?qp = Some (O_qp q)" "heap w (qp_rdma_dev q) = Some (O_rdma_dev rd')"
      using q(1,2) Cons.prems(2,3) by (simp_all add: release_plain)
    have idle: "qp_idle E rd' (qp_qpid q)"
      using assms(3) nth_mem [OF i(1)] False q(1,2) by (auto simp: idle_table_def)
    have live: "\<forall>p \<in> set (owned q). p \<noteq> NULL \<longrightarrow> heap w p \<noteq> None"
      using q(3,4) Cons.prems(2,5) by (force simp: release_def plain_def owned_by_def)
    have "distinct (filter (\<lambda>p. p \<noteq> NULL) (owned q))"
      using Cons.prems(4) q(3) by (simp add: owned_by_def)
    from destroy_rdma_qp_idle [OF False h idle live this] show ?thesis
      by (auto simp: unfold run_simps)
  qed
  then obtain w1 where one: "destroy_slot E rd i w = Some (Ret (), w1)" ..
  from destroy_slot_Ret [OF assms(1) i Cons.prems(2,3) assms(2) one]
  have o: "heap w1 = release (?o @ ps) h" "plain h (?o @ ps)" using Cons.prems(3) by simp_all
  have "distinct (filter (\<lambda>p. p \<noteq> NULL) (owned_by h (map ((!) table) js)))"
    "set (owned_by h (map ((!) table) js)) \<inter> set (?o @ ps) \<subseteq> {NULL}"
    using Cons.prems(4,5) by (auto simp: owned_by_def)
  with Cons.IH [OF _ o] Cons.prems(1) one show ?case by (auto simp: thenM_Ret)
qed

subsection \<open>Properties\<close>

text \<open>
  C33: once the status register shows a drained queue, the recovery of a queue pair ends. It
  returns when one of 100001 comparisons finds the two doorbells equal, having written only the
  queue's configuration register, with the recovery bit set; otherwise it exits the process
  without having written anything.
\<close>

theorem fatal_recovery_outcome:
  fixes E :: env and rd :: rdma_dev_t and qpid :: u32
  assumes "heap w rdev = Some (O_rdma_dev rd)"
    and "\<forall>m<n. queues_empty_bits (sample_value (mmio_sample E (status_addr rd qpid)) m w) = 0"
    and "queues_empty_bits (sample_value (mmio_sample E (status_addr rd qpid)) n w) \<noteq> 0"
  shows "\<exists>w'. if \<exists>m\<le>100000. sample_value (heads_sample E rd qpid) m (sampled (mmio_sample E (status_addr rd qpid)) (Suc n) w)
      then rdma_qp_fatal_recovery E rdev qpid w = Some (Ret (), w') \<and>
           (\<exists>v. last_write (hist w') = (last_write (hist w))
              (rd_axil_ctl rd + ucast (get_rdma_per_q_config_addr RN_RDMA_QCSR_QPCONFi qpid) \<mapsto> v OR 0x40))
      else rdma_qp_fatal_recovery E rdev qpid w = Some (Exit EXIT_FAILURE, w') \<and>
           last_write (hist w') = last_write (hist w)"
  by (rule fatal_recovery_run [OF assms])

theorem fatal_recovery_outcome_witness:
  "\<exists>w'. rdma_qp_fatal_recovery (idle_env\<lparr>env_mmio_read := \<lambda>_ _. 0x200\<rparr>) 4 2 demo_qp_world = Some (Ret (), w')"
proof -
  have "\<exists>m\<le>100000. sample_value (heads_sample (idle_env\<lparr>env_mmio_read := \<lambda>_ _. 0x200\<rparr>) demo_rdma 2) m w" for w
    by (auto simp: sample_value_def heads_sample_def heads_agree_def mmio_sample_def Let_def)
  then show ?thesis
    using fatal_recovery_outcome [of demo_qp_world 4 demo_rdma 0 "idle_env\<lparr>env_mmio_read := \<lambda>_ _. 0x200\<rparr>" 2]
    by (auto simp: sample_value_def mmio_sample_def Let_def queues_empty_bits_def)
qed

text \<open>
  Destroying a queue pair whose status register never shows an empty queue does not return: the
  first wait of the recovery has no bound.
\<close>

theorem destroy_rdma_qp_hangs:
  assumes "qp \<noteq> NULL" and "heap w qp = Some (O_qp q)" and "heap w (qp_rdma_dev q) = Some (O_rdma_dev rd)"
    and "\<forall>n. queues_empty_bits (sample_value (mmio_sample E (status_addr rd (qp_qpid q))) n w) = 0"
  shows "destroy_rdma_qp E qp w = None"
proof -
  let ?S = "mmio_sample E (status_addr rd (qp_qpid q))"
  have "queues_empty_bits (sample_value ?S 0 w) = 0" using assms(4) by blast
  then have "drop_bit 9 (env_mmio_read E (hist w) (status_addr rd (qp_qpid q))) AND 0x00000003 \<noteq> 0x3"
    by (simp add: sample_value_def mmio_sample_def Let_def queues_empty_bits_def)
  moreover have "\<forall>n. queues_empty_bits (sample_value ?S n (sampled ?S 1 w)) = 0"
    using assms(4) by (simp flip: sample_value_Suc)
  then have "rdma_qp_fatal_recovery E (qp_rdma_dev q) (qp_qpid q) (sampled ?S 1 w) = None"
    using assms(3) by (intro fatal_recovery_None [of _ _ rd]) (simp_all add: mmio_sample_def Let_def)
  ultimately show ?thesis
    using assms(1-3)
    by (simp add: destroy_rdma_qp_def run_simps Let_def status_addr_def mmio_sample_def)
qed

theorem destroy_rdma_qp_hangs_witness: "destroy_rdma_qp idle_env 9 demo_qp_world = None"
  using destroy_rdma_qp_hangs [of 9 demo_qp_world demo_qp demo_rdma idle_env]
  by (simp add: sample_value_def mmio_sample_def Let_def queues_empty_bits_def)

text \<open>
  C14: whenever \<open>destroy_rdma_qp\<close> returns, it returns 0, the nine queue registers it resets hold 0,
  the queue's configuration has the recovery bit set, the override bit of the engine is off, the
  banks of all other queues keep their registers, and exactly the three buffers and the
  protection domain of the queue pair have been released.
\<close>

theorem destroy_rdma_qp_effect:
  assumes "qp \<noteq> NULL" and "heap w qp = Some (O_qp q)" and "heap w (qp_rdma_dev q) = Some (O_rdma_dev rd)"
    and "qp_qpid q - 1 < 256" and "destroy_rdma_qp E qp w = Some (Ret r, w')"
  defines "A \<equiv> (\<lambda>x. get_rdma_per_q_config_addr x (qp_qpid q))" and "base \<equiv> rd_axil_ctl rd"
  shows "r = 0 \<and> (\<forall>x \<in> {RN_RDMA_QCSR_RQWPTRDBADDi, RN_RDMA_QCSR_SQPIi, RN_RDMA_QCSR_CQHEADi,
       RN_RDMA_QCSR_RQCIi, RN_RDMA_QCSR_STATRQPIDBi, RN_RDMA_QCSR_STATCURSQPTRi, RN_RDMA_QCSR_SQPSNi,
       RN_RDMA_QCSR_LSTRQREQi, RN_RDMA_QCSR_STATMSNi}. reg32 (hist w') base (A x) = Some 0) \<and>
    (\<exists>v. reg32 (hist w') base (A RN_RDMA_QCSR_QPCONFi) = Some (v OR 0x40)) \<and>
    (\<exists>v. reg32 (hist w') base RN_RDMA_GCSR_XRNICADCONF = Some (v AND 0xfffffffe)) \<and>
    (\<forall>q' x. q' \<noteq> qp_qpid q \<longrightarrow> q' - 1 < 256 \<longrightarrow> x \<in> set QCSR_REGS \<longrightarrow>
       reg32 (hist w') base (get_rdma_per_q_config_addr x q') =
       reg32 (hist w) base (get_rdma_per_q_config_addr x q')) \<and>
    heap w' = (\<lambda>p. if p \<in> set (owned q) \<and> p \<noteq> NULL then None else heap w p)"
proof -
  from destroy_rdma_qp_Ret [OF assms(1-3,5)] obtain w1 w2 u where
    r: "r = 0" and heap: "heap w' = release (owned q) (heap w)" and hist: "hist w' = hist w2"
    and before: "only_reg (base + ucast (A RN_RDMA_QCSR_QPCONFi)) w w1"
    and reset: "reset_qp E base (qp_qpid q) w1 = Some (Ret u, w2)"
    unfolding A_def base_def by blast
  have n: "unat (q' - 1) < 256" if "q' - 1 < 256" for q' :: u32
    using that by (simp add: word_less_nat_alt)
  have adconf: "get_rdma_per_q_config_addr x q' \<noteq> RN_RDMA_GCSR_XRNICADCONF"
    if "x \<in> set QCSR_REGS" "q' - 1 < 256" for x q'
    using queue_bank.addr_bounds [OF that(1) n [OF that(2)]] by (auto simp: reg_defs)
  have sub: "set reset_regs \<subseteq> set QCSR_REGS" "RN_RDMA_QCSR_QPCONFi \<in> set QCSR_REGS"
    by (simp_all add: reset_regs_def QCSR_REGS_def)
  have diff: "A x \<noteq> A RN_RDMA_QCSR_QPCONFi" if "x \<in> set reset_regs" for x
    using that by (auto simp: A_def get_rdma_per_q_config_addr_def reset_regs_def reg_defs)
  have other: "get_rdma_per_q_config_addr x q' \<noteq> A y"
    if "q' \<noteq> qp_qpid q" "q' - 1 < 256" "x \<in> set QCSR_REGS" "y \<in> set QCSR_REGS" for q' x y
    using queue_bank.addr_inject [OF that(3) n [OF that(2)] that(4) n [OF assms(4)]] that(1)
    by (simp add: A_def)
  have regs: "\<exists>v. reg32 (hist w') base RN_RDMA_GCSR_XRNICADCONF = Some (v AND 0xfffffffe)"
    "A RN_RDMA_QCSR_QPCONFi \<noteq> RN_RDMA_GCSR_XRNICADCONF \<Longrightarrow>
       \<exists>v. reg32 (hist w') base (A RN_RDMA_QCSR_QPCONFi) = Some (v OR 0x40)"
    "\<And>x. x \<noteq> RN_RDMA_GCSR_XRNICADCONF \<Longrightarrow> x \<noteq> A RN_RDMA_QCSR_QPCONFi \<Longrightarrow>
       reg32 (hist w') base x = (if x \<in> A ` set reset_regs then Some 0 else reg32 (hist w1) base x)"
    using reset_qp_registers [OF reset] by (simp_all add: A_def hist)
  have unchanged: "reg32 (hist w') base (get_rdma_per_q_config_addr x q') =
       reg32 (hist w) base (get_rdma_per_q_config_addr x q')"
    if q: "q' \<noteq> qp_qpid q" "q' - 1 < 256" "x \<in> set QCSR_REGS" for q' x
  proof -
    let ?x = "get_rdma_per_q_config_addr x q'"
    have "?x \<notin> A ` set reset_regs" "?x \<noteq> A RN_RDMA_QCSR_QPCONFi" using other [OF q] sub by auto
    moreover from this before have "reg32 (hist w1) base ?x = reg32 (hist w) base ?x"
      by (simp add: only_reg_def reg32_def)
    ultimately show ?thesis using regs(3) [OF adconf [OF q(3,2)]] by simp
  qed
  have zero: "reg32 (hist w') base (A x) = Some 0" if x: "x \<in> set reset_regs" for x
    using regs(3) [of "A x"] adconf [OF _ assms(4), of x] diff [OF x] sub x by (auto simp: A_def)
  show ?thesis
    using regs(1) regs(2) r heap adconf [OF sub(2) assms(4)] unchanged zero
    by (simp add: release_def A_def reset_regs_def)
qed

text \<open>
  A device whose queue pair 2 is idle: its status register shows two empty queues, and all counters
  stand at 64.
\<close>

definition drained_env :: env where
  "drained_env = idle_env\<lparr>env_mmio_read := \<lambda>_ a. if a = status_addr demo_rdma 2 then 0x600 else 64\<rparr>"

lemma demo_qp_idle: "qp_idle drained_env demo_rdma 2"
  by (simp add: qp_idle_def drained_env_def status_addr_def cq_head_addr_def
      get_rdma_per_q_config_addr_def reg_defs)

lemma demo_qp_owned: "owned demo_qp = [10, 12, 11, 7]"
  by (simp add: owned_def)

lemma demo_destroy: "\<exists>w'. destroy_rdma_qp drained_env 9 demo_qp_world = Some (Ret 0, w')"
  by (rule destroy_rdma_qp_idle [of 9 demo_qp_world demo_qp demo_rdma])
    (simp_all add: demo_qp_idle demo_qp_owned)

theorem destroy_rdma_qp_effect_witness:
  "\<exists>w'. destroy_rdma_qp drained_env 9 demo_qp_world = Some (Ret 0, w') \<and> heap w' 10 = None \<and>
     reg32 (hist w') 0x10000000 (get_rdma_per_q_config_addr RN_RDMA_QCSR_SQPIi 2) = Some 0"
proof -
  obtain w' where run: "destroy_rdma_qp drained_env 9 demo_qp_world = Some (Ret 0, w')"
    using demo_destroy by blast
  from destroy_rdma_qp_effect [of 9 demo_qp_world demo_qp demo_rdma, OF _ _ _ _ run] run show ?thesis
    by (simp add: demo_qp_owned)
qed

text \<open>
  A queue pair cannot be destroyed twice. After \<open>destroy_rdma_qp\<close> has returned, the structure
  still names the objects it has freed, and a second call never returns: it frees one of them
  again, unless a wait or an exit of the recovery comes first.
\<close>

theorem destroy_rdma_qp_once:
  assumes "qp \<noteq> NULL" and "heap w qp = Some (O_qp q)" and "heap w (qp_rdma_dev q) = Some (O_rdma_dev rd)"
    and "plain (heap w) (owned q)" and "p \<in> set (owned q)" and "p \<noteq> NULL"
    and "destroy_rdma_qp E qp w = Some (Ret r, w')"
  shows "heap w' qp = Some (O_qp q) \<and> destroy_rdma_qp E' qp w' \<noteq> Some (Ret r', w'')"
proof -
  from destroy_rdma_qp_Ret [OF assms(1-3,7)] have h: "heap w' = release (owned q) (heap w)" by blast
  then have live: "heap w' qp = Some (O_qp q)" "heap w' (qp_rdma_dev q) = Some (O_rdma_dev rd)"
    using assms(2-4) by (simp_all add: release_plain)
  have "heap w' p = None" using h assms(5,6) by (simp add: release_def)
  with destroy_rdma_qp_Ret [OF assms(1) live, of E' r' w''] assms(5,6) live show ?thesis by blast
qed

theorem destroy_rdma_qp_once_witness:
  "\<exists>w'. destroy_rdma_qp drained_env 9 demo_qp_world = Some (Ret 0, w') \<and>
     destroy_rdma_qp drained_env 9 w' \<noteq> Some (Ret 0, w')"
proof -
  obtain w' where run: "destroy_rdma_qp drained_env 9 demo_qp_world = Some (Ret 0, w')"
    using demo_destroy by blast
  from destroy_rdma_qp_once [of 9 demo_qp_world demo_qp demo_rdma 10, OF _ _ _ _ _ _ run] run show ?thesis
    by (simp add: demo_qp_owned plain_def)
qed

lemma destroy_rdma_dev_run:
  assumes "rdev \<noteq> NULL" and "heap w rdev = Some (O_rdma_dev rd)"
    and "rd_glb_csr rd \<noteq> NULL" and "heap w (rd_glb_csr rd) = Some ob"
  shows "destroy_rdma_dev E rdev w =
     thenM (forM [0..<unat (rd_num_qp rd)] (destroy_slot E rd)) (
     thenM (write32_data (rd_axil_ctl rd) (ucast RN_RDMA_GCSR_XRNICCONF) 0) (returnM 0))
     (w\<lparr>heap := (heap w)(rd_glb_csr rd := None)\<rparr>)"
  using assms by (simp add: destroy_rdma_dev_def run_simps destroy_slot_def [abs_def])

text \<open>Freeing the global registers leaves a typed table typed, with the same objects owned.\<close>

lemma after_free_csr:
  assumes "h g = Some (O_glb_csr gc)"
  shows "typed_table h table \<Longrightarrow> typed_table (h(g := None)) table"
    "typed_table h table \<Longrightarrow> owned_by (h(g := None)) table = owned_by h table"
    "typed_table h table \<Longrightarrow> idle_table E h table \<Longrightarrow> idle_table E (h(g := None)) table"
proof -
  assume t: "typed_table h table"
  have ne: "h x = Some (O_qp q) \<Longrightarrow> x \<noteq> g" "h x = Some (O_rdma_dev rd) \<Longrightarrow> x \<noteq> g"
    "h x = Some (O_rdma_buff b) \<Longrightarrow> x \<noteq> g" "h x = Some (O_pd d) \<Longrightarrow> x \<noteq> g" for x q rd b d
    using assms by auto
  have plain: "plain (h(g := None)) ps" if "plain h ps" for ps
    unfolding plain_def
  proof (intro ballI impI)
    fix p assume "p \<in> set ps" "p \<noteq> NULL"
    with that have p: "(\<exists>b. h p = Some (O_rdma_buff b)) \<or> (\<exists>d. h p = Some (O_pd d))"
      by (simp add: plain_def)
    then have "p \<noteq> g" using ne(3,4) by blast
    with p show "(\<exists>b. (h(g := None)) p = Some (O_rdma_buff b)) \<or> (\<exists>d. (h(g := None)) p = Some (O_pd d))"
      by simp
  qed
  have slot: "\<exists>q rd. (h(g := None)) qp = Some (O_qp q) \<and>
      (h(g := None)) (qp_rdma_dev q) = Some (O_rdma_dev rd) \<and> plain (h(g := None)) (owned q)"
    if qp: "qp \<in> set table" "qp \<noteq> NULL" for qp
  proof -
    obtain q rd where "h qp = Some (O_qp q)" "h (qp_rdma_dev q) = Some (O_rdma_dev rd)" "plain h (owned q)"
      by (rule typed_at [OF t qp])
    with ne(1,2) plain show ?thesis by (intro exI [where x = q] exI [where x = rd]) simp
  qed
  then show "typed_table (h(g := None)) table" unfolding typed_table_def by blast
  have "owned_at (h(g := None)) qp = owned_at h qp" if "qp \<in> set table" for qp
  proof (cases "qp = NULL")
    case False
    with t that obtain q where "h qp = Some (O_qp q)" by (metis typed_at)
    with ne(1) show ?thesis by (simp add: owned_at_def)
  qed (simp add: owned_at_def)
  then show "owned_by (h(g := None)) table = owned_by h table"
    unfolding owned_by_def by (simp cong: map_cong)
  show "idle_table E (h(g := None)) table" if "idle_table E h table"
    unfolding idle_table_def
  proof (intro ballI allI impI)
    fix qp q rd
    assume "qp \<in> set table" "qp \<noteq> NULL" "(h(g := None)) qp = Some (O_qp q)"
      "(h(g := None)) (qp_rdma_dev q) = Some (O_rdma_dev rd)"
    then show "qp_idle E rd (qp_qpid q)"
      using that by (simp add: idle_table_def split: if_splits)
  qed
qed

text \<open>The demonstration table is typed, idle and owns four different objects.\<close>

lemma demo_table:
  "typed_table (heap demo_qp_world) [NULL, NULL, 9, NULL]"
  "idle_table drained_env (heap demo_qp_world) [NULL, NULL, 9, NULL]"
  "owned_by (heap demo_qp_world) [NULL, NULL, 9, NULL] = [10, 12, 11, 7]"
  by (simp_all add: typed_table_def plain_def demo_qp_owned idle_table_def demo_qp_idle owned_by_def owned_at_def)

lemma destroy_rdma_dev_idle:
  assumes "rdev \<noteq> NULL" and "heap w rdev = Some (O_rdma_dev rd)"
    and "heap w (rd_qps_ptr rd) = Some (O_qp_table table)" and "unat (rd_num_qp rd) = List.length table"
    and "rd_glb_csr rd \<noteq> NULL" and "heap w (rd_glb_csr rd) = Some (O_glb_csr gc)"
    and "typed_table (heap w) table" and "idle_table E (heap w) table"
    and "distinct (filter (\<lambda>p. p \<noteq> NULL) (owned_by (heap w) table))"
  shows "\<exists>r w'. destroy_rdma_dev E rdev w = Some (Ret r, w')"
proof -
  let ?h = "(heap w)(rd_glb_csr rd := None)" and ?is = "[0..<List.length table]"
  have ne: "rd_qps_ptr rd \<noteq> rd_glb_csr rd" using assms(3,6) by auto
  have tab: "?h (rd_qps_ptr rd) = Some (O_qp_table table)" using assms(3) ne by simp
  have bound: "\<forall>i \<in> set ?is. i < List.length table \<and> i < 2 ^ 32"
    using assms(4) unat_u32_less [of "rd_num_qp rd"] by auto
  note after = after_free_csr [OF assms(6,7)]
  obtain w1 where "forM ?is (destroy_slot E rd) (w\<lparr>heap := ?h\<rparr>) = Some (Ret (), w1)"
    using teardown_loop_idle [OF tab after(1) after(3) [OF assms(8)] bound, of "w\<lparr>heap := ?h\<rparr>" "[]"]
      after(2) assms(9)
    by (auto simp: map_nth plain_def)
  then show ?thesis
    unfolding destroy_rdma_dev_run [OF assms(1,2,5,6)] assms(4) by (simp add: run_simps)
qed

text \<open>
  Whenever \<open>destroy_rdma_dev\<close> returns, it returns 0, the engine is switched off, and the global
  register structure and everything that the queue pairs of its table own have been released,
  and nothing else.
\<close>

theorem destroy_rdma_dev_effect:
  assumes "rdev \<noteq> NULL" and "heap w rdev = Some (O_rdma_dev rd)"
    and "heap w (rd_qps_ptr rd) = Some (O_qp_table table)" and "unat (rd_num_qp rd) = List.length table"
    and "rd_glb_csr rd \<noteq> NULL" and "heap w (rd_glb_csr rd) = Some (O_glb_csr gc)"
    and "typed_table (heap w) table" and run: "destroy_rdma_dev E rdev w = Some (Ret r, w')"
  shows "r = 0 \<and> reg32 (hist w') (rd_axil_ctl rd) RN_RDMA_GCSR_XRNICCONF = Some 0 \<and>
    heap w' = (\<lambda>p. if p \<in> set (rd_glb_csr rd # owned_by (heap w) table) \<and> p \<noteq> NULL then None else heap w p)"
proof -
  let ?h = "(heap w)(rd_glb_csr rd := None)"
  have ne: "rd_qps_ptr rd \<noteq> rd_glb_csr rd" using assms(3,6) by auto
  from run obtain u w1 where
    loop: "forM [0..<List.length table] (destroy_slot E rd) (w\<lparr>heap := ?h\<rparr>) = Some (Ret u, w1)"
    and rest: "thenM (write32_data (rd_axil_ctl rd) (ucast RN_RDMA_GCSR_XRNICCONF) 0) (returnM 0) w1 = Some (Ret r, w')"
    unfolding destroy_rdma_dev_run [OF assms(1,2,5,6)] assms(4) by (erule thenM_RetE)
  have tab: "?h (rd_qps_ptr rd) = Some (O_qp_table table)" using assms(3) ne by simp
  have bound: "\<forall>i \<in> set [0..<List.length table]. i < List.length table \<and> i < 2 ^ 32"
    using assms(4) unat_u32_less [of "rd_num_qp rd"] by auto
  have "heap w1 = release (owned_by ?h table @ []) ?h"
    using teardown_loop_Ret [OF tab after_free_csr(1) [OF assms(6,7)] bound _ _ loop, of "[]"]
    by (simp add: map_nth plain_def)
  with after_free_csr(2) [OF assms(6,7)] have "heap w1 = release (owned_by (heap w) table) ?h" by simp
  with rest assms(5) show ?thesis
    by (auto simp: run_simps reg32_def release_def fun_eq_iff)
qed

theorem destroy_rdma_dev_effect_witness:
  "\<exists>r w'. destroy_rdma_dev drained_env 4 demo_qp_world = Some (Ret r, w') \<and> r = 0 \<and>
     heap w' 5 = None \<and> heap w' 10 = None \<and> heap w' 9 = Some (O_qp demo_qp)"
proof -
  obtain r w' where run: "destroy_rdma_dev drained_env 4 demo_qp_world = Some (Ret r, w')"
    using destroy_rdma_dev_idle [of 4 demo_qp_world demo_rdma "[NULL, NULL, 9, NULL]"
        "junk_glb_csr idle_env" drained_env]
    by (auto simp: demo_table)
  from destroy_rdma_dev_effect [of 4 demo_qp_world demo_rdma "[NULL, NULL, 9, NULL]"
        "junk_glb_csr idle_env", OF _ _ _ _ _ _ _ run] run
  show ?thesis by (simp add: demo_table)
qed

text \<open>
  C15: on idle hardware \<open>destroy_rdma_dev\<close> returns exactly when no object is owned twice. Queue pairs
  that were allocated on one protection domain, which the interface allows, own it twice: the
  destruction of their device frees the domain a second time.
\<close>

theorem destroy_rdma_dev_returns_iff:
  assumes "rdev \<noteq> NULL" and "heap w rdev = Some (O_rdma_dev rd)"
    and "heap w (rd_qps_ptr rd) = Some (O_qp_table table)" and "unat (rd_num_qp rd) = List.length table"
    and "rd_glb_csr rd \<noteq> NULL" and "heap w (rd_glb_csr rd) = Some (O_glb_csr gc)"
    and "typed_table (heap w) table" and "idle_table E (heap w) table"
  shows "(\<exists>r w'. destroy_rdma_dev E rdev w = Some (Ret r, w')) \<longleftrightarrow>
    distinct (filter (\<lambda>p. p \<noteq> NULL) (owned_by (heap w) table))"
proof -
  let ?h = "(heap w)(rd_glb_csr rd := None)" and ?is = "[0..<List.length table]"
  have ne: "rd_qps_ptr rd \<noteq> rd_glb_csr rd" using assms(3,6) by auto
  have tab: "?h (rd_qps_ptr rd) = Some (O_qp_table table)" using assms(3) ne by simp
  have bound: "\<forall>i \<in> set ?is. i < List.length table \<and> i < 2 ^ 32"
    using assms(4) unat_u32_less [of "rd_num_qp rd"] by auto
  note after = after_free_csr [OF assms(6,7)]
  show ?thesis
  proof
    assume "\<exists>r w'. destroy_rdma_dev E rdev w = Some (Ret r, w')"
    then obtain u w1 where loop: "forM ?is (destroy_slot E rd) (w\<lparr>heap := ?h\<rparr>) = Some (Ret u, w1)"
      unfolding destroy_rdma_dev_run [OF assms(1,2,5,6)] assms(4)
      by (auto elim!: thenM_RetE)
    from teardown_loop_Ret [OF tab after(1) bound _ _ loop, of "[]"] after(2)
    show "distinct (filter (\<lambda>p. p \<noteq> NULL) (owned_by (heap w) table))"
      by (simp add: map_nth plain_def)
  next
    assume "distinct (filter (\<lambda>p. p \<noteq> NULL) (owned_by (heap w) table))"
    then show "\<exists>r w'. destroy_rdma_dev E rdev w = Some (Ret r, w')"
      by (rule destroy_rdma_dev_idle [OF assms])
  qed
qed

theorem destroy_rdma_dev_returns_iff_witness:
  "\<exists>r w'. destroy_rdma_dev drained_env 4 demo_qp_world = Some (Ret r, w') \<and>
     distinct (filter (\<lambda>p. p \<noteq> NULL) (owned_by (heap demo_qp_world) [NULL, NULL, 9, NULL]))"
  using destroy_rdma_dev_returns_iff [of 4 demo_qp_world demo_rdma "[NULL, NULL, 9, NULL]"
      "junk_glb_csr idle_env" drained_env]
  by (simp add: demo_table)

end
