(* ===== verification/Dma_Utils.thy ===== *)
theory Dma_Utils
  imports Memory_Api
begin

text \<open>
  The transfers of the examples, \<open>src/examples/dma_test/dma_utils.c\<close>, which
  \<open>src/examples/systolic_mm/systolic_mm.c\<close> repeats word for word. They are the loop of
  \<open>memory_api.c\<close> without its address mask, and they seek only to offsets that are not 0: a
  transfer at device address 0 starts wherever the descriptor stands. The lemmas show that the
  transfers are exact when the descriptor stands at 0 or the address is not 0, and where the
  bytes go otherwise.
\<close>

subsection \<open>Chunks\<close>

definition dma_seek :: "env \<Rightarrow> i32 \<Rightarrow> u64 \<Rightarrow> world \<Rightarrow> bool \<times> world" where
  "dma_seek E fd offset w =
     (if offset \<noteq> 0 then
        let (rc, w) = sys_lseek E fd offset w
        in if is_negative rc then (False, w)
           else if rc \<noteq> offset then (False, w)
           else (True, w)
      else (True, w))"

definition dma_read_chunk :: "env \<Rightarrow> i32 \<Rightarrow> u64 \<Rightarrow> u64 \<Rightarrow> u64 \<Rightarrow> world \<Rightarrow> bool \<times> world" where
  "dma_read_chunk E fd buf offset bytes w =
     (case dma_seek E fd offset w of
        (False, w) \<Rightarrow> (False, w)
      | (True, w) \<Rightarrow>
         (let (rc, w) = sys_read E fd buf bytes w
          in if is_negative rc then (False, w)
             else if rc \<noteq> bytes then (False, w)
             else (True, w)))"

definition dma_write_chunk :: "env \<Rightarrow> i32 \<Rightarrow> u64 \<Rightarrow> u64 \<Rightarrow> u64 \<Rightarrow> world \<Rightarrow> bool \<times> world" where
  "dma_write_chunk E fd buf offset bytes w =
     (case dma_seek E fd offset w of
        (False, w) \<Rightarrow> (False, w)
      | (True, w) \<Rightarrow>
         (let (rc, w) = sys_write E fd buf bytes w
          in if is_negative rc then (False, w)
             else if rc \<noteq> bytes then (False, w)
             else (True, w)))"

definition dma_read_to_buffer :: "env \<Rightarrow> i32 \<Rightarrow> u64 \<Rightarrow> u64 \<Rightarrow> u64 \<Rightarrow> i64 io" where
  "dma_read_to_buffer E fd buffer nbytes base =
     (\<lambda>w. finish_transfer nbytes (chunk_loop (dma_read_chunk E fd) nbytes 0 buffer base w))"

definition dma_write_from_buffer :: "env \<Rightarrow> i32 \<Rightarrow> u64 \<Rightarrow> u64 \<Rightarrow> u64 \<Rightarrow> i64 io" where
  "dma_write_from_buffer E fd buffer nbytes base =
     (\<lambda>w. finish_transfer nbytes (chunk_loop (dma_write_chunk E fd) nbytes 0 buffer base w))"

subsection \<open>What a chunk promises\<close>

text \<open>
  The start of a transfer: the offset, or the position of the descriptor when the offset is 0. The
  promises say where the bytes went and where the descriptor stands afterwards, for a transfer
  that starts at its offset.
\<close>

definition starts_at_offset :: "machine \<Rightarrow> i32 \<Rightarrow> u64 \<Rightarrow> bool" where
  "starts_at_offset m fd off \<longleftrightarrow> off \<noteq> 0 \<or> m_pos m fd = 0"

definition dma_stored :: "i32 \<Rightarrow> world \<Rightarrow> world \<Rightarrow> u64 \<Rightarrow> u64 \<Rightarrow> nat \<Rightarrow> bool" where
  "dma_stored fd w w' buf off n \<longleftrightarrow>
     (\<forall>m0. starts_at_offset (replay m0 (hist w)) fd off \<longrightarrow>
        m_host (replay m0 (hist w')) = m_host (replay m0 (hist w)) \<and>
        m_dev (replay m0 (hist w')) =
          copy_bytes (m_dev (replay m0 (hist w))) (m_host (replay m0 (hist w))) off buf n \<and>
        m_pos (replay m0 (hist w')) fd = off + word_of_nat n)"

definition dma_loaded :: "i32 \<Rightarrow> world \<Rightarrow> world \<Rightarrow> u64 \<Rightarrow> u64 \<Rightarrow> nat \<Rightarrow> bool" where
  "dma_loaded fd w w' buf off n \<longleftrightarrow>
     (\<exists>es. hist w' = es @ hist w) \<and>
     (\<forall>m0. reads_faithful m0 (hist w') \<longrightarrow> starts_at_offset (replay m0 (hist w)) fd off \<longrightarrow>
        m_dev (replay m0 (hist w')) = m_dev (replay m0 (hist w)) \<and>
        m_host (replay m0 (hist w')) =
          copy_bytes (m_host (replay m0 (hist w))) (m_dev (replay m0 (hist w))) buf off n \<and>
        m_pos (replay m0 (hist w')) fd = off + word_of_nat n)"

lemma dma_seek_True:
  assumes "dma_seek E fd off w = (True, w')"
  shows "off = 0 \<and> w' = w \<or> off \<noteq> 0 \<and> \<not> is_negative off \<and> hist w' = Sys_Lseek fd off off # hist w"
  using assms by (auto simp: dma_seek_def sys_lseek_def Let_def split: if_splits)

lemma dma_write_chunk_True:
  assumes "dma_write_chunk E fd buf off n w = (True, w')"
  shows "\<not> is_negative n \<and> (hist w' = Sys_Write fd buf n n # hist w \<and> off = 0 \<or>
     hist w' = Sys_Write fd buf n n # Sys_Lseek fd off off # hist w \<and> off \<noteq> 0 \<and> \<not> is_negative off)"
  using assms
  by (auto simp: dma_write_chunk_def sys_write_def Let_def dest!: dma_seek_True
      split: if_splits prod.splits bool.splits)

lemma dma_read_chunk_True:
  assumes "dma_read_chunk E fd buf off n w = (True, w')"
  shows "\<not> is_negative n \<and> (\<exists>bs. hist w' = Sys_Read fd buf n n bs # hist w \<and> off = 0 \<or>
     hist w' = Sys_Read fd buf n n bs # Sys_Lseek fd off off # hist w \<and> off \<noteq> 0 \<and> \<not> is_negative off)"
  using assms
  by (auto simp: dma_read_chunk_def sys_read_def Let_def dest!: dma_seek_True
      split: if_splits prod.splits bool.splits)

lemma dma_stored_trans:
  "dma_stored fd w w1 buf off n \<Longrightarrow>
   dma_stored fd w1 w2 (buf + word_of_nat n) (off + word_of_nat n) m \<Longrightarrow> n + m < 2 ^ 64 \<Longrightarrow>
   dma_stored fd w w2 buf off (n + m)"
  by (simp add: dma_stored_def starts_at_offset_def copy_bytes_add)

lemma dma_loaded_trans:
  assumes "dma_loaded fd w w1 buf off n"
    and "dma_loaded fd w1 w2 (buf + word_of_nat n) (off + word_of_nat n) m"
    and "n + m < 2 ^ 64"
  shows "dma_loaded fd w w2 buf off (n + m)"
proof -
  from assms(1,2) obtain es where es: "hist w2 = es @ hist w1" and grows: "\<exists>fs. hist w2 = fs @ hist w"
    unfolding dma_loaded_def by auto
  have "m_dev (replay m0 (hist w2)) = m_dev (replay m0 (hist w)) \<and>
        m_host (replay m0 (hist w2)) =
          copy_bytes (m_host (replay m0 (hist w))) (m_dev (replay m0 (hist w))) buf off (n + m) \<and>
        m_pos (replay m0 (hist w2)) fd = off + word_of_nat (n + m)"
    if "reads_faithful m0 (hist w2)" "starts_at_offset (replay m0 (hist w)) fd off" for m0
  proof -
    have f1: "reads_faithful m0 (hist w1)" using that(1) unfolding es by (rule reads_faithful_suffix)
    from assms(1) f1 that(2) have one: "m_dev (replay m0 (hist w1)) = m_dev (replay m0 (hist w))"
      "m_host (replay m0 (hist w1)) = copy_bytes (m_host (replay m0 (hist w))) (m_dev (replay m0 (hist w))) buf off n"
      "m_pos (replay m0 (hist w1)) fd = off + word_of_nat n"
      unfolding dma_loaded_def by blast+
    then have "starts_at_offset (replay m0 (hist w1)) fd (off + word_of_nat n)"
      by (auto simp: starts_at_offset_def)
    with assms(2) that(1) have "m_dev (replay m0 (hist w2)) = m_dev (replay m0 (hist w1))"
      "m_host (replay m0 (hist w2)) = copy_bytes (m_host (replay m0 (hist w1))) (m_dev (replay m0 (hist w1)))
         (buf + word_of_nat n) (off + word_of_nat n) m"
      "m_pos (replay m0 (hist w2)) fd = off + word_of_nat n + word_of_nat m"
      unfolding dma_loaded_def by blast+
    with one assms(3) show ?thesis by (simp add: copy_bytes_add add.assoc)
  qed
  with grows show ?thesis by (simp add: dma_loaded_def)
qed

interpretation dma_write: chunked_transfer "dma_write_chunk E fd" "dma_stored fd" for E fd
proof unfold_locales
  fix buf off n w w'
  assume "dma_write_chunk E fd buf off n w = (True, w')"
  from dma_write_chunk_True [OF this] show "dma_stored fd w w' buf off (unat n)"
    by (auto simp: dma_stored_def transferred_def starts_at_offset_def)
qed (rule dma_stored_trans)

interpretation dma_read: chunked_transfer "dma_read_chunk E fd" "dma_loaded fd" for E fd
proof unfold_locales
  fix buf off n w w'
  assume "dma_read_chunk E fd buf off n w = (True, w')"
  from dma_read_chunk_True [OF this] show "dma_loaded fd w w' buf off (unat n)"
    by (auto simp: dma_loaded_def transferred_def store_bytes_map starts_at_offset_def
        store_bytes_map [where s = 0, simplified])
qed (rule dma_loaded_trans)

subsection \<open>Frames and totality\<close>

lemma dma_seek_keeps: "reflp R \<Longrightarrow> (\<And>e w. R w (emit e w)) \<Longrightarrow> R w (snd (dma_seek E fd off w))"
  by (auto simp: dma_seek_def sys_lseek_def Let_def dest: reflpD)

lemma dma_chunk_keeps:
  assumes "reflp R" and "transp R" and "\<And>e w. R w (emit e w)"
  shows "R w (snd (dma_write_chunk E fd buf off n w))" "R w (snd (dma_read_chunk E fd buf off n w))"
proof -
  have "R w w1 \<Longrightarrow> R w (emit e w1)" for w1 e using assms by (blast dest: transpD)
  with dma_seek_keeps [OF assms(1,3), of w E fd off]
  show "R w (snd (dma_write_chunk E fd buf off n w))" "R w (snd (dma_read_chunk E fd buf off n w))"
    by (cases "dma_seek E fd off w";
        auto simp: dma_write_chunk_def dma_read_chunk_def sys_write_def sys_read_def Let_def
          split: bool.split prod.split)+
qed

lemma keeps_dma_transfer [keeps_intros]:
  "keeps steps_ok (dma_write_from_buffer E fd buf n base)" "keeps same_store (dma_write_from_buffer E fd buf n base)"
  "keeps steps_ok (dma_read_to_buffer E fd buf n base)" "keeps same_store (dma_read_to_buffer E fd buf n base)"
  unfolding dma_write_from_buffer_def dma_read_to_buffer_def
  by (intro keeps_finish_transfer, erule chunk_loop_keeps [rotated 2],
      auto intro: dma_chunk_keeps reflp_steps_ok reflp_same_store transp_steps_ok transp_same_store
        steps_ok_emit same_store_emit)+

lemma dma_write_chunk_complete:
  "device_writes_complete E fd \<Longrightarrow> \<not> is_negative off \<Longrightarrow> n \<le> RW_MAX_SIZE \<Longrightarrow>
   fst (dma_write_chunk E fd buf off n w)"
  by (simp add: device_writes_complete_def dma_write_chunk_def dma_seek_def sys_lseek_def
      sys_write_def Let_def RW_MAX_SIZE_not_negative)

lemma dma_read_chunk_complete:
  "device_reads_complete E fd \<Longrightarrow> \<not> is_negative off \<Longrightarrow> n \<le> RW_MAX_SIZE \<Longrightarrow>
   fst (dma_read_chunk E fd buf off n w)"
  by (simp add: device_reads_complete_def dma_read_chunk_def dma_seek_def sys_lseek_def
      sys_read_def Let_def RW_MAX_SIZE_not_negative split_beta)

text \<open>A transfer of at most one chunk at address 0 does not seek.\<close>

lemma dma_write_at_zero:
  assumes "device_writes_complete E fd" and "nbytes \<le> RW_MAX_SIZE"
  shows "dma_write_from_buffer E fd buffer nbytes 0 w =
    Some (Ret nbytes, emit (Sys_Write fd buffer nbytes nbytes) w)"
proof -
  have "\<not> is_negative nbytes" using assms(2) by (rule RW_MAX_SIZE_not_negative)
  with assms have "dma_write_chunk E fd buffer 0 nbytes w = (True, emit (Sys_Write fd buffer nbytes nbytes) w)"
    by (simp add: dma_write_chunk_def dma_seek_def sys_write_def device_writes_complete_def Let_def)
  moreover have "chunk_bytes nbytes 0 = nbytes" using assms(2) by (auto simp: chunk_bytes_def Let_def)
  ultimately show ?thesis
    by (simp add: dma_write_from_buffer_def chunk_loop.simps finish_transfer_def Let_def)
qed

subsection \<open>Properties\<close>

text \<open>
  The example's \<open>write_from_buffer\<close> always returns \<open>-EIO\<close> or the whole size. If it started at its
  offset, that is the address is not 0 or the descriptor stood at 0, the device then holds exactly
  the bytes of the buffer at the address and the descriptor stands behind them. A kernel that
  completes every call makes it return the size.
\<close>

theorem dma_write_from_buffer_correct:
  "\<exists>r w'. dma_write_from_buffer E fd buffer nbytes base w = Some (Ret r, w') \<and>
     (r = minus_EIO \<or> r = nbytes \<and> (\<forall>m0. starts_at_offset (replay m0 (hist w)) fd base \<longrightarrow>
        m_host (replay m0 (hist w')) = m_host (replay m0 (hist w)) \<and>
        m_dev (replay m0 (hist w')) =
          copy_bytes (m_dev (replay m0 (hist w))) (m_host (replay m0 (hist w))) base buffer (unat nbytes) \<and>
        m_pos (replay m0 (hist w')) fd = base + nbytes)) \<and>
     (device_writes_complete E fd \<and> unat base + unat nbytes < 2 ^ 63 \<longrightarrow> r = nbytes)"
proof -
  have "\<exists>c w'. chunk_loop (dma_write_chunk E fd) nbytes 0 buffer base w = Some (Some c, w')"
    if "device_writes_complete E fd" "unat base + unat nbytes < 2 ^ 63"
    using that by (intro chunk_loop_succeeds dma_write_chunk_complete) simp_all
  with dma_write.loop_moves [of 0 nbytes E fd buffer base w]
    dma_write.transfer_total [of nbytes E fd buffer base w]
  show ?thesis
    by (fastforce simp: dma_write_from_buffer_def finish_transfer_def dma_stored_def)
qed

theorem dma_write_from_buffer_correct_witness:
  "\<exists>w'. dma_write_from_buffer idle_env 3 0x1000 16 0x40 idle_world = Some (Ret 16, w')"
  using dma_write_from_buffer_correct [of idle_env 3 "0x1000" 16 "0x40" idle_world]
  by (auto simp: device_writes_complete_def)

text \<open>
  The example's \<open>read_to_buffer\<close> always returns \<open>-EIO\<close> or the whole size, and a transfer that
  started at its offset has then filled the buffer with exactly the bytes of the device at the
  address.
\<close>

theorem dma_read_to_buffer_correct:
  "\<exists>r w'. dma_read_to_buffer E fd buffer nbytes base w = Some (Ret r, w') \<and>
     (r = minus_EIO \<or> r = nbytes \<and> (\<forall>m0. reads_faithful m0 (hist w') \<longrightarrow>
        starts_at_offset (replay m0 (hist w)) fd base \<longrightarrow>
        m_dev (replay m0 (hist w')) = m_dev (replay m0 (hist w)) \<and>
        m_host (replay m0 (hist w')) =
          copy_bytes (m_host (replay m0 (hist w))) (m_dev (replay m0 (hist w))) buffer base (unat nbytes) \<and>
        m_pos (replay m0 (hist w')) fd = base + nbytes)) \<and>
     (device_reads_complete E fd \<and> unat base + unat nbytes < 2 ^ 63 \<longrightarrow> r = nbytes)"
proof -
  have "\<exists>c w'. chunk_loop (dma_read_chunk E fd) nbytes 0 buffer base w = Some (Some c, w')"
    if "device_reads_complete E fd" "unat base + unat nbytes < 2 ^ 63"
    using that by (intro chunk_loop_succeeds dma_read_chunk_complete) simp_all
  with dma_read.loop_moves [of 0 nbytes E fd buffer base w]
    dma_read.transfer_total [of nbytes E fd buffer base w]
  show ?thesis
    by (fastforce simp: dma_read_to_buffer_def finish_transfer_def dma_loaded_def)
qed

theorem dma_read_to_buffer_correct_witness:
  "\<exists>w'. dma_read_to_buffer idle_env 3 0x1000 16 0x40 idle_world = Some (Ret 16, w')"
  using dma_read_to_buffer_correct [of idle_env 3 "0x1000" 16 "0x40" idle_world]
  by (auto simp: device_reads_complete_def)

text \<open>
  Repeating a transfer at device address 0 on one descriptor does not repeat it: without the
  seek the second copy lands directly behind the first.
\<close>

theorem dma_write_twice_drifts:
  assumes "device_writes_complete E fd" and "nbytes \<le> RW_MAX_SIZE"
    and "dma_write_from_buffer E fd buffer nbytes 0 w = Some (r1, w1)"
    and "dma_write_from_buffer E fd buffer nbytes 0 w1 = Some (r2, w2)"
    and "m_pos (replay m0 (hist w)) fd = 0"
  shows "r1 = Ret nbytes \<and> r2 = Ret nbytes \<and>
    m_dev (replay m0 (hist w2)) =
      copy_bytes (copy_bytes (m_dev (replay m0 (hist w))) (m_host (replay m0 (hist w))) 0 buffer (unat nbytes))
        (m_host (replay m0 (hist w))) nbytes buffer (unat nbytes)"
  using assms(3-5) RW_MAX_SIZE_not_negative [OF assms(2)]
  by (auto simp: dma_write_at_zero [OF assms(1,2)] transferred_def)

theorem dma_write_twice_drifts_witness:
  "let m0 = \<lparr>m_host = \<lambda>_. 7, m_dev = \<lambda>_. 0, m_pos = \<lambda>_. 0\<rparr>;
       w1 = emit (Sys_Write 3 0x1000 16 16) idle_world;
       w2 = emit (Sys_Write 3 0x1000 16 16) w1
   in dma_write_from_buffer idle_env 3 0x1000 16 0 w1 = Some (Ret 16, w2) \<and>
      m_dev (replay m0 (hist w2)) 16 = 7"
proof -
  have c: "device_writes_complete idle_env 3" by (simp add: device_writes_complete_def)
  have n: "(16 :: u64) \<le> RW_MAX_SIZE" by (simp add: RW_MAX_SIZE_def)
  from dma_write_twice_drifts [OF c n, of "0x1000" idle_world _ _ _ _ "\<lparr>m_host = \<lambda>_. 7, m_dev = \<lambda>_. 0, m_pos = \<lambda>_. 0\<rparr>"]
  show ?thesis by (simp add: dma_write_at_zero [OF c n] copy_bytes_def Let_def transferred_def is_negative_def)
qed

end
