(* ===== verification/Store_Types.thy ===== *)
theory Store_Types
  imports Rdma_Teardown Address_Conv
begin

text \<open>
  A type discipline for the store of objects. The shape of an object is the object without the
  data that the library changes in operation: the counters of a queue pair, the allocation marks
  of a device, the entry of a protection domain. A store typing gives the shape of some of the
  live objects, and a state conforms to it if those objects are live with those shapes. Every
  operation of the library runs on a conforming state without a fault and keeps it conforming,
  whatever the device, the kernel and the network answer; creations extend the typing. The rules
  are stated as weakest preconditions, so that a program over the library is checked by going
  through its calls.
\<close>

subsection \<open>Shapes\<close>

definition qp_shape :: "rdma_qp_t \<Rightarrow> rdma_qp_t" where
  "qp_shape q = q\<lparr>qp_sq_psn := 0, qp_sq_pidb := 0, qp_sq_cidb := 0, qp_cq_cidb := 0,
     qp_rq_cidb := 0, qp_rq_pidb := 0, qp_last_rq_psn := 0\<rparr>"

definition rn_shape :: "rn_dev_t \<Rightarrow> rn_dev_t" where
  "rn_shape d = d\<lparr>rn_buffer_offset := 0, rn_dev_buffer_offset := 0\<rparr>"

fun shape :: "obj \<Rightarrow> obj" where
  "shape (O_rn_dev d) = O_rn_dev (rn_shape d)"
| "shape (O_glb_csr gc) = O_glb_csr (junk_glb_csr idle_env)"
| "shape (O_pd pd) = O_pd (junk_pd idle_env)"
| "shape (O_qp q) = O_qp (qp_shape q)"
| "shape ob = ob"

lemma qp_shape_simps [simp]:
  "qp_rdma_dev (qp_shape q) = qp_rdma_dev q" "qp_qpid (qp_shape q) = qp_qpid q"
  "qp_sq (qp_shape q) = qp_sq q" "qp_cq (qp_shape q) = qp_cq q" "qp_rq (qp_shape q) = qp_rq q"
  "qp_pd_entry (qp_shape q) = qp_pd_entry q" "qp_qdepth (qp_shape q) = qp_qdepth q"
  "qp_dst_mac (qp_shape q) = qp_dst_mac q" "qp_shape (qp_shape q) = qp_shape q"
  "qp_shape (q\<lparr>qp_sq_psn := x\<rparr>) = qp_shape q" "qp_shape (q\<lparr>qp_sq_pidb := x\<rparr>) = qp_shape q"
  "qp_shape (q\<lparr>qp_sq_cidb := x\<rparr>) = qp_shape q" "qp_shape (q\<lparr>qp_cq_cidb := x\<rparr>) = qp_shape q"
  "qp_shape (q\<lparr>qp_rq_cidb := x\<rparr>) = qp_shape q" "qp_shape (q\<lparr>qp_rq_pidb := x\<rparr>) = qp_shape q"
  "qp_shape (q\<lparr>qp_last_rq_psn := x\<rparr>) = qp_shape q"
  by (simp_all add: qp_shape_def)

lemma rn_shape_simps [simp]:
  "rn_base_buf (rn_shape d) = rn_base_buf d" "rn_rdma_dev (rn_shape d) = rn_rdma_dev d"
  "rn_winSize (rn_shape d) = rn_winSize d" "rn_num_qp (rn_shape d) = rn_num_qp d"
  "rn_axil_ctl (rn_shape d) = rn_axil_ctl d" "rn_shape (rn_shape d) = rn_shape d"
  "rn_shape (d\<lparr>rn_buffer_offset := x\<rparr>) = rn_shape d"
  "rn_shape (d\<lparr>rn_dev_buffer_offset := x\<rparr>) = rn_shape d"
  by (simp_all add: rn_shape_def)

lemma qp_shape_eqD:
  assumes "qp_shape q = qp_shape q0"
  shows "qp_rdma_dev q = qp_rdma_dev q0" "qp_qpid q = qp_qpid q0" "qp_sq q = qp_sq q0"
    "qp_cq q = qp_cq q0" "qp_rq q = qp_rq q0" "qp_pd_entry q = qp_pd_entry q0"
    "qp_qdepth q = qp_qdepth q0" "qp_dst_mac q = qp_dst_mac q0"
  using assms by (metis qp_shape_simps)+

lemma rn_shape_eqD:
  assumes "rn_shape d = rn_shape d0"
  shows "rn_base_buf d = rn_base_buf d0" "rn_rdma_dev d = rn_rdma_dev d0"
    "rn_winSize d = rn_winSize d0" "rn_num_qp d = rn_num_qp d0" "rn_axil_ctl d = rn_axil_ctl d0"
  using assms by (metis rn_shape_simps)+

subsection \<open>Typings and conforming states\<close>

type_synonym typing = "ptr \<Rightarrow> obj option"

definition conforms :: "typing \<Rightarrow> world \<Rightarrow> bool" where
  "conforms T w \<longleftrightarrow> world_ok w \<and>
     (\<forall>p s. T p = Some s \<longrightarrow> (\<exists>ob. heap w p = Some ob \<and> shape ob = shape s))"

lemma conforms_at:
  assumes "conforms T w" and "T p = Some s"
  obtains ob where "heap w p = Some ob" "shape ob = shape s"
  using assms by (auto simp: conforms_def)

lemma conforms_world_ok: "conforms T w \<Longrightarrow> world_ok w"
  by (simp add: conforms_def)

lemma conforms_same_store: "conforms T w \<Longrightarrow> same_store w w' \<Longrightarrow> conforms T w'"
  by (simp add: conforms_def same_store_def world_ok_def)

lemma conforms_emit [simp]: "conforms T (emit e w) \<longleftrightarrow> conforms T w"
  by (simp add: conforms_def world_ok_def)

lemma conforms_globals [simp]:
  "conforms T (w\<lparr>g_debug := b\<rparr>) \<longleftrightarrow> conforms T w" "conforms T (w\<lparr>g_device := d\<rparr>) \<longleftrightarrow> conforms T w"
  "conforms T (w\<lparr>g_fpga_fd := fd\<rparr>) \<longleftrightarrow> conforms T w"
  by (simp_all add: conforms_def world_ok_def)

lemma shape_eq:
  "shape ob = O_mac mac \<longleftrightarrow> ob = O_mac mac" "shape ob = O_win_size ws \<longleftrightarrow> ob = O_win_size ws"
  "shape ob = O_rdma_buff b \<longleftrightarrow> ob = O_rdma_buff b" "shape ob = O_rdma_dev rd \<longleftrightarrow> ob = O_rdma_dev rd"
  "shape ob = O_qp_table qt \<longleftrightarrow> ob = O_qp_table qt" "shape ob = O_mem n \<longleftrightarrow> ob = O_mem n"
  "shape ob = O_rn_dev d \<longleftrightarrow> (\<exists>d'. ob = O_rn_dev d' \<and> rn_shape d' = d)"
  "shape ob = O_qp q \<longleftrightarrow> (\<exists>q'. ob = O_qp q' \<and> qp_shape q' = q)"
  "shape ob = O_pd pd \<longleftrightarrow> (\<exists>pd'. ob = O_pd pd') \<and> pd = junk_pd idle_env"
  "shape ob = O_glb_csr gc \<longleftrightarrow> (\<exists>gc'. ob = O_glb_csr gc') \<and> gc = junk_glb_csr idle_env"
  by (cases ob; auto)+

lemma conforms_heap:
  assumes "conforms T w"
  shows "T p = Some (O_mac mac) \<Longrightarrow> heap w p = Some (O_mac mac)"
    "T p = Some (O_win_size ws) \<Longrightarrow> heap w p = Some (O_win_size ws)"
    "T p = Some (O_rdma_buff b) \<Longrightarrow> heap w p = Some (O_rdma_buff b)"
    "T p = Some (O_rdma_dev rd) \<Longrightarrow> heap w p = Some (O_rdma_dev rd)"
    "T p = Some (O_qp_table qt) \<Longrightarrow> heap w p = Some (O_qp_table qt)"
    "T p = Some (O_mem n) \<Longrightarrow> heap w p = Some (O_mem n)"
    "T p = Some (O_rn_dev d) \<Longrightarrow> \<exists>d'. heap w p = Some (O_rn_dev d') \<and> rn_shape d' = rn_shape d"
    "T p = Some (O_qp q) \<Longrightarrow> \<exists>q'. heap w p = Some (O_qp q') \<and> qp_shape q' = qp_shape q"
    "T p = Some (O_pd pd) \<Longrightarrow> \<exists>pd'. heap w p = Some (O_pd pd')"
    "T p = Some (O_glb_csr gc) \<Longrightarrow> \<exists>gc'. heap w p = Some (O_glb_csr gc')"
  using assms by (auto simp: shape_eq elim!: conforms_at)

subsection \<open>Changing the store\<close>

lemma conforms_dom: "conforms T w \<Longrightarrow> T p = Some s \<Longrightarrow> heap w p \<noteq> None \<and> p \<noteq> NULL \<and> p < next_ptr w"
  by (frule conforms_world_ok) (auto elim!: conforms_at simp: world_ok_def)

lemma conforms_fresh: "conforms T w \<Longrightarrow> T (next_ptr w) = None"
  using conforms_dom [of T w "next_ptr w"] by (cases "T (next_ptr w)") auto

lemma conforms_NULL: "conforms T w \<Longrightarrow> T NULL = None"
  using conforms_dom [of T w NULL] by (cases "T NULL") auto

text \<open>A store of an object of the same shape, one outside the typing, and one that changes it.\<close>

lemma conforms_store:
  "conforms T w \<Longrightarrow> T p = Some s \<Longrightarrow> shape ob = shape s \<Longrightarrow>
   conforms T (w\<lparr>heap := (heap w)(p \<mapsto> ob)\<rparr>)"
  by (frule (1) conforms_dom) (auto simp: conforms_def world_ok_def)

lemma conforms_store_new:
  "conforms T w \<Longrightarrow> T p = None \<Longrightarrow> heap w p \<noteq> None \<Longrightarrow> conforms T (w\<lparr>heap := (heap w)(p \<mapsto> ob)\<rparr>)"
  by (auto simp: conforms_def world_ok_def)

lemma conforms_update:
  "conforms T w \<Longrightarrow> heap w p \<noteq> None \<Longrightarrow> conforms (T(p \<mapsto> ob)) (w\<lparr>heap := (heap w)(p \<mapsto> ob)\<rparr>)"
  by (auto simp: conforms_def world_ok_def)

lemma conforms_extend: "conforms T w \<Longrightarrow> heap w p = Some ob \<Longrightarrow> conforms (T(p \<mapsto> ob)) w"
  by (auto simp: conforms_def)

lemma conforms_malloc:
  "conforms T w \<Longrightarrow>
   conforms T (w\<lparr>next_ptr := Suc (next_ptr w), heap := (heap w)(next_ptr w \<mapsto> ob)\<rparr>)"
  by (frule conforms_fresh) (auto simp: conforms_def world_ok_def less_Suc_eq)

lemma conforms_free: "conforms T w \<Longrightarrow> conforms (T(p := None)) (w\<lparr>heap := (heap w)(p := None)\<rparr>)"
  by (auto simp: conforms_def world_ok_def)

lemma conforms_mono: "conforms T w \<Longrightarrow> T' \<subseteq>\<^sub>m T \<Longrightarrow> conforms T' w"
  by (auto simp: conforms_def map_le_def dom_def)

lemma typing_keep: "T p = None \<Longrightarrow> T q = Some s \<Longrightarrow> (T(p \<mapsto> s')) q = Some s"
  by auto

subsection \<open>The store operations\<close>

text \<open>
  The rules for accesses through the typing. Those for structures with changing parts give the
  shape of what was read. \<open>at\<close> of a rule is discharged from the typing of the pointer.
\<close>

lemma wp_load: "heap w p = Some ob \<Longrightarrow> as ob = Some x \<Longrightarrow> Q x w \<Longrightarrow> wp (load as p) Q w"
  by (simp add: wp_def load_run)

lemma wp_load_typed [wp_intros]:
  assumes "conforms T w"
  shows "T p = Some (O_mac mac) \<Longrightarrow> Q1 mac w \<Longrightarrow> wp (load as_mac p) Q1 w"
    "T p = Some (O_win_size ws) \<Longrightarrow> Q2 ws w \<Longrightarrow> wp (load as_win_size p) Q2 w"
    "T p = Some (O_rdma_buff b) \<Longrightarrow> Q3 b w \<Longrightarrow> wp (load as_rdma_buff p) Q3 w"
    "T p = Some (O_rdma_dev rd) \<Longrightarrow> Q4 rd w \<Longrightarrow> wp (load as_rdma_dev p) Q4 w"
    "T p = Some (O_qp_table qt) \<Longrightarrow> Q5 qt w \<Longrightarrow> wp (load as_qp_table p) Q5 w"
  using conforms_heap [OF assms] by (auto intro: wp_load)

lemma wp_load_rn [wp_intros]:
  assumes "conforms T w" and "T p = Some (O_rn_dev d0)"
    and "\<And>d. heap w p = Some (O_rn_dev d) \<Longrightarrow> rn_shape d = rn_shape d0 \<Longrightarrow>
        rn_base_buf d = rn_base_buf d0 \<Longrightarrow> rn_rdma_dev d = rn_rdma_dev d0 \<Longrightarrow>
        rn_winSize d = rn_winSize d0 \<Longrightarrow> Q d w"
  shows "wp (load as_rn_dev p) Q w"
proof -
  obtain d where d: "heap w p = Some (O_rn_dev d)" "rn_shape d = rn_shape d0"
    using conforms_heap(7) [OF assms(1,2)] by blast
  show ?thesis
    by (rule wp_load [OF d(1), of as_rn_dev d], simp, rule assms(3))
      (simp_all add: d rn_shape_eqD [OF d(2)])
qed

lemma wp_load_shaped [wp_intros]:
  assumes "conforms T w"
  shows "T p = Some (O_qp q0) \<Longrightarrow>
      (\<And>q. heap w p = Some (O_qp q) \<Longrightarrow> qp_shape q = qp_shape q0 \<Longrightarrow> Q2 q w) \<Longrightarrow> wp (load as_qp p) Q2 w"
    "T p = Some (O_pd pd0) \<Longrightarrow> (\<And>pd. heap w p = Some (O_pd pd) \<Longrightarrow> Q3 pd w) \<Longrightarrow> wp (load as_pd p) Q3 w"
    "T p = Some (O_glb_csr gc0) \<Longrightarrow>
      (\<And>gc. heap w p = Some (O_glb_csr gc) \<Longrightarrow> Q4 gc w) \<Longrightarrow> wp (load as_glb_csr p) Q4 w"
  using conforms_heap(8-10) [OF assms, of p] by (auto intro: wp_load)

lemma wp_store: "heap w p \<noteq> None \<Longrightarrow> Q () (w\<lparr>heap := (heap w)(p \<mapsto> ob)\<rparr>) \<Longrightarrow> wp (store p ob) Q w"
  by (simp add: wp_def store_run)

lemma wp_store_typed:
  "conforms T w \<Longrightarrow> T p = Some s \<Longrightarrow> shape ob = shape s \<Longrightarrow>
   (\<And>w'. conforms T w' \<Longrightarrow> hist w' = hist w \<Longrightarrow> heap w' p = Some ob \<Longrightarrow> Q () w') \<Longrightarrow> wp (store p ob) Q w"
  using conforms_dom [of T w p s] by (auto intro!: wp_store dest: conforms_store)

lemma wp_malloc:
  assumes "\<not> env_malloc_fails E (next_ptr w)"
    and "Q (next_ptr w) (w\<lparr>next_ptr := Suc (next_ptr w), heap := (heap w)(next_ptr w \<mapsto> ob)\<rparr>)"
  shows "wp (malloc E ob) Q w"
  using assms by (simp add: wp_def malloc_run)

text \<open>A fresh object becomes part of the typing.\<close>

lemma wp_malloc_typed:
  assumes "conforms T w" and "\<not> env_malloc_fails E (next_ptr w)"
    and "\<And>p w'. conforms (T(p \<mapsto> ob)) w' \<Longrightarrow> T p = None \<Longrightarrow> p \<noteq> NULL \<Longrightarrow> heap w' p = Some ob \<Longrightarrow> Q p w'"
  shows "wp (malloc E ob) Q w"
  using assms conforms_world_ok [OF assms(1)]
  by (intro wp_malloc assms(3) conforms_extend [OF conforms_malloc])
    (auto simp: conforms_fresh world_ok_def)

text \<open>An allocation that may fail.\<close>

lemma wp_malloc_any:
  assumes w: "conforms T w" and null: "\<And>w'. conforms T w' \<Longrightarrow> Q NULL w'"
    and ok: "\<And>p w'. conforms (T(p \<mapsto> ob)) w' \<Longrightarrow> T p = None \<Longrightarrow> p \<noteq> NULL \<Longrightarrow> Q p w'"
  shows "wp (malloc E ob) Q w"
proof (cases "env_malloc_fails E (next_ptr w)")
  case True
  have "conforms T (w\<lparr>next_ptr := Suc (next_ptr w)\<rparr>)"
    using w by (auto simp: conforms_def world_ok_def)
  with True null show ?thesis by (simp add: wp_def malloc_def Let_def)
qed (auto intro: wp_malloc_typed [OF w] ok)

lemma wp_free_typed:
  assumes "conforms T w" and "T p = Some s" and "\<And>w'. conforms (T(p := None)) w' \<Longrightarrow> Q () w'"
  shows "wp (free_obj p) Q w"
proof -
  have "heap w p \<noteq> None" "p \<noteq> NULL" using conforms_dom [OF assms(1,2)] by simp_all
  with assms(3) [OF conforms_free [OF assms(1)]] show ?thesis by (simp add: wp_def free_run)
qed

lemma wp_free_NULL: "Q () w \<Longrightarrow> wp (free_obj NULL) Q w"
  by (simp add: wp_def free_NULL_run)

text \<open>A program that only exchanges events and does not fault on any state keeps every typing.\<close>

definition quiet :: "'a io \<Rightarrow> bool" where
  "quiet m \<longleftrightarrow> keeps same_store m \<and> (\<forall>w. wp m (\<lambda>_ _. True) w)"

lemma wp_quiet:
  assumes "quiet m" and "conforms T w" and "\<And>x w'. conforms T w' \<Longrightarrow> same_store w w' \<Longrightarrow> Q x w'"
  shows "wp m Q w"
proof -
  have "wp m (\<lambda>_ w'. True \<and> same_store w w') w"
    using assms(1) by (intro wp_keeps) (auto simp: quiet_def)
  then show ?thesis
    by (rule wp_mono) (auto intro: assms(3) conforms_same_store [OF assms(2)])
qed

named_theorems quiet_intros \<open>programs that only exchange events\<close>

lemma quietI: "keeps same_store m \<Longrightarrow> (\<And>w. wp m (\<lambda>_ _. True) w) \<Longrightarrow> quiet m"
  by (simp add: quiet_def)

lemma quiet_bindM [quiet_intros]: "quiet m \<Longrightarrow> (\<And>a. quiet (f a)) \<Longrightarrow> quiet (bindM m f)"
  by (auto simp: quiet_def intro!: keeps_intros wp_intros) (blast intro: wp_mono)

lemma quiet_thenM [quiet_intros]: "quiet m \<Longrightarrow> quiet n \<Longrightarrow> quiet (thenM m n)"
  unfolding thenM_def by (rule quiet_bindM)

lemma quiet_prims [quiet_intros]:
  "quiet (returnM a)" "quiet (exitM c)" "quiet (getsM f)" "quiet (assertM b)"
  "quiet (modifyM (emit e))"
  by (auto intro!: quietI keeps_intros wp_intros)

lemma quiet_forM [quiet_intros]: "(\<And>x. x \<in> set xs \<Longrightarrow> quiet (f x)) \<Longrightarrow> quiet (forM xs f)"
  by (induction xs) (auto intro: quiet_intros)

lemma quiet_if [quiet_intros]: "(b \<Longrightarrow> quiet m) \<Longrightarrow> (\<not> b \<Longrightarrow> quiet n) \<Longrightarrow> quiet (if b then m else n)"
  by simp

lemma quiet_splits [quiet_intros]:
  "(\<And>y. y = a \<Longrightarrow> quiet (f y)) \<Longrightarrow> quiet (Let a f)"
  "(\<And>x y. p = (x, y) \<Longrightarrow> quiet (g x y)) \<Longrightarrow> quiet (case p of (x, y) \<Rightarrow> g x y)"
  "(z = None \<Longrightarrow> quiet m) \<Longrightarrow> (\<And>y. z = Some y \<Longrightarrow> quiet (h y)) \<Longrightarrow>
   quiet (case z of None \<Rightarrow> m | Some y \<Rightarrow> h y)"
  by (simp, cases p, simp, cases z, simp_all)

lemma quiet_write32 [quiet_intros]: "quiet (write32_data base off v)"
  unfolding write32_data_def by (intro quiet_intros)

lemma quiet_mmio [quiet_intros]: "quiet (read32_data E base off)" "quiet (write32_block base ws)"
proof -
  show "quiet (read32_data E base off)"
    by (rule quietI) (auto intro: keeps_intros simp: wp_def read32_run)
  show "quiet (write32_block base ws)"
    unfolding write32_block_def by (auto intro!: quiet_intros split: prod.split)
qed

subsection \<open>Typed devices and queues\<close>

text \<open>
  A device with its window size and the device behind it, and a queue pair in its table with
  everything its operations follow.
\<close>

definition typed_rn :: "typing \<Rightarrow> ptr \<Rightarrow> bool" where
  "typed_rn T rn \<longleftrightarrow>
     (\<exists>d bb. T rn = Some (O_rn_dev d) \<and> T (rn_base_buf d) = Some (O_rdma_buff bb))"

definition typed_dev :: "typing \<Rightarrow> ptr \<Rightarrow> rdma_dev_t \<Rightarrow> bool" where
  "typed_dev T dev rd \<longleftrightarrow> T dev = Some (O_rdma_dev rd) \<and>
     (\<exists>ws. T (rd_winSize rd) = Some (O_win_size ws)) \<and> typed_rn T (rd_rn_dev rd)"

definition typed_queue :: "typing \<Rightarrow> ptr \<Rightarrow> rdma_dev_t \<Rightarrow> u32 \<Rightarrow> ptr \<Rightarrow> rdma_qp_t \<Rightarrow> bool" where
  "typed_queue T dev rd qpid qp q \<longleftrightarrow> typed_dev T dev rd \<and>
     (\<exists>qt. T (rd_qps_ptr rd) = Some (O_qp_table qt) \<and> unat qpid < List.length qt \<and> qt ! unat qpid = qp) \<and>
     T qp = Some (O_qp q) \<and> qp_qpid q = qpid \<and>
     (\<exists>b. T (qp_sq q) = Some (O_rdma_buff b)) \<and> (\<exists>b. T (qp_rq q) = Some (O_rdma_buff b))"

lemma typed_queueD:
  assumes "typed_queue T dev rd qpid qp q" and "conforms T w"
  shows "typed_dev T dev rd" "T dev = Some (O_rdma_dev rd)" "T qp = Some (O_qp q)" "dev \<noteq> NULL"
    "qp \<noteq> NULL" "qp_qpid q = qpid"
proof -
  from assms(1) show *: "typed_dev T dev rd" "T dev = Some (O_rdma_dev rd)" "T qp = Some (O_qp q)"
    "qp_qpid q = qpid"
    by (auto simp: typed_queue_def typed_dev_def)
  from conforms_dom [OF assms(2) *(2)] conforms_dom [OF assms(2) *(3)]
  show "dev \<noteq> NULL" "qp \<noteq> NULL" by auto
qed

lemma wp_qps_index:
  "conforms T w \<Longrightarrow> typed_queue T dev rd qpid qp q \<Longrightarrow> Q qp w \<Longrightarrow> wp (qps_index rd qpid) Q w"
  unfolding qps_index_def typed_queue_def by (auto intro!: wp_bindM wp_load_typed wp_returnM)

lemma wp_load_qp:
  assumes "conforms T w" and "typed_queue T dev rd qpid qp q0"
    and "\<And>q. heap w qp = Some (O_qp q) \<Longrightarrow> qp_shape q = qp_shape q0 \<Longrightarrow> qp_qpid q = qpid \<Longrightarrow>
      qp_sq q = qp_sq q0 \<Longrightarrow> qp_rq q = qp_rq q0 \<Longrightarrow> Q q w"
  shows "wp (load as_qp qp) Q w"
  using typed_queueD [OF assms(2,1)] assms(1,3)
  by (auto intro!: wp_load_shaped(1) dest: qp_shape_eqD)

lemma wp_store_qp:
  assumes "conforms T w" and "typed_queue T dev rd qpid qp q0" and "qp_shape q = qp_shape q0"
    and "\<And>w'. conforms T w' \<Longrightarrow> Q () w'"
  shows "wp (store qp (O_qp q)) Q w"
  using typed_queueD [OF assms(2,1)] assms by (auto intro!: wp_store_typed [OF assms(1)])

subsection \<open>The operations of the library\<close>

lemma wp_read32 [wp_intros]:
  "conforms T w \<Longrightarrow> (\<And>x w'. conforms T w' \<Longrightarrow> Q x w') \<Longrightarrow> wp (read32_data E base off) Q w"
  by (rule wp_quiet) (intro quiet_intros)

lemma wp_write32 [wp_intros]:
  "conforms T w \<Longrightarrow> (\<And>x w'. conforms T w' \<Longrightarrow> Q x w') \<Longrightarrow> wp (write32_data base off v) Q w"
  "conforms T w \<Longrightarrow> (\<And>x w'. conforms T w' \<Longrightarrow> Q x w') \<Longrightarrow> wp (write32_block base ws) Q w"
  by (blast intro: wp_quiet quiet_write32 quiet_mmio)+

lemma wp_dump [wp_intros]:
  assumes "conforms T w" and "T dev = Some (O_rdma_dev rd)" and "\<And>x w'. conforms T w' \<Longrightarrow> Q x w'"
  shows "wp (dump_registers E dev sender qpid) Q w"
  unfolding dump_registers_def
  by (intro wp_bindM wp_load_typed(4) [OF assms(1,2)] wp_quiet [OF _ assms(1)] quiet_intros assms(3))

lemma wp_debug_read [wp_intros]:
  "conforms T w \<Longrightarrow> (\<And>x w'. conforms T w' \<Longrightarrow> Q x w') \<Longrightarrow> wp (debug_read E base r) Q w"
  unfolding debug_read_def by (rule wp_quiet) (intro quiet_intros)

lemma wp_poll_cq [wp_intros]:
  assumes "conforms T w" and "T dev = Some (O_rdma_dev rd)" and "\<And>x w'. conforms T w' \<Longrightarrow> Q x w'"
  shows "wp (poll_cq_cidb E dev qpid c) Q w"
proof -
  have "quiet (\<lambda>w. let r = poll_cq_loop E a c v 0 w in Some (Ret (fst r), snd r))" for a v
    by (rule quietI) (auto simp: Let_def wp_def
        intro!: keeps_poll_cq_loop reflp_same_store transp_same_store mmio_sample_keeps)
  then show ?thesis unfolding poll_cq_cidb_def Let_def
    by (intro wp_bindM wp_load_typed(4) [OF assms(1,2)] wp_read32 [OF assms(1)])
      (auto intro!: wp_quiet wp_case_option wp_returnM wp_thenM wp_dump assms)
qed

lemma wp_poll_until [wp_intros]:
  assumes "conforms T w" and "\<And>x w'. conforms T w' \<Longrightarrow> Q x w'"
  shows "wp (\<lambda>w. map_option (\<lambda>(v, w'). (Ret v, w')) (poll_until (mmio_sample E a) stop v w)) Q w"
  by (rule wp_quiet [OF quietI assms(1)])
    (auto intro!: keeps_poll_until reflp_same_store transp_same_store mmio_sample_keeps assms(2)
      simp: wp_def split: option.split)

lemma wp_poll_rq [wp_intros]:
  assumes "conforms T w" and q: "typed_queue T dev rd qpid qp q0" and Q: "\<And>x w'. conforms T w' \<Longrightarrow> Q x w'"
  shows "wp (poll_rq_pidb E dev qpid) Q w"
  unfolding poll_rq_pidb_def Let_def using assms(1)
  by - ((assumption | rule Q typed_queueD(2) [OF q assms(1)] wp_qps_index [OF _ q] wp_load_qp [OF _ q]
      wp_store_qp [OF _ q] wp_intros | (simp; fail))+)

lemma wp_post_send [wp_intros]:
  assumes "conforms T w" and q: "typed_queue T dev rd qpid qp q0" and Q: "\<And>x w'. conforms T w' \<Longrightarrow> Q x w'"
  shows "wp (rdma_post_send E dev qpid) Q w"
  unfolding rdma_post_send_def Let_def using assms(1)
  by - ((assumption | rule Q typed_queueD(2) [OF q assms(1)] wp_qps_index [OF _ q] wp_load_qp [OF _ q]
      wp_store_qp [OF _ q] wp_intros | (simp; fail))+)

lemma wp_post_receive [wp_intros]:
  assumes "conforms T w" and q: "typed_queue T dev rd qpid qp q0" and Q: "\<And>x w'. conforms T w' \<Longrightarrow> Q x w'"
  shows "wp (rdma_post_receive E dev qp) Q w"
proof -
  obtain rq where rq: "T (qp_rq q0) = Some (O_rdma_buff rq)" using q by (auto simp: typed_queue_def)
  have poll: "n = qpid \<Longrightarrow> conforms T w \<Longrightarrow> (\<And>x w'. conforms T w' \<Longrightarrow> Q x w') \<Longrightarrow>
    wp (poll_rq_pidb E dev n) Q w" for n Q w
    using q by (auto intro: wp_poll_rq)
  show ?thesis
    unfolding rdma_post_receive_def using assms(1)
    by - ((assumption | rule Q wp_load_qp [OF _ q] poll wp_intros | (simp add: rq; fail))+)
qed

lemma wp_release_rq [wp_intros]:
  assumes "conforms T w" and q: "typed_queue T dev rd qpid qp q0" and Q: "\<And>x w'. conforms T w' \<Longrightarrow> Q x w'"
  shows "wp (rdma_release_rq_consumed E dev qp) Q w"
  unfolding rdma_release_rq_consumed_def write_rq_cidb_def Let_def using assms(1)
  by - ((assumption | rule Q typed_queueD(2) [OF q assms(1)] wp_load_qp [OF _ q]
      wp_store_qp [OF _ q] wp_intros | (simp; fail))+)

text \<open>The wait of the batched send: whatever the loop does, it does it on conforming states.\<close>

lemma batch_loop_conforms:
  assumes run: "batch_loop E dev qpid qp w = Some rw"
  shows "\<forall>T rd q0. conforms T w \<longrightarrow> typed_queue T dev rd qpid qp q0 \<longrightarrow>
    wp (\<lambda>_. Some rw) (\<lambda>_. conforms T) w"
proof (rule batch_loop.raw_induct [OF _ run], intro allI impI)
  fix f E dev qpid qp w rw T rd q0
  assume IH: "\<And>E dev qpid qp w rw. f E dev qpid qp w = Some rw \<Longrightarrow>
      \<forall>T rd q0. conforms T w \<longrightarrow> typed_queue T dev rd qpid qp q0 \<longrightarrow> wp (\<lambda>_. Some rw) (\<lambda>_. conforms T) w"
    and run: "bindM (load as_qp qp) (\<lambda>q w.
       if sint (qp_cq_cidb q) < sint (qp_sq_pidb q) then
         bindM (poll_cq_cidb E dev qpid (qp_sq_cidb q)) (\<lambda>cq_cidb.
         bindM (store qp (O_qp (q\<lparr>qp_cq_cidb := cq_cidb, qp_sq_cidb := cq_cidb\<rparr>))) (\<lambda>_.
         f E dev qpid qp)) w
       else returnM () w) w = Some rw"
    and w: "conforms T w" and q: "typed_queue T dev rd qpid qp q0"
  have again: "wp (f E dev qpid qp) (\<lambda>_. conforms T) w1" if "conforms T w1" for w1
    using IH [of E dev qpid qp w1] that q by (cases "f E dev qpid qp w1") (auto simp: wp_def)
  have "wp (bindM (load as_qp qp) (\<lambda>q.
       if sint (qp_cq_cidb q) < sint (qp_sq_pidb q) then
         bindM (poll_cq_cidb E dev qpid (qp_sq_cidb q)) (\<lambda>cq_cidb.
         bindM (store qp (O_qp (q\<lparr>qp_cq_cidb := cq_cidb, qp_sq_cidb := cq_cidb\<rparr>))) (\<lambda>_.
         f E dev qpid qp))
       else returnM ())) (\<lambda>_. conforms T) w"
    using w by - ((assumption | rule again typed_queueD(2) [OF q w] wp_load_qp [OF _ q]
        wp_store_qp [OF _ q] wp_intros | (simp; fail))+)
  moreover have "(\<lambda>q w. if sint (qp_cq_cidb q) < sint (qp_sq_pidb q) then
         bindM (poll_cq_cidb E dev qpid (qp_sq_cidb q)) (\<lambda>cq_cidb.
         bindM (store qp (O_qp (q\<lparr>qp_cq_cidb := cq_cidb, qp_sq_cidb := cq_cidb\<rparr>))) (\<lambda>_.
         f E dev qpid qp)) w
       else returnM () w) = (\<lambda>q. if sint (qp_cq_cidb q) < sint (qp_sq_pidb q) then
         bindM (poll_cq_cidb E dev qpid (qp_sq_cidb q)) (\<lambda>cq_cidb.
         bindM (store qp (O_qp (q\<lparr>qp_cq_cidb := cq_cidb, qp_sq_cidb := cq_cidb\<rparr>))) (\<lambda>_.
         f E dev qpid qp))
       else returnM ())"
    by (intro ext) simp
  ultimately show "wp (\<lambda>_. Some rw) (\<lambda>_. conforms T) w"
    using run by (simp add: wp_def)
qed

lemma wp_batch_loop [wp_intros]:
  assumes w: "conforms T w" and q: "typed_queue T dev rd qpid qp q0" and Q: "\<And>x w'. conforms T w' \<Longrightarrow> Q x w'"
  shows "wp (batch_loop E dev qpid qp) Q w"
proof -
  have "wp (batch_loop E dev qpid qp) (\<lambda>_. conforms T) w"
    using batch_loop_conforms [of E dev qpid qp w] w q
    by (cases "batch_loop E dev qpid qp w") (auto simp: wp_def)
  then show ?thesis by (rule wp_mono) (rule Q)
qed

lemma wp_post_batch [wp_intros]:
  assumes "conforms T w" and q: "typed_queue T dev rd qpid qp q0" and Q: "\<And>x w'. conforms T w' \<Longrightarrow> Q x w'"
  shows "wp (rdma_post_batch_send E dev qpid n) Q w"
  unfolding rdma_post_batch_send_def Let_def using assms(1)
  by - ((assumption | rule Q typed_queueD(2) [OF q assms(1)] wp_qps_index [OF _ q] wp_load_qp [OF _ q]
      wp_store_qp [OF _ q] wp_batch_loop [OF _ q] wp_intros | (simp; fail))+)

text \<open>Building an element; in device memory it is built in a temporary object.\<close>

lemma quiet_transfers [quiet_intros]:
  "quiet (write_from_buffer E fd buf n off)" "quiet (read_to_buffer E fd buf n off)"
  by (rule quietI, rule keeps_write_from_buffer,
      simp add: write_from_buffer_def finish_transfer_def wp_def Let_def split: option.split,
    rule quietI, rule keeps_read_to_buffer,
      simp add: read_to_buffer_def finish_transfer_def wp_def Let_def split: option.split)

lemma wp_create_wqe [wp_intros]:
  assumes w: "conforms T w" and m: "\<And>p. \<not> env_malloc_fails E p"
    and q: "typed_queue T dev rd qpid qp q0" and Q: "\<And>x w'. conforms T w' \<Longrightarrow> Q x w'"
  shows "wp (create_a_wqe E dev qpid wrid idx laddr len opc ro key p0 p1 p2 p3 imm) Q w"
proof -
  from q obtain ws sq where ws: "T (rd_winSize rd) = Some (O_win_size ws)"
    and sq: "T (qp_sq q0) = Some (O_rdma_buff sq)"
    by (auto simp: typed_queue_def typed_dev_def)
  have fill: "wp (thenM (modifyM (emit e)) (modifyM (emit e'))) R w1"
    if "conforms T' w1" "\<And>x w'. conforms T' w' \<Longrightarrow> R x w'" for e e' R T' w1
    using that by (intro wp_quiet [of _ T'] quiet_intros) auto
  have finish: "Q () w1" if "conforms (T'(p := None)) w1" "T p = None" "T' = T(p \<mapsto> O_wqe)" for T' p w1
    using that by (intro Q) (simp add: fun_upd_idem)
  show ?thesis
    unfolding create_a_wqe_def Let_def using w
    by - ((assumption | rule Q finish typed_queueD(2) [OF q w] wp_qps_index [OF _ q] wp_load_qp [OF _ q]
        fill wp_malloc_typed wp_free_typed wp_quiet [OF quiet_transfers(1)] wp_intros
      | (simp add: ws sq m; fail))+)
qed

subsection \<open>Sequence numbers and memory regions\<close>

lemma wp_config_psn [wp_intros]:
  assumes "conforms T w" and q: "typed_queue T dev rd qpid qp q0" and Q: "\<And>x w'. conforms T w' \<Longrightarrow> Q x w'"
  shows "wp (config_last_rq_psn dev qpid psn) Q w" "wp (config_sq_psn dev qpid psn) Q w"
  unfolding config_last_rq_psn_def config_sq_psn_def Let_def using assms(1)
  by - ((assumption | rule Q typed_queueD(2) [OF q assms(1)] wp_qps_index [OF _ q] wp_load_qp [OF _ q]
      wp_store_qp [OF _ q] wp_intros | (simp; fail))+)

lemma wp_register_region [wp_intros]:
  assumes w: "conforms T w" and d: "typed_dev T dev rd" and pd: "T pd = Some (O_pd pd0)"
    and b: "T buf = Some (O_rdma_buff b)" and Q: "\<And>x w'. conforms T w' \<Longrightarrow> Q x w'"
  shows "wp (rdma_register_memory_region dev pd key buf) Q w"
proof -
  from d obtain ws where ws: "T dev = Some (O_rdma_dev rd)" "T (rd_winSize rd) = Some (O_win_size ws)"
    by (auto simp: typed_dev_def)
  show ?thesis
    unfolding rdma_register_memory_region_def Let_def using w
    by - ((assumption | rule Q wp_store_typed wp_intros ws pd b | (simp; fail))+)
qed

subsection \<open>Buffers\<close>

text \<open>
  What the programs need of their platform: an allocator that does not run out, and a pagemap
  file that opens. Where they fail the code follows a NULL pointer.
\<close>

definition host_ready :: "env \<Rightarrow> bool" where
  "host_ready E \<longleftrightarrow> (\<forall>p. \<not> env_malloc_fails E p) \<and> (\<forall>h. env_pagemap_open E h)"

lemma quiet_paddr [quiet_intros]:
  assumes "host_ready E"
  shows "quiet (get_buffer_paddr E a)"
proof (rule quietI)
  show "wp (get_buffer_paddr E a) (\<lambda>_ _. True) w" for w
    using assms unfolding get_buffer_paddr_def get_page_frame_number_of_address_def Let_def host_ready_def
    by - ((rule wp_intros TrueI | (simp; fail))+)
qed (rule keeps_get_buffer_paddr)

text \<open>
  A new buffer extends the typing. Its location is in the name of the memory that was asked for.
\<close>

lemma wp_allocate_buffer:
  assumes w: "conforms T w" and E: "host_ready E" and rn: "typed_rn T rn"
    and Q: "\<And>p b w'. conforms (T(p \<mapsto> O_rdma_buff b)) w' \<Longrightarrow> T p = None \<Longrightarrow> p \<noteq> NULL \<Longrightarrow>
      buf_buf_size b = ucast sz \<Longrightarrow> Q p w'"
  shows "wp (allocate_rdma_buffer E rn sz loc) Q w"
proof -
  from rn obtain d0 bb where d: "T rn = Some (O_rn_dev d0)" "T (rn_base_buf d0) = Some (O_rdma_buff bb)"
    by (auto simp: typed_rn_def)
  have store: "wp (store p (O_rdma_buff b)) R w1"
    if "conforms (T(p \<mapsto> O_rdma_buff b0)) w1"
      "\<And>w'. conforms (T(p \<mapsto> O_rdma_buff b)) w' \<Longrightarrow> R () w'" for R w1 p b b0
    using conforms_dom [OF that(1), of p] conforms_update [OF that(1), of p]
    by (intro wp_store that(2)) auto
  show ?thesis
    unfolding allocate_rdma_buffer_def allocate_host_arm_def allocate_device_arm_def Let_def using w
    by - ((assumption | rule Q store wp_malloc_typed wp_quiet [OF quiet_paddr [OF E]] wp_intros
      | rule fun_upd_same wp_store_typed
      | (rule typing_keep, assumption, (rule d | simp add: d; fail))
      | (insert E, simp add: host_ready_def; fail) | (simp; fail))+)
qed

end
