(* ===== verification/Example_Host.thy ===== *)
theory Example_Host
  imports Store_Types
begin

text \<open>
  What the programs of \<open>src/examples\<close> share before they touch the device: their command line, the
  lookup of the peer's MAC address in the output of \<open>arp\<close>, the socket, the console, and the
  arrays of words they keep for verification. The option loop is the same text in the five
  programs of \<open>rdma_test\<close> and in \<open>network_systolic_mm.c\<close>, up to the differences that \<open>program\<close>
  selects. The lemmas say which MAC address a line of \<open>arp\<close> gives, and when the loop goes wrong.

  The answers of the operating system to these programs are the parameter \<open>host\<close>: the interface
  list, the output of a command, sockets and the console, all functions of the history.
  \<open>getopt_long\<close> is the C library's: the command line is the list of the options it returns with
  their arguments.
\<close>

record host =
  h_ifaddrs :: "ifaddrs list option"
  h_hwaddr :: "string \<Rightarrow> u8 list"
  h_popen :: "event list \<Rightarrow> string \<Rightarrow> string list option"   \<comment> \<open>lines of the output\<close>
  h_socket :: "event list \<Rightarrow> i32"
  h_accept :: "event list \<Rightarrow> i32 \<Rightarrow> i32"
  h_recv :: "event list \<Rightarrow> i32 \<Rightarrow> i64 \<times> u8 list"
  h_getchar :: "event list \<Rightarrow> i32"
  h_memory :: "event list \<Rightarrow> u64 \<Rightarrow> u8"              \<comment> \<open>memory that the device writes\<close>
  h_junk :: "u64 \<Rightarrow> u8"                               \<comment> \<open>contents of uninitialised memory\<close>
  h_junk_offset :: "u8 list"                          \<comment> \<open>an uninitialised local \<open>uint64_t\<close>\<close>

subsection \<open>Words in memory\<close>

text \<open>A word from its bytes, little-endian.\<close>

primrec le_word :: "u8 list \<Rightarrow> 'a::len word" where
  "le_word [] = 0"
| "le_word (b # bs) = ucast b OR push_bit 8 (le_word bs)"

lemma byte_of_Suc: "byte_of x (Suc i) = byte_of (drop_bit 8 x) i"
  by (simp add: byte_of_def add.commute)

lemma le_word_bytes: "le_word (le_bytes n x) = (take_bit (8 * n) x :: 'a::len word)"
proof (induction n arbitrary: x)
  case 0
  show ?case by (simp add: le_bytes_def)
next
  case (Suc n)
  have "le_bytes (Suc n) x = byte_of x 0 # le_bytes n (drop_bit 8 x)"
    by (simp add: le_bytes_def upt_rec [of 0] map_Suc_upt [symmetric] byte_of_Suc comp_def del: upt_Suc)
  with Suc show ?case
    by (auto simp: byte_of_def intro!: bit_word_eqI
        simp: bit_or_iff bit_push_bit_iff bit_take_bit_iff bit_drop_bit_eq bit_ucast_iff)
qed

text \<open>
  Arrays that a program allocates are seen by nobody else: their contents are what the program
  stored or a \<open>read\<close> delivered, and before that whatever the memory held. Indices beyond the
  array are faults. A NULL array has address 0, which the kernel rejects in its own way.
\<close>

definition mem_addr :: "env \<Rightarrow> ptr \<Rightarrow> u64" where
  "mem_addr E p = (if p = NULL then 0 else env_obj_addr E p)"

definition as_mem :: "obj \<Rightarrow> u64 option" where
  "as_mem ob = (case ob of O_mem n \<Rightarrow> Some n | _ \<Rightarrow> None)"

definition store_word :: "env \<Rightarrow> ptr \<Rightarrow> nat \<Rightarrow> u32 \<Rightarrow> unit io" where
  "store_word E p i v =
     bindM (load as_mem p) (\<lambda>n.
     if 4 * i + 4 \<le> unat n
     then modifyM (emit (Mem_Store (mem_addr E p + word_of_nat (4 * i)) (le_bytes 4 v)))
     else faultM Out_Of_Bounds)"

definition host_bytes :: "host \<Rightarrow> event list \<Rightarrow> u64 \<Rightarrow> u8" where
  "host_bytes H h = m_host (replay \<lparr>m_host = h_junk H, m_dev = \<lambda>_. 0, m_pos = \<lambda>_. 0\<rparr> h)"

definition load_word :: "env \<Rightarrow> host \<Rightarrow> ptr \<Rightarrow> nat \<Rightarrow> u32 io" where
  "load_word E H p i =
     bindM (load as_mem p) (\<lambda>n.
     if 4 * i + 4 \<le> unat n
     then getsM (\<lambda>w. le_word (map (\<lambda>k. host_bytes H (hist w) (mem_addr E p + word_of_nat (4 * i + k))) [0..<4]))
     else faultM Out_Of_Bounds)"

text \<open>
  Memory of a huge page is written by the device at any time: a read of \<open>n\<close> bytes of it is an
  exchange with the outside. The mapping is not an object of the store and has no bounds here; the
  code checks none.
\<close>

definition load_shared :: "host \<Rightarrow> u64 \<Rightarrow> nat \<Rightarrow> u8 list io" where
  "load_shared H a n = (\<lambda>w. let bs = map (\<lambda>k. h_memory H (hist w) (a + word_of_nat k)) [0..<n]
     in Some (Ret bs, emit (Mem_Load a bs) w))"

text \<open>The test data, \<open>i % 10\<close> in every word: in an array, and directly in a huge page (without bounds, too).\<close>

definition golden_word :: "nat \<Rightarrow> u32" where
  "golden_word i = word_of_nat (i mod 10)"

definition fill_golden :: "env \<Rightarrow> ptr \<Rightarrow> nat \<Rightarrow> unit io" where
  "fill_golden E p n = forM [0..<n] (\<lambda>i. store_word E p i (golden_word i))"

definition fill_shared :: "u64 \<Rightarrow> nat \<Rightarrow> unit io" where
  "fill_shared a n = forM [0..<n] (\<lambda>i.
     modifyM (emit (Mem_Store (a + word_of_nat (4 * i)) (le_bytes 4 (golden_word i)))))"

text \<open>
  A transfer between the device and an array: the kernel must not run over the end of the array.
\<close>

definition fits :: "ptr \<Rightarrow> u64 \<Rightarrow> unit io" where
  "fits p n =
     (if p = NULL then returnM ()
      else bindM (load as_mem p) (\<lambda>m. if n \<le> m then returnM () else faultM Out_Of_Bounds))"

definition array_to_device :: "env \<Rightarrow> ptr \<Rightarrow> u64 \<Rightarrow> u64 \<Rightarrow> i64 io" where
  "array_to_device E p n a =
     thenM (fits p n) (
     bindM (getsM g_fpga_fd) (\<lambda>fpga_fd.
     write_from_buffer E fpga_fd (mem_addr E p) n a))"

definition device_to_array :: "env \<Rightarrow> ptr \<Rightarrow> u64 \<Rightarrow> u64 \<Rightarrow> i64 io" where
  "device_to_array E p n a =
     thenM (fits p n) (
     bindM (getsM g_fpga_fd) (\<lambda>fpga_fd.
     read_to_buffer E fpga_fd (mem_addr E p) n a))"

subsection \<open>Sockets and the console\<close>

definition sys_socket :: "host \<Rightarrow> i32 io" where
  "sys_socket H = (\<lambda>w. let fd = h_socket H (hist w) in Some (Ret fd, emit (Sock_Open fd) w))"

definition sys_accept :: "host \<Rightarrow> i32 \<Rightarrow> i32 io" where
  "sys_accept H sockfd = (\<lambda>w. let fd = h_accept H (hist w) sockfd
     in Some (Ret fd, emit (Sock_Accept sockfd fd) w))"

text \<open>
  \<open>read\<close> of a \<open>uint64_t\<close> from a socket: the bytes that came replace the front of the variable.
\<close>

definition recv_offset :: "host \<Rightarrow> i32 \<Rightarrow> (i64 \<times> u64) io" where
  "recv_offset H sockfd = (\<lambda>w. let (rc, bs) = h_recv H (hist w) sockfd;
       bytes = take 8 bs @ drop (List.length (take 8 bs)) (h_junk_offset H)
     in Some (Ret (rc, le_word bytes), emit (Sock_Read sockfd rc bs) w))"

definition send_offset :: "i32 \<Rightarrow> u64 \<Rightarrow> unit io" where
  "send_offset sockfd x = modifyM (emit (Sock_Write sockfd (le_bytes 8 x)))"

text \<open>\<open>while(val != '\r' && val != '\n') val = getchar();\<close>\<close>

definition char_sample :: "host \<Rightarrow> world \<Rightarrow> u8 \<times> world" where
  "char_sample H w = (let c = h_getchar H (hist w) in (ucast c, emit (Console_Char c) w))"

definition wait_key :: "host \<Rightarrow> unit io" where
  "wait_key H =
     thenM (\<lambda>w. map_option (\<lambda>(v, w'). (Ret v, w'))
         (poll_until (char_sample H) (\<lambda>val. val = 13 \<or> val = 10) 0 w))
       (returnM ())"

subsection \<open>The command line\<close>

datatype program = Read_Prog | Write_Prog | Read_Batch | Write_Batch | Send_Recv | Network_MM

text \<open>
  The variables that the option loop sets. \<open>opt_line_freed\<close> says that the buffer of \<open>getline\<close> has
  been freed: \<open>line\<close> still points to it.
\<close>

record options =
  opt_pcie_resource :: "string option"
  opt_qp_location :: string
  opt_src_ip :: u32
  opt_src_ip_str :: string
  opt_dst_ip :: u32
  opt_dst_ip_str :: string
  opt_dst_mac :: mac_addr_t
  opt_udp_sport :: u16
  opt_tcp_sport :: u16
  opt_dst_qpid :: u32
  opt_payload_size :: u32
  opt_WQE_count :: u32
  opt_server :: u8
  opt_client :: u8
  opt_line_freed :: bool

definition TCP_PORT :: u16 where
  "TCP_PORT = 11111"

definition DEVICE_NAME_DEFAULT :: string where
  "DEVICE_NAME_DEFAULT = ''/dev/reconic-mm''"

definition initial_options :: "program \<Rightarrow> options" where
  "initial_options prog =
     \<lparr>opt_pcie_resource = None, opt_qp_location = HOST_MEM, opt_src_ip = 0, opt_src_ip_str = [],
      opt_dst_ip = 0, opt_dst_ip_str = [], opt_dst_mac = \<lparr>mac_lsb = 0, mac_msb = 0\<rparr>,
      opt_udp_sport = 0, opt_tcp_sport = (if prog = Send_Recv then TCP_PORT else 0),
      opt_dst_qpid = 2,
      opt_payload_size = (if prog = Read_Batch \<or> prog = Write_Batch then 128 else 4),
      opt_WQE_count = 1, opt_server = 0, opt_client = 0, opt_line_freed = False\<rparr>"

text \<open>\<open>strstr\<close>: the rest of the string from the first occurrence on.\<close>

fun strstr :: "string \<Rightarrow> string \<Rightarrow> string option" where
  "strstr [] pat = (if pat = [] then Some [] else None)"
| "strstr (c # s) pat =
     (if take (List.length pat) (c # s) = pat then Some (c # s) else strstr s pat)"

text \<open>\<open>atoi\<close>, for values that a \<open>long\<close> holds.\<close>

definition atoi :: "string \<Rightarrow> u32" where
  "atoi s = (case scan_unsigned 10 s of None \<Rightarrow> 0 | Some (v, _) \<Rightarrow> ucast v)"

text \<open>
  The lines that \<open>arp\<close> prints. The address is taken three characters behind the first \<open>at\<close> of a
  line; when the line ends right behind it, that is beyond the end of the string.
\<close>

fun arp_lines :: "string list \<Rightarrow> mac_addr_t \<Rightarrow> mac_addr_t outcome" where
  "arp_lines [] dst_mac = Ret dst_mac"
| "arp_lines (line # lines) dst_mac =
     (if strstr line ''no match found'' \<noteq> None then Exit 0
      else case strstr line ''at'' of
          None \<Rightarrow> arp_lines lines dst_mac
        | Some at \<Rightarrow>
            if List.length at < 3 then Fault Out_Of_Bounds
            else Ret (convert_mac_addr_str_to_uint (take 17 (drop 3 at))))"

definition lift_outcome :: "'a outcome \<Rightarrow> 'a io" where
  "lift_outcome r = (\<lambda>w. Some (r, w))"

text \<open>
  Option \<open>i\<close>: both \<open>strcpy\<close> and \<open>sprintf\<close> are unbounded; \<open>dst_ip_str\<close> holds 16 characters and
  \<open>command\<close> 64. The second use of the option hands the freed \<open>line\<close> to \<open>getline\<close>.
\<close>

definition strcpy16 :: "string \<Rightarrow> string io" where
  "strcpy16 s = (if List.length s < 16 then returnM s else faultM Out_Of_Bounds)"

definition dst_ip_option :: "host \<Rightarrow> string \<Rightarrow> options \<Rightarrow> options io" where
  "dst_ip_option H optarg o1 =
     (let o1 = o1\<lparr>opt_dst_ip := convert_ip_addr_to_uint optarg\<rparr> in
      bindM (strcpy16 optarg) (\<lambda>dst_ip_str.
      let o1 = o1\<lparr>opt_dst_ip_str := dst_ip_str\<rparr>; command = ''arp -a '' @ dst_ip_str in
      bindM (getsM (\<lambda>w. h_popen H (hist w) command)) (\<lambda>dst_mac_fp.
      thenM (modifyM (emit (Proc_Open command (dst_mac_fp \<noteq> None)))) (
      case dst_mac_fp of
        None \<Rightarrow> exitM EXIT_FAILURE
      | Some lines \<Rightarrow>
          if opt_line_freed o1 then faultM Bad_Pointer else
          bindM (lift_outcome (arp_lines lines (opt_dst_mac o1))) (\<lambda>dst_mac.
          thenM (modifyM (emit Proc_Close))
            (returnM (o1\<lparr>opt_dst_mac := dst_mac, opt_line_freed := True\<rparr>)))))))"

text \<open>
  One turn of the loop. In \<open>l\<close> the condition compares one string with two different ones and asks
  for both. \<open>b\<close> is an option of the batch programs only, and \<open>z\<close> has no effect in
  \<open>network_systolic_mm.c\<close>; in \<open>send_recv.c\<close> the queue number goes to a 16-bit variable.
\<close>

definition option_step :: "program \<Rightarrow> host \<Rightarrow> char \<times> string \<Rightarrow> options \<Rightarrow> options io" where
  "option_step prog H = (\<lambda>(cmd_opt, optarg) o1.
     if cmd_opt = CHR ''d'' then
       thenM (modifyM (\<lambda>w. w\<lparr>g_device := optarg\<rparr>)) (returnM o1)
     else if cmd_opt = CHR ''p'' then returnM (o1\<lparr>opt_pcie_resource := Some optarg\<rparr>)
     else if cmd_opt = CHR ''r'' then
       (let o1 = o1\<lparr>opt_src_ip := convert_ip_addr_to_uint optarg\<rparr> in
        bindM (strcpy16 optarg) (\<lambda>src_ip_str. returnM (o1\<lparr>opt_src_ip_str := src_ip_str\<rparr>)))
     else if cmd_opt = CHR ''i'' then dst_ip_option H optarg o1
     else if cmd_opt = CHR ''u'' then returnM (o1\<lparr>opt_udp_sport := ucast (atoi optarg)\<rparr>)
     else if cmd_opt = CHR ''t'' then returnM (o1\<lparr>opt_tcp_sport := ucast (atoi optarg)\<rparr>)
     else if cmd_opt = CHR ''q'' then
       returnM (o1\<lparr>opt_dst_qpid :=
         (if prog = Send_Recv then ucast (ucast (atoi optarg) :: u16) else atoi optarg)\<rparr>)
     else if cmd_opt = CHR ''z'' then
       returnM (if prog = Network_MM then o1 else o1\<lparr>opt_payload_size := atoi optarg\<rparr>)
     else if cmd_opt = CHR ''b'' \<and> (prog = Read_Batch \<or> prog = Write_Batch) then
       returnM (o1\<lparr>opt_WQE_count := atoi optarg\<rparr>)
     else if cmd_opt = CHR ''l'' then
       (if optarg = HOST_MEM \<and> optarg = DEVICE_MEM then exitM 0
        else returnM (o1\<lparr>opt_qp_location := optarg\<rparr>))
     else if cmd_opt = CHR ''s'' then returnM (o1\<lparr>opt_server := 1, opt_client := 0\<rparr>)
     else if cmd_opt = CHR ''c'' then returnM (o1\<lparr>opt_server := 0, opt_client := 1\<rparr>)
     else if cmd_opt = CHR ''g'' then
       thenM (modifyM (\<lambda>w. w\<lparr>g_debug := True\<rparr>)) (returnM o1)
     else exitM 0)"

primrec option_loop :: "program \<Rightarrow> host \<Rightarrow> (char \<times> string) list \<Rightarrow> options \<Rightarrow> options io" where
  "option_loop prog H [] o1 = returnM o1"
| "option_loop prog H (arg # args) o1 = bindM (option_step prog H arg o1) (option_loop prog H args)"

text \<open>The loops of the six programs, with what stands before them.\<close>

definition parse_command_line :: "program \<Rightarrow> host \<Rightarrow> (char \<times> string) list \<Rightarrow> options io" where
  "parse_command_line prog H args =
     thenM (modifyM (\<lambda>w. w\<lparr>g_device := DEVICE_NAME_DEFAULT\<rparr>))
       (option_loop prog H args (initial_options prog))"

subsection \<open>The MAC address of the peer\<close>

lemma strstr_prefix: "strstr pre ''at'' = None \<Longrightarrow> strstr (pre @ ''at'' @ post) ''at'' = Some (''at'' @ post)"
proof (induction pre)
  case (Cons c pre)
  then show ?case by (cases pre) (auto split: if_splits)
qed simp

lemma strstr_skip: "c \<notin> set pre \<Longrightarrow> strstr (pre @ s) (c # pat) = strstr s (c # pat)"
  by (induction pre) auto

text \<open>Only what follows the first \<open>at\<close> counts.\<close>

lemma arp_line_at:
  assumes "strstr (line @ rest) ''no match found'' = None" and "strstr line ''at'' = Some s" and "20 \<le> List.length s"
  shows "arp_lines ((line @ rest) # lines) m = Ret (convert_mac_addr_str_to_uint (take 17 (drop 3 s)))"
proof -
  have "strstr (line @ rest) ''at'' = Some (s @ rest)"
    using assms(2)
  proof (induction line)
    case (Cons c line)
    then show ?case by (cases line; cases rest) (auto split: if_splits)
  qed simp
  with assms show ?thesis by simp
qed

subsection \<open>Runs without faults\<close>

text \<open>
  What the command line and the system must be like: addresses of at most 15 characters, the peer
  named at most once, lines of output that do not end in or right behind their first \<open>at\<close> (such as
  lines with at least one more character and a newline), and interfaces that have an address. The code
  checks none of this: see \<open>get_mac_addr_first_match\<close> and \<open>second_dst_ip_faults\<close>.
\<close>

definition arguments_ok :: "(char \<times> string) list \<Rightarrow> bool" where
  "arguments_ok args \<longleftrightarrow>
     (\<forall>(c, s) \<in> set args. c \<in> {CHR ''r'', CHR ''i''} \<longrightarrow> List.length s < 16) \<and>
     List.length (filter (\<lambda>(c, s). c = CHR ''i'') args) \<le> 1"

definition host_ok :: "host \<Rightarrow> bool" where
  "host_ok H \<longleftrightarrow>
     (\<forall>h cmd lines. h_popen H h cmd = Some lines \<longrightarrow>
        (\<forall>line \<in> set lines. \<forall>s. strstr line ''at'' = Some s \<longrightarrow> 3 \<le> List.length s)) \<and>
     (\<forall>ifas. h_ifaddrs H = Some ifas \<longrightarrow> (\<forall>ifa \<in> set ifas. ifa_family ifa \<noteq> None))"

lemma arp_lines_safe:
  "\<forall>line \<in> set lines. \<forall>s. strstr line ''at'' = Some s \<longrightarrow> 3 \<le> List.length s \<Longrightarrow> arp_lines lines m \<noteq> Fault e"
  by (induction lines) (auto split: option.split)

lemma find_interface_safe: "\<forall>ifa \<in> set ifas. ifa_family ifa \<noteq> None \<Longrightarrow> find_interface hw ifas ip \<noteq> Fault e"
  by (induction ifas) (auto split: option.split)

lemma wp_lift_outcome: "(\<And>e. r \<noteq> Fault e) \<Longrightarrow> (\<And>x. r = Ret x \<Longrightarrow> Q x w) \<Longrightarrow> wp (lift_outcome r) Q w"
  by (cases r) (auto simp: lift_outcome_def wp_def)

lemma wp_strcpy16 [wp_intros]: "List.length s < 16 \<Longrightarrow> Q s w \<Longrightarrow> wp (strcpy16 s) Q w"
  by (simp add: strcpy16_def wp_returnM)

lemma wp_emit [wp_intros]: "conforms T w \<Longrightarrow> (\<And>w'. conforms T w' \<Longrightarrow> Q () w') \<Longrightarrow> wp (modifyM (emit e)) Q w"
  by (rule wp_modifyM) simp

lemma wp_dst_ip_option:
  assumes w: "conforms T w" and H: "host_ok H" and len: "List.length s < 16" and line: "\<not> opt_line_freed o1"
    and Q: "\<And>o2 w'. conforms T w' \<Longrightarrow> opt_payload_size o2 = opt_payload_size o1 \<Longrightarrow> Q o2 w'"
  shows "wp (dst_ip_option H s o1) Q w"
proof -
  have arp: "wp (lift_outcome (arp_lines lines m)) R w1" if "h_popen H h cmd = Some lines" "\<And>x. R x w1"
    for h cmd lines m R w1
  proof (rule wp_lift_outcome)
    show "arp_lines lines m \<noteq> Fault e" for e
      using H that(1) unfolding host_ok_def by (intro arp_lines_safe) blast
  qed (rule that(2))
  show ?thesis
    unfolding dst_ip_option_def Let_def using w
    by - ((assumption | rule Q len arp wp_strcpy16 wp_emit wp_intros | (simp add: len line; fail))+)
qed

text \<open>
  After a turn the line has been freed only if it was before, or the option was \<open>i\<close>; the payload
  size has changed only in option \<open>z\<close>.
\<close>

lemma wp_option_step:
  assumes w: "conforms T w" and H: "host_ok H" and len: "c \<in> {CHR ''r'', CHR ''i''} \<longrightarrow> List.length s < 16"
    and line: "c = CHR ''i'' \<longrightarrow> \<not> opt_line_freed o1"
    and Q: "\<And>o2 w'. conforms T w' \<Longrightarrow> opt_line_freed o2 = opt_line_freed o1 \<or> c = CHR ''i'' \<Longrightarrow>
      opt_payload_size o2 = opt_payload_size o1 \<or> c = CHR ''z'' \<and> opt_payload_size o2 = atoi s \<Longrightarrow> Q o2 w'"
  shows "wp (option_step prog H (c, s) o1) Q w"
proof -
  have keep: "Q o2 w1" if "conforms T w1" "opt_line_freed o2 = opt_line_freed o1"
    "opt_payload_size o2 = opt_payload_size o1 \<or> c = CHR ''z'' \<and> opt_payload_size o2 = atoi s" for o2 w1
    using that by (simp add: Q)
  have i: "wp (dst_ip_option H s o1) Q w" if "c = CHR ''i''"
    using that len line by (intro wp_dst_ip_option [OF w H]) (auto intro: Q)
  show ?thesis
    unfolding option_step_def Let_def prod.case
    by (rule wp_if | (rule i, assumption) | rule wp_thenM wp_modifyM wp_exitM wp_bindM wp_strcpy16 wp_returnM keep
      | (simp add: w len; fail))+
qed

lemma wp_option_loop:
  assumes "conforms T w" and "host_ok H" and "arguments_ok args" and "opt_line_freed o1 \<longrightarrow> CHR ''i'' \<notin> fst ` set args"
    and "P (opt_payload_size o1)" and "\<forall>(c, s) \<in> set args. c = CHR ''z'' \<longrightarrow> P (atoi s)"
  shows "wp (option_loop prog H args o1) (\<lambda>o2 w'. conforms T w' \<and> P (opt_payload_size o2)) w"
  using assms
proof (induction args arbitrary: o1 w)
  case Nil
  then show ?case by (simp add: wp_returnM)
next
  case (Cons arg args)
  obtain c s where arg: "arg = (c, s)" by (cases arg)
  have len: "c \<in> {CHR ''r'', CHR ''i''} \<longrightarrow> List.length s < 16" and rest: "arguments_ok args"
    using Cons.prems(3) by (auto simp: arguments_ok_def arg split: if_splits)
  have once: "c = CHR ''i'' \<longrightarrow> CHR ''i'' \<notin> fst ` set args"
    using Cons.prems(3) by (auto simp: arguments_ok_def arg filter_empty_conv)
  show ?case
    unfolding option_loop.simps arg
    by (intro wp_bindM wp_option_step [OF Cons.prems(1,2) len] Cons.IH)
      (use Cons.prems arg once rest in auto)
qed

lemma wp_parse_command_line:
  assumes "conforms T w" and "host_ok H" and "arguments_ok args"
    and "P (opt_payload_size (initial_options prog))" and "\<forall>(c, s) \<in> set args. c = CHR ''z'' \<longrightarrow> P (atoi s)"
    and "\<And>o2 w'. conforms T w' \<Longrightarrow> P (opt_payload_size o2) \<Longrightarrow> Q o2 w'"
  shows "wp (parse_command_line prog H args) Q w"
proof -
  have "wp (option_loop prog H args (initial_options prog)) (\<lambda>o2 w'. conforms T w' \<and> P (opt_payload_size o2))
      (w\<lparr>g_device := DEVICE_NAME_DEFAULT\<rparr>)"
    using assms(1-5) by (intro wp_option_loop) (auto simp: initial_options_def)
  then show ?thesis
    unfolding parse_command_line_def
    by (intro wp_thenM wp_modifyM) (erule wp_mono, auto intro: assms(6))
qed

subsection \<open>The operations of the programs keep a typing\<close>

lemma wp_load_mem [wp_intros]:
  "conforms T w \<Longrightarrow> T p = Some (O_mem n) \<Longrightarrow> Q n w \<Longrightarrow> wp (load as_mem p) Q w"
  using conforms_heap(6) [of T w p n] by (auto intro!: wp_load simp: as_mem_def)

lemma wp_store_word:
  assumes "conforms T w" and "T p = Some (O_mem n)" and "4 * i + 4 \<le> unat n" and "\<And>w'. conforms T w' \<Longrightarrow> Q () w'"
  shows "wp (store_word E p i v) Q w"
  unfolding store_word_def using assms
  by - ((assumption | rule assms(4) wp_emit wp_load_mem wp_if wp_bindM | (simp; fail))+)

lemma wp_load_word:
  assumes "conforms T w" and "T p = Some (O_mem n)" and "4 * i + 4 \<le> unat n" and "\<And>x. Q x w"
  shows "wp (load_word E H p i) Q w"
  unfolding load_word_def using assms
  by - ((assumption | rule assms(4) wp_getsM wp_load_mem wp_if wp_bindM | (simp; fail))+)

lemma wp_fill_golden:
  assumes "conforms T w" and "T p = Some (O_mem n)" and "4 * k \<le> unat n" and "\<And>w'. conforms T w' \<Longrightarrow> Q () w'"
  shows "wp (fill_golden E p k) Q w"
proof -
  have "wp (fill_golden E p k) (\<lambda>_. conforms T) w"
    unfolding fill_golden_def using assms(1-3) by (intro wp_forM wp_store_word [where T = T and n = n]) auto
  then show ?thesis by (rule wp_mono) (simp add: assms(4))
qed

lemma wp_fits:
  assumes "conforms T w" and "p \<noteq> NULL \<Longrightarrow> \<exists>m. T p = Some (O_mem m) \<and> n \<le> m" and "Q () w"
  shows "wp (fits p n) Q w"
proof (cases "p = NULL")
  case False
  then obtain m where "T p = Some (O_mem m)" "n \<le> m" using assms(2) by auto
  with False assms(3) show ?thesis
    unfolding fits_def by (simp add: wp_bindM wp_load_mem [OF assms(1)] wp_returnM)
qed (simp add: fits_def wp_returnM assms(3))

lemma wp_array_transfer:
  assumes w: "conforms T w" and p: "p \<noteq> NULL \<Longrightarrow> \<exists>m. T p = Some (O_mem m) \<and> n \<le> m"
    and Q: "\<And>x w'. conforms T w' \<Longrightarrow> Q x w'"
  shows "wp (array_to_device E p n a) Q w" "wp (device_to_array E p n a) Q w"
  unfolding array_to_device_def device_to_array_def
  by (intro wp_thenM wp_fits [OF w p] wp_bindM wp_getsM wp_quiet [OF quiet_transfers(1) w]
      wp_quiet [OF quiet_transfers(2) w] Q; assumption)+

lemma quiet_host [quiet_intros]:
  "quiet (sys_socket H)" "quiet (sys_accept H fd)" "quiet (recv_offset H fd)" "quiet (send_offset fd x)"
  "quiet (load_shared H a n)" "quiet (fill_shared a n)"
proof -
  have exch: "quiet (\<lambda>w. Some (Ret (f w), emit (g w) w))" for f :: "world \<Rightarrow> 'b" and g
    by (rule quietI) (auto intro!: keepsI simp: same_store_def wp_def)
  have recv: "recv_offset H fd = (\<lambda>w. Some (Ret (case h_recv H (hist w) fd of (rc, bs) \<Rightarrow>
        (rc, le_word (take 8 bs @ drop (List.length (take 8 bs)) (h_junk_offset H)))),
      emit (case h_recv H (hist w) fd of (rc, bs) \<Rightarrow> Sock_Read fd rc bs) w))"
    by (rule ext) (simp add: recv_offset_def Let_def split: prod.split)
  show "quiet (sys_socket H)" "quiet (sys_accept H fd)" "quiet (load_shared H a n)"
    unfolding sys_socket_def sys_accept_def load_shared_def Let_def by (rule exch)+
  show "quiet (recv_offset H fd)" unfolding recv by (rule exch)
  show "quiet (send_offset fd x)" "quiet (fill_shared a n)"
    unfolding send_offset_def fill_shared_def by (intro quiet_intros)+
qed

lemma quiet_wait_key [quiet_intros]: "quiet (wait_key H)"
proof -
  have "quiet (\<lambda>w. map_option (\<lambda>(v, w'). (Ret v, w')) (poll_until (char_sample H) stop v w))" for stop v
    by (rule quietI, rule keeps_poll_until)
      (auto intro!: reflp_same_store transp_same_store simp: wp_def char_sample_def same_store_def Let_def
        split: option.split)
  then show ?thesis unfolding wait_key_def by (intro quiet_intros)
qed

subsection \<open>A host\<close>

text \<open>
  A host for the examples: one interface, an \<open>arp\<close> that knows the peer, a peer that sends the
  address 0x1000 as eight bytes, and a console on which somebody presses return.
\<close>

definition demo_line :: string where
  "demo_line = ''peer (192.168.100.2) at 00:0a:35:02:9d:e5 [ether] on eth1'' @ [CHR 0x0A]"

definition demo_host :: host where
  "demo_host =
     \<lparr>h_ifaddrs = Some [\<lparr>ifa_name = ''eth1'', ifa_family = Some AF_INET, ifa_numeric = Some ''192.168.100.1''\<rparr>],
      h_hwaddr = \<lambda>_. replicate 6 0, h_popen = \<lambda>_ _. Some [demo_line], h_socket = \<lambda>_. 5,
      h_accept = \<lambda>_ _. 6, h_recv = \<lambda>_ _. (8, [0, 0, 0, 0, 0, 0, 0x10, 0]), h_getchar = \<lambda>_. 10,
      h_memory = \<lambda>_ _. 0, h_junk = \<lambda>_. 0, h_junk_offset = replicate 8 0\<rparr>"

lemma demo_host_ok: "host_ok demo_host"
  by (simp add: host_ok_def demo_host_def demo_line_def)

lemma idle_env_ready: "host_ready idle_env"
  by (simp add: host_ready_def)

definition demo_args :: "(char \<times> string) list" where
  "demo_args = [(CHR ''p'', ''resource2''), (CHR ''r'', ''192.168.100.1''), (CHR ''i'', ''192.168.100.2''),
     (CHR ''z'', ''128''), (CHR ''l'', HOST_MEM), (CHR ''c'', [])]"

lemma demo_args_ok: "arguments_ok demo_args" "\<forall>(c, s) \<in> set demo_args. c = CHR ''z'' \<longrightarrow> unat (atoi s) \<le> 262144"
  by (simp add: arguments_ok_def demo_args_def)
    (simp add: demo_args_def atoi_def scan_unsigned_def scan_prefix_def scan_sign_def is_space_def is_digit_def
      digit_value_def strtoul_value_def digits_value_def Let_def)

end
