(* ===== verification/Lifecycle_Types.thy ===== *)
theory Lifecycle_Types
  imports Store_Types
begin

text \<open>
  The type discipline of \<open>Store_Types\<close> for the operations that create and destroy: a creation
  extends the typing by fresh objects, a destruction drops what it frees. The rules give what a
  program knows after setting up the device, the engine and a queue pair, and that taking them
  down frees every object once.
\<close>

subsection \<open>Extending a typing\<close>

text \<open>\<open>T'\<close> knows everything that \<open>T\<close> knows, except perhaps about \<open>p\<close>.\<close>

definition extends :: "typing \<Rightarrow> typing \<Rightarrow> ptr set \<Rightarrow> bool" where
  "extends T' T P \<longleftrightarrow> (\<forall>p s. p \<notin> P \<longrightarrow> T p = Some s \<longrightarrow> T' p = Some s)"

lemma extendsD: "extends T' T P \<Longrightarrow> T p = Some s \<Longrightarrow> p \<notin> P \<Longrightarrow> T' p = Some s"
  by (auto simp: extends_def)

lemma extends_refl [simp, intro]: "extends T T P"
  by (simp add: extends_def)

lemma extends_trans: "extends T2 T1 P \<Longrightarrow> extends T1 T0 Q \<Longrightarrow> extends T2 T0 (P \<union> Q)"
  by (auto simp: extends_def)

lemma extends_fresh: "extends T' T P \<Longrightarrow> T' p = None \<Longrightarrow> extends (T'(p \<mapsto> s)) T P"
  by (auto simp: extends_def)

lemma extends_upd: "extends T' T P \<Longrightarrow> p \<in> P \<Longrightarrow> extends (T'(p \<mapsto> s)) T P"
  by (auto simp: extends_def)

lemma extends_new: "extends T' T P \<Longrightarrow> T p = None \<Longrightarrow> extends (T'(p \<mapsto> s)) T P"
  by (auto simp: extends_def)

lemma fresh_extend: "T p = None \<Longrightarrow> (T(q \<mapsto> s)) p = None \<longleftrightarrow> p \<noteq> q"
  by simp

lemma typed_mono:
  assumes "extends T' T {}"
  shows "typed_rn T rn \<Longrightarrow> typed_rn T' rn" "typed_dev T dev rd \<Longrightarrow> typed_dev T' dev rd"
    "typed_queue T dev rd qpid qp q \<Longrightarrow> typed_queue T' dev rd qpid qp q"
proof -
  have E: "T p = Some s \<Longrightarrow> T' p = Some s" for p s using assms by (simp add: extends_def)
  show rn: "typed_rn T rn \<Longrightarrow> typed_rn T' rn" for rn unfolding typed_rn_def by (blast intro: E)
  show dev: "typed_dev T dev rd \<Longrightarrow> typed_dev T' dev rd" unfolding typed_dev_def by (blast intro: E rn)
  show "typed_queue T dev rd qpid qp q \<Longrightarrow> typed_queue T' dev rd qpid qp q"
    unfolding typed_queue_def by (blast intro: E dev)
qed

subsection \<open>Creation\<close>

lemma wp_store_upd:
  assumes "conforms T w" and "T p = Some s"
    and "\<And>w'. conforms (T(p \<mapsto> ob)) w' \<Longrightarrow> Q () w'"
  shows "wp (store p ob) Q w"
  using conforms_dom [OF assms(1,2)] conforms_update [OF assms(1)] by (intro wp_store assms(3)) auto

lemma wp_config_bdf:
  assumes w: "conforms T w" and d: "T rn = Some (O_rn_dev d0)" "T (rn_winSize d0) = Some (O_win_size ws0)"
    and Q: "\<And>ws w'. conforms (T(rn_winSize d0 \<mapsto> O_win_size ws)) w' \<Longrightarrow> Q () w'"
  shows "wp (config_rn_dev_axib_bdf rn hi lo) Q w"
  unfolding config_rn_dev_axib_bdf_def Let_def using w
  by - ((assumption | rule wp_store_upd wp_intros d | (simp add: d; fail) | (simp, erule Q))+)

lemma quiet_sys [quiet_intros]:
  "quiet (sys_open E path)" "quiet (sys_close fd)" "quiet (sys_mmap E n fd)" "quiet (sys_mlock E a n)"
  by (auto intro!: quietI keepsI simp: sys_open_def sys_close_def sys_mmap_def sys_mlock_def
      modifyM_def Let_def same_store_def wp_def)

lemmas wp_sys = wp_quiet [OF quiet_sys(1)] wp_quiet [OF quiet_sys(2)] wp_quiet [OF quiet_sys(3)]
  wp_quiet [OF quiet_sys(4)]

lemma wp_create_base_buf:
  assumes w: "conforms T w" and E: "host_ready E" and rn: "T rn = Some (O_rn_dev d0)"
    and win: "T (rn_winSize d0) = Some (O_win_size ws0)"
    and Q: "\<And>base b d ws w'. conforms (T(base \<mapsto> O_rdma_buff b, rn \<mapsto> O_rn_dev d, rn_winSize d0 \<mapsto> O_win_size ws)) w' \<Longrightarrow>
      T base = None \<Longrightarrow> rn_base_buf d = base \<Longrightarrow> rn_winSize d = rn_winSize d0 \<Longrightarrow>
      rn_num_qp d = rn_num_qp d0 \<Longrightarrow> Q () w'"
  shows "wp (create_base_buf E rn n) Q w"
proof -
  have store: "wp (store p (O_rdma_buff b)) R w1"
    if "conforms (T'(p \<mapsto> O_rdma_buff b0, rn \<mapsto> s)) w1" "p \<noteq> rn"
      "\<And>w'. conforms (T'(p \<mapsto> O_rdma_buff b, rn \<mapsto> s)) w' \<Longrightarrow> R () w'" for R w1 p b b0 s T'
    using that(2) by (intro wp_store_upd [OF that(1)] that(3)) (auto simp: fun_upd_twist)
  have keep: "p \<noteq> rn" if "T p = None" for p using that rn by auto
  have under: "(T(p \<mapsto> x, rn \<mapsto> y)) p = Some x" if "T p = None" for p x y using keep [OF that] by simp
  have winlook: "(T(p \<mapsto> x, rn \<mapsto> y)) n = Some (O_win_size ws0)" if "T p = None" "n = rn_winSize d0" for p x y n
    using that win rn by auto
  have finish: "Q () w'"
    if "conforms (T(p \<mapsto> O_rdma_buff b, rn \<mapsto> O_rn_dev (d\<lparr>rn_base_buf := p\<rparr>),
          rn_winSize (d\<lparr>rn_base_buf := p\<rparr>) \<mapsto> O_win_size ws)) w'" "T p = None" "rn_shape d = rn_shape d0"
    for p b d ws w'
    using that(1) by (intro Q [of p b "d\<lparr>rn_base_buf := p\<rparr>" ws]) (simp_all add: that(2) rn_shape_eqD [OF that(3)])
  show ?thesis
    unfolding create_base_buf_def Let_def using w
    by - ((assumption | rule finish wp_malloc_typed store wp_quiet [OF quiet_paddr [OF E]] wp_config_bdf
        wp_sys wp_intros
      | rule fun_upd_same under winlook | rule wp_store_upd
      | (rule typing_keep, assumption, rule rn)
      | (insert E, simp add: host_ready_def; fail) | (erule keep) | (simp; fail))+)
qed

text \<open>Two objects under construction: storing one leaves the other.\<close>

lemma typing_under: "(T(p \<mapsto> x')) q = None \<Longrightarrow> (T(p \<mapsto> x, q \<mapsto> y)) p = Some x"
  by (auto split: if_splits)

lemma typing_at: "n = q \<Longrightarrow> (T(q \<mapsto> y)) n = Some y"
  by simp

lemma wp_store_under:
  assumes "conforms (T(p \<mapsto> x, q \<mapsto> y)) w" and "(T(p \<mapsto> x')) q = None"
    and "\<And>w'. conforms (T(p \<mapsto> ob, q \<mapsto> y)) w' \<Longrightarrow> Q () w'"
  shows "wp (store p ob) Q w"
proof -
  have "p \<noteq> q" using assms(2) by (auto split: if_splits)
  then show ?thesis
    by (intro wp_store_upd [OF assms(1)] assms(3)) (auto simp: fun_upd_twist)
qed

lemma wp_store_top:
  assumes "conforms (T(q \<mapsto> y)) w" and "\<And>w'. conforms (T(q \<mapsto> ob)) w' \<Longrightarrow> Q () w'"
  shows "wp (store q ob) Q w"
  by (intro wp_store_upd [OF assms(1)] assms(2)) auto

lemma wp_create_base_buf_ext:
  assumes w: "conforms T w" and E: "host_ready E" and rn: "T rn = Some (O_rn_dev d0)"
    and win: "T (rn_winSize d0) = Some (O_win_size ws0)"
    and Q: "\<And>T' d bb ws w'. conforms T' w' \<Longrightarrow> extends T' T {rn, rn_winSize d0} \<Longrightarrow>
      T' rn = Some (O_rn_dev d) \<Longrightarrow> T' (rn_base_buf d) = Some (O_rdma_buff bb) \<Longrightarrow>
      T' (rn_winSize d0) = Some (O_win_size ws) \<Longrightarrow> rn_winSize d = rn_winSize d0 \<Longrightarrow>
      rn_num_qp d = rn_num_qp d0 \<Longrightarrow> Q () w'"
  shows "wp (create_base_buf E rn n) Q w"
proof (rule wp_create_base_buf [OF w E rn win])
  fix base b d ws w'
  assume c: "conforms (T(base \<mapsto> O_rdma_buff b, rn \<mapsto> O_rn_dev d, rn_winSize d0 \<mapsto> O_win_size ws)) w'"
    and d: "T base = None" "rn_base_buf d = base" "rn_winSize d = rn_winSize d0" "rn_num_qp d = rn_num_qp d0"
  have ne: "base \<noteq> rn" "base \<noteq> rn_winSize d0" "rn_winSize d0 \<noteq> rn" using d(1) rn win by auto
  show "Q () w'"
    using ne d by (intro Q [OF c, where ?d = d]) (auto simp: extends_def)
qed

lemma extends_forget:
  "extends T' (T(p \<mapsto> x, q \<mapsto> y)) {p, q} \<Longrightarrow> T p = None \<Longrightarrow> (T(p \<mapsto> x')) q = None \<Longrightarrow> extends T' T {}"
  unfolding extends_def by (auto split: if_splits) (metis fun_upd_apply insertE option.distinct(1) singletonD)

lemma wp_create_rn_dev:
  assumes w: "conforms T w" and E: "host_ready E"
    and Q: "\<And>rn fd d bb ws T' w'. conforms T' w' \<Longrightarrow> extends T' T {} \<Longrightarrow> T' rn = Some (O_rn_dev d) \<Longrightarrow>
      rn_num_qp d = ucast nq \<Longrightarrow> T' (rn_base_buf d) = Some (O_rdma_buff bb) \<Longrightarrow>
      T' (rn_winSize d) = Some (O_win_size ws) \<Longrightarrow> T rn = None \<Longrightarrow> Q (rn, fd) w'"
  shows "wp (create_rn_dev E path n nq) Q w"
proof -
  have E': "\<not> env_malloc_fails E p" for p using E by (simp add: host_ready_def)
  have finish: "Q (rn, fd) w'"
    if "conforms T' w'" "extends T' (T(rn \<mapsto> O_rn_dev d1, win \<mapsto> O_win_size ws1)) {rn, rn_winSize d1}"
      "T' rn = Some (O_rn_dev d)" "T' (rn_base_buf d) = Some (O_rdma_buff bb)"
      "T' (rn_winSize d1) = Some (O_win_size ws)" "rn_winSize d = rn_winSize d1" "rn_num_qp d = rn_num_qp d1"
      "rn_winSize d1 = win" "rn_num_qp d1 = ucast nq" "T rn = None" "(T(rn \<mapsto> O_rn_dev d2)) win = None"
    for rn win d1 d2 ws1 ws d bb T' w' fd
    using that
    by (intro Q [OF that(1) extends_forget [OF that(2) [unfolded that(8)] that(10,11)] that(3)]) auto
  show ?thesis
    unfolding create_rn_dev_def Let_def using w
    by - ((assumption | erule (4) finish
      | rule wp_malloc_typed [OF _ E'] wp_sys wp_create_base_buf_ext [OF _ E] wp_intros
      | erule wp_store_top | erule wp_store_under | erule (1) wp_store_typed
      | rule fun_upd_same typing_under | (rule typing_at, simp; fail) | (simp; fail))+)
qed

text \<open>The engine's device: its structure, global registers and queue table are new, \<open>rn_dev\<close> points to it.\<close>

lemma wp_create_rdma_dev:
  assumes w: "conforms T w" and E: "host_ready E" and rn: "T rn = Some (O_rn_dev d0)" and nq: "rn_num_qp d0 \<noteq> 0"
    and Q: "\<And>dev rd d T' w'. conforms T' w' \<Longrightarrow> extends T' T {rn} \<Longrightarrow> T' rn = Some (O_rn_dev d) \<Longrightarrow>
      T' dev = Some (O_rdma_dev rd) \<Longrightarrow> T' (rd_glb_csr rd) = Some (O_glb_csr (junk_glb_csr E)) \<Longrightarrow>
      T' (rd_qps_ptr rd) = Some (O_qp_table (replicate (unat (rn_num_qp d0)) NULL)) \<Longrightarrow>
      rn_rdma_dev d = dev \<Longrightarrow> rn_base_buf d = rn_base_buf d0 \<Longrightarrow> rn_winSize d = rn_winSize d0 \<Longrightarrow>
      rd_rn_dev rd = rn \<Longrightarrow> rd_winSize rd = rn_winSize d0 \<Longrightarrow> rd_num_qp rd = ucast (rn_num_qp d0) \<Longrightarrow>
      T dev = None \<Longrightarrow> Q dev w'"
  shows "wp (create_rdma_dev E rn) Q w"
proof -
  have E': "\<not> env_malloc_fails E p" for p using E by (simp add: host_ready_def)
  have store3: "wp (store p ob) R w1"
    if "conforms (T'(p \<mapsto> x, q \<mapsto> y, t \<mapsto> z)) w1" "(T'(p \<mapsto> x', q \<mapsto> y')) t = None" "(T'(p \<mapsto> x'')) q = None"
      "\<And>w'. conforms (T'(p \<mapsto> ob, q \<mapsto> y, t \<mapsto> z)) w' \<Longrightarrow> R () w'" for T' p q t x y z x' x'' y' ob R w1
  proof -
    have ne: "p \<noteq> q" "p \<noteq> t" using that(2,3) by (auto split: if_splits)
    then have "T'(p \<mapsto> x, q \<mapsto> y, t \<mapsto> z, p \<mapsto> ob) = T'(p \<mapsto> ob, q \<mapsto> y, t \<mapsto> z)" by (auto simp: fun_eq_iff)
    with ne show ?thesis by (intro wp_store_upd [OF that(1)] that(4)) auto
  qed
  have finish: "wp (store rn (O_rn_dev (d\<lparr>rn_rdma_dev := dev\<rparr>))) (\<lambda>_. wp (returnM dev) Q) w1"
    if "conforms (T(dev \<mapsto> O_rdma_dev rd, csr \<mapsto> O_glb_csr (junk_glb_csr E), tab \<mapsto>
          O_qp_table (replicate (unat (ucast (rn_num_qp d) :: u32)) NULL))) w1"
      "T dev = None" "(T(dev \<mapsto> x)) csr = None" "(T(dev \<mapsto> x', csr \<mapsto> y)) tab = None"
      "rn_shape d = rn_shape d0" "rd_rn_dev rd = rn" "rd_winSize rd = rn_winSize d" "rd_qps_ptr rd = tab"
      "rd_glb_csr rd = csr" "rd_num_qp rd = ucast (rn_num_qp d)" for dev csr tab x x' y rd d w1
  proof -
    have ne: "dev \<noteq> rn" "csr \<noteq> rn" "tab \<noteq> rn" "csr \<noteq> dev" "tab \<noteq> dev" "tab \<noteq> csr" "T csr = None" "T tab = None"
      using that(2-4) rn by (auto split: if_splits)
    have n: "unat (ucast (rn_num_qp d) :: u32) = unat (rn_num_qp d0)"
      using rn_shape_eqD(4) [OF that(5)] using unsigned_less [of "rn_num_qp d0", where ?'a = nat]
      by (simp add: unsigned_ucast_eq take_bit_nat_eq_self)
    have ext: "extends (T(dev \<mapsto> O_rdma_dev rd, csr \<mapsto> O_glb_csr (junk_glb_csr E), tab \<mapsto>
        O_qp_table (replicate (unat (ucast (rn_num_qp d) :: u32)) NULL), rn \<mapsto> O_rn_dev (d\<lparr>rn_rdma_dev := dev\<rparr>))) T {rn}"
      using ne that(2) by (auto simp: extends_def)
    show ?thesis
    proof (rule wp_store_upd [OF that(1)])
      show "(T(dev \<mapsto> O_rdma_dev rd, csr \<mapsto> O_glb_csr (junk_glb_csr E), tab \<mapsto>
        O_qp_table (replicate (unat (ucast (rn_num_qp d) :: u32)) NULL))) rn = Some (O_rn_dev d0)"
        using ne rn by simp
    next
      fix w'
      assume "conforms (T(dev \<mapsto> O_rdma_dev rd, csr \<mapsto> O_glb_csr (junk_glb_csr E), tab \<mapsto>
        O_qp_table (replicate (unat (ucast (rn_num_qp d) :: u32)) NULL), rn \<mapsto> O_rn_dev (d\<lparr>rn_rdma_dev := dev\<rparr>))) w'"
      from Q [OF this ext, of "d\<lparr>rn_rdma_dev := dev\<rparr>" dev rd] ne n that(2) that(6-10) rn_shape_eqD [OF that(5)]
      show "wp (returnM dev) Q w'" by (intro wp_returnM) simp
    qed
  qed
  show ?thesis
    unfolding create_rdma_dev_def Let_def using w
    by - ((assumption | erule (4) finish
      | rule wp_malloc_typed [OF _ E'] wp_intros
      | erule wp_store_top | erule (2) store3 | erule wp_store_under
      | rule fun_upd_same typing_under | (rule typing_at, simp; fail) | rule typing_keep rn | (simp; fail))+)
qed

lemma wp_open_rdma_dev:
  assumes w: "conforms T w" and d: "typed_dev T dev rd" and csr: "T (rd_glb_csr rd) = Some (O_glb_csr gc)"
    and Q: "\<And>x w'. conforms T w' \<Longrightarrow> Q x w'"
  shows "wp (open_rdma_dev dev mac ip port a b c d' e f g h i j) Q w"
proof -
  from d obtain ws where ws: "T dev = Some (O_rdma_dev rd)" "T (rd_winSize rd) = Some (O_win_size ws)"
    by (auto simp: typed_dev_def)
  show ?thesis
    unfolding open_rdma_dev_def config_rdma_global_csr_def Let_def using w
    by - ((assumption | rule wp_intros ws csr Q | erule wp_store_typed | (simp; fail))+)
qed

lemma wp_allocate_pd:
  assumes w: "conforms T w" and E: "host_ready E" and d: "T dev = Some (O_rdma_dev rd)"
    and Q: "\<And>pd x w'. conforms (T(pd \<mapsto> O_pd x)) w' \<Longrightarrow> T pd = None \<Longrightarrow> Q pd w'"
  shows "wp (allocate_rdma_pd E dev n) Q w"
proof -
  have E': "\<not> env_malloc_fails E p" for p using E by (simp add: host_ready_def)
  show ?thesis
    unfolding allocate_rdma_pd_def Let_def using w
    by - ((assumption | erule (1) Q | rule wp_malloc_typed [OF _ E'] wp_intros
      | erule wp_store_top | rule fun_upd_same | rule typing_keep d | (simp; fail))+)
qed

text \<open>A queue pair under construction does not disturb the device.\<close>

lemma typed_rn_fresh: "T p = None \<Longrightarrow> typed_rn T rn \<Longrightarrow> typed_rn (T(p \<mapsto> s)) rn"
  unfolding typed_rn_def by (metis fun_upd_other option.distinct(1))

lemma typed_rn_qp: "T p = Some (O_qp q) \<Longrightarrow> typed_rn T rn \<Longrightarrow> typed_rn (T(p \<mapsto> s)) rn"
  unfolding typed_rn_def by (metis fun_upd_other obj.distinct(55,39) option.inject obj.simps)

lemma typing_over:
  "T p = Some (O_qp q) \<Longrightarrow> T r = Some (O_qp_table t) \<Longrightarrow> (T(p \<mapsto> s)) r = Some (O_qp_table t)"
  by auto

lemma wp_build_qp:
  assumes w: "conforms T w" and E: "host_ready E" and rn: "typed_rn T (rd_rn_dev rd)"
    and tab: "T (rd_qps_ptr rd) = Some (O_qp_table qt)"
    and Q: "\<And>qp q b1 b2 b3 T' w'. conforms T' w' \<Longrightarrow> extends T' T {rd_qps_ptr rd} \<Longrightarrow>
      T' qp = Some (O_qp q) \<Longrightarrow> T' (rd_qps_ptr rd) = Some (O_qp_table (qt[unat qpid := qp])) \<Longrightarrow>
      T' (qp_sq q) = Some (O_rdma_buff b1) \<Longrightarrow> T' (qp_cq q) = Some (O_rdma_buff b2) \<Longrightarrow>
      T' (qp_rq q) = Some (O_rdma_buff b3) \<Longrightarrow> qp_qpid q = qpid \<Longrightarrow> qp_rdma_dev q = dev \<Longrightarrow>
      qp_pd_entry q = pd \<Longrightarrow> qp_dst_mac q = mac \<Longrightarrow> qp_qdepth q = qdepth \<Longrightarrow>
      distinct [qp_sq q, qp_rq q, qp_cq q] \<Longrightarrow> T (qp_sq q) = None \<Longrightarrow> T (qp_rq q) = None \<Longrightarrow>
      T (qp_cq q) = None \<Longrightarrow> buf_buf_size b3 = rd_num_qp rd * qdepth * RQE_SIZE \<Longrightarrow> Q (qp, q) w'"
  shows "unat qpid < List.length qt \<Longrightarrow> wp (build_qp E dev rd qpid dqp pd cqa rqa qdepth loc mac ip) Q w"
proof -
  assume len: "unat qpid < List.length qt"
  have E': "\<not> env_malloc_fails E p" for p using E by (simp add: host_ready_def)
  have finish: "Q (p, q3) w'"
    if c: "conforms (T(p \<mapsto> O_qp q0, a \<mapsto> O_rdma_buff b1, p \<mapsto> O_qp q1, b \<mapsto> O_rdma_buff b2, p \<mapsto> O_qp q2,
          c \<mapsto> O_rdma_buff b3, p \<mapsto> O_qp q3, rd_qps_ptr rd \<mapsto> O_qp_table (qt[unat qpid := p]))) w'"
      and fresh: "T p = None" "(T(p \<mapsto> O_qp q0)) a = None"
        "(T(p \<mapsto> O_qp q0, a \<mapsto> O_rdma_buff b1, p \<mapsto> O_qp q1)) b = None"
        "(T(p \<mapsto> O_qp q0, a \<mapsto> O_rdma_buff b1, p \<mapsto> O_qp q1, b \<mapsto> O_rdma_buff b2, p \<mapsto> O_qp q2)) c = None"
      and q3: "qp_sq q3 = a" "qp_cq q3 = b" "qp_rq q3 = c" "qp_qpid q3 = qpid" "qp_rdma_dev q3 = dev"
        "qp_pd_entry q3 = pd" "qp_dst_mac q3 = mac" "qp_qdepth q3 = qdepth"
      and sz: "buf_buf_size b3 = ucast (ucast (rd_num_qp rd * qdepth * RQE_SIZE) :: u64)"
    for p q0 a b1 q1 b b2 q2 c b3 q3 w'
  proof -
    have ne: "a \<noteq> p" "b \<noteq> p" "c \<noteq> p" "a \<noteq> b" "a \<noteq> c" "b \<noteq> c" "T a = None" "T b = None" "T c = None"
      using fresh by (auto split: if_splits)
    then have tb: "rd_qps_ptr rd \<noteq> p" "rd_qps_ptr rd \<noteq> a" "rd_qps_ptr rd \<noteq> b" "rd_qps_ptr rd \<noteq> c"
      using tab fresh(1) by auto
    show ?thesis
      by (rule Q [OF c, of p q3]) (use ne tb q3 fresh(1) sz in \<open>auto simp: extends_def unsigned_ucast_eq\<close>)
  qed
  show ?thesis
    unfolding build_qp_def set_qps_index_def Let_def using w
    by - ((assumption
      | rule wp_malloc_typed [OF _ E'] wp_allocate_buffer [OF _ E] wp_intros
      | erule (4) finish
      | erule wp_store_top | erule wp_store_upd
      | rule fun_upd_same tab rn | (rule typed_rn_fresh, assumption)
      | (rule typing_over, rule typing_keep, assumption, rule fun_upd_same) | (rule typing_keep, assumption)
      | (rule typed_rn_qp, rule typing_keep, assumption, rule fun_upd_same) | (simp add: len; fail))+)
qed

text \<open>The registers of the queue pair, once everything that its structure points to is typed.\<close>

lemma wp_program_qp:
  assumes w: "conforms T w"
    and q: "T (qp_sq q) = Some (O_rdma_buff b1)" "T (qp_cq q) = Some (O_rdma_buff b2)"
      "T (qp_rq q) = Some (O_rdma_buff b3)" "T (qp_pd_entry q) = Some (O_pd pd0)" "T (qp_dst_mac q) = Some (O_mac mac)"
    and Q: "\<And>x w'. conforms T w' \<Longrightarrow> Q x w'"
  shows "wp (program_qp rd ws q key) Q w"
  unfolding program_qp_def Let_def using w
  by - ((assumption | rule Q wp_intros q)+)

lemma wp_allocate_qp:
  assumes w: "conforms T w" and E: "host_ready E" and d: "typed_dev T dev rd"
    and tab: "T (rd_qps_ptr rd) = Some (O_qp_table qt)" "unat qpid < List.length qt"
    and pd: "T pd = Some (O_pd pd0)" and mac: "T macp = Some (O_mac mac)"
    and Q: "\<And>qp q b bq T' w'. conforms T' w' \<Longrightarrow> extends T' T {rd_qps_ptr rd} \<Longrightarrow>
      typed_queue T' dev rd qpid qp q \<Longrightarrow> T' (rd_qps_ptr rd) = Some (O_qp_table (qt[unat qpid := qp])) \<Longrightarrow>
      T' (qp_cq q) = Some (O_rdma_buff b) \<Longrightarrow> qp_rdma_dev q = dev \<Longrightarrow> qp_pd_entry q = pd \<Longrightarrow>
      qp_qdepth q = qdepth \<Longrightarrow> distinct [qp_sq q, qp_rq q, qp_cq q] \<Longrightarrow> T (qp_sq q) = None \<Longrightarrow>
      T (qp_rq q) = None \<Longrightarrow> T (qp_cq q) = None \<Longrightarrow> T' (qp_rq q) = Some (O_rdma_buff bq) \<Longrightarrow>
      buf_buf_size bq = rd_num_qp rd * qdepth * RQE_SIZE \<Longrightarrow> Q qp w'"
  shows "wp (allocate_rdma_qp E dev qpid dqp pd cqa rqa qdepth loc macp ip key) Q w"
proof -
  from d obtain ws where ws: "T dev = Some (O_rdma_dev rd)" "T (rd_winSize rd) = Some (O_win_size ws)"
    and rn: "typed_rn T (rd_rn_dev rd)"
    by (auto simp: typed_dev_def)
  have keep: "T' p = Some s" if "extends T' T {rd_qps_ptr rd}" "T p = Some s" "s \<noteq> O_qp_table qt" for T' p s
    using that tab(1) by (intro extendsD [OF that(1,2)]) auto
  have rest: "wp (thenM (program_qp rd ws q key) (returnM qp)) Q w1"
    if c: "conforms T' w1" "extends T' T {rd_qps_ptr rd}" "T' qp = Some (O_qp q)"
      "T' (rd_qps_ptr rd) = Some (O_qp_table (qt[unat qpid := qp]))" "T' (qp_sq q) = Some (O_rdma_buff b1)"
      "T' (qp_cq q) = Some (O_rdma_buff b2)" "T' (qp_rq q) = Some (O_rdma_buff b3)"
      and q: "qp_qpid q = qpid" "qp_rdma_dev q = dev" "qp_pd_entry q = pd" "qp_dst_mac q = macp"
        "qp_qdepth q = qdepth" "distinct [qp_sq q, qp_rq q, qp_cq q]" "T (qp_sq q) = None" "T (qp_rq q) = None"
        "T (qp_cq q) = None" "buf_buf_size b3 = rd_num_qp rd * qdepth * RQE_SIZE" for qp q b1 b2 b3 T' w1
  proof -
    have "typed_dev T' dev rd"
      using d keep [OF c(2)] unfolding typed_dev_def typed_rn_def by (metis obj.distinct obj.simps)
    then have tq: "typed_queue T' dev rd qpid qp q"
      using c tab(2) q(1) unfolding typed_queue_def by auto
    have p: "T' (qp_pd_entry q) = Some (O_pd pd0)" "T' (qp_dst_mac q) = Some (O_mac mac)"
      using keep [OF c(2) pd] keep [OF c(2) mac] q by auto
    show ?thesis
      by (intro wp_thenM wp_program_qp [OF c(1,5,6,7) p] wp_returnM)
        (rule Q [where T' = T' and q = q and b = b2 and bq = b3, OF _ c(2) tq c(4) c(6) q(2,3,5-9) c(7) q(10)], assumption)
  qed
  show ?thesis
    unfolding allocate_rdma_qp_def
    by (intro wp_bindM wp_load_typed(4) [OF w ws(1)] wp_load_typed(2) [OF w ws(2)]
        wp_build_qp [OF w E rn tab(1) _ tab(2)]) (simp only: prod.case, erule (11) rest, assumption+)
qed

subsection \<open>Teardown\<close>

lemma quiet_recovery [quiet_intros]:
  assumes "T dev = Some (O_rdma_dev rd)" and "conforms T w" and "\<And>x w'. conforms T w' \<Longrightarrow> Q x w'"
  shows "wp (rdma_qp_fatal_recovery E dev qpid) Q w"
proof -
  have "quiet (wait_queues_empty E a)" for a
    by (rule quietI, rule keeps_wait_queues_empty)
      (auto intro: reflp_same_store transp_same_store mmio_sample_keeps
        simp: wait_queues_empty_def wp_def Let_def split: option.split)
  moreover have "quiet (\<lambda>w. let r = wait_heads E a b 0 w in Some (Ret (fst r), snd r))" for a b
    unfolding Let_def
    by (rule quietI, rule keeps_wait_heads)
      (auto intro: reflp_same_store transp_same_store mmio_sample_keeps simp: wp_def)
  ultimately show ?thesis
    unfolding rdma_qp_fatal_recovery_def
    by (intro wp_bindM wp_load_typed(4) [OF assms(2,1)] wp_quiet [OF _ assms(2)] quiet_intros assms(3))
qed

lemma quiet_reset_qp [quiet_intros]: "quiet (reset_qp E base qpid)"
  unfolding reset_qp_def by (intro quiet_intros)

definition drop_types :: "typing \<Rightarrow> ptr list \<Rightarrow> typing" where
  "drop_types T ps = (\<lambda>p. if p \<in> set ps then None else T p)"

lemma drop_types_simps [simp]:
  "drop_types T [] = T" "(drop_types T ps)(p := None) = drop_types T (ps @ [p])"
  "T(p := None) = drop_types T [p]" "drop_types (drop_types T ps) qs = drop_types T (ps @ qs)"
  by (auto simp: drop_types_def fun_eq_iff)

lemma drop_types_other: "T p = Some s \<Longrightarrow> p \<notin> set ps \<Longrightarrow> drop_types T ps p = Some s"
  by (simp add: drop_types_def)

lemma wp_free_next:
  assumes "conforms (drop_types T ps) w" and "T p = Some s" and "p \<notin> set ps"
    and "\<And>w'. conforms (drop_types T (ps @ [p])) w' \<Longrightarrow> Q () w'"
  shows "wp (free_obj p) Q w"
proof -
  have "drop_types T ps p = Some s" using assms(2,3) by (simp add: drop_types_def)
  from wp_free_typed [OF assms(1) this] assms(4) show ?thesis by simp
qed

text \<open>The destruction of a queue pair frees its three buffers and its protection domain.\<close>

lemma wp_destroy_qp:
  assumes w: "conforms T w" and q: "T qp = Some (O_qp q0)" "T (qp_rdma_dev q0) = Some (O_rdma_dev rd)"
    and own: "T (qp_sq q0) = Some (O_rdma_buff b1)" "T (qp_rq q0) = Some (O_rdma_buff b2)"
      "T (qp_cq q0) = Some (O_rdma_buff b3)" "T (qp_pd_entry q0) = Some (O_pd pd)"
      "distinct [qp_sq q0, qp_rq q0, qp_cq q0]"
    and Q: "\<And>x w'. conforms (drop_types T (owned q0)) w' \<Longrightarrow> Q x w'"
  shows "wp (destroy_rdma_qp E qp) Q w"
proof -
  have ne: "qp_pd_entry q0 \<noteq> qp_sq q0" "qp_pd_entry q0 \<noteq> qp_rq q0" "qp_pd_entry q0 \<noteq> qp_cq q0"
    using own by auto
  have f1: "wp (free_obj p) R w1" if "conforms T w1" "p = qp_sq q0"
    "\<And>w'. conforms (drop_types T [qp_sq q0]) w' \<Longrightarrow> R () w'" for p R w1
    using that wp_free_next [of T "[]" w1 "qp_sq q0"] own by auto
  have f2: "wp (free_obj p) R w1" if "conforms (drop_types T [qp_sq q0]) w1" "p = qp_rq q0"
    "\<And>w'. conforms (drop_types T [qp_sq q0, qp_rq q0]) w' \<Longrightarrow> R () w'" for p R w1
    using that wp_free_next [of T "[qp_sq q0]" w1 "qp_rq q0"] own by auto
  have f3: "wp (free_obj p) R w1" if "conforms (drop_types T [qp_sq q0, qp_rq q0]) w1" "p = qp_cq q0"
    "\<And>w'. conforms (drop_types T [qp_sq q0, qp_rq q0, qp_cq q0]) w' \<Longrightarrow> R () w'" for p R w1
    using that wp_free_next [of T "[qp_sq q0, qp_rq q0]" w1 "qp_cq q0"] own by auto
  have f4: "wp (free_obj p) R w1" if "conforms (drop_types T [qp_sq q0, qp_rq q0, qp_cq q0]) w1"
    "p = qp_pd_entry q0" "\<And>w'. conforms (drop_types T (owned q0)) w' \<Longrightarrow> R () w'" for p R w1
    using that wp_free_next [of T "[qp_sq q0, qp_rq q0, qp_cq q0]" w1 "qp_pd_entry q0"] own ne
    by (auto simp: owned_def)
  have nn: "qp \<noteq> NULL" using conforms_dom [OF w q(1)] by simp
  have dev: "T (qp_rdma_dev q) = Some (O_rdma_dev rd)" if "qp_shape q = qp_shape q0" for q
    using q(2) qp_shape_eqD(1) [OF that] by simp
  show ?thesis
    unfolding destroy_rdma_qp_def destroy_pd_free Let_def using w
    by - ((assumption | erule Q | erule f4 f3 f2 f1 | rule q(1) dev wp_quiet [OF quiet_reset_qp]
        quiet_recovery wp_intros | (rule qp_shape_eqD, assumption) | (simp add: nn; fail))+)
qed

lemma wp_destroy_dev:
  assumes w: "conforms T w" and dev: "T dev = Some (O_rdma_dev rd)" and csr: "T (rd_glb_csr rd) = Some (O_glb_csr gc)"
    and qt: "T (rd_qps_ptr rd) = Some (O_qp_table qt)" "rd_num_qp rd = word_of_nat (List.length qt)" "List.length qt < 2 ^ 32"
    and one: "i < List.length qt" "\<And>j. j < List.length qt \<Longrightarrow> j \<noteq> i \<Longrightarrow> qt ! j = NULL"
    and q: "T (qt ! i) = Some (O_qp q0)" "T (qp_rdma_dev q0) = Some (O_rdma_dev rd)"
    and own: "T (qp_sq q0) = Some (O_rdma_buff b1)" "T (qp_rq q0) = Some (O_rdma_buff b2)"
      "T (qp_cq q0) = Some (O_rdma_buff b3)" "T (qp_pd_entry q0) = Some (O_pd pd)"
      "distinct [qp_sq q0, qp_rq q0, qp_cq q0]"
    and Q: "\<And>x w'. conforms (drop_types T (rd_glb_csr rd # owned q0)) w' \<Longrightarrow> Q x w'"
  shows "wp (destroy_rdma_dev E dev) Q w"
proof -
  let ?T1 = "drop_types T [rd_glb_csr rd]" and ?T2 = "drop_types T (rd_glb_csr rd # owned q0)"
  have dec: "drop_types ?T1 (owned q0) = ?T2" by simp
  have nn: "dev \<noteq> NULL" using conforms_dom [OF w dev] by simp
  have look: "?T1 p = T p" if "T p \<noteq> Some (O_glb_csr gc)" for p using that csr by (auto simp: drop_types_def)
  have look2: "?T2 (rd_qps_ptr rd) = Some (O_qp_table qt)" using qt(1) csr own
    by (auto simp: drop_types_def owned_def)
  have num: "unat (rd_num_qp rd) = List.length qt" using qt(2,3) by (simp add: unat_of_nat)
  have idx: "unat (word_of_nat j :: u32) = j" if "j < List.length qt" for j using that qt(3) by (simp add: unat_of_nat)
  have slot: "wp (destroy_slot E rd j) (\<lambda>_. conforms T') w1"
    if "conforms T' w1" "T' (rd_qps_ptr rd) = Some (O_qp_table qt)" "j < List.length qt" "j \<noteq> i" for T' w1 j
    unfolding destroy_slot_def qps_index_def using that idx one(2)
    by (auto intro!: wp_intros simp: destroy_rdma_qp_def)
  have slots: "wp (forM js (destroy_slot E rd)) (\<lambda>_. conforms T') w1"
    if "conforms T' w1" "T' (rd_qps_ptr rd) = Some (O_qp_table qt)" "\<forall>j \<in> set js. j < List.length qt \<and> j \<noteq> i"
    for T' w1 js
    using that by (intro wp_forM slot) auto
  have mine: "wp (destroy_slot E rd i) (\<lambda>_. conforms ?T2) w1" if "conforms ?T1 w1" for w1
  proof -
    have "wp (destroy_rdma_qp E (qt ! i)) (\<lambda>_. conforms (drop_types ?T1 (owned q0))) w1"
      by (rule wp_destroy_qp [OF that, where rd = rd and ?b1.0 = b1 and ?b2.0 = b2 and ?b3.0 = b3 and pd = pd])
        (use q own in \<open>auto simp: look\<close>)
    then show ?thesis
      unfolding destroy_slot_def qps_index_def dec using idx [OF one(1)] one(1)
      by (intro wp_bindM wp_load_typed(5) [OF that, of _ qt] wp_if wp_returnM wp_thenM) (auto simp: look qt(1) elim: wp_mono intro: wp_returnM)
  qed
  have split: "[0..<List.length qt] = [0..<i] @ i # [Suc i..<List.length qt]"
    using one(1) upt_add_eq_append [of 0 i "List.length qt - i"] by (simp add: upt_conv_Cons)
  have all: "wp (forM [0..<List.length qt] (destroy_slot E rd)) (\<lambda>_. conforms ?T2) w1" if "conforms ?T1 w1" for w1
  proof -
    have A: "wp (forM [0..<i] (destroy_slot E rd)) (\<lambda>_. conforms ?T1) w1"
      using one(1) by (intro slots that) (auto simp: look qt(1))
    have B: "wp (forM [Suc i..<List.length qt] (destroy_slot E rd)) (\<lambda>_. conforms ?T2) w2" if "conforms ?T2 w2" for w2
      by (intro slots that look2) auto
    show ?thesis
      unfolding split forM_append forM.simps
      by (rule wp_thenM, rule wp_mono [OF A], rule wp_thenM, rule wp_mono [OF mine], assumption, rule B)
  qed
  have loop: "wp (forM [0..<List.length qt] (\<lambda>i. bindM (qps_index rd (word_of_nat i)) (\<lambda>qp.
      thenM (destroy_rdma_qp E qp) (returnM ())))) R w1"
    if "conforms ?T1 w1" "\<And>x w'. conforms ?T2 w' \<Longrightarrow> R x w'" for R w1
    by (rule wp_mono [OF all [OF that(1), unfolded destroy_slot_def]]) (rule that(2))
  have free: "wp (free_obj (rd_glb_csr rd)) R w" if "\<And>w'. conforms ?T1 w' \<Longrightarrow> R () w'" for R
    using that wp_free_next [of T "[]" w "rd_glb_csr rd"] w csr by auto
  show ?thesis
    unfolding destroy_rdma_dev_def
    by (intro wp_if wp_bindM wp_load_typed(4) [OF w dev] wp_thenM free)
      (auto simp: num nn intro!: loop wp_intros Q)
qed

lemma wp_destroy_rn_dev:
  assumes w: "conforms T w" and rn: "T rn = Some (O_rn_dev d)" "T (rn_base_buf d) = Some (O_rdma_buff bb)"
    and dev: "T (rn_rdma_dev d) = Some (O_rdma_dev rd)" and csr: "T (rd_glb_csr rd) = Some (O_glb_csr gc)"
    and qt: "T (rd_qps_ptr rd) = Some (O_qp_table qt)" "rd_num_qp rd = word_of_nat (List.length qt)" "List.length qt < 2 ^ 32"
    and one: "i < List.length qt" "\<And>j. j < List.length qt \<Longrightarrow> j \<noteq> i \<Longrightarrow> qt ! j = NULL"
    and q: "T (qt ! i) = Some (O_qp q0)" "T (qp_rdma_dev q0) = Some (O_rdma_dev rd)"
    and own: "T (qp_sq q0) = Some (O_rdma_buff b1)" "T (qp_rq q0) = Some (O_rdma_buff b2)"
      "T (qp_cq q0) = Some (O_rdma_buff b3)" "T (qp_pd_entry q0) = Some (O_pd pd)"
      "distinct [rn_base_buf d, qp_sq q0, qp_rq q0, qp_cq q0]"
    and Q: "\<And>x w'. conforms (drop_types T (rn_base_buf d # rd_glb_csr rd # owned q0)) w' \<Longrightarrow> Q x w'"
  shows "wp (destroy_rn_dev E rn) Q w"
proof -
  let ?T1 = "drop_types T [rn_base_buf d]"
  have nn: "rn \<noteq> NULL" using conforms_dom [OF w rn(1)] by simp
  have look: "?T1 p = T p" if "p \<noteq> rn_base_buf d" for p using that by (simp add: drop_types_def)
  have ne: "rn_rdma_dev d \<noteq> rn_base_buf d" "rd_glb_csr rd \<noteq> rn_base_buf d" "rd_qps_ptr rd \<noteq> rn_base_buf d"
    "qt ! i \<noteq> rn_base_buf d" "qp_rdma_dev q0 \<noteq> rn_base_buf d" "qp_pd_entry q0 \<noteq> rn_base_buf d"
    using rn dev csr qt q own by auto
  have free: "wp (free_obj (rn_base_buf d)) R w" if "\<And>w'. conforms ?T1 w' \<Longrightarrow> R () w'" for R
    using that wp_free_next [of T "[]" w "rn_base_buf d"] w rn by auto
  have dest: "wp (destroy_rdma_dev E (rn_rdma_dev d)) R w1"
    if "conforms ?T1 w1" "\<And>x w'. conforms (drop_types T (rn_base_buf d # rd_glb_csr rd # owned q0)) w' \<Longrightarrow> R x w'" for R w1
    by (rule wp_destroy_dev [OF that(1), where rd = rd and gc = gc and qt = qt and i = i and ?q0.0 = q0
          and ?b1.0 = b1 and ?b2.0 = b2 and ?b3.0 = b3 and pd = pd])
      (use dev csr qt one q own ne that(2) in \<open>auto simp: look\<close>)
  show ?thesis
    unfolding destroy_rn_dev_def
    by (intro wp_if wp_bindM wp_load_rn [OF w rn(1)] wp_thenM)
      (auto simp: nn intro!: free dest wp_intros Q)
qed

end
