(* ===== verification/Example_Setup.thy ===== *)
theory Example_Setup
  imports Example_Host Lifecycle_Types
begin

text \<open>
  The frame of the example programs: steps 1 to 7 that bring up the device, the engine and one
  queue pair, and the code behind the label \<open>out\<close> that takes everything down again. The five
  programs of \<open>src/examples/rdma_test\<close> and \<open>network_systolic_mm.c\<close> repeat these lines; what
  differs is the size of the golden data, an argument here. The lemmas establish what the bodies of
  the programs start from: a conforming store with one typed queue, whose objects are the ones
  that \<open>out\<close> frees.
\<close>

subsection \<open>The session\<close>

definition P_KEY :: u32 where
  "P_KEY = 0x1234"

definition R_KEY :: u32 where
  "R_KEY = 0x0008"

definition preallocated_hugepages :: u32 where
  "preallocated_hugepages = 256"

text \<open>The global configuration of the engine.\<close>

definition num_qp :: u8 where "num_qp = 8"
definition num_data_buf :: u16 where "num_data_buf = 4096"
definition per_data_buf_size :: u16 where "per_data_buf_size = 4096"
definition ipkt_err_stat_q_size :: u16 where "ipkt_err_stat_q_size = 8192"
definition num_err_buf :: u16 where "num_err_buf = 256"
definition per_err_buf_size :: u16 where "per_err_buf_size = 256"
definition resp_err_pkt_buf_size :: u64 where "resp_err_pkt_buf_size = 65536"

text \<open>The local variables of \<open>main\<close> that live until \<open>out\<close>.\<close>

record session =
  s_sockfd :: i32
  s_rn_dev :: ptr
  s_pcie_resource_fd :: i32
  s_rdma_dev :: ptr
  s_cidb_buffer :: ptr
  s_data_buf :: ptr
  s_ipkterr_buf :: ptr
  s_err_buf :: ptr
  s_resp_err_pkt_buf :: ptr
  s_rdma_pd :: ptr
  s_golden :: ptr
  s_golden_size :: u64

definition main_qpid :: u32 where
  "main_qpid = 2"

text \<open>Steps 1 and 2. A NULL path makes \<open>open\<close> fail, and \<open>create_rn_dev\<close> exits.\<close>

definition create_devices :: "env \<Rightarrow> options \<Rightarrow> (ptr \<times> i32 \<times> ptr) io" where
  "create_devices E o1 =
     (case opt_pcie_resource o1 of
        None \<Rightarrow> exitM EXIT_FAILURE
      | Some pcie_resource \<Rightarrow>
          bindM (create_rn_dev E pcie_resource preallocated_hugepages (ucast num_qp)) (\<lambda>(rn_dev, pcie_resource_fd).
          bindM (create_rdma_dev E rn_dev) (\<lambda>rdma_dev.
          returnM (rn_dev, pcie_resource_fd, rdma_dev))))"

text \<open>Step 3. The products of the configuration are computed in \<open>int\<close>.\<close>

definition allocate_support_buffers :: "env \<Rightarrow> ptr \<Rightarrow> (ptr \<times> ptr \<times> ptr \<times> ptr \<times> ptr) io" where
  "allocate_support_buffers E rn_dev =
     bindM (allocate_rdma_buffer E rn_dev (push_bit HUGE_PAGE_SHIFT 1) HOST_MEM) (\<lambda>cidb_buffer.
     bindM (allocate_rdma_buffer E rn_dev (ucast num_data_buf * ucast per_data_buf_size) HOST_MEM) (\<lambda>data_buf.
     bindM (allocate_rdma_buffer E rn_dev (ucast ipkt_err_stat_q_size) HOST_MEM) (\<lambda>ipkterr_buf.
     bindM (allocate_rdma_buffer E rn_dev (ucast num_err_buf * ucast per_err_buf_size) HOST_MEM) (\<lambda>err_buf.
     bindM (allocate_rdma_buffer E rn_dev resp_err_pkt_buf_size HOST_MEM) (\<lambda>resp_err_pkt_buf.
     returnM (cidb_buffer, data_buf, ipkterr_buf, err_buf, resp_err_pkt_buf))))))"

text \<open>Steps 4 and 5.\<close>

definition open_engine :: "env \<Rightarrow> options \<Rightarrow> mac_addr_t \<Rightarrow> ptr \<Rightarrow> ptr \<Rightarrow> ptr \<Rightarrow> ptr \<Rightarrow> ptr \<Rightarrow> ptr io" where
  "open_engine E o1 src_mac rdma_dev data_buf ipkterr_buf err_buf resp_err_pkt_buf =
     bindM (load as_rdma_buff data_buf) (\<lambda>data.
     bindM (load as_rdma_buff ipkterr_buf) (\<lambda>ipkterr.
     bindM (load as_rdma_buff err_buf) (\<lambda>err.
     bindM (load as_rdma_buff resp_err_pkt_buf) (\<lambda>resp.
     thenM (open_rdma_dev rdma_dev src_mac (opt_src_ip o1) (ucast (opt_udp_sport o1)) num_data_buf
              per_data_buf_size (buf_dma_addr data) ipkt_err_stat_q_size (buf_dma_addr ipkterr)
              num_err_buf per_err_buf_size (buf_dma_addr err) resp_err_pkt_buf_size (buf_dma_addr resp))
       (allocate_rdma_pd E rdma_dev 0)))))"

text \<open>
  The character device of the library's global \<open>device\<close>, kept in its global \<open>fpga_fd\<close>.
  \<open>False\<close> is the return of \<open>-EINVAL\<close>.
\<close>

definition open_device_file :: "env \<Rightarrow> bool io" where
  "open_device_file E =
     bindM (getsM g_device) (\<lambda>device.
     bindM (sys_open E device) (\<lambda>fpga_fd.
     thenM (modifyM (\<lambda>w. w\<lparr>g_fpga_fd := fpga_fd\<rparr>)) (
     if is_negative fpga_fd then thenM (sys_close fpga_fd) (returnM False) else returnM True)))"

text \<open>Steps 6 and 7. \<open>dst_mac\<close> is the global variable whose address the queue pair keeps.\<close>

definition create_queue :: "env \<Rightarrow> options \<Rightarrow> ptr \<Rightarrow> ptr \<Rightarrow> ptr \<Rightarrow> ptr \<Rightarrow> unit io" where
  "create_queue E o1 dst_mac rdma_dev rdma_pd cidb_buffer =
     bindM (load as_rdma_buff cidb_buffer) (\<lambda>cidb.
     let cq_cidb_addr = buf_dma_addr cidb;
         rq_cidb_addr = buf_dma_addr cidb + ucast (push_bit 2 (ucast num_qp :: u32));
         qdepth = 64 in
     thenM (allocate_rdma_qp E rdma_dev main_qpid (opt_dst_qpid o1) rdma_pd cq_cidb_addr rq_cidb_addr
              qdepth (opt_qp_location o1) dst_mac (opt_dst_ip o1) P_KEY) (
     thenM (config_last_rq_psn rdma_dev main_qpid 0xabc)
       (config_sq_psn rdma_dev main_qpid (0xabc + 1))))"

text \<open>
  The golden data. \<open>malloc\<close> is not checked, so a failure is a fault at the first word.
\<close>

definition make_golden :: "env \<Rightarrow> u32 \<Rightarrow> ptr io" where
  "make_golden E payload_size =
     bindM (malloc E (O_mem (ucast payload_size))) (\<lambda>sw_golden.
     thenM (fill_golden E sw_golden (unat (drop_bit 2 payload_size)))
       (returnM sw_golden))"

text \<open>
  A global variable: an object that is there from the start and never freed.
\<close>

definition static_object :: "obj \<Rightarrow> ptr io" where
  "static_object ob = (\<lambda>w. let p = next_ptr w in
     Some (Ret p, w\<lparr>next_ptr := Suc p, heap := (heap w)(p \<mapsto> ob)\<rparr>))"

text \<open>\<open>-EINVAL\<close>, the result of \<open>main\<close> when the device file does not open.\<close>

definition minus_EINVAL :: i32 where
  "minus_EINVAL = - 22"

text \<open>
  All of it, from the lookup of the own MAC address to the golden data. \<open>golden\<close> makes the data;
  \<open>None\<close> is the early return.
\<close>

definition example_setup ::
    "env \<Rightarrow> host \<Rightarrow> i32 \<Rightarrow> options \<Rightarrow> u64 \<Rightarrow> ptr io \<Rightarrow> session option io" where
  "example_setup E H sockfd o1 golden_size golden =
     bindM (static_object (O_mac (opt_dst_mac o1))) (\<lambda>dst_mac.
     bindM (lift_outcome (get_mac_addr_from_str_ip (h_hwaddr H) (h_ifaddrs H) (opt_src_ip_str o1))) (\<lambda>src_mac.
     bindM (create_devices E o1) (\<lambda>(rn_dev, pcie_resource_fd, rdma_dev).
     bindM (allocate_support_buffers E rn_dev) (\<lambda>(cidb_buffer, data_buf, ipkterr_buf, err_buf, resp_err_pkt_buf).
     bindM (open_engine E o1 src_mac rdma_dev data_buf ipkterr_buf err_buf resp_err_pkt_buf) (\<lambda>rdma_pd.
     bindM (open_device_file E) (\<lambda>opened.
     if \<not> opened then returnM None else
     thenM (create_queue E o1 dst_mac rdma_dev rdma_pd cidb_buffer) (
     bindM golden (\<lambda>sw_golden.
     returnM (Some
       \<lparr>s_sockfd = sockfd, s_rn_dev = rn_dev, s_pcie_resource_fd = pcie_resource_fd,
        s_rdma_dev = rdma_dev, s_cidb_buffer = cidb_buffer, s_data_buf = data_buf,
        s_ipkterr_buf = ipkterr_buf, s_err_buf = err_buf, s_resp_err_pkt_buf = resp_err_pkt_buf,
        s_rdma_pd = rdma_pd, s_golden = sw_golden, s_golden_size = golden_size\<rparr>)))))))))"

subsection \<open>The end\<close>

text \<open>How a body of a program goes on: past its end, to \<open>out\<close>, or with a \<open>return\<close>.\<close>

datatype flow = Continue | Goto_Out | Return i32

text \<open>The code behind \<open>out\<close>: the result is 0 however it was reached.\<close>

definition cleanup :: "env \<Rightarrow> session \<Rightarrow> i32 io" where
  "cleanup E s =
     thenM (free_obj (s_cidb_buffer s)) (
     thenM (free_obj (s_data_buf s)) (
     thenM (free_obj (s_ipkterr_buf s)) (
     thenM (free_obj (s_err_buf s)) (
     thenM (free_obj (s_resp_err_pkt_buf s)) (
     thenM (free_obj (s_golden s)) (
     bindM (getsM g_fpga_fd) (\<lambda>fpga_fd.
     thenM (sys_close fpga_fd) (
     thenM (sys_close (s_pcie_resource_fd s)) (
     thenM (destroy_rn_dev E (s_rn_dev s))
       (returnM 0))))))))))"

text \<open>\<open>shutdown\<close> and \<open>close\<close> of a socket; a failure of \<open>shutdown\<close> is only printed.\<close>

definition shutdown_close :: "i32 \<Rightarrow> unit io" where
  "shutdown_close sockfd = thenM (modifyM (emit (Sock_Shutdown sockfd))) (sys_close sockfd)"

text \<open>
  The frame around the two bodies: the client's, the server's, the closing of the socket, and \<open>out\<close>.
  Both bodies are under their own flag.
\<close>

definition run_bodies :: "env \<Rightarrow> options \<Rightarrow> session \<Rightarrow> flow io \<Rightarrow> flow io \<Rightarrow> unit io \<Rightarrow> i32 io" where
  "run_bodies E o1 s client_body server_body close_socket =
     bindM (if opt_client o1 \<noteq> 0 then client_body else returnM Continue) (\<lambda>f.
     case f of
       Return rc \<Rightarrow> returnM rc
     | Goto_Out \<Rightarrow> cleanup E s
     | Continue \<Rightarrow>
         bindM (if opt_server o1 \<noteq> 0 then server_body else returnM Continue) (\<lambda>f.
         case f of
           Return rc \<Rightarrow> returnM rc
         | Goto_Out \<Rightarrow> cleanup E s
         | Continue \<Rightarrow> thenM close_socket (cleanup E s)))"

subsection \<open>What the bodies start from\<close>

text \<open>The two devices, with the objects that their destruction follows.\<close>

definition devices_typed :: "typing \<Rightarrow> ptr \<Rightarrow> ptr \<Rightarrow> ptr \<Rightarrow> rdma_dev_t \<Rightarrow> ptr list \<Rightarrow> bool" where
  "devices_typed T rn dev base rd qt \<longleftrightarrow>
     (\<exists>d. T rn = Some (O_rn_dev d) \<and> rn_rdma_dev d = dev \<and> rn_base_buf d = base) \<and>
     (\<exists>bb. T base = Some (O_rdma_buff bb)) \<and> (\<exists>gc. T (rd_glb_csr rd) = Some (O_glb_csr gc)) \<and>
     typed_dev T dev rd \<and> rd_rn_dev rd = rn \<and> rd_num_qp rd = 8 \<and> T (rd_qps_ptr rd) = Some (O_qp_table qt)"

text \<open>The buffers that only this program refers to.\<close>

definition support :: "session \<Rightarrow> ptr list" where
  "support s = [s_cidb_buffer s, s_data_buf s, s_ipkterr_buf s, s_err_buf s, s_resp_err_pkt_buf s]"

definition typed_session :: "typing \<Rightarrow> session \<Rightarrow> rdma_dev_t \<Rightarrow> ptr \<Rightarrow> rdma_qp_t \<Rightarrow> bool" where
  "typed_session T s rd qp q \<longleftrightarrow>
     (\<exists>base. devices_typed T (s_rn_dev s) (s_rdma_dev s) base rd ((replicate 8 NULL)[2 := qp]) \<and>
        distinct (base # support s @ [qp_sq q, qp_rq q, qp_cq q])) \<and>
     typed_queue T (s_rdma_dev s) rd main_qpid qp q \<and> qp_rdma_dev q = s_rdma_dev s \<and>
     qp_pd_entry q = s_rdma_pd s \<and> qp_qdepth q = 64 \<and>
     (\<exists>b. T (qp_rq q) = Some (O_rdma_buff b) \<and> buf_buf_size b = 8 * 64 * RQE_SIZE) \<and> (\<exists>pd. T (s_rdma_pd s) = Some (O_pd pd)) \<and>
     (\<exists>b. T (qp_cq q) = Some (O_rdma_buff b)) \<and> (\<forall>p \<in> set (support s). \<exists>b. T p = Some (O_rdma_buff b)) \<and>
     T (s_golden s) = Some (O_mem (s_golden_size s))"

lemma devices_typed_mono: "extends T' T {} \<Longrightarrow> devices_typed T rn dev base rd qt \<Longrightarrow> devices_typed T' rn dev base rd qt"
  unfolding devices_typed_def by (auto dest: extendsD typed_mono(2))

lemma devices_typed_fresh: "T p = None \<Longrightarrow> devices_typed T rn dev base rd qt \<Longrightarrow> devices_typed (T(p \<mapsto> x)) rn dev base rd qt"
  by (rule devices_typed_mono) (simp_all add: extends_def)

lemma devices_typed_queue:
  assumes "extends T' T {rd_qps_ptr rd}" and "devices_typed T rn dev base rd qt" and "T' (rd_qps_ptr rd) = Some (O_qp_table qt')"
  shows "devices_typed T' rn dev base rd qt'"
proof -
  have keep: "T' p = Some x" if "T p = Some x" "x \<noteq> O_qp_table qt" for p x
    using that assms(2) by (intro extendsD [OF assms(1)]) (auto simp: devices_typed_def)
  from assms(2,3) show ?thesis
    unfolding devices_typed_def typed_dev_def typed_rn_def by (auto dest!: keep) 
qed

lemma typed_session_mono: "extends T' T {} \<Longrightarrow> typed_session T s rd qp q \<Longrightarrow> typed_session T' s rd qp q"
proof -
  assume E: "extends T' T {}" and s: "typed_session T s rd qp q"
  have keep: "T p = Some x \<Longrightarrow> T' p = Some x" for p x using E by (simp add: extends_def)
  show ?thesis
    using s unfolding typed_session_def
    by (blast intro: typed_mono(3) [OF E] devices_typed_mono [OF E] keep)
qed

text \<open>An array that is not the golden one can go.\<close>

lemma typed_session_drop:
  assumes p: "T p = Some (O_mem n)" "p \<noteq> s_golden s" and s: "typed_session T s rd qp q"
  shows "typed_session (T(p := None)) s rd qp q"
proof -
  have keep: "T x = Some (O_rn_dev v1) \<Longrightarrow> (T(p := None)) x = Some (O_rn_dev v1)"
    "T x = Some (O_rdma_buff v2) \<Longrightarrow> (T(p := None)) x = Some (O_rdma_buff v2)"
    "T x = Some (O_rdma_dev v3) \<Longrightarrow> (T(p := None)) x = Some (O_rdma_dev v3)"
    "T x = Some (O_glb_csr v4) \<Longrightarrow> (T(p := None)) x = Some (O_glb_csr v4)"
    "T x = Some (O_qp_table v5) \<Longrightarrow> (T(p := None)) x = Some (O_qp_table v5)"
    "T x = Some (O_qp v6) \<Longrightarrow> (T(p := None)) x = Some (O_qp v6)"
    "T x = Some (O_pd v7) \<Longrightarrow> (T(p := None)) x = Some (O_pd v7)"
    "T x = Some (O_win_size v8) \<Longrightarrow> (T(p := None)) x = Some (O_win_size v8)"
    for x v1 v2 v3 v4 v5 v6 v7 v8 using p(1) by (auto simp: drop_types_def)
  have rn: "typed_rn T r \<Longrightarrow> typed_rn (T(p := None)) r" for r
    unfolding typed_rn_def by (blast intro: keep)
  have dev: "typed_dev T d rd \<Longrightarrow> typed_dev (T(p := None)) d rd" for d
    unfolding typed_dev_def by (blast intro: keep rn)
  have "typed_queue T d rd i qp q \<Longrightarrow> typed_queue (T(p := None)) d rd i qp q" for d i
    unfolding typed_queue_def by (blast intro: keep dev)
  moreover have "devices_typed T r d base rd qt \<Longrightarrow> devices_typed (T(p := None)) r d base rd qt" for r d base qt
    unfolding devices_typed_def by (blast intro: keep dev)
  moreover have "T (s_golden s) = Some x \<Longrightarrow> (T(p := None)) (s_golden s) = Some x" for x using p(2) by (simp add: drop_types_def)
  ultimately show ?thesis
    using s unfolding typed_session_def by (blast intro: keep)
qed

lemma typed_session_fresh: "T p = None \<Longrightarrow> typed_session T s rd qp q \<Longrightarrow> typed_session (T(p \<mapsto> x)) s rd qp q"
  by (rule typed_session_mono) (simp_all add: extends_def)

lemma wp_create_devices:
  assumes w: "conforms T w" and E: "host_ready E"
    and Q: "\<And>rn fd dev base rd T' w'. conforms T' w' \<Longrightarrow> extends T' T {} \<Longrightarrow>
      devices_typed T' rn dev base rd (replicate 8 NULL) \<Longrightarrow> Q (rn, fd, dev) w'"
  shows "wp (create_devices E o1) Q w"
proof -
  have second: "wp (bindM (create_rdma_dev E rn) (\<lambda>dev. returnM (rn, fd, dev))) Q w1"
    if c: "conforms T1 w1" "extends T1 T {}" "T1 rn = Some (O_rn_dev d0)" "rn_num_qp d0 = 8"
      "T1 (rn_base_buf d0) = Some (O_rdma_buff bb)" "T1 (rn_winSize d0) = Some (O_win_size ws)" "T rn = None"
    for T1 w1 rn d0 bb ws fd
  proof (intro wp_bindM wp_create_rdma_dev [OF c(1) E c(3)] wp_returnM)
    fix dev rd d T2 w2
    assume r: "conforms T2 w2" "extends T2 T1 {rn}" "T2 rn = Some (O_rn_dev d)" "T2 dev = Some (O_rdma_dev rd)"
      "T2 (rd_glb_csr rd) = Some (O_glb_csr (junk_glb_csr E))"
      "T2 (rd_qps_ptr rd) = Some (O_qp_table (replicate (unat (rn_num_qp d0)) NULL))" "rn_rdma_dev d = dev"
      "rn_base_buf d = rn_base_buf d0" "rn_winSize d = rn_winSize d0" "rd_rn_dev rd = rn"
      "rd_winSize rd = rn_winSize d0" "rd_num_qp rd = ucast (rn_num_qp d0)"
    have ne: "rn_base_buf d0 \<noteq> rn" "rn_winSize d0 \<noteq> rn" using c(3,5,6) by auto
    have ext: "extends T2 T {}"
      using r(2) c(2,7) unfolding extends_def by (metis empty_iff insert_iff option.distinct(1))
    have "T2 (rn_base_buf d0) = Some (O_rdma_buff bb)" "T2 (rn_winSize d0) = Some (O_win_size ws)"
      using extendsD [OF r(2) c(5)] extendsD [OF r(2) c(6)] ne by simp_all
    then have "devices_typed T2 rn dev (rn_base_buf d0) rd (replicate 8 NULL)"
      using r c(4) unfolding devices_typed_def typed_dev_def typed_rn_def by simp
    with r(1) ext show "Q (rn, fd, dev) w2" by (rule Q)
  qed (simp add: c(4))
  show ?thesis
    unfolding create_devices_def
    by (intro wp_case_option wp_exitM wp_bindM wp_create_rn_dev [OF w E])
      (simp only: prod.case, erule second; simp add: num_qp_def)
qed

text \<open>Five fresh buffers.\<close>

lemma wp_support_buffers:
  assumes w: "conforms T w" and E: "host_ready E" and rn: "typed_rn T rn"
    and Q: "\<And>a b c d e T' w'. conforms T' w' \<Longrightarrow> extends T' T {} \<Longrightarrow> distinct [a, b, c, d, e] \<Longrightarrow>
      \<forall>p \<in> {a, b, c, d, e}. T p = None \<and> (\<exists>x. T' p = Some (O_rdma_buff x)) \<Longrightarrow> Q (a, b, c, d, e) w'"
  shows "wp (allocate_support_buffers E rn) Q w"
proof -
  have finish: "Q (a, b, c, d, e) w'"
    if c: "conforms (T(a \<mapsto> O_rdma_buff x1, b \<mapsto> O_rdma_buff x2, c \<mapsto> O_rdma_buff x3, d \<mapsto> O_rdma_buff x4,
        e \<mapsto> O_rdma_buff x5)) w'"
      and fresh: "T a = None" "(T(a \<mapsto> O_rdma_buff x1)) b = None"
        "(T(a \<mapsto> O_rdma_buff x1, b \<mapsto> O_rdma_buff x2)) c = None"
        "(T(a \<mapsto> O_rdma_buff x1, b \<mapsto> O_rdma_buff x2, c \<mapsto> O_rdma_buff x3)) d = None"
        "(T(a \<mapsto> O_rdma_buff x1, b \<mapsto> O_rdma_buff x2, c \<mapsto> O_rdma_buff x3, d \<mapsto> O_rdma_buff x4)) e = None"
    for a b c d e x1 x2 x3 x4 x5 w'
    by (rule Q [OF c]) (use fresh in \<open>auto simp: extends_def split: if_splits\<close>)
  show ?thesis
    unfolding allocate_support_buffers_def using w rn
    by - ((assumption | erule (5) finish | rule wp_allocate_buffer [OF _ E] wp_intros
      | (rule typed_rn_fresh, assumption))+)
qed

lemma wp_open_engine:
  assumes w: "conforms T w" and E: "host_ready E" and d: "devices_typed T rn dev base rd qt"
    and bufs: "\<forall>p \<in> {a, b, c, e}. \<exists>x. T p = Some (O_rdma_buff x)"
    and Q: "\<And>pd x w'. conforms (T(pd \<mapsto> O_pd x)) w' \<Longrightarrow> T pd = None \<Longrightarrow> Q pd w'"
  shows "wp (open_engine E o1 mac dev a b c e) Q w"
proof -
  from d obtain gc where rd: "typed_dev T dev rd" "T (rd_glb_csr rd) = Some (O_glb_csr gc)" "T dev = Some (O_rdma_dev rd)"
    by (auto simp: devices_typed_def typed_dev_def)
  from bufs obtain xa xb xc xe where x: "T a = Some (O_rdma_buff xa)" "T b = Some (O_rdma_buff xb)"
    "T c = Some (O_rdma_buff xc)" "T e = Some (O_rdma_buff xe)" by auto
  show ?thesis
    unfolding open_engine_def
    by (intro wp_bindM wp_thenM wp_load_typed(3) [OF w x(1)] wp_load_typed(3) [OF w x(2)]
        wp_load_typed(3) [OF w x(3)] wp_load_typed(3) [OF w x(4)] wp_open_rdma_dev [OF w rd(1,2)])
      (rule wp_allocate_pd [where T = T and rd = rd], assumption, rule E, rule rd(3), erule (1) Q)
qed

lemma wp_open_device_file:
  assumes "conforms T w" and "\<And>x w'. conforms T w' \<Longrightarrow> Q x w'"
  shows "wp (open_device_file E) Q w"
  unfolding open_device_file_def using assms(1)
  by - ((assumption | rule assms(2) wp_sys wp_intros | (simp; fail))+)

lemma wp_static_object:
  assumes "conforms T w" and "\<And>p w'. conforms (T(p \<mapsto> ob)) w' \<Longrightarrow> T p = None \<Longrightarrow> Q p w'"
  shows "wp (static_object ob) Q w"
  using conforms_malloc [OF assms(1), of ob] conforms_fresh [OF assms(1)]
  by (simp add: static_object_def wp_def Let_def) (intro assms(2), drule conforms_extend [where p = "next_ptr w"], simp_all)

lemma wp_create_queue:
  assumes w: "conforms T w" and E: "host_ready E" and d: "devices_typed T rn dev base rd (replicate 8 NULL)"
    and pd: "T pd = Some (O_pd pd0)" and mac: "T macp = Some (O_mac mac)" and cidb: "T cidb = Some (O_rdma_buff cb)"
    and Q: "\<And>qp q b b3 T' x w'. conforms T' w' \<Longrightarrow> extends T' T {rd_qps_ptr rd} \<Longrightarrow>
      typed_queue T' dev rd main_qpid qp q \<Longrightarrow> T' (rd_qps_ptr rd) = Some (O_qp_table ((replicate 8 NULL)[2 := qp])) \<Longrightarrow>
      T' (qp_cq q) = Some (O_rdma_buff b) \<Longrightarrow> qp_rdma_dev q = dev \<Longrightarrow> qp_pd_entry q = pd \<Longrightarrow>
      qp_qdepth q = 64 \<Longrightarrow> distinct [qp_sq q, qp_rq q, qp_cq q] \<Longrightarrow> T (qp_sq q) = None \<Longrightarrow>
      T (qp_rq q) = None \<Longrightarrow> T (qp_cq q) = None \<Longrightarrow> T' (qp_rq q) = Some (O_rdma_buff b3) \<Longrightarrow>
      buf_buf_size b3 = rd_num_qp rd * 64 * RQE_SIZE \<Longrightarrow> Q x w'"
  shows "wp (create_queue E o1 macp dev pd cidb) Q w"
proof -
  from d have rd: "typed_dev T dev rd" "T (rd_qps_ptr rd) = Some (O_qp_table (replicate 8 NULL))"
    by (auto simp: devices_typed_def)
  have two: "unat main_qpid = 2" by (simp add: main_qpid_def)
  show ?thesis
    unfolding create_queue_def Let_def
    by (intro wp_bindM wp_load_typed(3) [OF w cidb] wp_thenM wp_allocate_qp [OF w E rd _ pd mac],
      simp add: two)
     (erule wp_config_psn(1), assumption, erule wp_config_psn(2), assumption, unfold two, erule Q, assumption+)
qed

lemma wp_get_mac:
  assumes "host_ok H" and "\<And>x. Q x w"
  shows "wp (lift_outcome (get_mac_addr_from_str_ip (h_hwaddr H) (h_ifaddrs H) ip)) Q w"
proof (rule wp_lift_outcome)
  show "get_mac_addr_from_str_ip (h_hwaddr H) (h_ifaddrs H) ip \<noteq> Fault e" for e
    using assms(1) unfolding get_mac_addr_from_str_ip_def host_ok_def
    by (cases "h_ifaddrs H") (simp_all add: find_interface_safe)
qed (rule assms(2))

text \<open>The session, from what the steps have left.\<close>

lemma typed_session_intro:
  assumes dev: "devices_typed T1 rn dev base rd (replicate 8 NULL)" and qt: "extends T2 T1 {rd_qps_ptr rd}"
    and q: "typed_queue T2 dev rd main_qpid qp q" "T2 (rd_qps_ptr rd) = Some (O_qp_table ((replicate 8 NULL)[2 := qp]))"
      "T2 (qp_cq q) = Some (O_rdma_buff b)" "qp_rdma_dev q = dev" "qp_pd_entry q = pd" "qp_qdepth q = 64"
      "distinct [qp_sq q, qp_rq q, qp_cq q]" "T1 (qp_sq q) = None" "T1 (qp_rq q) = None" "T1 (qp_cq q) = None"
      "T2 (qp_rq q) = Some (O_rdma_buff b3)" "buf_buf_size b3 = rd_num_qp rd * 64 * RQE_SIZE"
    and pd: "T1 pd = Some (O_pd pd0)"
    and bufs: "\<forall>p \<in> set (support s). \<exists>x. T1 p = Some (O_rdma_buff x)" "distinct (support s)" "base \<notin> set (support s)"
    and s: "s_rn_dev s = rn" "s_rdma_dev s = dev" "s_rdma_pd s = pd" and g: "T2 (s_golden s) = None"
  shows "typed_session (T2(s_golden s \<mapsto> O_mem (s_golden_size s))) s rd qp q"
proof -
  let ?T = "T2(s_golden s \<mapsto> O_mem (s_golden_size s))"
  have mono: "extends ?T T2 {}" using g by (simp add: extends_def)
  have keep: "T1 p = Some x \<Longrightarrow> x \<noteq> O_qp_table (replicate 8 NULL) \<Longrightarrow> T2 p = Some x" for p x
    using dev by (intro extendsD [OF qt]) (auto simp: devices_typed_def)
  have keep': "T2 p = Some x \<Longrightarrow> ?T p = Some x" for p x using g by auto
  have base: "T1 base \<noteq> None" using dev by (auto simp: devices_typed_def)
  have "base \<noteq> qp_sq q" "base \<noteq> qp_rq q" "base \<noteq> qp_cq q" using base q(8-10) by auto
  moreover have "p \<noteq> qp_sq q \<and> p \<noteq> qp_rq q \<and> p \<noteq> qp_cq q" if "p \<in> set (support s)" for p
    using bufs(1) that q(8-10) by force
  ultimately have "distinct (base # support s @ [qp_sq q, qp_rq q, qp_cq q])"
    using bufs(2,3) q(7) by auto
  moreover have "\<forall>p \<in> set (support s). \<exists>b. ?T p = Some (O_rdma_buff b)"
    using bufs(1) by (blast intro: keep keep')
  moreover have "devices_typed ?T rn dev base rd ((replicate 8 NULL)[2 := qp])"
    by (intro devices_typed_mono [OF mono] devices_typed_queue [OF qt dev q(2)])
  moreover have "typed_queue ?T dev rd main_qpid qp q" by (rule typed_mono(3) [OF mono q(1)])
  moreover have "?T (qp_cq q) = Some (O_rdma_buff b)" "?T pd = Some (O_pd pd0)" "?T (qp_rq q) = Some (O_rdma_buff b3)"
    using keep' [OF q(3)] keep' [OF keep [OF pd]] keep' [OF q(11)] by simp_all
  moreover have "buf_buf_size b3 = 8 * 64 * RQE_SIZE" using q(12) dev by (simp add: devices_typed_def)
  ultimately show ?thesis
    using q s unfolding typed_session_def by auto
qed

text \<open>What was there before is kept, except that queue tables may have been filled.\<close>

definition carries :: "typing \<Rightarrow> typing \<Rightarrow> bool" where
  "carries T T' \<longleftrightarrow> (\<forall>p x. T p = Some x \<longrightarrow> (\<forall>qt. x \<noteq> O_qp_table qt) \<longrightarrow> T' p = Some x)"

lemma carriesD: "carries T T' \<Longrightarrow> T p = Some x \<Longrightarrow> \<forall>qt. x \<noteq> O_qp_table qt \<Longrightarrow> T' p = Some x"
  by (simp add: carries_def)

lemma carries_refl: "carries T T"
  by (simp add: carries_def)

lemma carries_extends:
  "carries T T1 \<Longrightarrow> extends T2 T1 P \<Longrightarrow> \<forall>p \<in> P. \<exists>qt. T1 p = Some (O_qp_table qt) \<Longrightarrow> carries T T2"
  unfolding carries_def extends_def by (metis option.inject)

lemma carries_fresh: "carries T T1 \<Longrightarrow> T1 p = None \<Longrightarrow> carries T (T1(p \<mapsto> x))"
  by (auto simp: carries_def)

lemma wp_example_setup:
  assumes w: "conforms T w" and E: "host_ready E" and H: "host_ok H"
    and golden: "\<And>T w R. conforms T w \<Longrightarrow>
      (\<And>p w'. conforms (T(p \<mapsto> O_mem sz)) w' \<Longrightarrow> T p = None \<Longrightarrow> p \<noteq> NULL \<Longrightarrow> R p w') \<Longrightarrow> wp golden R w"
    and Q: "\<And>T' s rd qp q w'. conforms T' w' \<Longrightarrow> typed_session T' s rd qp q \<Longrightarrow>
      s_golden_size s = sz \<Longrightarrow> s_sockfd s = fd \<Longrightarrow> carries T T' \<Longrightarrow> Q (Some s) w'"
    and no: "\<And>w'. Q None w'"
  shows "wp (example_setup E H fd o1 sz golden) Q w"
proof -
  let ?tail = "\<lambda>rn pfd dev macp a b c d e pd. thenM (create_queue E o1 macp dev pd a) (bindM golden (\<lambda>sw_golden.
      returnM (Some \<lparr>s_sockfd = fd, s_rn_dev = rn, s_pcie_resource_fd = pfd, s_rdma_dev = dev,
        s_cidb_buffer = a, s_data_buf = b, s_ipkterr_buf = c, s_err_buf = d, s_resp_err_pkt_buf = e,
        s_rdma_pd = pd, s_golden = sw_golden, s_golden_size = sz\<rparr>)))"
  let ?engine = "\<lambda>rn pfd dev mac macp a b c d e. bindM (open_engine E o1 mac dev b c d e) (\<lambda>pd.
      bindM (open_device_file E) (\<lambda>opened. if \<not> opened then returnM None else ?tail rn pfd dev macp a b c d e pd))"
  have tail: "wp (?tail rn pfd dev macp a b c d e pd) Q w1"
    if c: "conforms T1 w1" "devices_typed T1 rn dev base rd (replicate 8 NULL)" "T1 macp = Some (O_mac mac)"
      "T1 pd = Some (O_pd pd0)" "\<forall>p \<in> {a, b, c, d, e}. \<exists>x. T1 p = Some (O_rdma_buff x)" "distinct [base, a, b, c, d, e]"
      "carries T T1"
    for T1 w1 rn dev base rd macp mac pd pd0 a b c d e pfd
  proof -
    from c(5) obtain xa where a: "T1 a = Some (O_rdma_buff xa)" by auto
    have fin: "Q (Some s) w2"
      if "conforms T2 w2" "T2 = T3(p \<mapsto> O_mem sz)" "T3 p = None" "extends T3 T1 {rd_qps_ptr rd}"
        "typed_queue T3 dev rd main_qpid qp q" "T3 (rd_qps_ptr rd) = Some (O_qp_table ((replicate 8 NULL)[2 := qp]))"
        "T3 (qp_cq q) = Some (O_rdma_buff qb)" "qp_rdma_dev q = dev" "qp_pd_entry q = pd" "qp_qdepth q = 64"
        "distinct [qp_sq q, qp_rq q, qp_cq q]" "T1 (qp_sq q) = None" "T1 (qp_rq q) = None" "T1 (qp_cq q) = None"
        "T3 (qp_rq q) = Some (O_rdma_buff b3)" "buf_buf_size b3 = rd_num_qp rd * 64 * RQE_SIZE"
        "s = \<lparr>s_sockfd = fd, s_rn_dev = rn, s_pcie_resource_fd = pfd, s_rdma_dev = dev,
        s_cidb_buffer = a, s_data_buf = b, s_ipkterr_buf = c, s_err_buf = d, s_resp_err_pkt_buf = e,
        s_rdma_pd = pd, s_golden = p, s_golden_size = sz\<rparr>" for T2 T3 w2 p qp q qb b3 s
    proof (rule Q [OF that(1)])
      show "typed_session T2 s rd qp q"
        using typed_session_intro [OF c(2) that(4-16) c(4), of s] c(5,6) that(2,3,17) by (simp add: support_def)
      have "carries T T3" using c(2) by (intro carries_extends [OF c(7) that(4)]) (simp add: devices_typed_def)
      then show "carries T T2" unfolding that(2) using that(3) by (rule carries_fresh)
    qed (simp_all add: that(2,17))
    show ?thesis
      by (intro wp_thenM wp_bindM wp_create_queue [OF c(1) E c(2) c(4) c(3) a])
        (erule golden, rule wp_returnM, erule fin, rule refl, assumption+, rule refl)
  qed
  have fifth: "wp (?engine rn pfd dev mac macp a b c d e) Q w1"
    if c: "conforms T1 w1" "devices_typed T1 rn dev base rd (replicate 8 NULL)" "T1 macp = Some (O_mac m)"
      "\<forall>p \<in> {a, b, c, d, e}. \<exists>x. T1 p = Some (O_rdma_buff x)" "distinct [base, a, b, c, d, e]"
      "carries T T1"
    for T1 w1 rn dev base rd macp mac m a b c d e pfd
  proof (intro wp_bindM wp_open_engine [OF c(1) E c(2)])
    fix pd x w2
    assume pd: "conforms (T1(pd \<mapsto> O_pd x)) w2" "T1 pd = None"
    have ne: "macp \<noteq> pd" "\<forall>p \<in> {a, b, c, d, e}. p \<noteq> pd" using c(3,4) pd(2) by auto
    from ne c(3,4) have t: "(T1(pd \<mapsto> O_pd x)) macp = Some (O_mac m)"
      "\<forall>p \<in> {a, b, c, d, e}. \<exists>y. (T1(pd \<mapsto> O_pd x)) p = Some (O_rdma_buff y)" by auto
    show "wp (open_device_file E) (\<lambda>opened. wp (if \<not> opened then returnM None else
      ?tail rn pfd dev macp a b c d e pd) Q) w2"
      by (intro wp_open_device_file [OF pd(1)] wp_if wp_returnM no tail [OF _ devices_typed_fresh [OF pd(2) c(2)] t(1) _ t(2) c(5)
            carries_fresh [OF c(6) pd(2)]])
        (assumption | rule fun_upd_same)+
  qed (use c(4) in auto)
  have third: "wp (bindM (allocate_support_buffers E rn) (\<lambda>(a, b, c, d, e). ?engine rn pfd dev mac macp a b c d e)) Q w1"
    if c: "conforms T1 w1" "devices_typed T1 rn dev base rd (replicate 8 NULL)" "T1 macp = Some (O_mac m)"
      "carries T T1"
    for T1 w1 rn dev base rd macp mac m pfd
  proof (intro wp_bindM wp_support_buffers [OF c(1) E])
    show "typed_rn T1 rn" using c(2) by (auto simp: devices_typed_def typed_dev_def)
  next
    fix a b c d e T2 w2
    assume b: "conforms T2 w2" "extends T2 T1 {}" "distinct [a, b, c, d, e]"
      "\<forall>p \<in> {a, b, c, d, e}. T1 p = None \<and> (\<exists>x. T2 p = Some (O_rdma_buff x))"
    have ne: "base \<notin> {a, b, c, d, e}" using that(2) b(4) by (auto simp: devices_typed_def)
    show "wp (case (a, b, c, d, e) of (a, b, c, d, e) \<Rightarrow> ?engine rn pfd dev mac macp a b c d e) Q w2"
      unfolding prod.case
      by (rule fifth [OF b(1) devices_typed_mono [OF b(2) that(2)] extendsD [OF b(2) that(3)]])
        (use b(3,4) ne carries_extends [OF that(4) b(2)] in auto)
  qed
  show ?thesis
    unfolding example_setup_def
    by (intro wp_bindM wp_static_object [OF w] wp_get_mac [OF H] wp_create_devices [OF _ E], assumption)
      (simp only: prod.case, erule (1) third, erule extendsD, simp_all add: carries_extends [OF carries_fresh [OF carries_refl]])
qed

subsection \<open>The end frees every object once\<close>

lemma wp_cleanup:
  assumes w: "conforms T w" and s: "typed_session T s rd qp q"
    and Q: "\<And>base w'. devices_typed T (s_rn_dev s) (s_rdma_dev s) base rd ((replicate 8 NULL)[2 := qp]) \<Longrightarrow>
      conforms (drop_types T (support s @ s_golden s # base # rd_glb_csr rd # owned q)) w' \<Longrightarrow> Q 0 w'"
  shows "wp (cleanup E s) Q w"
proof -
  from s obtain base pd b where dev: "devices_typed T (s_rn_dev s) (s_rdma_dev s) base rd ((replicate 8 NULL)[2 := qp])"
    and dist: "distinct (base # support s @ [qp_sq q, qp_rq q, qp_cq q])"
    and q: "typed_queue T (s_rdma_dev s) rd main_qpid qp q" "qp_rdma_dev q = s_rdma_dev s" "T (qp_pd_entry q) = Some (O_pd pd)"
      "T (qp_cq q) = Some (O_rdma_buff b)"
    and bufs: "\<forall>p \<in> set (support s). \<exists>b. T p = Some (O_rdma_buff b)" and g: "T (s_golden s) = Some (O_mem (s_golden_size s))"
    unfolding typed_session_def by metis
  let ?P = "support s @ [s_golden s]"
  have freed: "wp (forM ps free_obj) (\<lambda>_. conforms (drop_types T (ps0 @ ps))) w1"
    if "conforms (drop_types T ps0) w1" "distinct (ps0 @ ps)" "\<forall>p \<in> set ps. T p \<noteq> None" for ps ps0 w1
    using that
  proof (induction ps arbitrary: ps0 w1)
    case (Cons p ps)
    from Cons.prems obtain x where "T p = Some x" by auto
    with Cons.prems Cons.IH [of "ps0 @ [p]"] show ?case
      by (auto intro!: wp_thenM wp_free_next [OF Cons.prems(1)])
  qed (simp add: wp_returnM)
  have unroll: "cleanup E s = thenM (forM ?P free_obj) (bindM (getsM g_fpga_fd) (\<lambda>fpga_fd.
     thenM (sys_close fpga_fd) (thenM (sys_close (s_pcie_resource_fd s)) (
     thenM (destroy_rn_dev E (s_rn_dev s)) (returnM 0)))))"
    by (simp add: cleanup_def support_def forM_append thenM_assoc)
  from dev obtain d gc bb where dv: "T (s_rn_dev s) = Some (O_rn_dev d)" "rn_rdma_dev d = s_rdma_dev s" "rn_base_buf d = base"
    "T base = Some (O_rdma_buff bb)" "T (rd_glb_csr rd) = Some (O_glb_csr gc)" "T (s_rdma_dev s) = Some (O_rdma_dev rd)"
    "rd_num_qp rd = 8" "T (rd_qps_ptr rd) = Some (O_qp_table ((replicate 8 NULL)[2 := qp]))"
    unfolding devices_typed_def typed_dev_def by blast
  from q(1) obtain b1 b2 where qb: "T (qp_sq q) = Some (O_rdma_buff b1)" "T (qp_rq q) = Some (O_rdma_buff b2)" "T qp = Some (O_qp q)"
    unfolding typed_queue_def by blast
  have keep: "drop_types T ?P p = T p" if "p \<notin> set ?P" for p using that by (simp add: drop_types_def)
  have other: "drop_types T ?P p = Some x" if "T p = Some x" "\<forall>b. x \<noteq> O_rdma_buff b" "\<forall>n. x \<noteq> O_mem n" for p x
  proof -
    have "p \<notin> set ?P" using that bufs g by force
    with that(1) show ?thesis by (simp add: keep)
  qed
  have out: "base \<notin> set ?P" "qp_sq q \<notin> set ?P" "qp_rq q \<notin> set ?P" "qp_cq q \<notin> set ?P"
    using dist g dv(4) qb(1,2) q(4) by auto
  have all: "distinct ?P" "\<forall>p \<in> set ?P. T p \<noteq> None"
    using dist bufs g by force+
  have dest: "wp (destroy_rn_dev E (s_rn_dev s)) (\<lambda>_. wp (returnM 0) Q) w1" if "conforms (drop_types T ?P) w1" for w1
  proof (rule wp_destroy_rn_dev [OF that, where d = d and bb = bb and rd = rd and gc = gc and i = 2 and ?q0.0 = q
        and qt = "(replicate 8 NULL)[2 := qp]" and ?b1.0 = b1 and ?b2.0 = b2 and ?b3.0 = b and pd = pd])
    show "distinct [rn_base_buf d, qp_sq q, qp_rq q, qp_cq q]" using dist dv(3) by auto
  next
    fix j
    assume "j < List.length ((replicate 8 NULL)[2 := qp])" "j \<noteq> 2"
    then show "(replicate 8 NULL)[2 := qp] ! j = NULL" by simp
  next
    fix x w2
    assume "conforms (drop_types (drop_types T ?P) (rn_base_buf d # rd_glb_csr rd # owned q)) w2"
    with dv(3) have "conforms (drop_types T (support s @ s_golden s # base # rd_glb_csr rd # owned q)) w2" by simp
    then show "wp (returnM 0) Q w2" by (intro wp_returnM Q [OF dev])
  qed (use dv qb q out in \<open>simp_all add: keep other\<close>)
  have "wp (forM ?P free_obj) (\<lambda>_. conforms (drop_types T ?P)) w"
    using freed [of "[]" w ?P] w all by simp
  then show ?thesis
    unfolding unroll
    by - (rule wp_thenM, erule wp_mono, (assumption | rule dest wp_sys wp_bindM wp_thenM wp_getsM)+)
qed

lemma wp_make_golden:
  assumes w: "conforms T w" and E: "host_ready E"
    and Q: "\<And>p w'. conforms (T(p \<mapsto> O_mem (ucast n))) w' \<Longrightarrow> T p = None \<Longrightarrow> p \<noteq> NULL \<Longrightarrow> Q p w'"
  shows "wp (make_golden E n) Q w"
proof -
  have E': "\<not> env_malloc_fails E p" for p using E by (simp add: host_ready_def)
  have "unat (drop_bit 2 n) = unat n div 4" by (simp add: unat_drop_bit_eq) (simp add: drop_bit_eq_div)
  then have "4 * unat (drop_bit 2 n) \<le> unat (ucast n :: u64)"
    using unat_u32_less [of n] by (simp add: unsigned_ucast_eq take_bit_nat_eq_self)
  then show ?thesis
    unfolding make_golden_def
    by (intro wp_bindM wp_malloc_typed [OF w E'])
      (intro wp_thenM, erule wp_fill_golden, rule fun_upd_same, assumption, intro wp_returnM, erule (2) Q)
qed

text \<open>
  The frame is safe if the bodies are; a body that goes on leaves the session as it was. \<open>K\<close> is what
  a program needs of objects of its own.
\<close>

definition keeps_session :: "(typing \<Rightarrow> bool) \<Rightarrow> flow io \<Rightarrow> session \<Rightarrow> bool" where
  "keeps_session K m s \<longleftrightarrow> (\<forall>T w rd qp q. conforms T w \<longrightarrow> typed_session T s rd qp q \<longrightarrow> K T \<longrightarrow>
     wp m (\<lambda>f w'. \<exists>T'. conforms T' w' \<and> typed_session T' s rd qp q \<and> K T') w)"

lemma wp_run_bodies:
  assumes w: "conforms T w" and s: "typed_session T s rd qp q" and K: "K T"
    and bodies: "keeps_session K client_body s" "keeps_session K server_body s" and close: "quiet close_socket"
  shows "wp (run_bodies E o1 s client_body server_body close_socket) (\<lambda>_ _. True) w"
proof -
  let ?I = "\<lambda>w'. \<exists>T'. conforms T' w' \<and> typed_session T' s rd qp q \<and> K T'"
  have body: "wp (if b then m else returnM Continue) (\<lambda>f. ?I) w1" if "keeps_session K m s" "?I w1" for b m w1
    using that by (auto simp: keeps_session_def intro: wp_returnM)
  have clean: "wp (cleanup E s) (\<lambda>_ _. True) w1" if "?I w1" for w1
    using that by (auto intro: wp_cleanup)
  have end_of: "wp (thenM close_socket (cleanup E s)) (\<lambda>_ _. True) w1" if "?I w1" for w1
    using that by (auto intro!: wp_thenM wp_quiet [OF close] clean)
  have start: "?I w" using w s K by blast
  show ?thesis
    unfolding run_bodies_def
    by (intro wp_bindM)
      (rule wp_mono [OF body [OF bodies(1) start]], split flow.split, intro conjI impI allI wp_bindM,
       rule wp_mono [OF body [OF bodies(2)]], assumption, split flow.split, intro conjI impI allI,
       (erule end_of | erule clean | rule wp_returnM TrueI)+)
qed

text \<open>Changing a window of a buffer does not disturb a session.\<close>

lemma typed_session_window:
  assumes p: "T p = Some (O_rdma_buff b)" "buf_buf_size b' = buf_buf_size b" and s: "typed_session T s rd qp q"
  shows "typed_session (T(p \<mapsto> O_rdma_buff b')) s rd qp q"
proof -
  let ?T = "T(p \<mapsto> O_rdma_buff b')"
  have keep: "T x = Some (O_rn_dev v1) \<Longrightarrow> ?T x = Some (O_rn_dev v1)" "T x = Some (O_rdma_dev v3) \<Longrightarrow> ?T x = Some (O_rdma_dev v3)"
    "T x = Some (O_glb_csr v4) \<Longrightarrow> ?T x = Some (O_glb_csr v4)" "T x = Some (O_qp_table v5) \<Longrightarrow> ?T x = Some (O_qp_table v5)"
    "T x = Some (O_qp v6) \<Longrightarrow> ?T x = Some (O_qp v6)" "T x = Some (O_pd v7) \<Longrightarrow> ?T x = Some (O_pd v7)"
    "T x = Some (O_win_size v8) \<Longrightarrow> ?T x = Some (O_win_size v8)" "T x = Some (O_mem v9) \<Longrightarrow> ?T x = Some (O_mem v9)"
    for x v1 v3 v4 v5 v6 v7 v8 v9 using p(1) by auto
  have buff: "T x = Some (O_rdma_buff v) \<Longrightarrow> \<exists>v'. ?T x = Some (O_rdma_buff v')" for x v by auto
  have sized: "T x = Some (O_rdma_buff v) \<Longrightarrow> buf_buf_size v = n \<Longrightarrow> \<exists>v'. ?T x = Some (O_rdma_buff v') \<and> buf_buf_size v' = n"
    for x v n using p by auto
  have rn: "typed_rn T r \<Longrightarrow> typed_rn ?T r" for r
    unfolding typed_rn_def by (blast intro: keep(1) dest: buff)
  have dev: "typed_dev T d rd \<Longrightarrow> typed_dev ?T d rd" for d
    unfolding typed_dev_def by (blast intro: keep(2,7) dest: rn)
  have "typed_queue T d rd i qp q \<Longrightarrow> typed_queue ?T d rd i qp q" for d i
    unfolding typed_queue_def by (blast intro: keep(4,5) dest: buff dev)
  moreover have "devices_typed T r d base rd qt \<Longrightarrow> devices_typed ?T r d base rd qt" for r d base qt
    unfolding devices_typed_def by (blast intro: keep(1,3,4) dest: buff dev)
  moreover have "\<forall>x \<in> set (support s). \<exists>b. ?T x = Some (O_rdma_buff b)"
    "\<exists>b. ?T (qp_cq q) = Some (O_rdma_buff b)" "\<exists>pd. ?T (s_rdma_pd s) = Some (O_pd pd)"
    "\<exists>b. ?T (qp_rq q) = Some (O_rdma_buff b) \<and> buf_buf_size b = 8 * 64 * RQE_SIZE"
    "?T (s_golden s) = Some (O_mem (s_golden_size s))"
    using s unfolding typed_session_def by (blast intro: keep(6,8) dest: buff sized)+
  ultimately show ?thesis
    using s unfolding typed_session_def by blast
qed

end
