(* ===== verification/Dma_Test.thy ===== *)
theory Dma_Test
  imports Dma_Utils Example_Setup
begin

text \<open>
  The measurement program \<open>src/examples/dma_test/dma_test.c\<close> with \<open>getopt_integer\<close> of
  \<open>dma_utils.c\<close>: its command line, its buffer, and the rounds of transfers between the buffer and the
  device. The throughput report is left out, as are the messages that \<open>verbose\<close> switches on. The
  lemmas say which numbers the options stand for, that the transfers stay inside the buffer, and
  where repeated transfers put the data.
\<close>

subsection \<open>The command line\<close>

text \<open>
  \<open>sscanf(optarg, "0x%lx", &value)\<close>, and \<open>sscanf(optarg, "%lu", &value)\<close> if that converts nothing.
  When neither does, \<open>value\<close> has never been written.
\<close>

definition getopt_integer :: "u64 \<Rightarrow> string \<Rightarrow> u64" where
  "getopt_integer junk optarg =
     (case (if take 2 optarg = ''0x'' then scan_unsigned 16 (drop 2 optarg) else None) of
        Some (v, _) \<Rightarrow> v
      | None \<Rightarrow> (case scan_unsigned 10 optarg of Some (v, _) \<Rightarrow> v | None \<Rightarrow> junk))"

record dma_options =
  dma_device :: string
  dma_address :: u64
  dma_size :: u64
  dma_offset :: u64
  dma_count :: u64
  dma_infname :: "string option"
  dma_ofname :: "string option"
  dma_scenario :: u32

definition dma_initial :: dma_options where
  "dma_initial = \<lparr>dma_device = ''/dev/qdma01000-MM-0'', dma_address = 0, dma_size = 32, dma_offset = 0,
     dma_count = 1, dma_infname = None, dma_ofname = None, dma_scenario = 0\<rparr>"

definition dma_option_step :: "u64 \<Rightarrow> char \<times> string \<Rightarrow> dma_options \<Rightarrow> dma_options io" where
  "dma_option_step junk = (\<lambda>(cmd_opt, optarg) o1.
     if cmd_opt = CHR 0x00 then returnM o1
     else if cmd_opt = CHR ''r'' then returnM (o1\<lparr>dma_scenario := 1\<rparr>)
     else if cmd_opt = CHR ''d'' then returnM (o1\<lparr>dma_device := optarg\<rparr>)
     else if cmd_opt = CHR ''a'' then returnM (o1\<lparr>dma_address := getopt_integer junk optarg\<rparr>)
     else if cmd_opt = CHR ''s'' then returnM (o1\<lparr>dma_size := getopt_integer junk optarg\<rparr>)
     else if cmd_opt = CHR ''o'' then returnM (o1\<lparr>dma_offset := getopt_integer junk optarg AND 4095\<rparr>)
     else if cmd_opt = CHR ''c'' then returnM (o1\<lparr>dma_count := getopt_integer junk optarg\<rparr>)
     else if cmd_opt = CHR ''f'' then returnM (o1\<lparr>dma_infname := Some optarg\<rparr>)
     else if cmd_opt = CHR ''w'' then returnM (o1\<lparr>dma_ofname := Some optarg\<rparr>)
     else if cmd_opt = CHR ''v'' then returnM o1
     else exitM 0)"

primrec dma_parse :: "u64 \<Rightarrow> (char \<times> string) list \<Rightarrow> dma_options \<Rightarrow> dma_options io" where
  "dma_parse junk [] o1 = returnM o1"
| "dma_parse junk (arg # args) o1 = bindM (dma_option_step junk arg o1) (dma_parse junk args)"

subsection \<open>The transfers\<close>

text \<open>\<open>n\<close> bytes from \<open>offset\<close> on must lie in the array that the kernel is given.\<close>

definition within :: "ptr \<Rightarrow> u64 \<Rightarrow> u64 \<Rightarrow> unit io" where
  "within p offset n =
     bindM (load as_mem p) (\<lambda>m. if unat offset + unat n \<le> unat m then returnM () else faultM Out_Of_Bounds)"

text \<open>One transfer with its error check: \<open>None\<close> goes on, \<open>Some rc\<close> is the \<open>goto out\<close>.\<close>

definition checked :: "i64 io \<Rightarrow> i64 option io" where
  "checked m = bindM m (\<lambda>rc. returnM (if is_negative rc then Some rc else None))"

text \<open>The \<open>n\<close> rounds from number \<open>i\<close> on.\<close>

primrec dma_rounds :: "env \<Rightarrow> dma_options \<Rightarrow> ptr \<Rightarrow> i32 \<Rightarrow> i32 \<Rightarrow> u64 \<Rightarrow> nat \<Rightarrow> i64 io" where
  "dma_rounds E o1 allocated fpga_fd outfile_fd i 0 = returnM 0"
| "dma_rounds E o1 allocated fpga_fd outfile_fd i (Suc n) =
     (let size = dma_size o1; buffer = mem_addr E allocated + dma_offset o1 in
      thenM (within allocated (dma_offset o1) size) (
      bindM (checked (if dma_scenario o1 = 1 then dma_read_to_buffer E fpga_fd buffer size (dma_address o1)
                      else dma_write_from_buffer E fpga_fd buffer size (dma_address o1))) (\<lambda>failed.
      case failed of Some rc \<Rightarrow> returnM rc | None \<Rightarrow>
      bindM (if \<not> is_negative outfile_fd \<and> dma_scenario o1 = 1
             then checked (dma_write_from_buffer E outfile_fd buffer size (i * size)) else returnM None) (\<lambda>failed.
      case failed of Some rc \<Rightarrow> returnM rc | None \<Rightarrow>
        dma_rounds E o1 allocated fpga_fd outfile_fd (i + 1) n))))"

definition dma_out :: "i32 \<Rightarrow> i32 \<Rightarrow> i32 \<Rightarrow> ptr \<Rightarrow> i64 \<Rightarrow> i32 io" where
  "dma_out fpga_fd infile_fd outfile_fd allocated rc =
     thenM (sys_close fpga_fd) (
     thenM (if is_negative infile_fd then returnM () else sys_close infile_fd) (
     thenM (if is_negative outfile_fd then returnM () else sys_close outfile_fd) (
     thenM (free_obj allocated)
       (returnM (scast rc)))))"

text \<open>An optional file: descriptor -1 without a name; \<open>None\<close> when it does not open.\<close>

definition open_optional :: "env \<Rightarrow> string option \<Rightarrow> (i32 \<times> bool) io" where
  "open_optional E name = (case name of
       None \<Rightarrow> returnM (- 1, True)
     | Some path \<Rightarrow> bindM (sys_open E path) (\<lambda>fd. returnM (fd, \<not> is_negative fd)))"

definition test_dma :: "env \<Rightarrow> dma_options \<Rightarrow> i32 io" where
  "test_dma E o1 =
     bindM (sys_open E (dma_device o1)) (\<lambda>fpga_fd.
     if is_negative fpga_fd then returnM (- 22) else
     bindM (open_optional E (dma_infname o1)) (\<lambda>(infile_fd, opened).
     if \<not> opened then dma_out fpga_fd infile_fd (- 1) NULL (- 22) else
     bindM (open_optional E (dma_ofname o1)) (\<lambda>(outfile_fd, opened).
     if \<not> opened then dma_out fpga_fd infile_fd outfile_fd NULL (- 22) else
     bindM (malloc E (O_mem (dma_size o1 + 4096))) (\<lambda>allocated.
     if allocated = NULL then dma_out fpga_fd infile_fd outfile_fd NULL (- 12) else
     bindM (if \<not> is_negative infile_fd \<and> dma_scenario o1 = 0
            then thenM (within allocated (dma_offset o1) (dma_size o1))
              (checked (dma_read_to_buffer E infile_fd (mem_addr E allocated + dma_offset o1) (dma_size o1) 0))
            else returnM None) (\<lambda>failed.
     case failed of Some rc \<Rightarrow> dma_out fpga_fd infile_fd outfile_fd allocated rc | None \<Rightarrow>
     bindM (dma_rounds E o1 allocated fpga_fd outfile_fd 0 (unat (dma_count o1))) (\<lambda>rc.
     dma_out fpga_fd infile_fd outfile_fd allocated rc))))))"

definition dma_main :: "env \<Rightarrow> u64 \<Rightarrow> (char \<times> string) list \<Rightarrow> i32 io" where
  "dma_main E junk args = bindM (dma_parse junk args dma_initial) (test_dma E)"

subsection \<open>Numbers on the command line\<close>

lemma scan_unsigned_all:
  assumes "\<forall>c \<in> set ds. is_digit b c" and "ds \<noteq> []" and "digits_value b ds < 2 ^ 64"
  shows "scan_unsigned b ds = Some (word_of_nat (digits_value b ds), [])"
proof -
  have "scan_prefix b ds = ds"
  proof (cases ds)
    case (Cons c cs)
    then show ?thesis
      using assms(1) digit_not_special(4,5) by (cases cs) (auto simp: scan_prefix_def)
  qed (simp add: scan_prefix_def)
  with scan_unsigned_digits [OF assms, of "[]"] show ?thesis by simp
qed

lemma scan_unsigned_none:
  assumes "\<not> is_space c" and "c \<noteq> CHR ''-''" and "c \<noteq> CHR ''+''" and "\<not> is_digit 10 c"
  shows "scan_unsigned 10 (c # s) = None"
  using assms by (simp add: scan_unsigned_def scan_sign_def scan_prefix_def)

text \<open>
  The numbers that \<open>dma_test\<close> takes from its command line: \<open>0x\<close> and hexadecimal digits stand for
  their value, decimal digits for theirs, as long as it fits 64 bits; a text that starts with
  neither a digit, a sign nor white space leaves the result uninitialised, and it is used all the
  same.
\<close>

theorem getopt_integer_reads:
  assumes "hex \<noteq> []" and "\<forall>c \<in> set hex. is_digit 16 c" and "digits_value 16 hex < 2 ^ 64"
    and "dec \<noteq> []" and "\<forall>c \<in> set dec. is_digit 10 c" and "digits_value 10 dec < 2 ^ 64"
    and "\<not> is_space c" and "c \<noteq> CHR ''-''" and "c \<noteq> CHR ''+''" and "\<not> is_digit 10 c"
  shows "getopt_integer junk (''0x'' @ hex) = word_of_nat (digits_value 16 hex) \<and>
    getopt_integer junk dec = word_of_nat (digits_value 10 dec) \<and>
    getopt_integer junk (c # s) = junk"
proof (intro conjI)
  show "getopt_integer junk (''0x'' @ hex) = word_of_nat (digits_value 16 hex)"
    using scan_unsigned_all [OF assms(2,1,3)] by (simp add: getopt_integer_def)
  have "CHR ''x'' \<notin> set dec" using assms(5) digit_not_special(4) by blast
  then have "take 2 dec \<noteq> ''0x''" by (cases dec; cases "tl dec") auto
  then show "getopt_integer junk dec = word_of_nat (digits_value 10 dec)"
    using scan_unsigned_all [OF assms(5,4,6)] by (simp add: getopt_integer_def)
  have "c \<noteq> CHR ''0''" using assms(10) by (auto simp: is_digit_def digit_value_def)
  then show "getopt_integer junk (c # s) = junk"
    using scan_unsigned_none [OF assms(7-10)] by (simp add: getopt_integer_def)
qed

theorem getopt_integer_reads_witness:
  "getopt_integer 5 ''0x1f'' = 31 \<and> getopt_integer 5 ''4096'' = 4096 \<and> getopt_integer 5 ''big'' = 5"
  using getopt_integer_reads [of "''1f''" "''4096''" "CHR ''b''" 5 "''ig''"]
  by (simp add: is_digit_def digit_value_def digits_value_def is_space_def)

subsection \<open>Inside the buffer\<close>

text \<open>A loop invariant of the rounds: the array is there, with room for the offset and the transfer.\<close>

lemma wp_within:
  assumes "conforms T w" and "T p = Some (O_mem m)" and "unat off + unat n \<le> unat m" and "Q () w"
  shows "wp (within p off n) Q w"
  unfolding within_def using assms by - ((assumption | rule wp_load_mem wp_if wp_bindM wp_returnM | (simp; fail))+)

lemma quiet_dma [quiet_intros]: "quiet (dma_read_to_buffer E fd buf n base)" "quiet (dma_write_from_buffer E fd buf n base)"
  using keeps_dma_transfer [of E fd buf n base]
  by (auto intro!: quietI simp: dma_read_to_buffer_def dma_write_from_buffer_def finish_transfer_def wp_def Let_def
      split: option.split)

lemma quiet_checked [quiet_intros]: "quiet m \<Longrightarrow> quiet (checked m)"
  unfolding checked_def by (intro quiet_intros)

lemma wp_dma_rounds:
  assumes p: "T p = Some (O_mem m)" and room: "unat (dma_offset o1) + unat (dma_size o1) \<le> unat m"
  shows "conforms T w \<Longrightarrow> wp (dma_rounds E o1 p ffd ofd i n) (\<lambda>_. conforms T) w"
proof (induction n arbitrary: i w)
  case 0
  then show ?case by (simp add: wp_returnM)
next
  case (Suc n)
  have transfer: "quiet (checked (if c then dma_read_to_buffer E a b x d else dma_write_from_buffer E a b x d))"
    "quiet (if c then checked (dma_write_from_buffer E a b x d) else returnM None)" for c a b x d
    by (intro quiet_intros)+
  show ?case
    unfolding dma_rounds.simps Let_def
    using Suc.prems
    by - ((assumption | rule p room wp_thenM wp_within [where T = T] wp_bindM wp_quiet [OF transfer(1)]
        wp_quiet [OF transfer(2)] wp_case_option wp_returnM Suc.IH)+)
qed

lemma wp_open_optional:
  assumes "conforms T w" and "\<And>r w'. conforms T w' \<Longrightarrow> Q r w'"
  shows "wp (open_optional E name) Q w"
  unfolding open_optional_def using assms
  by - ((assumption | rule assms(2) wp_case_option wp_bindM wp_sys wp_returnM)+)

lemma wp_dma_out:
  assumes w: "conforms T w" and p: "p = NULL \<or> T p = Some s"
  shows "wp (dma_out a b c p rc) (\<lambda>_ _. True) w"
proof -
  have free: "wp (free_obj p) (\<lambda>_. wp (returnM x) (\<lambda>_ _. True)) w1" if "conforms T w1" for w1 and x :: i32
    using p
  proof
    assume "p = NULL"
    then show ?thesis by (simp add: wp_def free_obj_def returnM_def)
  next
    assume "T p = Some s"
    then show ?thesis by (intro wp_free_typed [OF that] wp_returnM TrueI)
  qed
  show ?thesis
    unfolding dma_out_def using w
    by - ((assumption | erule free | rule wp_thenM wp_if wp_sys wp_returnM TrueI)+)
qed

text \<open>
  C34: \<open>test_dma\<close> stays inside its buffer: with an offset below 4096, as the option gives it, and a size
  that leaves room for the added page, no transfer touches memory outside the allocated array and
  nothing is freed twice, whatever the files, the device and the allocator do; in particular after
  every failure.
\<close>

theorem test_dma_in_bounds:
  assumes "world_ok w" and "unat (dma_offset o1) < 4096" and "unat (dma_size o1) + 4096 < 2 ^ 64"
  shows "\<forall>e w'. test_dma E o1 w \<noteq> Some (Fault e, w') \<or> e = Assert_Failed"
proof -
  have c: "conforms Map.empty w" using assms(1) by (simp add: conforms_def)
  have size: "unat (dma_size o1 + 4096) = unat (dma_size o1) + 4096"
    using assms(3) by (simp add: unat_word_ariths)
  then have room: "unat (dma_offset o1) + unat (dma_size o1) \<le> unat (dma_size o1 + 4096)"
    using assms(2) by simp
  let ?T = "\<lambda>p. [p \<mapsto> O_mem (dma_size o1 + 4096)]"
  have body: "wp (bindM (if c' then thenM (within p (dma_offset o1) (dma_size o1)) (checked (dma_read_to_buffer E ifd b n 0))
            else returnM None) (\<lambda>failed. case failed of Some rc \<Rightarrow> dma_out ffd ifd ofd p rc | None \<Rightarrow>
       bindM (dma_rounds E o1 p ffd ofd 0 k) (\<lambda>rc. dma_out ffd ifd ofd p rc))) (\<lambda>_ _. True) w1"
    if w1: "conforms (?T p) w1" for c' p ffd ifd ofd b n k w1
  proof -
    have read: "quiet (checked (dma_read_to_buffer E ifd b n 0))" by (intro quiet_intros)
    have p: "?T p p = Some (O_mem (dma_size o1 + 4096))" by simp
    then have out: "p = NULL \<or> ?T p p = Some (O_mem (dma_size o1 + 4096))" by simp
    have rounds: "wp (dma_rounds E o1 p ffd ofd 0 k) (\<lambda>rc w'. wp (dma_out ffd ifd ofd p rc) (\<lambda>_ _. True) w') w2"
      if "conforms (?T p) w2" for w2
    proof (rule wp_mono)
      show "wp (dma_rounds E o1 p ffd ofd 0 k) (\<lambda>_. conforms (?T p)) w2"
        using wp_dma_rounds [where T = "?T p" and p = p] room that by simp
      show "wp (dma_out ffd ifd ofd p rc) (\<lambda>_ _. True) w3" if "conforms (?T p) w3" for rc w3
        using that out by (rule wp_dma_out)
    qed
    show ?thesis
      using w1
      by - ((assumption | erule rounds | rule p room out wp_dma_out [where T = "?T p"] wp_bindM wp_if wp_thenM wp_within [where T = "?T p"]
          wp_quiet [OF read] wp_case_option wp_returnM)+)
  qed
  have out: "wp (dma_out a b d NULL rc) (\<lambda>_ _. True) w1" if "conforms Map.empty w1" for a b d rc w1
    by (rule wp_dma_out [OF that]) simp
  have "wp (test_dma E o1) (\<lambda>_ _. True) w"
    unfolding test_dma_def using c
    by - ((assumption | (erule notE, (rule refl | assumption)) | erule out body | rule wp_bindM wp_case_prod wp_if wp_sys wp_open_optional wp_malloc_any wp_returnM TrueI)+)
  from wp_no_fault [OF this] show ?thesis by blast
qed

definition demo_dma :: dma_options where
  "demo_dma = dma_initial\<lparr>dma_size := 64, dma_offset := 8, dma_count := 3, dma_address := 0\<rparr>"

theorem test_dma_in_bounds_witness: "test_dma idle_env demo_dma idle_world \<noteq> Some (Fault Out_Of_Bounds, idle_world)"
  using test_dma_in_bounds [OF idle_world_ok, of demo_dma idle_env] by (auto simp: demo_dma_def)

subsection \<open>Where the data goes\<close>

text \<open>The device after writing the buffer \<open>n\<close> times from round \<open>i\<close> on: at address 0 the copies move on.\<close>

definition landing :: "u64 \<Rightarrow> u64 \<Rightarrow> nat \<Rightarrow> u64" where
  "landing addr n i = (if addr = 0 then word_of_nat i * n else addr)"

definition written :: "(u64 \<Rightarrow> u8) \<Rightarrow> u64 \<Rightarrow> u64 \<Rightarrow> u64 \<Rightarrow> nat \<Rightarrow> nat \<Rightarrow> (u64 \<Rightarrow> u8) \<Rightarrow> u64 \<Rightarrow> u8" where
  "written host buffer addr n i k dev =
     fold (\<lambda>j dev. copy_bytes dev host (landing addr n j) buffer (unat n)) [i..<i + k] dev"

lemma dma_write_run:
  assumes E: "device_writes_complete E fd" and n: "n \<le> RW_MAX_SIZE" and addr: "\<not> is_negative addr"
  shows "\<exists>w'. dma_write_from_buffer E fd buffer n addr w = Some (Ret n, w') \<and> same_store w w' \<and>
    (\<forall>m0. m_host (replay m0 (hist w')) = m_host (replay m0 (hist w)) \<and>
       m_dev (replay m0 (hist w')) = copy_bytes (m_dev (replay m0 (hist w))) (m_host (replay m0 (hist w)))
         (if addr = 0 then m_pos (replay m0 (hist w)) fd else addr) buffer (unat n) \<and>
       m_pos (replay m0 (hist w')) fd = (if addr = 0 then m_pos (replay m0 (hist w)) fd else addr) + n)"
proof -
  have pos: "\<not> is_negative n" by (rule RW_MAX_SIZE_not_negative [OF n])
  let ?w1 = "if addr = 0 then w else emit (Sys_Lseek fd addr addr) w"
  have "dma_write_chunk E fd buffer addr n w = (True, emit (Sys_Write fd buffer n n) ?w1)"
    using E n pos addr
    by (simp add: dma_write_chunk_def dma_seek_def sys_write_def sys_lseek_def device_writes_complete_def Let_def)
  moreover have "chunk_bytes n 0 = n" using n by (auto simp: chunk_bytes_def Let_def)
  ultimately have "dma_write_from_buffer E fd buffer n addr w = Some (Ret n, emit (Sys_Write fd buffer n n) ?w1)"
    by (simp add: dma_write_from_buffer_def chunk_loop.simps finish_transfer_def Let_def)
  then show ?thesis using pos addr by (auto simp: transferred_def same_store_def)
qed

lemma dma_rounds_write:
  assumes E: "device_writes_complete E fd" and n: "dma_size o1 \<le> RW_MAX_SIZE" and addr: "\<not> is_negative (dma_address o1)"
    and mode: "dma_scenario o1 = 0" and room: "unat (dma_offset o1) + unat (dma_size o1) \<le> unat m"
  shows "heap w p = Some (O_mem m) \<Longrightarrow>
    (dma_address o1 = 0 \<Longrightarrow> \<forall>m0. m_pos (replay m0 (hist w)) fd = word_of_nat i * dma_size o1) \<Longrightarrow>
    \<exists>w'. dma_rounds E o1 p fd ofd (word_of_nat i) k w = Some (Ret 0, w') \<and> same_store w w' \<and>
      (\<forall>m0. m_host (replay m0 (hist w')) = m_host (replay m0 (hist w)) \<and>
         m_dev (replay m0 (hist w')) = written (m_host (replay m0 (hist w))) (mem_addr E p + dma_offset o1)
           (dma_address o1) (dma_size o1) i k (m_dev (replay m0 (hist w))))"
proof (induction k arbitrary: w i)
  case 0
  then show ?case by (simp add: run_simps written_def same_store_def)
next
  case (Suc k)
  let ?b = "mem_addr E p + dma_offset o1" and ?n = "dma_size o1" and ?a = "dma_address o1"
  from dma_write_run [OF E n addr, of ?b w] obtain w1 where
    one: "dma_write_from_buffer E fd ?b ?n ?a w = Some (Ret ?n, w1)" "same_store w w1"
    and mem: "\<forall>m0. m_host (replay m0 (hist w1)) = m_host (replay m0 (hist w)) \<and>
       m_dev (replay m0 (hist w1)) = copy_bytes (m_dev (replay m0 (hist w))) (m_host (replay m0 (hist w)))
         (if ?a = 0 then m_pos (replay m0 (hist w)) fd else ?a) ?b (unat ?n) \<and>
       m_pos (replay m0 (hist w1)) fd = (if ?a = 0 then m_pos (replay m0 (hist w)) fd else ?a) + ?n" by blast
  have land: "(if ?a = 0 then m_pos (replay m0 (hist w)) fd else ?a) = landing ?a ?n i" for m0
    using Suc.prems(2) by (simp add: landing_def)
  have next_pos: "\<forall>m0. m_pos (replay m0 (hist w1)) fd = word_of_nat (Suc i) * ?n" if "?a = 0"
    using mem Suc.prems(2) [OF that] that by (simp add: algebra_simps)
  have "heap w1 p = Some (O_mem m)" using one(2) Suc.prems(1) by (simp add: same_store_def)
  from Suc.IH [OF this next_pos] obtain w2 where
    rest: "dma_rounds E o1 p fd ofd (word_of_nat (Suc i)) k w1 = Some (Ret 0, w2)" "same_store w1 w2"
      "\<forall>m0. m_host (replay m0 (hist w2)) = m_host (replay m0 (hist w1)) \<and>
         m_dev (replay m0 (hist w2)) = written (m_host (replay m0 (hist w1))) ?b ?a ?n (Suc i) k (m_dev (replay m0 (hist w1)))"
    by auto
  have idx: "(word_of_nat i :: u64) + 1 = word_of_nat (Suc i)" by (simp add: add.commute)
  have "dma_rounds E o1 p fd ofd (word_of_nat i) (Suc k) w = Some (Ret 0, w2)"
    using one(1) rest(1) mode room Suc.prems(1) RW_MAX_SIZE_not_negative [OF n]
    by (simp add: Let_def within_def checked_def run_simps as_mem_def idx del: of_nat_Suc)
  moreover have "written h ?b ?a ?n i (Suc k) d =
      written h ?b ?a ?n (Suc i) k (copy_bytes d h (landing ?a ?n i) ?b (unat ?n))" for h d
    by (simp add: written_def upt_conv_Cons del: upt_Suc)
  ultimately show ?case
    using rest(2,3) mem land transpD [OF transp_same_store one(2)] by auto
qed

text \<open>
  C35: a write measurement on a kernel that completes its calls, without files, of a size that one
  \<open>write\<close> moves (at most \<open>RW_MAX_SIZE\<close>, 0x7ffff000 bytes), at a device address that is not negative as
  an offset, from a buffer offset below 4096: \<open>test_dma\<close> returns 0, gives its memory back, and the
  device holds what the rounds have copied from the buffer. At any address but 0 each round writes
  the same place. At address 0 the transfer does not seek: round \<open>j\<close> writes at \<open>j * size\<close>, so the
  rounds walk through \<open>count * size\<close> bytes of the device. (A larger size is moved in several chunks,
  and there the later chunks seek, also at address 0; this is not covered.)
\<close>

theorem test_dma_write_places:
  assumes "world_ok w" and "\<not> is_negative (env_open E (hist w) (dma_device o1))"
    and "\<not> env_malloc_fails E (next_ptr w)" and "device_writes_complete E (env_open E (hist w) (dma_device o1))"
    and "dma_infname o1 = None" and "dma_ofname o1 = None" and "dma_scenario o1 = 0"
    and "dma_size o1 \<le> RW_MAX_SIZE" and "\<not> is_negative (dma_address o1)" and "unat (dma_offset o1) < 4096"
  shows "\<exists>w'. test_dma E o1 w = Some (Ret 0, w') \<and> heap w' = heap w \<and>
    (\<forall>m0. m_dev (replay m0 (hist w')) =
       fold (\<lambda>j dev. copy_bytes dev (m_host (replay m0 (hist w)))
               (if dma_address o1 = 0 then word_of_nat j * dma_size o1 else dma_address o1)
               (env_obj_addr E (next_ptr w) + dma_offset o1) (unat (dma_size o1)))
         [0..<unat (dma_count o1)] (m_dev (replay m0 (hist w))))"
proof -
  let ?fd = "env_open E (hist w) (dma_device o1)" and ?p = "next_ptr w" and ?m = "dma_size o1 + 4096"
  let ?w1 = "emit (Sys_Open (dma_device o1) ?fd) w"
  let ?w2 = "?w1\<lparr>next_ptr := Suc ?p, heap := (heap w)(?p \<mapsto> O_mem ?m)\<rparr>"
  have small: "unat (dma_size o1) + 4096 < 2 ^ 64"
    using assms(8) by (simp add: RW_MAX_SIZE_def word_le_nat_alt)
  then have "unat ?m = unat (dma_size o1) + 4096" by (simp add: unat_word_ariths)
  then have room: "unat (dma_offset o1) + unat (dma_size o1) \<le> unat ?m" using assms(10) by simp
  have p: "?p \<noteq> NULL" "heap w ?p = None"
    using assms(1) world_ok_fresh [OF assms(1)] by (auto simp: world_ok_def)
  have start: "dma_address o1 = 0 \<Longrightarrow> \<forall>m0. m_pos (replay m0 (hist ?w2)) ?fd = word_of_nat 0 * dma_size o1" by simp
  have "heap ?w2 ?p = Some (O_mem ?m)" by simp
  from dma_rounds_write [OF assms(4,8,9,7) room this start, of "- 1" "unat (dma_count o1)"] obtain w3 where
    rounds: "dma_rounds E o1 ?p ?fd (- 1) 0 (unat (dma_count o1)) ?w2 = Some (Ret 0, w3)" "same_store ?w2 w3"
      "\<forall>m0. m_dev (replay m0 (hist w3)) = written (m_host (replay m0 (hist w))) (mem_addr E ?p + dma_offset o1)
           (dma_address o1) (dma_size o1) 0 (unat (dma_count o1)) (m_dev (replay m0 (hist w)))"
    by auto
  have neg: "is_negative (- 1 :: i32)" by (simp add: is_negative_def)
  have live: "heap w3 ?p \<noteq> None" using rounds(2) by (simp add: same_store_def)
  have "test_dma E o1 w = dma_out ?fd (- 1) (- 1) ?p 0 w3"
    using assms(2,3,5,6,7) p(1) rounds(1) neg
    by (simp add: test_dma_def open_optional_def sys_open_def run_simps bindM_def Let_def returnM_def malloc_def)
  also have "(heap w3)(?p := None) = heap w"
    using rounds(2) p(2) by (simp add: same_store_def fun_upd_idem del: drop_types_simps)
  then have "dma_out ?fd (- 1) (- 1) ?p 0 w3 = Some (Ret 0, (emit (Sys_Close ?fd) w3)\<lparr>heap := heap w\<rparr>)"
    using neg p(1) live
    by (simp add: dma_out_def sys_close_def run_simps modifyM_run free_obj_def del: drop_types_simps)
  finally show ?thesis
    using rounds(3) p(1) by (auto simp: written_def landing_def mem_addr_def)
qed

theorem test_dma_write_places_witness:
  "\<exists>w'. test_dma idle_env demo_dma idle_world = Some (Ret 0, w') \<and>
     m_dev (replay \<lparr>m_host = \<lambda>_. 7, m_dev = \<lambda>_. 0, m_pos = \<lambda>_. 0\<rparr> (hist w')) 130 = 7"
proof -
  have "\<not> is_negative (0 :: u64)" by (simp add: is_negative_def)
  then obtain w' where run: "test_dma idle_env demo_dma idle_world = Some (Ret 0, w')"
    and dev: "\<forall>m0. m_dev (replay m0 (hist w')) =
       fold (\<lambda>j dev. copy_bytes dev (m_host m0) (word_of_nat j * 64) (64 + 8) 64) [0..<3] (m_dev m0)"
    using test_dma_write_places [OF idle_world_ok, of idle_env demo_dma]
    by (auto simp: demo_dma_def dma_initial_def device_writes_complete_def is_negative_def RW_MAX_SIZE_def)
  from run dev show ?thesis by (auto simp: copy_bytes_def upt_rec)
qed

end
