(* ===== verification/Compute.thy ===== *)
theory Compute
  imports Control_Api
begin

text \<open>
  The lookside compute example: the command parser \<open>cl_box.cpp\<close> and the systolic kernel
  \<open>mmult.cpp\<close> of \<open>src/shell/compute/lookside\<close>, and their host side in
  \<open>src/examples/systolic_mm/systolic_mm.c\<close>. The lemmas show that the parser recovers every
  command the host issues, what it does with command sizes the host never sends, and that the
  kernel computes the matrix product that the host checks against.
\<close>

subsection \<open>The command parser\<close>

text \<open>
  A stream read takes the oldest word; on an empty stream it blocks, and \<open>None\<close> is a parser that
  waits for ever. \<open>cmd_array\<close> has five elements.
\<close>

type_synonym stream = "u32 list"

definition stream_read :: "(stream, u32) prog" where
  "stream_read = (\<lambda>s. case s of [] \<Rightarrow> None | x # s' \<Rightarrow> Some (Ret x, s'))"

record cl_ports =
  cl_a_baseaddr :: i32
  cl_b_baseaddr :: i32
  cl_c_baseaddr :: i32
  cl_a_row :: i32
  cl_a_col :: i32
  cl_b_col :: i32
  cl_work_id :: i32

function parse_loop :: "u32 \<Rightarrow> u32 \<Rightarrow> u32 list \<Rightarrow> (stream, u32 list) prog" where
  "parse_loop cmd_size cmd_recved cmd_array =
     (if cmd_recved \<le> cmd_size - 2 then
        bindM stream_read (\<lambda>x.
        if unat cmd_recved < 5
        then parse_loop cmd_size (cmd_recved + 1) (cmd_array[unat cmd_recved := x])
        else faultM Out_Of_Bounds)
      else returnM cmd_array)"
  by pat_completeness auto
termination
proof (relation "measure (\<lambda>(cmd_size, cmd_recved, cmd_array). 5 - unat cmd_recved)")
  fix cmd_size cmd_recved :: u32 and cmd_array x
  assume "unat cmd_recved < 5"
  then have "unat (cmd_recved + 1) = unat cmd_recved + 1" by (simp add: unat_word_ariths)
  with \<open>unat cmd_recved < 5\<close>
  show "((cmd_size, cmd_recved + 1, cmd_array[unat cmd_recved := x]), cmd_size, cmd_recved, cmd_array)
      \<in> measure (\<lambda>(cmd_size, cmd_recved, cmd_array). 5 - unat cmd_recved)"
    by simp
qed simp

declare parse_loop.simps [simp del]

definition parse_ctl_cmd :: "(stream, cl_ports) prog" where
  "parse_ctl_cmd =
     bindM stream_read (\<lambda>cmd_size.
     bindM (parse_loop cmd_size 0 [0, 0, 0, 0, 0]) (\<lambda>cmd_array.
     returnM \<lparr>cl_a_baseaddr = cmd_array ! 0, cl_b_baseaddr = cmd_array ! 1,
       cl_c_baseaddr = cmd_array ! 2, cl_a_row = drop_bit 16 (cmd_array ! 3),
       cl_a_col = cmd_array ! 3 AND 0x0000ffff, cl_b_col = drop_bit 16 (cmd_array ! 4),
       cl_work_id = cmd_array ! 4 AND 0x0000ffff\<rparr>))"

definition cl_box :: "(stream, cl_ports) prog" where
  "cl_box = parse_ctl_cmd"

subsection \<open>The kernel\<close>

text \<open>
  Matrices are rows of \<open>MAX_SIZE\<close> words; the kernel's state is its local result matrix, which C
  leaves uninitialised. \<open>int\<close> arithmetic of the synthesised kernel is arithmetic modulo \<open>2 ^ 32\<close>.
  An access beyond the local matrices is a fault; the row and column counters of the inner loops
  always stay inside, so only the column of \<open>localA\<close> and the row of \<open>localB\<close> are in question.
\<close>

definition MAX_SIZE :: nat where
  "MAX_SIZE = 16"

definition mmult_cell ::
    "i32 list \<Rightarrow> i32 list \<Rightarrow> i32 \<Rightarrow> i32 \<Rightarrow> i32 \<Rightarrow> nat \<Rightarrow> nat \<times> nat \<Rightarrow> (i32 list, unit) prog" where
  "mmult_cell localA localB ar ac bc k = (\<lambda>(i, j) localC.
     let b_row = ac;
         use_a = int i < sint ar \<and> int k < sint ac;
         use_b = int k < sint b_row \<and> int j < sint bc
     in if MAX_SIZE \<le> k \<and> (use_a \<or> use_b) then Some (Fault Out_Of_Bounds, localC)
        else
          let last = (if k = 0 then 0 else localC ! (i * MAX_SIZE + j));
              a_val = (if use_a then localA ! (i * MAX_SIZE + k) else 0);
              b_val = (if use_b then localB ! (k * MAX_SIZE + j) else 0)
          in Some (Ret (), localC[i * MAX_SIZE + j := last + a_val * b_val]))"

definition mmult ::
    "i32 list \<Rightarrow> i32 list \<Rightarrow> i32 \<Rightarrow> i32 \<Rightarrow> i32 \<Rightarrow> i32 \<Rightarrow> (i32 list, i32 list \<times> i32) prog" where
  "mmult a b ar ac bc wid =
     thenM (forM [0..<nat (sint ac)] (\<lambda>k.
              forM [0..<MAX_SIZE] (\<lambda>i. forM [0..<MAX_SIZE] (\<lambda>j.
                mmult_cell a b ar ac bc k (i, j))))) (
     bindM (getsM (\<lambda>localC. localC)) (\<lambda>localC. returnM (localC, wid)))"

subsection \<open>The host side\<close>

definition init_ctl_cmd ::
  "ctl_cmd_t \<Rightarrow> u32 \<Rightarrow> u32 \<Rightarrow> u32 \<Rightarrow> u32 \<Rightarrow> u16 \<Rightarrow> u16 \<Rightarrow> u16 \<Rightarrow> u16 \<Rightarrow> ctl_cmd_t" where
  "init_ctl_cmd ctl_cmd a_base b_base c_base cmd_size ar ac bc wid =
     ctl_cmd\<lparr>ctl_cmd_size := cmd_size, a_baseaddr := a_base, b_baseaddr := b_base,
       c_baseaddr := c_base, a_row := ar, a_col := ac, b_col := bc, work_id := wid\<rparr>"

definition DATA_SIZE :: nat where
  "DATA_SIZE = 16"

definition software_mmult :: "i32 list \<Rightarrow> i32 list \<Rightarrow> (i32 list, unit) prog" where
  "software_mmult in1 in2 =
     forM [0..<DATA_SIZE] (\<lambda>i. forM [0..<DATA_SIZE] (\<lambda>j. forM [0..<DATA_SIZE] (\<lambda>k.
       modifyM (\<lambda>out. out[i * DATA_SIZE + j :=
         out ! (i * DATA_SIZE + j) + in1 ! (i * DATA_SIZE + k) * in2 ! (k * DATA_SIZE + j)]))))"

subsection \<open>Parsing\<close>

lemma stream_read_run [run_simps]: "stream_read (x # s) = Some (Ret x, s)" "stream_read [] = None"
  by (simp_all add: stream_read_def)

lemma parse_loop_step:
  "n \<le> m - 2 \<Longrightarrow> unat n < 5 \<Longrightarrow> parse_loop m n xs (x # s) = parse_loop m (n + 1) (xs[unat n := x]) s"
  by (subst parse_loop.simps) (simp add: run_simps)

lemma parse_loop_end: "\<not> n \<le> m - 2 \<Longrightarrow> parse_loop m n xs s = Some (Ret xs, s)"
  by (subst parse_loop.simps) (simp add: run_simps)

lemma parse_loop_fault: "n \<le> m - 2 \<Longrightarrow> \<not> unat n < 5 \<Longrightarrow> parse_loop m n xs (x # s) = Some (Fault Out_Of_Bounds, s)"
  by (subst parse_loop.simps) (simp add: run_simps)

lemma parse_six:
  "parse_ctl_cmd (6 # x0 # x1 # x2 # x3 # x4 # s) = Some (Ret
     \<lparr>cl_a_baseaddr = x0, cl_b_baseaddr = x1, cl_c_baseaddr = x2, cl_a_row = drop_bit 16 x3,
       cl_a_col = x3 AND 0x0000ffff, cl_b_col = drop_bit 16 x4, cl_work_id = x4 AND 0x0000ffff\<rparr>, s)"
  by (simp add: parse_ctl_cmd_def run_simps parse_loop_step parse_loop_end)

text \<open>The ports that a command asks for.\<close>

definition ports_of :: "ctl_cmd_t \<Rightarrow> cl_ports" where
  "ports_of c = \<lparr>cl_a_baseaddr = a_baseaddr c, cl_b_baseaddr = b_baseaddr c,
     cl_c_baseaddr = c_baseaddr c, cl_a_row = ucast (a_row c), cl_a_col = ucast (a_col c),
     cl_b_col = ucast (b_col c), cl_work_id = ucast (work_id c)\<rparr>"

lemma parse_command:
  "ctl_cmd_size c = 6 \<Longrightarrow> parse_ctl_cmd (ctl_cmd_words c @ s) = Some (Ret (ports_of c), s)"
  by (simp add: ctl_cmd_words_def parse_six ports_of_def pack16_high pack16_low)

text \<open>The parser run until the stream is empty, once per command.\<close>

primrec parse_all :: "nat \<Rightarrow> (stream, cl_ports list) prog" where
  "parse_all 0 = returnM []"
| "parse_all (Suc n) = bindM cl_box (\<lambda>p. bindM (parse_all n) (\<lambda>ps. returnM (p # ps)))"

lemma parse_all_commands:
  "\<forall>c \<in> set cs. ctl_cmd_size c = 6 \<Longrightarrow>
   parse_all (List.length cs) (concat (map ctl_cmd_words cs) @ s) = Some (Ret (map ports_of cs), s)"
  by (induction cs) (simp_all add: run_simps cl_box_def parse_command)

lemma issue_all_fifo:
  "\<exists>w'. forM cs (issue_ctl_cmd base off) w = Some (Ret (), w') \<and>
     writes_to (hist w') (base + ucast off) =
       writes_to (hist w) (base + ucast off) @ concat (map ctl_cmd_words cs)"
proof (induction cs arbitrary: w)
  case Nil
  show ?case by (simp add: run_simps)
next
  case (Cons c cs)
  obtain w1 where one: "issue_ctl_cmd base off c w = Some (Ret (), w1)"
    by (simp add: issue_ctl_cmd_run)
  from Cons.IH [of w1] issue_ctl_cmd_fifo [OF one] show ?case
    by (auto simp: thenM_Ret one)
qed

text \<open>A command whose size word is not between 2 and 6 runs over the end of the array.\<close>

lemma bad_size_continues:
  assumes "cmd_size = 0 \<or> cmd_size = 1 \<or> 6 < cmd_size" and "n \<le> 5"
  shows "word_of_nat n \<le> (cmd_size :: u32) - 2"
  using assms(1)
proof (elim disjE)
  assume "6 < cmd_size"
  then have "unat (cmd_size - 2) = unat cmd_size - 2" "6 < unat cmd_size"
    by (simp_all add: word_less_nat_alt unat_sub word_le_nat_alt)
  moreover have "unat (word_of_nat n :: u32) = n" using assms(2) by (simp add: unat_of_nat)
  ultimately show ?thesis using assms(2) by (simp add: word_le_nat_alt)
next
  assume "cmd_size = 0"
  moreover have "unat (word_of_nat n :: u32) = n" using assms(2) by (simp add: unat_of_nat)
  moreover have "(- 2 :: u32) = 4294967294" by simp
  ultimately show ?thesis using assms(2) by (simp add: word_le_nat_alt)
next
  assume "cmd_size = 1"
  then show ?thesis by (simp add: word_order.extremum)
qed

lemma parse_loop_overrun:
  assumes "cmd_size = 0 \<or> cmd_size = 1 \<or> 6 < cmd_size" and "k \<le> 5" and "6 - k \<le> List.length s"
  shows "parse_loop cmd_size (word_of_nat k) xs s = Some (Fault Out_Of_Bounds, drop (6 - k) s)"
  using assms(2,3)
proof (induction "5 - k" arbitrary: k xs s)
  case 0
  then have k: "k = 5" by simp
  with 0 obtain x s' where "s = x # s'" by (cases s) auto
  with k bad_size_continues [OF assms(1), of 5] show ?case by (simp add: parse_loop_fault)
next
  case (Suc d)
  then have k: "k < 5" by simp
  with Suc.prems obtain x s' where s: "s = x # s'" by (cases s) auto
  have u: "unat (word_of_nat k :: u32) = k" using k by (simp add: unat_of_nat)
  have "parse_loop cmd_size (word_of_nat k) xs s = parse_loop cmd_size (word_of_nat (Suc k)) (xs[k := x]) s'"
    using bad_size_continues [OF assms(1), of k] k u by (simp add: s parse_loop_step add.commute)
  also have "\<dots> = Some (Fault Out_Of_Bounds, drop (6 - Suc k) s')"
    using Suc.hyps(2) Suc.prems k s by (intro Suc.hyps(1)) auto
  finally show ?case using k s by (simp add: diff_Suc split: nat.split)
qed

subsection \<open>Loops over a matrix\<close>

lemma forM_modify: "forM xs (\<lambda>x. modifyM (f x)) = modifyM (fold f xs)"
  by (induction xs) (simp_all add: fun_eq_iff run_simps)

lemma forM_map: "forM (map g xs) f = forM xs (\<lambda>x. f (g x))"
  by (induction xs) simp_all

text \<open>Two nested loops are one loop over the pairs of their counters.\<close>

lemma forM_product: "forM xs (\<lambda>i. forM ys (\<lambda>j. f (i, j))) = forM (List.product xs ys) f"
  by (induction xs) (simp_all add: forM_append forM_map)

lemma length_fold_update [simp]:
  "List.length (fold (\<lambda>x s. s[p x := u x (s ! p x)]) xs s) = List.length s"
  by (induction xs arbitrary: s) simp_all

text \<open>A pass that updates each of some different positions once.\<close>

lemma fold_update_nth:
  assumes "distinct (map p xs)" and "\<forall>x \<in> set xs. p x < List.length s"
  shows "(\<forall>x \<in> set xs. fold (\<lambda>x s. s[p x := u x (s ! p x)]) xs s ! p x = u x (s ! p x)) \<and>
    (\<forall>q. q \<notin> p ` set xs \<longrightarrow> fold (\<lambda>x s. s[p x := u x (s ! p x)]) xs s ! q = s ! q)"
  using assms
proof (induction xs arbitrary: s)
  case Nil
  then show ?case by simp
next
  case (Cons x xs)
  let ?s1 = "s[p x := u x (s ! p x)]"
  from Cons.IH [of ?s1] Cons.prems
  have IH: "\<forall>y \<in> set xs. fold (\<lambda>x s. s[p x := u x (s ! p x)]) xs ?s1 ! p y = u y (?s1 ! p y)"
    "\<forall>q. q \<notin> p ` set xs \<longrightarrow> fold (\<lambda>x s. s[p x := u x (s ! p x)]) xs ?s1 ! q = ?s1 ! q" by auto
  have "?s1 ! p y = s ! p y" if "y \<in> set xs" for y
    using Cons.prems(1) that by (metis distinct.simps(2) image_eqI list.simps(9) list.set_map nth_list_update_neq)
  moreover have "?s1 ! p x = u x (s ! p x)" using Cons.prems(2) by simp
  moreover have "p x \<notin> p ` set xs" using Cons.prems(1) by simp
  ultimately show ?case using IH by auto
qed

definition cells :: "(nat \<times> nat) list" where
  "cells = List.product [0..<16] [0..<16]"

definition slot :: "nat \<times> nat \<Rightarrow> nat" where
  "slot = (\<lambda>(i, j). i * 16 + j)"

lemma slot_inject:
  assumes "j < 16" and "j' < 16"
  shows "slot (i, j) = slot (i', j') \<longleftrightarrow> i = i' \<and> j = j'"
proof
  assume eq: "slot (i, j) = slot (i', j')"
  have "slot (i, j) div 16 = i" "slot (i, j) mod 16 = j" if "j < 16" for i j
    using that by (simp_all add: slot_def)
  with assms eq show "i = i' \<and> j = j'" by metis
qed simp

lemma cells_slots: "distinct (map slot cells)" "set cells = {0..<16} \<times> {0..<16}"
  "x \<in> set cells \<Longrightarrow> slot x < 256"
proof -
  show set: "set cells = {0..<16} \<times> {0..<16}" by (simp add: cells_def)
  have "inj_on slot (set cells)" unfolding set by (auto intro!: inj_onI simp: slot_inject)
  then show "distinct (map slot cells)" by (simp add: distinct_map cells_def distinct_product)
  show "x \<in> set cells \<Longrightarrow> slot x < 256" unfolding set by (auto simp: slot_def)
qed

text \<open>A pass over all cells of a matrix.\<close>

definition pass :: "(nat \<times> nat \<Rightarrow> i32 \<Rightarrow> i32) \<Rightarrow> i32 list \<Rightarrow> i32 list" where
  "pass u s = fold (\<lambda>x s. s[slot x := u x (s ! slot x)]) cells s"

lemma pass_nth:
  assumes "List.length s = 256" and "i < 16" and "j < 16"
  shows "pass u s ! (i * 16 + j) = u (i, j) (s ! (i * 16 + j))"
proof -
  have "(i, j) \<in> set cells" using assms(2,3) by (simp add: cells_slots(2))
  moreover have "\<forall>x \<in> set cells. slot x < List.length s" using cells_slots(3) assms(1) by simp
  ultimately have "pass u s ! slot (i, j) = u (i, j) (s ! slot (i, j))"
    unfolding pass_def using fold_update_nth [OF cells_slots(1), of s u] by blast
  then show ?thesis by (simp add: slot_def)
qed

lemma length_pass [simp]: "List.length (pass u s) = List.length s"
  by (simp add: pass_def)

subsection \<open>The kernel computes the product\<close>

text \<open>What one step of the systolic loop adds to a cell.\<close>

definition cell_term :: "i32 list \<Rightarrow> i32 list \<Rightarrow> i32 \<Rightarrow> i32 \<Rightarrow> i32 \<Rightarrow> nat \<Rightarrow> nat \<times> nat \<Rightarrow> i32" where
  "cell_term a b ar ac bc k = (\<lambda>(i, j).
     (if int i < sint ar \<and> int k < sint ac then a ! (i * 16 + k) else 0) *
     (if int k < sint ac \<and> int j < sint bc then b ! (k * 16 + j) else 0))"

lemma mmult_step:
  assumes "k < 16"
  shows "forM [0..<MAX_SIZE] (\<lambda>i. forM [0..<MAX_SIZE] (\<lambda>j. mmult_cell a b ar ac bc k (i, j))) C =
    Some (Ret (), pass (\<lambda>x v. (if k = 0 then 0 else v) + cell_term a b ar ac bc k x) C)"
proof -
  have "mmult_cell a b ar ac bc k = (\<lambda>x. modifyM (\<lambda>C. C[slot x :=
      (if k = 0 then 0 else C ! slot x) + cell_term a b ar ac bc k x]))"
    using assms by (auto simp: fun_eq_iff mmult_cell_def MAX_SIZE_def Let_def cell_term_def slot_def modifyM_def)
  moreover have "forM [0..<MAX_SIZE] (\<lambda>i. forM [0..<MAX_SIZE] (\<lambda>j. mmult_cell a b ar ac bc k (i, j))) =
      forM cells (mmult_cell a b ar ac bc k)"
    unfolding MAX_SIZE_def cells_def by (rule forM_product)
  ultimately show ?thesis by (simp add: forM_modify modifyM_run pass_def)
qed

lemma mmult_loop:
  assumes "n \<le> 16" and "List.length C = 256"
  shows "\<exists>C'. forM [0..<n] (\<lambda>k. forM [0..<MAX_SIZE] (\<lambda>i. forM [0..<MAX_SIZE] (\<lambda>j.
      mmult_cell a b ar ac bc k (i, j)))) C = Some (Ret (), C') \<and> List.length C' = 256 \<and>
    (0 < n \<longrightarrow> (\<forall>i<16. \<forall>j<16. C' ! (i * 16 + j) = (\<Sum>k<n. cell_term a b ar ac bc k (i, j))))"
  using assms(1)
proof (induction n)
  case 0
  show ?case using assms(2) by (simp add: run_simps)
next
  case (Suc n)
  then obtain C1 where C1: "forM [0..<n] (\<lambda>k. forM [0..<MAX_SIZE] (\<lambda>i. forM [0..<MAX_SIZE] (\<lambda>j.
      mmult_cell a b ar ac bc k (i, j)))) C = Some (Ret (), C1)" "List.length C1 = 256"
    "0 < n \<longrightarrow> (\<forall>i<16. \<forall>j<16. C1 ! (i * 16 + j) = (\<Sum>k<n. cell_term a b ar ac bc k (i, j)))" by auto
  let ?u = "\<lambda>x v. (if n = 0 then 0 else v) + cell_term a b ar ac bc n x"
  have "forM [0..<Suc n] (\<lambda>k. forM [0..<MAX_SIZE] (\<lambda>i. forM [0..<MAX_SIZE] (\<lambda>j.
      mmult_cell a b ar ac bc k (i, j)))) C = Some (Ret (), pass ?u C1)"
    using Suc.prems C1(1) mmult_step [of n a b ar ac bc C1]
    by (simp add: forM_append run_simps)
  moreover have "pass ?u C1 ! (i * 16 + j) = (\<Sum>k<Suc n. cell_term a b ar ac bc k (i, j))"
    if "i < 16" "j < 16" for i j
    using C1(2,3) that by (cases "n = 0") (simp_all add: pass_nth)
  ultimately show ?case using C1(2) by simp
qed

lemma software_mmult_run:
  "software_mmult a b C = Some (Ret (), pass (\<lambda>(i, j) v. v + (\<Sum>k<16. a ! (i * 16 + k) * b ! (k * 16 + j))) C)"
proof -
  have acc: "fold (\<lambda>k s. s[p := s ! p + g k]) [0..<n] s = s[p := s ! p + (\<Sum>k<n. g k)]"
    for p n and g :: "nat \<Rightarrow> i32" and s
  proof (induction n)
    case (Suc n)
    then show ?case by (cases "p < List.length s") (simp_all add: add.assoc list_update_beyond)
  qed simp
  let ?f = "\<lambda>x. modifyM (\<lambda>C. C[slot x :=
       (\<lambda>(i, j) v. v + (\<Sum>k<16. a ! (i * 16 + k) * b ! (k * 16 + j))) x (C ! slot x)])"
  have inner: "forM [0..<16] (\<lambda>k. modifyM (\<lambda>out. out[i * 16 + j :=
       out ! (i * 16 + j) + a ! (i * 16 + k) * b ! (k * 16 + j)])) = ?f (i, j)" for i j
    by (simp add: fun_eq_iff forM_modify modifyM_run acc slot_def)
  have outer: "forM [0..<16] (\<lambda>i. forM [0..<16] (\<lambda>j. ?f (i, j))) = forM cells ?f"
    unfolding cells_def by (rule forM_product [where f = ?f])
  show ?thesis
    unfolding software_mmult_def DATA_SIZE_def inner outer
    by (simp only: forM_modify pass_def modifyM_run)
qed

subsection \<open>Properties\<close>

text \<open>
  C31: the parser recovers every command: after the host has issued any sequence of six-word
  commands into the FIFO of the accelerator, the parser run once per command yields exactly the
  base addresses, sizes and work ids of those commands in order, and leaves the FIFO empty.
\<close>

theorem commands_reach_kernel:
  assumes "\<forall>c \<in> set cs. ctl_cmd_size c = 6" and "writes_to (hist w) (base + ucast off) = []"
  shows "\<exists>w'. forM cs (issue_ctl_cmd base off) w = Some (Ret (), w') \<and>
    parse_all (List.length cs) (writes_to (hist w') (base + ucast off)) = Some (Ret (map ports_of cs), [])"
  using issue_all_fifo [of cs base off w] parse_all_commands [OF assms(1), of "[]"] assms(2) by auto

definition demo_cmd :: ctl_cmd_t where
  "demo_cmd = \<lparr>ctl_cmd_size = 6, a_baseaddr = 0, b_baseaddr = 0x400, c_baseaddr = 0x800, a_row = 16,
     a_col = 16, b_col = 16, work_id = 0xdd\<rparr>"

theorem commands_reach_kernel_witness:
  "\<exists>w'. forM [demo_cmd] (issue_ctl_cmd 0x10000000 0x80) idle_world = Some (Ret (), w') \<and>
    parse_all 1 (writes_to (hist w') 0x10000080) = Some (Ret [ports_of demo_cmd], [])"
  using commands_reach_kernel [of "[demo_cmd]" idle_world "0x10000000" "0x80"]
  by (simp add: demo_cmd_def)

text \<open>
  A size word of 0, 1 or more than 6 makes the parser write beyond its five-element array: the
  bound \<open>cmd_size - 2\<close> wraps below 2, and nothing bounds it above.
\<close>

theorem parse_ctl_cmd_overrun:
  assumes "cmd_size = 0 \<or> cmd_size = 1 \<or> 6 < cmd_size" and "6 \<le> List.length s"
  shows "parse_ctl_cmd (cmd_size # s) = Some (Fault Out_Of_Bounds, drop 6 s)"
  using parse_loop_overrun [OF assms(1), of 0 s] assms(2) by (simp add: parse_ctl_cmd_def run_simps)

theorem parse_ctl_cmd_overrun_witness:
  "parse_ctl_cmd (1 # replicate 6 0) = Some (Fault Out_Of_Bounds, [])"
  using parse_ctl_cmd_overrun [of 1 "replicate 6 0"] by simp

text \<open>
  C32: the systolic kernel computes the matrix product modulo \<open>2 ^ 32\<close>: for an inner dimension from 1
  to 16 it returns, every cell inside the result is the sum of the products of its row and
  column, every cell outside is 0, and the work id is passed on, whatever the local matrix held
  before.
\<close>

theorem mmult_product:
  assumes "0 < sint ac" and "sint ac \<le> 16" and "List.length junk = 256"
  shows "\<exists>C. mmult a b ar ac bc wid junk = Some (Ret (C, wid), C) \<and> List.length C = 256 \<and>
    (\<forall>i<16. \<forall>j<16. C ! (i * 16 + j) =
      (if int i < sint ar \<and> int j < sint bc then \<Sum>k<nat (sint ac). a ! (i * 16 + k) * b ! (k * 16 + j) else 0))"
proof -
  let ?n = "nat (sint ac)"
  have n: "?n \<le> 16" "0 < ?n" using assms(1,2) by simp_all
  from mmult_loop [OF n(1) assms(3), of a b ar ac bc] n(2) obtain C where
    C: "forM [0..<?n] (\<lambda>k. forM [0..<MAX_SIZE] (\<lambda>i. forM [0..<MAX_SIZE] (\<lambda>j.
      mmult_cell a b ar ac bc k (i, j)))) junk = Some (Ret (), C)" "List.length C = 256"
    "\<forall>i<16. \<forall>j<16. C ! (i * 16 + j) = (\<Sum>k<?n. cell_term a b ar ac bc k (i, j))" by auto
  have "(\<Sum>k<?n. cell_term a b ar ac bc k (i, j)) =
      (if int i < sint ar \<and> int j < sint bc then \<Sum>k<?n. a ! (i * 16 + k) * b ! (k * 16 + j) else 0)" for i j
    by (auto simp: cell_term_def intro!: sum.cong)
  with C show ?thesis by (simp add: mmult_def run_simps)
qed

theorem mmult_product_witness:
  "\<exists>C. mmult (replicate 256 1) (replicate 256 2) 16 16 16 7 (replicate 256 0) = Some (Ret (C, 7), C)"
  using mmult_product [of 16 "replicate 256 0" "replicate 256 1" "replicate 256 2" 16 16 7] by auto

lemma mmult_software_run:
  assumes "List.length junk = 256"
  shows "\<exists>C. List.length C = 256 \<and> mmult a b 16 16 16 wid junk = Some (Ret (C, wid), C) \<and>
    software_mmult a b (replicate 256 0) = Some (Ret (), C)"
proof -
  let ?S = "pass (\<lambda>(i, j) v. v + (\<Sum>k<16. a ! (i * 16 + k) * b ! (k * 16 + j))) (replicate 256 (0 :: i32))"
  from mmult_loop [OF order_refl assms, of a b 16 16 16] obtain C where
    C: "forM [0..<16] (\<lambda>k. forM [0..<MAX_SIZE] (\<lambda>i. forM [0..<MAX_SIZE] (\<lambda>j.
      mmult_cell a b 16 16 16 k (i, j)))) junk = Some (Ret (), C)" "List.length C = 256"
    "\<forall>i<16. \<forall>j<16. C ! (i * 16 + j) = (\<Sum>k<16. cell_term a b 16 16 16 k (i, j))" by auto
  have "C = ?S"
  proof (rule nth_equalityI)
    fix p assume "p < List.length C"
    then have "p div 16 < 16" "p mod 16 < 16" "(p div 16) * 16 + p mod 16 = p" using C(2) by auto
    moreover have "cell_term a b 16 16 16 k (i, j) = a ! (i * 16 + k) * b ! (k * 16 + j)"
      if "i < 16" "j < 16" "k < 16" for i j k
      using that by (simp add: cell_term_def)
    ultimately show "C ! p = ?S ! p"
      using C(3) [rule_format, of "p div 16" "p mod 16"] pass_nth [of "replicate 256 0" "p div 16" "p mod 16"]
      by auto
  qed (simp add: C(2))
  then show ?thesis using C(1,2) by (simp add: mmult_def run_simps software_mmult_run)
qed

text \<open>
  The check of the example is sound: on full 16 x 16 matrices the kernel and the host's
  \<open>software_mmult\<close>, started on a zeroed result, produce the same matrix.
\<close>

theorem mmult_matches_software:
  assumes "List.length junk = 256"
  shows "\<exists>C. mmult a b 16 16 16 wid junk = Some (Ret (C, wid), C) \<and>
    software_mmult a b (replicate 256 0) = Some (Ret (), C)"
  using mmult_software_run [OF assms] by blast

theorem mmult_matches_software_witness:
  "\<exists>C. mmult (replicate 256 1) (replicate 256 2) 16 16 16 7 (replicate 256 5) = Some (Ret (C, 7), C)"
  using mmult_matches_software [of "replicate 256 5" "replicate 256 1" "replicate 256 2" 7] by auto

end
