(* ===== verification/Kernel_Tests.thy ===== *)
theory Kernel_Tests
  imports Compute
begin

text \<open>
  The test benches \<open>test_cl_box.cpp\<close> and \<open>test_mmult.cpp\<close> of \<open>src/shell/compute/lookside\<close>, run
  against the command parser and the kernel of \<open>Compute\<close>. The lemma says that both pass, whatever
  the local matrix of the kernel holds at the start.
\<close>

subsection \<open>The bench of the command parser\<close>

definition CTL_CMD_SIZE :: u32 where
  "CTL_CMD_SIZE = 6"

definition NUM_ENTRY :: nat where
  "NUM_ENTRY = 1"

text \<open>The two streams of the bench: the commands, and the work ids it expects.\<close>

definition init_entry :: "i32 \<Rightarrow> stream \<times> i32 list \<Rightarrow> stream \<times> i32 list" where
  "init_entry i = (\<lambda>(ctl_cmds, sw_status_stream).
     let a_baseaddr = 0x00010000; b_baseaddr = 0x00020000; c_baseaddr = 0x00030000;
         a_row_col = 0x00100010; b_col = 0x0010; work_id = 0x00dd;
         ctl_last = push_bit 16 b_col OR work_id
     in (ctl_cmds @ [CTL_CMD_SIZE, a_baseaddr + i * 0x100, b_baseaddr + i * 0x100,
                     c_baseaddr + i * 0x100, a_row_col, ctl_last + i],
         sw_status_stream @ [work_id + i]))"

definition init_streams :: "stream \<times> i32 list" where
  "init_streams = fold (\<lambda>i. init_entry (word_of_nat i)) [0..<NUM_ENTRY] ([], [])"

text \<open>
  The comparison reads an expected id per entry; \<open>None\<close> is a read of the empty stream. The result is
  \<open>match\<close>, which is 1 after a mismatch.
\<close>

primrec compare_ids :: "nat \<Rightarrow> i32 \<Rightarrow> i32 list \<Rightarrow> i32 option" where
  "compare_ids 0 hw_work_id sw = Some 0"
| "compare_ids (Suc n) hw_work_id sw = (case sw of
       [] \<Rightarrow> None
     | sw_work_id # sw' \<Rightarrow> if sw_work_id \<noteq> hw_work_id then Some 1 else compare_ids n hw_work_id sw')"

text \<open>
  The exit status, 0 for \<open>EXIT_SUCCESS\<close> and 1 for \<open>EXIT_FAILURE\<close>; \<open>None\<close> is a bench that never ends
  or breaks off.
\<close>

definition cl_box_bench :: "i32 option" where
  "cl_box_bench = (case init_streams of (ctl_cmd_stream, sw_status_stream) \<Rightarrow>
     (case cl_box ctl_cmd_stream of
        Some (Ret ports, _) \<Rightarrow>
          (case compare_ids NUM_ENTRY (cl_work_id ports) sw_status_stream of
             None \<Rightarrow> None
           | Some match \<Rightarrow> Some (if match \<noteq> 0 then 1 else 0))
      | _ \<Rightarrow> None))"

subsection \<open>The bench of the kernel\<close>

definition source_in :: "i32 list" where
  "source_in = map (\<lambda>i. word_of_nat (i mod 10)) [0..<DATA_SIZE * DATA_SIZE]"

primrec compare_cells :: "(i32 \<times> i32) list \<Rightarrow> i32" where
  "compare_cells [] = 0"
| "compare_cells (p # ps) = (if fst p \<noteq> snd p then 1 else compare_cells ps)"

definition mmult_bench :: "i32 list \<Rightarrow> i32 option" where
  "mmult_bench junk =
     (if DATA_SIZE > MAX_SIZE then Some 1 else
      let n = word_of_nat DATA_SIZE in
      (case mmult source_in source_in n n n 0xdd junk of
         Some (Ret (source_hw_results, _), _) \<Rightarrow>
           (case software_mmult source_in source_in (replicate (DATA_SIZE * DATA_SIZE) 0) of
              Some (Ret _, source_sw_results) \<Rightarrow>
                let match = compare_cells (zip source_hw_results source_sw_results)
                in Some (if match \<noteq> 0 then 1 else 0)
            | _ \<Rightarrow> None)
       | _ \<Rightarrow> None))"

subsection \<open>Both pass\<close>

lemma compare_cells_zero: "compare_cells ps = 0 \<longleftrightarrow> (\<forall>(x, y) \<in> set ps. x = y)"
  by (induction ps) auto

lemma init_streams_words:
  "init_streams = ([6, 0x00010000, 0x00020000, 0x00030000, 0x00100010, 0x001000dd], [0xdd])"
  by (simp add: init_streams_def NUM_ENTRY_def init_entry_def CTL_CMD_SIZE_def)

lemma cl_box_bench_passes: "cl_box_bench = Some 0"
  by (simp add: cl_box_bench_def init_streams_words cl_box_def parse_six NUM_ENTRY_def)

text \<open>
  Both test benches pass: the parser hands on the work id of the command it is sent, and the
  kernel agrees with the reference product on the matrices of the bench, for every content its
  uninitialised local matrix may have.
\<close>

theorem benches_pass:
  assumes "List.length junk = 256"
  shows "cl_box_bench = Some 0 \<and> mmult_bench junk = Some 0"
proof -
  obtain C where C: "mmult source_in source_in 16 16 16 0xdd junk = Some (Ret (C, 0xdd), C)"
    "software_mmult source_in source_in (replicate 256 0) = Some (Ret (), C)"
    using mmult_software_run [OF assms, of source_in source_in "0xdd"] by blast
  have "compare_cells (zip C C) = 0" by (auto simp: compare_cells_zero zip_same_conv_map)
  with C show ?thesis
    by (simp add: cl_box_bench_passes mmult_bench_def DATA_SIZE_def MAX_SIZE_def)
qed

theorem benches_pass_witness:
  "cl_box_bench = Some 0 \<and> mmult_bench (replicate 256 7) = Some 0"
  using benches_pass [of "replicate 256 7"] by simp

end
