(* ===== verification/Rdma_Examples.thy ===== *)
theory Rdma_Examples
  imports Example_Setup
begin

text \<open>
  The programs of \<open>src/examples/rdma_test\<close>: \<open>read.c\<close>, \<open>write.c\<close>, their batched versions, and
  \<open>send_recv.c\<close>. Each has the option loop of \<open>Example_Host\<close>, the frame of \<open>Example_Setup\<close>, and a
  client and a server of its own, modelled here statement by statement. The lemmas show
  under which conditions no program follows a bad pointer or leaves its objects, and what the two
  sides exchange. Messages, the clock and \<open>sleep\<close> have no effect on the rest and are left
  out. Memory of huge pages is addressed without bounds, as the code does.
\<close>

subsection \<open>The exchange of an offset\<close>

definition connect_peer :: "options \<Rightarrow> session \<Rightarrow> unit io" where
  "connect_peer o1 s = modifyM (emit (Sock_Connect (s_sockfd s) (opt_dst_ip_str o1) (opt_tcp_sport o1)))"

text \<open>Any positive number of bytes counts as an offset; \<open>None\<close> is the \<open>return -1\<close>.\<close>

definition fetch_offset :: "host \<Rightarrow> session \<Rightarrow> u64 option io" where
  "fetch_offset H s =
     bindM (recv_offset H (s_sockfd s)) (\<lambda>(rc, offset).
     if 0 < sint rc then returnM (Some (ntohll offset))
     else thenM (sys_close (s_sockfd s)) (returnM None))"

definition accept_peer :: "host \<Rightarrow> options \<Rightarrow> session \<Rightarrow> i32 io" where
  "accept_peer H o1 s =
     thenM (modifyM (emit (Sock_Listen (s_sockfd s) (opt_src_ip_str o1) (opt_tcp_sport o1))))
       (sys_accept H (s_sockfd s))"

definition publish_offset :: "i32 \<Rightarrow> rdma_buff_t \<Rightarrow> unit io" where
  "publish_offset accepted_sockfd b = send_offset accepted_sockfd (htonll (buf_buffer b))"

text \<open>\<open>rn_dev->rdma_dev\<close>, read at every use.\<close>

definition with_rn :: "session \<Rightarrow> (ptr \<Rightarrow> 'a io) \<Rightarrow> 'a io" where
  "with_rn s f = bindM (load as_rn_dev (s_rn_dev s)) (\<lambda>d. f (rn_rdma_dev d))"

subsection \<open>The payload\<close>

text \<open>
  \<open>n\<close> bytes of golden data to a buffer: a transfer if the buffer is in device memory, and
  \<open>words\<close> words written directly otherwise.
\<close>

definition place_payload :: "env \<Rightarrow> ptr \<Rightarrow> u64 \<Rightarrow> nat \<Rightarrow> rdma_buff_t \<Rightarrow> flow io" where
  "place_payload E sw_golden n words b =
     (if is_device_address (buf_dma_addr b) \<noteq> 0 then
        bindM (array_to_device E sw_golden n (buf_dma_addr b)) (\<lambda>rc.
        returnM (if is_negative rc then Goto_Out else Continue))
      else thenM (fill_shared (buf_buffer b) words) (returnM Continue))"

text \<open>What \<open>recv_tmp\<close> points to: its array, or the buffer itself.\<close>

datatype recv = Recv_Array ptr | Recv_Buffer u64

definition recv_word :: "env \<Rightarrow> host \<Rightarrow> recv \<Rightarrow> nat \<Rightarrow> u32 io" where
  "recv_word E H r i = (case r of
       Recv_Array p \<Rightarrow> load_word E H p i
     | Recv_Buffer a \<Rightarrow> bindM (load_shared H (a + word_of_nat (4 * i)) 4) (\<lambda>bs. returnM (le_word bs)))"

text \<open>The comparison stops at the first difference.\<close>

primrec compare_golden :: "env \<Rightarrow> host \<Rightarrow> recv \<Rightarrow> ptr \<Rightarrow> nat list \<Rightarrow> bool io" where
  "compare_golden E H recv_tmp sw_golden [] = returnM True"
| "compare_golden E H recv_tmp sw_golden (i # is) =
     bindM (recv_word E H recv_tmp i) (\<lambda>x.
     bindM (load_word E H sw_golden i) (\<lambda>y.
     if x \<noteq> y then returnM False else compare_golden E H recv_tmp sw_golden is))"

text \<open>
  From a buffer to \<open>recv_tmp\<close>, the check, and the release of \<open>recv_tmp\<close> where it is still the
  array. A failed transfer or check leaves with \<open>goto out\<close>, without the release.
\<close>

definition check_payload :: "env \<Rightarrow> host \<Rightarrow> ptr \<Rightarrow> ptr \<Rightarrow> u32 \<Rightarrow> u64 \<Rightarrow> u64 \<Rightarrow> flow io" where
  "check_payload E H sw_golden recv_tmp payload_size buffer dma_addr =
     (let compare = (\<lambda>r. compare_golden E H r sw_golden [0..<unat (drop_bit 2 payload_size)]) in
      if is_device_address dma_addr \<noteq> 0 then
        bindM (device_to_array E recv_tmp (ucast payload_size) dma_addr) (\<lambda>rc.
        if is_negative rc then returnM Goto_Out else
        bindM (compare (Recv_Array recv_tmp)) (\<lambda>ok.
        if ok then thenM (free_obj recv_tmp) (returnM Continue) else returnM Goto_Out))
      else bindM (compare (Recv_Buffer buffer)) (\<lambda>ok. returnM (if ok then Continue else Goto_Out)))"

definition and_then :: "flow io \<Rightarrow> flow io \<Rightarrow> flow io" where
  "and_then m n = bindM m (\<lambda>f. case f of Continue \<Rightarrow> n | _ \<Rightarrow> returnM f)"

subsection \<open>\<open>main\<close>\<close>

text \<open>
  The frame of the five \<open>main\<close> functions: the socket, the options, the setup, the two bodies.
\<close>

definition program_main ::
    "program \<Rightarrow> (env \<Rightarrow> host \<Rightarrow> i32 \<Rightarrow> options \<Rightarrow> session option io) \<Rightarrow>
     (env \<Rightarrow> host \<Rightarrow> options \<Rightarrow> session \<Rightarrow> flow io) \<Rightarrow> (env \<Rightarrow> host \<Rightarrow> options \<Rightarrow> session \<Rightarrow> flow io) \<Rightarrow>
     (i32 \<Rightarrow> unit io) \<Rightarrow> env \<Rightarrow> host \<Rightarrow> (char \<times> string) list \<Rightarrow> i32 io" where
  "program_main prog setup client server close_socket E H args =
     bindM (sys_socket H) (\<lambda>sockfd.
     bindM (parse_command_line prog H args) (\<lambda>o1.
     bindM (setup E H sockfd o1) (\<lambda>r. case r of
         None \<Rightarrow> returnM minus_EINVAL
       | Some s \<Rightarrow> run_bodies E o1 s (client E H o1 s) (server E H o1 s) (close_socket sockfd))))"

subsection \<open>\<open>read.c\<close>\<close>

definition read_setup :: "env \<Rightarrow> host \<Rightarrow> i32 \<Rightarrow> options \<Rightarrow> session option io" where
  "read_setup E H sockfd o1 =
     example_setup E H sockfd o1 (ucast (opt_payload_size o1)) (make_golden E (opt_payload_size o1))"

definition read_client :: "env \<Rightarrow> host \<Rightarrow> options \<Rightarrow> session \<Rightarrow> flow io" where
  "read_client E H o1 s =
     (let payload_size = opt_payload_size o1 in
      bindM (malloc E (O_mem (ucast payload_size))) (\<lambda>recv_tmp.
      thenM (connect_peer o1 s) (
      bindM (fetch_offset H s) (\<lambda>r. case r of
        None \<Rightarrow> returnM (Return (- 1))
      | Some read_A_offset \<Rightarrow>
        bindM (allocate_rdma_buffer E (s_rn_dev s) (ucast payload_size) DEVICE_MEM) (\<lambda>device_buffer.
        bindM (load as_rdma_buff device_buffer) (\<lambda>b.
        thenM (with_rn s (\<lambda>dev. create_a_wqe E dev main_qpid 0 0 (buf_dma_addr b) payload_size
                 RNIC_OP_READ read_A_offset R_KEY 0 0 0 0 0)) (
        thenM (with_rn s (\<lambda>dev. rdma_post_send E dev main_qpid)) (
        thenM (with_rn s (\<lambda>dev. dump_registers E dev 1 main_qpid)) (
        and_then (check_payload E H (s_golden s) recv_tmp payload_size (buf_buffer b) (buf_dma_addr b))
          (thenM (dump_registers E (s_rdma_dev s) 1 main_qpid) (returnM Continue)))))))))))"

definition read_server :: "env \<Rightarrow> host \<Rightarrow> options \<Rightarrow> session \<Rightarrow> flow io" where
  "read_server E H o1 s =
     (let payload_size = opt_payload_size o1 in
      bindM (accept_peer H o1 s) (\<lambda>accepted_sockfd.
      bindM (allocate_rdma_buffer E (s_rn_dev s) (ucast payload_size) DEVICE_MEM) (\<lambda>tmp_buffer.
      thenM (rdma_register_memory_region (s_rdma_dev s) (s_rdma_pd s) R_KEY tmp_buffer) (
      bindM (load as_rdma_buff tmp_buffer) (\<lambda>b.
      and_then (place_payload E (s_golden s) (ucast payload_size) (unat (drop_bit 2 payload_size)) b) (
      thenM (publish_offset accepted_sockfd b) (
      thenM (wait_key H) (
      thenM (with_rn s (\<lambda>dev. dump_registers E dev 0 main_qpid)) (
      thenM (shutdown_close accepted_sockfd) (returnM Continue))))))))))"

definition read_main :: "env \<Rightarrow> host \<Rightarrow> (char \<times> string) list \<Rightarrow> i32 io" where
  "read_main = program_main Read_Prog read_setup read_client read_server shutdown_close"

subsection \<open>\<open>write.c\<close>\<close>

definition write_setup :: "env \<Rightarrow> host \<Rightarrow> i32 \<Rightarrow> options \<Rightarrow> session option io" where
  "write_setup E H sockfd o1 =
     example_setup E H sockfd o1 (ucast (opt_payload_size o1)) (make_golden E (opt_payload_size o1))"

definition write_client :: "env \<Rightarrow> host \<Rightarrow> options \<Rightarrow> session \<Rightarrow> flow io" where
  "write_client E H o1 s =
     (let payload_size = opt_payload_size o1 in
      thenM (connect_peer o1 s) (
      bindM (fetch_offset H s) (\<lambda>r. case r of
        None \<Rightarrow> returnM (Return (- 1))
      | Some write_offset_client \<Rightarrow>
        bindM (allocate_rdma_buffer E (s_rn_dev s) (ucast payload_size) DEVICE_MEM) (\<lambda>device_buffer.
        bindM (load as_rdma_buff device_buffer) (\<lambda>b.
        and_then (place_payload E (s_golden s) (ucast payload_size) (unat (drop_bit 2 payload_size)) b) (
        thenM (with_rn s (\<lambda>dev. create_a_wqe E dev main_qpid 0 0 (buf_dma_addr b) payload_size
                 RNIC_OP_WRITE write_offset_client R_KEY 0 0 0 0 0)) (
        thenM (with_rn s (\<lambda>dev. rdma_post_send E dev main_qpid)) (
        thenM (dump_registers E (s_rdma_dev s) 1 main_qpid) (returnM Continue)))))))))"

definition write_server :: "env \<Rightarrow> host \<Rightarrow> options \<Rightarrow> session \<Rightarrow> flow io" where
  "write_server E H o1 s =
     (let payload_size = opt_payload_size o1 in
      bindM (malloc E (O_mem (ucast payload_size))) (\<lambda>recv_tmp.
      bindM (accept_peer H o1 s) (\<lambda>accepted_sockfd.
      thenM (with_rn s (\<lambda>dev. dump_registers E dev 0 main_qpid)) (
      bindM (allocate_rdma_buffer E (s_rn_dev s) (ucast payload_size) DEVICE_MEM) (\<lambda>tmp_buffer.
      thenM (rdma_register_memory_region (s_rdma_dev s) (s_rdma_pd s) R_KEY tmp_buffer) (
      bindM (load as_rdma_buff tmp_buffer) (\<lambda>b.
      thenM (publish_offset accepted_sockfd b) (
      thenM (with_rn s (\<lambda>dev. dump_registers E dev 0 main_qpid)) (
      thenM (wait_key H) (
      and_then (check_payload E H (s_golden s) recv_tmp payload_size (buf_buffer b) (buf_dma_addr b)) (
      thenM (with_rn s (\<lambda>dev. dump_registers E dev 0 main_qpid)) (
      thenM (shutdown_close accepted_sockfd) (returnM Continue)))))))))))))"

definition write_main :: "env \<Rightarrow> host \<Rightarrow> (char \<times> string) list \<Rightarrow> i32 io" where
  "write_main = program_main Write_Prog write_setup write_client write_server shutdown_close"

subsection \<open>\<open>read_batch.c\<close> and \<open>write_batch.c\<close>\<close>

text \<open>
  The pointer to the error buffer is one to 64-bit words, so the second value is read 64 bytes
  behind the first.
\<close>

definition read_error_buffers :: "host \<Rightarrow> session \<Rightarrow> unit io" where
  "read_error_buffers H s =
     bindM (load as_rdma_buff (s_err_buf s)) (\<lambda>err.
     thenM (forM [0..<2] (\<lambda>i. thenM (load_shared H (buf_buffer err + 8 * (word_of_nat i * 8)) 8) (returnM ()))) (
     bindM (load as_rdma_buff (s_ipkterr_buf s)) (\<lambda>ipkterr.
     thenM (load_shared H (buf_buffer ipkterr) 8) (returnM ()))))"

definition total_payload_size :: "options \<Rightarrow> u32" where
  "total_payload_size o1 = opt_WQE_count o1 * opt_payload_size o1"

text \<open>Every element has the same local and the same remote address.\<close>

definition create_batch :: "env \<Rightarrow> options \<Rightarrow> session \<Rightarrow> rdma_buff_t \<Rightarrow> u32 \<Rightarrow> u64 \<Rightarrow> unit io" where
  "create_batch E o1 s b opcode remote_offset =
     forM [0..<unat (opt_WQE_count o1)] (\<lambda>i. with_rn s (\<lambda>dev.
       create_a_wqe E dev main_qpid 0 (word_of_nat i) (buf_dma_addr b) (opt_payload_size o1) opcode
         remote_offset R_KEY 0 0 0 0 0))"

definition read_batch_setup :: "env \<Rightarrow> host \<Rightarrow> i32 \<Rightarrow> options \<Rightarrow> session option io" where
  "read_batch_setup E H sockfd o1 =
     example_setup E H sockfd o1 (ucast (total_payload_size o1)) (make_golden E (total_payload_size o1))"

definition read_batch_client :: "env \<Rightarrow> host \<Rightarrow> options \<Rightarrow> session \<Rightarrow> flow io" where
  "read_batch_client E H o1 s =
     thenM (connect_peer o1 s) (
     bindM (fetch_offset H s) (\<lambda>r. case r of
       None \<Rightarrow> returnM (Return (- 1))
     | Some read_A_offset \<Rightarrow>
       bindM (allocate_rdma_buffer E (s_rn_dev s) (ucast (total_payload_size o1)) DEVICE_MEM) (\<lambda>device_buffer.
       bindM (load as_rdma_buff device_buffer) (\<lambda>b.
       thenM (create_batch E o1 s b RNIC_OP_READ read_A_offset) (
       thenM (with_rn s (\<lambda>dev. rdma_post_batch_send E dev main_qpid (opt_WQE_count o1))) (
       thenM (dump_registers E (s_rdma_dev s) 1 main_qpid) (
       thenM (read_error_buffers H s) (returnM Continue))))))))"

definition read_batch_server :: "env \<Rightarrow> host \<Rightarrow> options \<Rightarrow> session \<Rightarrow> flow io" where
  "read_batch_server E H o1 s =
     (let total = total_payload_size o1 in
      thenM (read_error_buffers H s) (
      bindM (accept_peer H o1 s) (\<lambda>accepted_sockfd.
      bindM (allocate_rdma_buffer E (s_rn_dev s) (ucast total) DEVICE_MEM) (\<lambda>tmp_buffer.
      thenM (rdma_register_memory_region (s_rdma_dev s) (s_rdma_pd s) R_KEY tmp_buffer) (
      bindM (load as_rdma_buff tmp_buffer) (\<lambda>b.
      and_then (place_payload E (s_golden s) (ucast total) (unat (drop_bit 2 total)) b) (
      thenM (publish_offset accepted_sockfd b) (
      thenM (wait_key H) (
      thenM (with_rn s (\<lambda>dev. dump_registers E dev 0 main_qpid)) (
      thenM (read_error_buffers H s) (
      thenM (shutdown_close accepted_sockfd) (returnM Continue))))))))))))"

definition read_batch_main :: "env \<Rightarrow> host \<Rightarrow> (char \<times> string) list \<Rightarrow> i32 io" where
  "read_batch_main = program_main Read_Batch read_batch_setup read_batch_client read_batch_server shutdown_close"

definition write_batch_setup :: "env \<Rightarrow> host \<Rightarrow> i32 \<Rightarrow> options \<Rightarrow> session option io" where
  "write_batch_setup E H sockfd o1 =
     example_setup E H sockfd o1 (ucast (total_payload_size o1)) (make_golden E (total_payload_size o1))"

text \<open>Where the buffer is not in device memory, only the first payload of the batch is written.\<close>

definition write_batch_client :: "env \<Rightarrow> host \<Rightarrow> options \<Rightarrow> session \<Rightarrow> flow io" where
  "write_batch_client E H o1 s =
     thenM (connect_peer o1 s) (
     bindM (fetch_offset H s) (\<lambda>r. case r of
       None \<Rightarrow> returnM (Return (- 1))
     | Some write_offset_client \<Rightarrow>
       bindM (allocate_rdma_buffer E (s_rn_dev s) (ucast (total_payload_size o1)) DEVICE_MEM) (\<lambda>device_buffer.
       bindM (load as_rdma_buff device_buffer) (\<lambda>b.
       and_then (place_payload E (s_golden s) (ucast (total_payload_size o1))
                   (unat (drop_bit 2 (opt_payload_size o1))) b) (
       thenM (create_batch E o1 s b RNIC_OP_WRITE write_offset_client) (
       thenM (with_rn s (\<lambda>dev. rdma_post_batch_send E dev main_qpid (opt_WQE_count o1))) (
       thenM (dump_registers E (s_rdma_dev s) 1 main_qpid) (returnM Continue))))))))"

definition write_batch_server :: "env \<Rightarrow> host \<Rightarrow> options \<Rightarrow> session \<Rightarrow> flow io" where
  "write_batch_server E H o1 s =
     bindM (accept_peer H o1 s) (\<lambda>accepted_sockfd.
     thenM (with_rn s (\<lambda>dev. dump_registers E dev 0 main_qpid)) (
     bindM (allocate_rdma_buffer E (s_rn_dev s) (ucast (total_payload_size o1)) DEVICE_MEM) (\<lambda>tmp_buffer.
     thenM (rdma_register_memory_region (s_rdma_dev s) (s_rdma_pd s) R_KEY tmp_buffer) (
     bindM (load as_rdma_buff tmp_buffer) (\<lambda>b.
     thenM (publish_offset accepted_sockfd b) (
     thenM (with_rn s (\<lambda>dev. dump_registers E dev 0 main_qpid)) (
     thenM (wait_key H) (
     thenM (with_rn s (\<lambda>dev. dump_registers E dev 0 main_qpid)) (
     thenM (shutdown_close accepted_sockfd) (returnM Continue))))))))))"

definition write_batch_main :: "env \<Rightarrow> host \<Rightarrow> (char \<times> string) list \<Rightarrow> i32 io" where
  "write_batch_main =
     program_main Write_Batch write_batch_setup write_batch_client write_batch_server shutdown_close"

subsection \<open>\<open>send_recv.c\<close>\<close>

definition send_recv_setup :: "env \<Rightarrow> host \<Rightarrow> i32 \<Rightarrow> options \<Rightarrow> session option io" where
  "send_recv_setup E H sockfd o1 =
     example_setup E H sockfd o1 (ucast (opt_payload_size o1)) (make_golden E (opt_payload_size o1))"

text \<open>\<open>rdma_dev->qps_ptr[qpid]\<close>.\<close>

definition my_queue :: "ptr \<Rightarrow> ptr io" where
  "my_queue rdma_dev = bindM (load as_rdma_dev rdma_dev) (\<lambda>rd. qps_index rd main_qpid)"

text \<open>\<open>while(rdma_release_rq_consumed(...)) rdma_post_receive(...);\<close>\<close>

definition release_round :: "env \<Rightarrow> ptr \<Rightarrow> bool io" where
  "release_round E rdma_dev =
     bindM (my_queue rdma_dev) (\<lambda>qp.
     bindM (rdma_release_rq_consumed E rdma_dev qp) (\<lambda>pending.
     if pending = 0 then returnM False
     else bindM (my_queue rdma_dev) (\<lambda>qp. thenM (rdma_post_receive E rdma_dev qp) (returnM True))))"

partial_function (option) release_loop :: "env \<Rightarrow> ptr \<Rightarrow> unit io" where
  "release_loop E rdma_dev w =
     bindM (release_round E rdma_dev) (\<lambda>more w. if more then release_loop E rdma_dev w else returnM () w) w"

text \<open>
  \<open>recv_tmp\<close> has the size of the receive queue, but the transfer has the size of the payload.
\<close>

definition send_recv_client :: "env \<Rightarrow> host \<Rightarrow> options \<Rightarrow> session \<Rightarrow> flow io" where
  "send_recv_client E H o1 s =
     (let rdma_dev = s_rdma_dev s in
      bindM (my_queue rdma_dev) (\<lambda>qp.
      bindM (load as_qp qp) (\<lambda>q.
      bindM (load as_rdma_buff (qp_rq q)) (\<lambda>rq.
      bindM (malloc E (O_mem (ucast (buf_buf_size rq)))) (\<lambda>recv_tmp.
      thenM (rdma_post_receive E rdma_dev qp) (
      thenM (release_loop E rdma_dev) (
      and_then (check_payload E H (s_golden s) recv_tmp (opt_payload_size o1) (buf_buffer rq) (buf_dma_addr rq)) (
      thenM (dump_registers E rdma_dev 0 main_qpid) (returnM Continue)))))))))"

definition send_recv_server :: "env \<Rightarrow> host \<Rightarrow> options \<Rightarrow> session \<Rightarrow> flow io" where
  "send_recv_server E H o1 s =
     (let payload_size = opt_payload_size o1; rdma_dev = s_rdma_dev s in
      bindM (allocate_rdma_buffer E (s_rn_dev s) (ucast payload_size) (opt_qp_location o1)) (\<lambda>payload_tmp.
      bindM (load as_rdma_buff payload_tmp) (\<lambda>b.
      and_then (place_payload E (s_golden s) (ucast payload_size) (unat (drop_bit 2 payload_size)) b) (
      thenM (create_a_wqe E rdma_dev main_qpid 0 0 (buf_dma_addr b) payload_size RNIC_OP_SEND 0 R_KEY 0 0 0 0 0) (
      bindM (getsM g_debug) (\<lambda>debug.
      thenM (if debug then dump_registers E rdma_dev 1 main_qpid else returnM ()) (
      bindM (rdma_post_send E rdma_dev main_qpid) (\<lambda>ret_val.
      if is_negative ret_val then returnM Goto_Out else
      thenM (wait_key H) (
      thenM (dump_registers E rdma_dev 1 main_qpid) (returnM Continue))))))))))"

definition send_recv_main :: "env \<Rightarrow> host \<Rightarrow> (char \<times> string) list \<Rightarrow> i32 io" where
  "send_recv_main = program_main Send_Recv send_recv_setup send_recv_client send_recv_server sys_close"

subsection \<open>Calls on the session's objects\<close>

text \<open>The rules of the library's operations, for the device and the queue of a session.\<close>

lemma typed_sessionD:
  assumes "typed_session T s rd qp q"
  shows "typed_queue T (s_rdma_dev s) rd main_qpid qp q" "typed_dev T (s_rdma_dev s) rd"
    "T (s_rdma_dev s) = Some (O_rdma_dev rd)" "typed_rn T (s_rn_dev s)"
    "\<exists>d. T (s_rn_dev s) = Some (O_rn_dev d) \<and> rn_rdma_dev d = s_rdma_dev s"
    "\<exists>pd. T (s_rdma_pd s) = Some (O_pd pd)" "T (s_golden s) = Some (O_mem (s_golden_size s))"
    "\<exists>b. T (s_err_buf s) = Some (O_rdma_buff b)" "\<exists>b. T (s_ipkterr_buf s) = Some (O_rdma_buff b)"
    "\<exists>b. T (qp_rq q) = Some (O_rdma_buff b) \<and> buf_buf_size b = 8 * 64 * RQE_SIZE"
proof -
  from assms show dev: "typed_dev T (s_rdma_dev s) rd"
    unfolding typed_session_def devices_typed_def by blast
  from assms show "typed_rn T (s_rn_dev s)"
    unfolding typed_session_def devices_typed_def typed_rn_def by blast
  from dev show "T (s_rdma_dev s) = Some (O_rdma_dev rd)" by (simp add: typed_dev_def)
  from assms show "typed_queue T (s_rdma_dev s) rd main_qpid qp q"
    "\<exists>d. T (s_rn_dev s) = Some (O_rn_dev d) \<and> rn_rdma_dev d = s_rdma_dev s"
    "\<exists>pd. T (s_rdma_pd s) = Some (O_pd pd)" "T (s_golden s) = Some (O_mem (s_golden_size s))"
    "\<exists>b. T (s_err_buf s) = Some (O_rdma_buff b)" "\<exists>b. T (s_ipkterr_buf s) = Some (O_rdma_buff b)"
    "\<exists>b. T (qp_rq q) = Some (O_rdma_buff b) \<and> buf_buf_size b = 8 * 64 * RQE_SIZE"
    unfolding typed_session_def devices_typed_def support_def by auto
qed

lemma wp_with_rn:
  assumes "conforms T w" and "typed_session T s rd qp q" and "wp (f (s_rdma_dev s)) Q w"
  shows "wp (with_rn s f) Q w"
proof -
  from typed_sessionD(5) [OF assms(2)] obtain d where d: "T (s_rn_dev s) = Some (O_rn_dev d)" "rn_rdma_dev d = s_rdma_dev s"
    by blast
  show ?thesis
    unfolding with_rn_def
  proof (intro wp_bindM wp_load_rn [OF assms(1) d(1)])
    fix d' assume "rn_rdma_dev d' = rn_rdma_dev d"
    with d(2) assms(3) show "wp (f (rn_rdma_dev d')) Q w" by simp
  qed
qed

named_theorems session_calls \<open>rules for calls on a session\<close>

lemma session_engine [session_calls]:
  assumes w: "conforms T w" and s: "typed_session T s rd qp q"
  shows "(\<And>x w'. conforms T w' \<Longrightarrow> Q1 x w') \<Longrightarrow> wp (rdma_post_batch_send E (s_rdma_dev s) main_qpid n) Q1 w"
    "(\<And>x w'. conforms T w' \<Longrightarrow> Q2 x w') \<Longrightarrow> wp (dump_registers E (s_rdma_dev s) v main_qpid) Q2 w"
    "(\<And>x w'. conforms T w' \<Longrightarrow> Q3 x w') \<Longrightarrow> wp (rdma_post_receive E (s_rdma_dev s) qp) Q3 w"
    "(\<And>x w'. conforms T w' \<Longrightarrow> Q4 x w') \<Longrightarrow> wp (rdma_release_rq_consumed E (s_rdma_dev s) qp) Q4 w"
  using typed_sessionD [OF s] w
  by (blast intro: wp_post_batch wp_dump wp_post_receive wp_release_rq)+

lemma session_post_send [session_calls]:
  assumes w: "conforms T w" and s: "typed_session T s rd qp q" and Q: "\<And>x w'. conforms T w' \<Longrightarrow> Q x w'"
  shows "wp (rdma_post_send E (s_rdma_dev s) main_qpid) Q w"
  by (rule wp_post_send [OF w typed_sessionD(1) [OF s] Q])

lemma session_create_wqe [session_calls]:
  assumes w: "conforms T w" and s: "typed_session T s rd qp q" and E: "host_ready E" and Q: "\<And>x w'. conforms T w' \<Longrightarrow> Q x w'"
  shows "wp (create_a_wqe E (s_rdma_dev s) main_qpid wrid i a n opc ro key p0 p1 p2 p3 imm) Q w"
  using E by (intro wp_create_wqe [OF w _ typed_sessionD(1) [OF s]] Q) (simp_all add: host_ready_def)

lemma session_register [session_calls]:
  assumes w: "conforms T w" and s: "typed_session T s rd qp q" and b: "T buf = Some (O_rdma_buff b)" and Q: "\<And>x w'. conforms T w' \<Longrightarrow> Q x w'"
  shows "wp (rdma_register_memory_region (s_rdma_dev s) (s_rdma_pd s) key buf) Q w"
  using typed_sessionD(6) [OF s] by (auto intro: wp_register_region [OF w typed_sessionD(2) [OF s] _ b Q])

lemma session_allocate [session_calls]:
  assumes w: "conforms T w" and s: "typed_session T s rd qp q" and E: "host_ready E"
    and Q: "\<And>p b w'. conforms (T(p \<mapsto> O_rdma_buff b)) w' \<Longrightarrow> typed_session (T(p \<mapsto> O_rdma_buff b)) s rd qp q \<Longrightarrow>
      T p = None \<Longrightarrow> Q p w'"
  shows "wp (allocate_rdma_buffer E (s_rn_dev s) n loc) Q w"
  by (rule wp_allocate_buffer [OF w E typed_sessionD(4) [OF s]]) (rule Q, assumption, rule typed_session_fresh [OF _ s], assumption+)

lemma wp_and_then:
  "wp m (\<lambda>f w'. (f = Continue \<longrightarrow> wp n Q w') \<and> (f \<noteq> Continue \<longrightarrow> Q f w')) w \<Longrightarrow> wp (and_then m n) Q w"
  unfolding and_then_def by (intro wp_bindM) (erule wp_mono, auto split: flow.split intro: wp_returnM)

lemma session_malloc [session_calls]:
  assumes w: "conforms T w" and s: "typed_session T s rd qp q" and E: "host_ready E"
    and Q: "\<And>p w'. conforms (T(p \<mapsto> O_mem n)) w' \<Longrightarrow> typed_session (T(p \<mapsto> O_mem n)) s rd qp q \<Longrightarrow>
      T p = None \<Longrightarrow> p \<noteq> s_golden s \<Longrightarrow> Q p w'"
  shows "wp (malloc E (O_mem n)) Q w"
proof (rule wp_malloc_typed [OF w])
  fix p w'
  assume p: "conforms (T(p \<mapsto> O_mem n)) w'" "T p = None"
  then show "Q p w'"
    using typed_sessionD(7) [OF s] by (intro Q typed_session_fresh [OF _ s]) auto
qed (use E in \<open>simp add: host_ready_def\<close>)

lemmas session_io [session_calls] = wp_quiet [OF quiet_host(1)] wp_quiet [OF quiet_host(2)] wp_quiet [OF quiet_host(3)]
  wp_quiet [OF quiet_host(4)] wp_quiet [OF quiet_host(5)] wp_quiet [OF quiet_host(6)] wp_quiet [OF quiet_wait_key]
  wp_sys wp_emit

subsection \<open>The payload stays within the arrays\<close>

definition recv_ok :: "typing \<Rightarrow> recv \<Rightarrow> nat \<Rightarrow> bool" where
  "recv_ok T r n = (case r of Recv_Array p \<Rightarrow> \<exists>m. T p = Some (O_mem m) \<and> n \<le> unat m | Recv_Buffer a \<Rightarrow> True)"

lemma wp_recv_word:
  assumes w: "conforms T w" and r: "recv_ok T r n" "4 * i + 4 \<le> n" and Q: "\<And>x w'. conforms T w' \<Longrightarrow> Q x w'"
  shows "wp (recv_word E H r i) Q w"
proof (cases r)
  case (Recv_Array p)
  then obtain m where m: "T p = Some (O_mem m)" "n \<le> unat m" using r(1) by (auto simp: recv_ok_def)
  show ?thesis
    unfolding recv_word_def Recv_Array recv.case
    using m r(2) by (intro wp_load_word [OF w m(1)] Q w) simp
qed (auto simp: recv_word_def intro!: wp_bindM wp_returnM wp_quiet [OF quiet_host(5) w] Q)

lemma wp_compare_golden:
  assumes w: "conforms T w" and r: "recv_ok T r n" "recv_ok T (Recv_Array g) n" "\<forall>i \<in> set is. 4 * i + 4 \<le> n"
    and Q: "\<And>x w'. conforms T w' \<Longrightarrow> Q x w'"
  shows "wp (compare_golden E H r g is) Q w"
  using w r(3)
proof (induction "is" arbitrary: w)
  case (Cons i "is")
  from r(2) obtain m where m: "T g = Some (O_mem m)" "n \<le> unat m" by (auto simp: recv_ok_def)
  have i: "4 * i + 4 \<le> n" "4 * i + 4 \<le> unat m" using Cons.prems(2) m(2) by auto
  show ?case
    unfolding compare_golden.simps
    by (intro wp_bindM wp_recv_word [OF Cons.prems(1) r(1) i(1)] wp_load_word [where T = T, OF _ m(1) i(2)] wp_if wp_returnM Q Cons.IH)
      (use Cons.prems(2) in auto)
qed (simp add: wp_returnM Q)

lemma words_within: "i \<in> set [0..<unat (drop_bit 2 (n :: u32))] \<Longrightarrow> 4 * i + 4 \<le> unat n"
proof -
  assume "i \<in> set [0..<unat (drop_bit 2 n)]"
  then have "i < unat n div 4" by (simp add: unat_drop_bit_eq) (simp add: drop_bit_eq_div)
  then show ?thesis by linarith
qed

lemma unat_u32_u64: "unat (ucast (n :: u32) :: u64) = unat n"
  using unat_u32_less [of n] by (simp add: unsigned_ucast_eq take_bit_nat_eq_self)

lemma session_check [session_calls]:
  assumes w: "conforms T w" and s: "typed_session T s rd qp q" and recv: "T r = Some (O_mem m)" "r \<noteq> s_golden s"
    and len: "unat n \<le> unat m" "s_golden_size s = ucast n"
    and Q: "\<And>f T' w'. conforms T' w' \<Longrightarrow> typed_session T' s rd qp q \<Longrightarrow> Q f w'"
  shows "wp (check_payload E H (s_golden s) r n b a) Q w"
proof -
  have g: "recv_ok T (Recv_Array (s_golden s)) (unat n)" "recv_ok T (Recv_Array r) (unat n)" "recv_ok T (Recv_Buffer b) (unat n)"
    using recv len typed_sessionD(7) [OF s] by (auto simp: recv_ok_def unat_u32_u64)
  have fit: "\<exists>m. T r = Some (O_mem m) \<and> ucast n \<le> m" using recv(1) len(1) by (auto simp: word_le_nat_alt unat_u32_u64)
  have drop: "wp (free_obj r) (\<lambda>_. wp (returnM f) Q) w1" if "conforms T w1" for f w1
    using typed_session_drop [OF recv s]
    by (intro wp_free_typed [OF that recv(1)] wp_returnM) (rule Q)
  show ?thesis
    unfolding check_payload_def Let_def
    by (intro wp_if wp_bindM wp_array_transfer [OF w fit] wp_returnM wp_thenM wp_compare_golden [OF _ _ g(1)])
      (auto intro: g words_within drop Q [OF _ s] w)
qed

lemma session_place [session_calls]:
  assumes w: "conforms T w" and s: "typed_session T s rd qp q" and len: "n \<le> s_golden_size s"
    and Q: "\<And>f w'. conforms T w' \<Longrightarrow> Q f w'"
  shows "wp (place_payload E (s_golden s) n k b) Q w"
proof -
  have fit: "\<exists>m. T (s_golden s) = Some (O_mem m) \<and> n \<le> m" using typed_sessionD(7) [OF s] len by auto
  show ?thesis
    unfolding place_payload_def
    by (intro wp_if wp_bindM wp_array_transfer [OF w fit] wp_thenM wp_quiet [OF quiet_host(6) w] wp_returnM Q; assumption)
qed

lemma quiet_exchange [quiet_intros]:
  "quiet (connect_peer o1 s)" "quiet (fetch_offset H s)" "quiet (accept_peer H o1 s)" "quiet (publish_offset fd b)"
  "quiet (shutdown_close fd)"
  unfolding connect_peer_def fetch_offset_def accept_peer_def publish_offset_def shutdown_close_def
  by (intro quiet_intros)+

lemmas session_exchange [session_calls] = wp_quiet [OF quiet_exchange(1)] wp_quiet [OF quiet_exchange(2)]
  wp_quiet [OF quiet_exchange(3)] wp_quiet [OF quiet_exchange(4)] wp_quiet [OF quiet_exchange(5)]

lemma session_errors [session_calls]:
  assumes w: "conforms T w" and s: "typed_session T s rd qp q" and Q: "\<And>x w'. conforms T w' \<Longrightarrow> Q x w'"
  shows "wp (read_error_buffers H s) Q w"
proof -
  from typed_sessionD(8,9) [OF s] obtain b b' where b: "T (s_err_buf s) = Some (O_rdma_buff b)"
    "T (s_ipkterr_buf s) = Some (O_rdma_buff b')" by auto
  have "quiet (forM [0..<2] (\<lambda>i. thenM (load_shared H (buf_buffer b + 8 * (word_of_nat i * 8)) 8) (returnM ())))"
    by (intro quiet_intros)
  then show ?thesis
    unfolding read_error_buffers_def
    using w by - ((assumption | rule wp_bindM wp_thenM wp_load_typed(3) b wp_quiet [OF quiet_host(5)] wp_returnM Q
      | erule wp_quiet)+)
qed

lemma session_batch [session_calls]:
  assumes w: "conforms T w" and s: "typed_session T s rd qp q" and E: "host_ready E" and Q: "\<And>x w'. conforms T w' \<Longrightarrow> Q x w'"
  shows "wp (create_batch E o1 s b opc ro) Q w"
proof -
  have "wp (create_batch E o1 s b opc ro) (\<lambda>_. conforms T) w"
    unfolding create_batch_def
    by (intro wp_forM [where I = "conforms T"] wp_with_rn [OF _ s] session_create_wqe [OF _ s E] w)
  then show ?thesis by (rule wp_mono) (rule Q)
qed

subsection \<open>The bodies\<close>

lemma wp_my_queue:
  assumes w: "conforms T w" and s: "typed_session T s rd qp q" and Q: "Q qp w"
  shows "wp (my_queue (s_rdma_dev s)) Q w"
  unfolding my_queue_def
  by (intro wp_bindM wp_load_typed(4) [OF w typed_sessionD(3) [OF s]] wp_qps_index [OF w typed_sessionD(1) [OF s]] Q)

lemma release_loop_conforms:
  assumes run: "release_loop E dev w = Some rw"
  shows "\<forall>T s rd qp q. conforms T w \<longrightarrow> typed_session T s rd qp q \<longrightarrow> s_rdma_dev s = dev \<longrightarrow>
    wp (\<lambda>_. Some rw) (\<lambda>_. conforms T) w"
proof (rule release_loop.raw_induct [OF _ run], intro allI impI)
  fix f E dev w rw T s rd qp q
  assume IH: "\<And>E dev w rw. f E dev w = Some rw \<Longrightarrow>
      \<forall>T s rd qp q. conforms T w \<longrightarrow> typed_session T s rd qp q \<longrightarrow> s_rdma_dev s = dev \<longrightarrow> wp (\<lambda>_. Some rw) (\<lambda>_. conforms T) w"
    and run: "bindM (release_round E dev) (\<lambda>more w. if more then f E dev w else returnM () w) w = Some rw"
    and w: "conforms T w" and s: "typed_session T s rd qp q" and dev: "s_rdma_dev s = dev"
  have again: "wp (f E dev) (\<lambda>_. conforms T) w1" if "conforms T w1" for w1
  proof (cases "f E dev w1")
    case (Some x)
    from IH [OF Some, rule_format, OF that s dev] show ?thesis by (simp add: wp_def Some)
  qed (simp add: wp_def)
  have next_turn: "wp (\<lambda>w. if more then f E dev w else returnM () w) (\<lambda>_. conforms T) w1" if "conforms T w1" for more w1
    using again [OF that] that by (cases more) (simp_all add: wp_def returnM_def)
  have "wp (bindM (release_round E dev) (\<lambda>more w. if more then f E dev w else returnM () w)) (\<lambda>_. conforms T) w"
    unfolding release_round_def dev [symmetric]
    by (intro wp_bindM wp_my_queue [OF _ s] session_engine(4) [OF _ s] wp_if wp_thenM session_engine(3) [OF _ s] wp_returnM w)
      (use next_turn again dev in \<open>auto intro: wp_returnM\<close>)
  with run show "wp (\<lambda>_. Some rw) (\<lambda>_. conforms T) w" by (simp add: wp_def)
qed

lemma session_release [session_calls]:
  assumes w: "conforms T w" and s: "typed_session T s rd qp q" and Q: "\<And>x w'. conforms T w' \<Longrightarrow> Q x w'"
  shows "wp (release_loop E (s_rdma_dev s)) Q w"
proof -
  have "wp (release_loop E (s_rdma_dev s)) (\<lambda>_. conforms T) w"
  proof (cases "release_loop E (s_rdma_dev s) w")
    case (Some x)
    from release_loop_conforms [OF Some, rule_format, OF w s refl] show ?thesis by (simp add: wp_def Some)
  qed (simp add: wp_def)
  then show ?thesis by (rule wp_mono) (rule Q)
qed

lemma session_queue [session_calls]:
  assumes w: "conforms T w" and s: "typed_session T s rd qp q"
    and Q: "\<And>q' b. T (qp_rq q') = Some (O_rdma_buff b) \<Longrightarrow> buf_buf_size b = 8 * 64 * RQE_SIZE \<Longrightarrow> Q q' w"
  shows "wp (load as_qp qp) Q w"
proof -
  obtain b where "T (qp_rq q) = Some (O_rdma_buff b)" "buf_buf_size b = 8 * 64 * RQE_SIZE"
    using typed_sessionD(10) [OF s] by blast
  then show ?thesis by (intro wp_load_qp [OF w typed_sessionD(1) [OF s]] Q) simp_all
qed

text \<open>
  A body is checked by going through its calls; what it ends with is a session of the same objects.
  The receiving side of \<open>send_recv.c\<close> also needs a payload that its receive queue holds.
\<close>

lemma bodies_safe:
  assumes E: "host_ready E"
  shows "s_golden_size s = ucast (opt_payload_size o1) \<Longrightarrow> keeps_session (\<lambda>_. True) (read_client E H o1 s) s"
    "s_golden_size s = ucast (opt_payload_size o1) \<Longrightarrow> keeps_session (\<lambda>_. True) (read_server E H o1 s) s"
    "s_golden_size s = ucast (opt_payload_size o1) \<Longrightarrow> keeps_session (\<lambda>_. True) (write_client E H o1 s) s"
    "s_golden_size s = ucast (opt_payload_size o1) \<Longrightarrow> keeps_session (\<lambda>_. True) (write_server E H o1 s) s"
    "s_golden_size s = ucast (total_payload_size o1) \<Longrightarrow> keeps_session (\<lambda>_. True) (read_batch_client E H o1 s) s"
    "s_golden_size s = ucast (total_payload_size o1) \<Longrightarrow> keeps_session (\<lambda>_. True) (read_batch_server E H o1 s) s"
    "s_golden_size s = ucast (total_payload_size o1) \<Longrightarrow> keeps_session (\<lambda>_. True) (write_batch_client E H o1 s) s"
    "s_golden_size s = ucast (total_payload_size o1) \<Longrightarrow> keeps_session (\<lambda>_. True) (write_batch_server E H o1 s) s"
    "s_golden_size s = ucast (opt_payload_size o1) \<Longrightarrow> keeps_session (\<lambda>_. True) (send_recv_server E H o1 s) s"
    "s_golden_size s = ucast (opt_payload_size o1) \<Longrightarrow> unat (opt_payload_size o1) \<le> 262144 \<Longrightarrow>
     keeps_session (\<lambda>_. True) (send_recv_client E H o1 s) s"
  unfolding keeps_session_def read_client_def read_server_def write_client_def write_server_def
    read_batch_client_def read_batch_server_def write_batch_client_def write_batch_server_def
    send_recv_client_def send_recv_server_def Let_def
  by ((assumption | rule session_calls wp_with_rn wp_and_then wp_my_queue wp_intros fun_upd_same allI impI exI conjI TrueI E
      | (rule typing_keep, assumption) | (simp add: unat_u32_u64 RQE_SIZE_def; fail))+)

subsection \<open>The programs\<close>

text \<open>A program is safe if its setup gives its bodies a session and these keep it.\<close>

lemma wp_program_main:
  assumes c: "conforms T0 w" and K: "\<And>T. carries T0 T \<Longrightarrow> K T" and E: "host_ready E" and H: "host_ok H" and args: "arguments_ok args"
    and size: "P (opt_payload_size (initial_options prog))" "\<forall>(c, s) \<in> set args. c = CHR ''z'' \<longrightarrow> P (atoi s)"
    and start: "\<And>fd o1. setup E H fd o1 = example_setup E H fd o1 (n o1) (golden o1)"
    and golden: "\<And>o1 T w R. conforms T w \<Longrightarrow> (\<And>p w'. conforms (T(p \<mapsto> O_mem (n o1))) w' \<Longrightarrow> T p = None \<Longrightarrow>
      p \<noteq> NULL \<Longrightarrow> R p w') \<Longrightarrow> wp (golden o1) R w"
    and bodies: "\<And>o1 s. P (opt_payload_size o1) \<Longrightarrow> s_golden_size s = n o1 \<Longrightarrow>
      keeps_session K (client E H o1 s) s \<and> keeps_session K (server E H o1 s) s"
    and close: "\<And>fd. quiet (close_socket fd)"
  shows "wp (program_main prog setup client server close_socket E H args) (\<lambda>_ _. True) w"
proof -
  show ?thesis
    unfolding program_main_def start
  proof (intro wp_bindM wp_quiet [OF quiet_host(1) c] wp_parse_command_line [where P = P, OF _ H args size]
      wp_example_setup [OF _ E H])
    fix fd o1 T s rd qp q w1
    assume "P (opt_payload_size o1)" "conforms T w1" "typed_session T s rd qp q" "s_golden_size s = n o1" "carries T0 T"
    moreover from this have "K T" by (intro K)
    ultimately show "wp (case Some s of None \<Rightarrow> returnM minus_EINVAL
        | Some s \<Rightarrow> run_bodies E o1 s (client E H o1 s) (server E H o1 s) (close_socket fd)) (\<lambda>_ _. True) w1"
      unfolding option.case by (intro wp_run_bodies [where K = K]) (simp_all add: bodies close)
  qed (simp_all add: wp_returnM golden)
qed

lemma quiet_close [quiet_intros]: "quiet (shutdown_close fd)" "quiet (sys_close fd)"
  by (rule quiet_exchange quiet_sys)+

subsection \<open>A run\<close>

text \<open>
  A run in full, of \<open>read.c\<close> without \<open>-s\<close> and \<open>-c\<close>: everything comes up but the character device, which
  does not open.
\<close>

definition no_file_env :: env where
  "no_file_env = idle_env\<lparr>env_open := \<lambda>h path. if path = DEVICE_NAME_DEFAULT then - 1 else 3\<rparr>"

lemma no_file_env_simps [simp]: "env_malloc_fails no_file_env = env_malloc_fails idle_env"
  "env_open no_file_env h path = (if path = DEVICE_NAME_DEFAULT then - 1 else 3)"
  "env_mmap no_file_env = env_mmap idle_env" "env_mlock no_file_env = env_mlock idle_env"
  "env_pagesize no_file_env = env_pagesize idle_env" "env_pagemap_open no_file_env = env_pagemap_open idle_env"
  "env_pagemap_seek no_file_env = env_pagemap_seek idle_env" "env_pagemap_read no_file_env = env_pagemap_read idle_env"
  "junk_rdma_buff no_file_env = junk_rdma_buff idle_env" "junk_rn_dev no_file_env = junk_rn_dev idle_env"
  "junk_win_size no_file_env = junk_win_size idle_env" "junk_rdma_dev no_file_env = junk_rdma_dev idle_env"
  "junk_glb_csr no_file_env = junk_glb_csr idle_env" "junk_pd no_file_env = junk_pd idle_env"
  by (simp_all add: no_file_env_def)

lemma demo_host_simps: "h_ifaddrs demo_host = Some [\<lparr>ifa_name = ''eth1'', ifa_family = Some AF_INET, ifa_numeric = Some ''192.168.100.1''\<rparr>]"
  "h_hwaddr demo_host = (\<lambda>_. replicate 6 0)" "h_socket demo_host h = 5" by (simp_all add: demo_host_def)



definition short_args :: "(char \<times> string) list" where
  "short_args = [(CHR ''p'', ''resource2''), (CHR ''r'', ''192.168.100.1'')]"

lemma no_file_parse:
  "\<exists>o1 w1. thenM (sys_socket demo_host) (parse_command_line Read_Prog demo_host short_args) idle_world = Some (Ret o1, w1) \<and>
     opt_pcie_resource o1 = Some ''resource2'' \<and> opt_src_ip_str o1 = ''192.168.100.1'' \<and>
     heap w1 = Map.empty \<and> next_ptr w1 = 1 \<and> g_device w1 = DEVICE_NAME_DEFAULT"
  by (auto simp: short_args_def parse_command_line_def run_simps thenM_def bindM_def sys_socket_def Let_def option_step_def initial_options_def modifyM_run strcpy16_def
    returnM_def idle_world_def)

text \<open>Steps 1 and 2.\<close>

lemma create_devices_up:
  assumes "opt_pcie_resource o1 = Some ''resource2''" and "next_ptr w = 2"
  shows "\<exists>w' d b rd gc ws. create_devices no_file_env o1 w = Some (Ret (2, 3, 5), w') \<and> g_device w' = g_device w \<and>
    heap w' 2 = Some (O_rn_dev d) \<and> rn_base_buf d = 4 \<and> rn_buffer_offset d = 0 \<and> heap w' 4 = Some (O_rdma_buff b) \<and>
    heap w' 5 = Some (O_rdma_dev rd) \<and> rd_glb_csr rd = 6 \<and> heap w' 6 = Some (O_glb_csr gc) \<and>
    rd_winSize rd = 3 \<and> heap w' 3 = Some (O_win_size ws) \<and> next_ptr w' = 8"
  using assms
  by (simp add: create_devices_def create_rn_dev_def create_base_buf_def create_rdma_dev_def run_simps Let_def DEVICE_NAME_DEFAULT_def
    sys_open_def sys_mmap_def sys_mlock_def MAP_FAILED_def get_buffer_paddr_def get_page_frame_number_of_address_def config_rn_dev_axib_bdf_def
    PAGEMAP_LENGTH_def PAGE_SHIFT_def num_qp_def preallocated_hugepages_def)

text \<open>Step 3: where the pagemap can be read, an allocation in host memory returns.\<close>

lemma allocate_host_returns:
  assumes "host_ready E" and "\<forall>h a. env_pagemap_seek E h a" and "world_ok w"
    and rn: "heap w rn = Some (O_rn_dev d)" and base: "heap w (rn_base_buf d) = Some (O_rdma_buff b)"
  shows "\<exists>w' b' d'. allocate_rdma_buffer E rn n HOST_MEM w = Some (Ret (next_ptr w), w') \<and> world_ok w' \<and>
    next_ptr w' = Suc (next_ptr w) \<and> g_device w' = g_device w \<and> heap w' (next_ptr w) = Some (O_rdma_buff b') \<and>
    heap w' rn = Some (O_rn_dev d') \<and> rn_base_buf d' = rn_base_buf d \<and>
    (\<forall>x. x \<noteq> rn \<and> x \<noteq> next_ptr w \<longrightarrow> heap w' x = heap w x)"
proof -
  have paddr: "\<exists>x w2. get_buffer_paddr E a w1 = Some (Ret x, w2) \<and> heap w2 = heap w1" for a w1
    using assms(1,2)
    by (auto simp: get_buffer_paddr_def get_page_frame_number_of_address_def host_ready_def run_simps Let_def bindM_def thenM_def returnM_def
      modifyM_run split: prod.split)
  have fresh: "next_ptr w \<noteq> NULL" "rn \<noteq> next_ptr w" "rn_base_buf d \<noteq> next_ptr w"
    using assms(3) rn base by (auto simp: world_ok_def)
  have ne: "rn_base_buf d \<noteq> rn" using rn base by auto
  have "\<exists>w'. allocate_rdma_buffer E rn n HOST_MEM w = Some (Ret (next_ptr w), w')"
  proof -
    let ?off = "place_buffer (rn_buffer_offset d) n"
    let ?b = "(junk_rdma_buff E)\<lparr>buf_buffer := buf_buffer b + ?off, buf_buf_size := ucast n\<rparr>"
    let ?w1 = "w\<lparr>next_ptr := Suc (next_ptr w), heap := (heap w)(next_ptr w \<mapsto> O_rdma_buff (junk_rdma_buff E),
      rn \<mapsto> O_rn_dev (d\<lparr>rn_buffer_offset := ?off + n\<rparr>), next_ptr w \<mapsto> O_rdma_buff ?b)\<rparr>"
    obtain x w2 where "get_buffer_paddr E (buf_buffer b + ?off) ?w1 = Some (Ret x, w2)" "heap w2 = heap ?w1"
      using paddr by blast
    then show ?thesis
      using assms(1) fresh rn base ne
      by (simp add: allocate_rdma_buffer_def allocate_host_arm_def host_ready_def run_simps Let_def fun_upd_twist)
  qed
  then obtain w' where run: "allocate_rdma_buffer E rn n HOST_MEM w = Some (Ret (next_ptr w), w')" by blast
  have "g_device w' = g_device w"
    using keepsD [OF keeps_allocate_rdma_buffer run] by (simp add: steps_ok_def)
  with run allocate_frame [OF assms(3) rn base run] show ?thesis by blast
qed

lemma support_buffers_return:
  assumes "host_ready E" and "\<forall>h a. env_pagemap_seek E h a" and "world_ok w" and n: "next_ptr w = n"
    and rn: "heap w rn = Some (O_rn_dev d)" and base: "heap w (rn_base_buf d) = Some (O_rdma_buff b)"
  shows "\<exists>w'. allocate_support_buffers E rn w = Some (Ret (n, Suc n, Suc (Suc n), Suc (Suc (Suc n)), Suc (Suc (Suc (Suc n)))), w') \<and>
    world_ok w' \<and> next_ptr w' = n + 5 \<and> g_device w' = g_device w \<and> (\<forall>x. x \<noteq> rn \<and> x < n \<longrightarrow> heap w' x = heap w x) \<and>
    (\<forall>x. n \<le> x \<and> x < n + 5 \<longrightarrow> (\<exists>b'. heap w' x = Some (O_rdma_buff b')))"
proof -
  let ?I = "\<lambda>k v. world_ok v \<and> next_ptr v = n + k \<and> g_device v = g_device w \<and> (\<forall>x. x \<noteq> rn \<and> x < n \<longrightarrow> heap v x = heap w x) \<and>
    (\<exists>d'. heap v rn = Some (O_rn_dev d') \<and> rn_base_buf d' = rn_base_buf d) \<and>
    (\<forall>x. n \<le> x \<and> x < n + k \<longrightarrow> (\<exists>b'. heap v x = Some (O_rdma_buff b')))"
  have below: "rn < n" "rn_base_buf d < n" "rn_base_buf d \<noteq> rn" using assms(3) n rn base by (auto simp: world_ok_def)
  have step: "\<exists>v'. allocate_rdma_buffer E rn sz HOST_MEM v = Some (Ret (n + k), v') \<and> ?I (Suc k) v'" if "?I k v" for k v sz
  proof -
    from that obtain d' where v: "world_ok v" "next_ptr v = n + k" "heap v rn = Some (O_rn_dev d')" "rn_base_buf d' = rn_base_buf d"
      and old: "\<forall>x. x \<noteq> rn \<and> x < n \<longrightarrow> heap v x = heap w x" by blast
    have "heap v (rn_base_buf d') = Some (O_rdma_buff b)" using old below base v(4) by simp
    from allocate_host_returns [OF assms(1,2) v(1,3) this, of sz] obtain v' b' d2 where
      "allocate_rdma_buffer E rn sz HOST_MEM v = Some (Ret (n + k), v')" "world_ok v'" "next_ptr v' = Suc (n + k)" "g_device v' = g_device v"
      "heap v' (n + k) = Some (O_rdma_buff b')" "heap v' rn = Some (O_rn_dev d2)" "rn_base_buf d2 = rn_base_buf d"
      "\<forall>x. x \<noteq> rn \<and> x \<noteq> n + k \<longrightarrow> heap v' x = heap v x" using v(2,4) by auto
    with that below show ?thesis by (intro exI [where x = v']) (auto simp: less_Suc_eq)
  qed
  have start: "?I 0 w" using assms(3) n rn by auto
  obtain w1 where w1: "allocate_rdma_buffer E rn (push_bit HUGE_PAGE_SHIFT 1) HOST_MEM w = Some (Ret (n + 0), w1)" and I1: "?I (Suc 0) w1"
    using step [OF start] by blast
  obtain w2 where w2: "allocate_rdma_buffer E rn (ucast num_data_buf * ucast per_data_buf_size) HOST_MEM w1 = Some (Ret (n + Suc 0), w2)" and I2: "?I (Suc (Suc 0)) w2"
    using step [OF I1] by blast
  obtain w3 where w3: "allocate_rdma_buffer E rn (ucast ipkt_err_stat_q_size) HOST_MEM w2 = Some (Ret (n + Suc (Suc 0)), w3)" and I3: "?I (Suc (Suc (Suc 0))) w3"
    using step [OF I2] by blast
  obtain w4 where w4: "allocate_rdma_buffer E rn (ucast num_err_buf * ucast per_err_buf_size) HOST_MEM w3 = Some (Ret (n + Suc (Suc (Suc 0))), w4)"
    and I4: "?I (Suc (Suc (Suc (Suc 0)))) w4" using step [OF I3] by blast
  obtain w5 where w5: "allocate_rdma_buffer E rn resp_err_pkt_buf_size HOST_MEM w4 = Some (Ret (n + Suc (Suc (Suc (Suc 0)))), w5)"
    and I5: "?I (Suc (Suc (Suc (Suc (Suc 0))))) w5" using step [OF I4] by blast
  from w1 w2 w3 w4 w5 I5 show ?thesis
    by (intro exI [where x = w5]) (simp add: allocate_support_buffers_def run_simps)
qed

lemma no_file_run:
  "\<exists>w'. read_main no_file_env demo_host short_args idle_world = Some (Ret (- 22), w')"
proof -
  from no_file_parse obtain fd o1 w0 w1 where parse: "sys_socket demo_host idle_world = Some (Ret fd, w0)"
      "parse_command_line Read_Prog demo_host short_args w0 = Some (Ret o1, w1)"
    and o1: "opt_pcie_resource o1 = Some ''resource2''" "opt_src_ip_str o1 = ''192.168.100.1''"
    and w1: "heap w1 = Map.empty" "next_ptr w1 = 1" "g_device w1 = DEVICE_NAME_DEFAULT"
    by (elim exE conjE thenM_RetE) (rule that)
  let ?w2 = "w1\<lparr>next_ptr := Suc (next_ptr w1), heap := (heap w1)(next_ptr w1 \<mapsto> O_mac (opt_dst_mac o1))\<rparr>"
  have s1: "static_object (O_mac (opt_dst_mac o1)) w1 = Some (Ret 1, ?w2)"
    by (simp add: static_object_def Let_def w1)
  obtain mac where s2: "lift_outcome (get_mac_addr_from_str_ip (h_hwaddr demo_host) (h_ifaddrs demo_host) (opt_src_ip_str o1)) ?w2 = Some (Ret mac, ?w2)"
    by (simp add: lift_outcome_def get_mac_addr_from_str_ip_def demo_host_simps AF_INET_def o1)
  have ready: "host_ready no_file_env" "\<forall>h a. env_pagemap_seek no_file_env h a" by (simp_all add: host_ready_def)
  have ok2: "world_ok ?w2" "next_ptr ?w2 = 2" by (simp_all add: world_ok_def w1)
  from create_devices_up [OF o1(1) ok2(2)] obtain w3 d b rd gc ws where
    s3: "create_devices no_file_env o1 ?w2 = Some (Ret (2, 3, 5), w3)"
    and w3: "g_device w3 = DEVICE_NAME_DEFAULT" "heap w3 2 = Some (O_rn_dev d)" "rn_base_buf d = 4" "heap w3 4 = Some (O_rdma_buff b)"
    "heap w3 5 = Some (O_rdma_dev rd)" "rd_glb_csr rd = 6" "heap w3 6 = Some (O_glb_csr gc)" "rd_winSize rd = 3" "heap w3 3 = Some (O_win_size ws)"
    "next_ptr w3 = 8" using w1(3) by auto
  have "keeps steps_ok (create_devices no_file_env o1)"
    unfolding create_devices_def by (cases "opt_pcie_resource o1") (auto intro!: keeps_intros split: prod.split)
  from keepsD [OF this s3] ok2(1) have ok3: "world_ok w3" by (simp add: steps_ok_def)
  from support_buffers_return [OF ready ok3 w3(10,2)] w3(3,4) obtain w4 where
    s4: "allocate_support_buffers no_file_env 2 w3 = Some (Ret (8, 9, 10, 11, 12), w4)"
    and w4: "next_ptr w4 = 13" "g_device w4 = DEVICE_NAME_DEFAULT" "\<forall>x. x \<noteq> 2 \<and> x < 8 \<longrightarrow> heap w4 x = heap w3 x"
      "\<forall>x. 8 \<le> x \<and> x < 13 \<longrightarrow> (\<exists>b'. heap w4 x = Some (O_rdma_buff b'))" using w3(1) by auto
  from w4(4) obtain b1 b2 b3 b4 where bufs: "heap w4 9 = Some (O_rdma_buff b1)" "heap w4 10 = Some (O_rdma_buff b2)"
    "heap w4 11 = Some (O_rdma_buff b3)" "heap w4 12 = Some (O_rdma_buff b4)" by force
  have dev: "heap w4 5 = Some (O_rdma_dev rd)" "heap w4 6 = Some (O_glb_csr gc)" "heap w4 3 = Some (O_win_size ws)" using w4(3) w3 by auto
  have "\<exists>pd w5. open_engine no_file_env o1 mac 5 9 10 11 12 w4 = Some (Ret pd, w5) \<and> g_device w5 = DEVICE_NAME_DEFAULT"
    using bufs dev w3(6,8) w4(1,2)
    by (simp add: open_engine_def open_rdma_dev_def config_rdma_global_csr_def allocate_rdma_pd_def run_simps Let_def)
  then obtain pd w5 where s5: "open_engine no_file_env o1 mac 5 9 10 11 12 w4 = Some (Ret pd, w5)" "g_device w5 = DEVICE_NAME_DEFAULT" by blast
  have "\<exists>w6. open_device_file no_file_env w5 = Some (Ret False, w6)"
    using s5(2) by (simp add: open_device_file_def run_simps sys_open_def sys_close_def modifyM_run Let_def is_negative_def thenM_def bindM_def returnM_def)
  then obtain w6 where s6: "open_device_file no_file_env w5 = Some (Ret False, w6)" by blast
  have "example_setup no_file_env demo_host fd o1 (ucast (opt_payload_size o1)) (make_golden no_file_env (opt_payload_size o1)) w1 = Some (Ret None, w6)"
    using s1 s2 s3 s4 s5 s6 by (simp add: example_setup_def bindM_def returnM_def)
  then show ?thesis
    using parse by (auto simp: read_main_def program_main_def bindM_def read_setup_def returnM_def minus_EINVAL_def)
qed

subsection \<open>The property\<close>

text \<open>
  C10: memory safety of the five programs of \<open>rdma_test\<close>, for the C objects they work on: the structures,
  the queue table, the arrays of words and the strings. Whatever the device registers, the peer, the
  pagemap and the console answer, a run follows no NULL or dangling pointer, reads no object at the
  wrong type, leaves no array and not the queue table, and frees nothing twice; the only abort is
  that of a failed \<open>assert\<close>. It may exit, or wait for ever.

  The conditions are needed, and the programs check none of them: every \<open>malloc\<close> succeeds and the
  pagemap file opens; every interface of the list has an address (\<open>get_mac_addr_first_match\<close> has the
  NULL pointer that is followed otherwise); no line of \<open>arp\<close> ends in or right behind its first \<open>at\<close>, as
  it cannot with a further character and a newline there; the addresses given with \<open>-r\<close> and \<open>-i\<close> have
  at most 15 characters, and \<open>-i\<close> is given at most once (\<open>second_dst_ip_faults\<close>); and, for \<open>send_recv.c\<close>
  only, the payload fits the receive queue. Not covered are the accesses to huge pages and to device
  memory: the model has no bounds for them, just as the code checks none, so a batch that is longer
  than its queue writes behind the queue (\<open>batch_elements_identical\<close>) without a fault here.
\<close>

theorem rdma_programs_safe:
  assumes "world_ok w" and "\<forall>p. \<not> env_malloc_fails E p" and "\<forall>h. env_pagemap_open E h"
    and "\<forall>ifas. h_ifaddrs H = Some ifas \<longrightarrow> (\<forall>ifa \<in> set ifas. ifa_family ifa \<noteq> None)"
    and "\<forall>h cmd lines line s. h_popen H h cmd = Some lines \<longrightarrow> line \<in> set lines \<longrightarrow>
      strstr line ''at'' = Some s \<longrightarrow> 3 \<le> List.length s"
    and "\<forall>(c, s) \<in> set args. c \<in> {CHR ''r'', CHR ''i''} \<longrightarrow> List.length s < 16"
    and "List.length (filter (\<lambda>(c, s). c = CHR ''i'') args) \<le> 1"
    and "m = send_recv_main E H args \<longrightarrow> (\<forall>(c, s) \<in> set args. c = CHR ''z'' \<longrightarrow> unat (atoi s) \<le> 262144)"
    and "m \<in> {read_main E H args, write_main E H args, read_batch_main E H args,
      write_batch_main E H args, send_recv_main E H args}"
  shows "m w \<noteq> Some (Fault e, w') \<or> e = Assert_Failed"
proof -
  have ready: "host_ready E" and H: "host_ok H" and args: "arguments_ok args"
    using assms(2-7) unfolding host_ready_def host_ok_def arguments_ok_def by blast+
  have c: "conforms Map.empty w" using assms(1) by (simp add: conforms_def)
  have any: "wp (program_main prog start client server close_socket E H args) (\<lambda>_ _. True) w"
    if "\<And>fd o1. start E H fd o1 = example_setup E H fd o1 (ucast (n o1)) (make_golden E (n o1))"
      "\<And>o1 s. P (opt_payload_size o1) \<Longrightarrow> s_golden_size s = ucast (n o1) \<Longrightarrow>
        keeps_session (\<lambda>_. True) (client E H o1 s) s \<and> keeps_session (\<lambda>_. True) (server E H o1 s) s"
      "\<And>fd. quiet (close_socket fd)" "P (opt_payload_size (initial_options prog))"
      "\<forall>(c, s) \<in> set args. c = CHR ''z'' \<longrightarrow> P (atoi s)" for prog start client server close_socket n P
    by (rule wp_program_main [OF c _ ready H args, where P = P and n = "\<lambda>o1. ucast (n o1)" and K = "\<lambda>_. True"])
      (use that in \<open>auto intro: wp_make_golden [OF _ ready]\<close>)
  have "wp (send_recv_main E H args) (\<lambda>_ _. True) w" if "m = send_recv_main E H args"
    unfolding send_recv_main_def
    by (rule any [where P = "\<lambda>n. unat n \<le> 262144" and n = opt_payload_size])
      (use assms(8) that in \<open>auto simp: initial_options_def send_recv_setup_def intro: bodies_safe [OF ready] quiet_close\<close>)
  moreover have "wp (read_main E H args) (\<lambda>_ _. True) w" "wp (write_main E H args) (\<lambda>_ _. True) w"
    unfolding read_main_def write_main_def
    by (rule any [where P = "\<lambda>_. True" and n = opt_payload_size];
        simp add: read_setup_def write_setup_def bodies_safe [OF ready] quiet_close)+
  moreover have "wp (read_batch_main E H args) (\<lambda>_ _. True) w" "wp (write_batch_main E H args) (\<lambda>_ _. True) w"
    unfolding read_batch_main_def write_batch_main_def
    by (rule any [where P = "\<lambda>_. True" and n = total_payload_size];
        simp add: read_batch_setup_def write_batch_setup_def bodies_safe [OF ready] quiet_close)+
  ultimately have "wp m (\<lambda>_ _. True) w" using assms(9) by auto
  from wp_no_fault [OF this] show ?thesis by blast
qed

theorem rdma_programs_safe_witness:
  "(\<exists>w'. read_main no_file_env demo_host short_args idle_world = Some (Ret (- 22), w')) \<and>
   (\<forall>w'. read_main no_file_env demo_host short_args idle_world \<noteq> Some (Fault Bad_Pointer, w')) \<and>
   (\<forall>w'. send_recv_main idle_env demo_host demo_args idle_world \<noteq> Some (Fault Out_Of_Bounds, w'))"
proof -
  note H = demo_host_ok [unfolded host_ok_def]
  have "read_main no_file_env demo_host short_args idle_world \<noteq> Some (Fault Bad_Pointer, w')" for w'
    using rdma_programs_safe [OF idle_world_ok _ _ H [THEN conjunct2], of no_file_env short_args
        "read_main no_file_env demo_host short_args" Bad_Pointer w'] H [THEN conjunct1]
    by (auto simp: short_args_def)
  moreover have "send_recv_main idle_env demo_host demo_args idle_world \<noteq> Some (Fault Out_Of_Bounds, w')" for w'
    using rdma_programs_safe [OF idle_world_ok _ _ H [THEN conjunct2], of idle_env demo_args
        "send_recv_main idle_env demo_host demo_args" Out_Of_Bounds w'] H [THEN conjunct1] demo_args_ok
    by (auto simp: arguments_ok_def)
  ultimately show ?thesis using no_file_run by blast
qed

end
