(* ===== verification/Receive_Loop.thy ===== *)
theory Receive_Loop
  imports Rdma_Examples
begin

text \<open>
  The loop with which the client of \<open>send_recv.c\<close> gives its receive requests back: it releases what
  it has consumed, and as long as the counter of the device has moved on, takes the next element.
  Both the loop and the wait inside it are unbounded. The lemmas show that the loop ends on a device
  whose counter only grows and stops at some value, and that it ends exactly level with the device.
\<close>

subsection \<open>The receive queue of the program\<close>

definition rq_counter :: "env \<Rightarrow> rdma_dev_t \<Rightarrow> event list \<Rightarrow> u32" where
  "rq_counter E rd h = env_mmio_read E h (rq_status_addr rd main_qpid)"

definition rq_doorbell :: "rdma_dev_t \<Rightarrow> u64" where
  "rq_doorbell rd = rd_axil_ctl rd + ucast (get_rdma_per_q_config_addr RN_RDMA_QCSR_RQCIi main_qpid)"

definition receive_queue :: "ptr \<Rightarrow> rdma_dev_t \<Rightarrow> ptr \<Rightarrow> rdma_qp_t \<Rightarrow> world \<Rightarrow> bool" where
  "receive_queue rdev rd qp q w \<longleftrightarrow>
     rdev \<noteq> NULL \<and> qp \<noteq> NULL \<and> heap w rdev = Some (O_rdma_dev rd) \<and> heap w qp = Some (O_qp q) \<and>
     qp_qpid q = main_qpid \<and>
     (\<exists>table rq. heap w (rd_qps_ptr rd) = Some (O_qp_table table) \<and> unat main_qpid < List.length table \<and>
        table ! unat main_qpid = qp \<and> heap w (qp_rq q) = Some (O_rdma_buff rq))"

text \<open>A counter that grows with the history and never shows the value that the code takes for an error.\<close>

definition grows :: "(event list \<Rightarrow> u32) \<Rightarrow> bool" where
  "grows c \<longleftrightarrow> (\<forall>h e. c h \<le> c (e # h)) \<and> (\<forall>h. c h \<noteq> - 1)"

lemma grows_append: "grows c \<Longrightarrow> c h \<le> c (es @ h)"
  by (induction es) (auto simp: grows_def intro: order_trans)

lemma grows_below: "grows c \<Longrightarrow> \<forall>h. N \<le> List.length h \<longrightarrow> c h = v \<Longrightarrow> c h \<le> v"
  using grows_append [of c h "replicate N (Mmio_Write 0 0)"] by simp

lemma receive_queue_store:
  assumes "receive_queue rdev rd qp q w" and "heap w' = (heap w)(qp \<mapsto> O_qp q')"
    and "qp_qpid q' = qp_qpid q" and "qp_rq q' = qp_rq q"
  shows "receive_queue rdev rd qp q' w'"
  using assms by (auto simp: receive_queue_def)

subsection \<open>One round\<close>

lemma my_queue_run: "receive_queue rdev rd qp q w \<Longrightarrow> my_queue rdev w = Some (Ret qp, w)"
  by (auto simp: receive_queue_def my_queue_def run_simps)

lemma release_run:
  assumes "receive_queue rdev rd qp q w"
  shows "rdma_release_rq_consumed E rdev qp w =
    Some (Ret (if rq_counter E rd (hist w) = qp_rq_pidb q then 0 else 1),
      w\<lparr>hist := Mmio_Write (rq_doorbell rd) (qp_rq_pidb q) #
          Mmio_Read (rq_status_addr rd main_qpid) (rq_counter E rd (hist w)) # hist w,
        heap := (heap w)(qp \<mapsto> O_qp (q\<lparr>qp_rq_cidb := qp_rq_pidb q\<rparr>))\<rparr>)"
proof -
  have "rdev \<noteq> qp" using assms by (auto simp: receive_queue_def)
  with assms show ?thesis
    by (auto simp: receive_queue_def rdma_release_rq_consumed_def write_rq_cidb_def run_simps
        Let_def rq_counter_def rq_status_addr_def rq_doorbell_def emit_def)
qed

lemma receive_run:
  assumes "receive_queue rdev rd qp q w" and "\<not> env_DEBUG E"
    and "rq_counter E rd (hist w) \<noteq> qp_rq_pidb q" and "rq_counter E rd (hist w) \<noteq> - 1"
  shows "\<exists>a. rdma_post_receive E rdev qp w =
    Some (Ret a, w\<lparr>hist := Mmio_Read (rq_status_addr rd main_qpid) (rq_counter E rd (hist w)) # hist w,
        heap := (heap w)(qp \<mapsto> O_qp (q\<lparr>qp_rq_pidb := rq_counter E rd (hist w)\<rparr>))\<rparr>)"
proof -
  have "rdev \<noteq> qp" "rd_qps_ptr rd \<noteq> qp" "qp_rq q \<noteq> qp" using assms(1) by (auto simp: receive_queue_def)
  with assms show ?thesis
    by (auto simp: receive_queue_def rdma_post_receive_def poll_rq_pidb_def run_simps
        Let_def rq_counter_def rq_status_addr_def emit_def bindM_def)
qed

text \<open>A round that finds the counter where it was is the last one.\<close>

lemma last_round:
  assumes "receive_queue rdev rd qp q w" and "rq_counter E rd (hist w) = qp_rq_pidb q"
  shows "\<exists>w'. release_round E rdev w = Some (Ret False, w') \<and>
    heap w' = (heap w)(qp \<mapsto> O_qp (q\<lparr>qp_rq_cidb := qp_rq_pidb q\<rparr>)) \<and>
    last_write (hist w') (rq_doorbell rd) = Some (qp_rq_pidb q)"
  using my_queue_run [OF assms(1)] release_run [OF assms(1), of E] assms(2)
  by (simp add: release_round_def run_simps)

text \<open>Any other round takes the counter over and goes on.\<close>

lemma next_round:
  assumes q: "receive_queue rdev rd qp q w" and g: "grows (rq_counter E rd)" and d: "\<not> env_DEBUG E"
    and p: "qp_rq_pidb q < rq_counter E rd (hist w)"
  shows "\<exists>v w'. release_round E rdev w = Some (Ret True, w') \<and>
    heap w' = (heap w)(qp \<mapsto> O_qp (q\<lparr>qp_rq_cidb := qp_rq_pidb q, qp_rq_pidb := v\<rparr>)) \<and>
    receive_queue rdev rd qp (q\<lparr>qp_rq_cidb := qp_rq_pidb q, qp_rq_pidb := v\<rparr>) w' \<and>
    qp_rq_pidb q < v \<and> v \<le> rq_counter E rd (hist w')"
proof -
  let ?q1 = "q\<lparr>qp_rq_cidb := qp_rq_pidb q\<rparr>"
  from release_run [OF q, of E] p obtain w1 where
    r: "rdma_release_rq_consumed E rdev qp w = Some (Ret 1, w1)"
    and h1: "heap w1 = (heap w)(qp \<mapsto> O_qp ?q1)" and e1: "\<exists>es. hist w1 = es @ hist w" by fastforce
  from receive_queue_store [OF q h1] have q1: "receive_queue rdev rd qp ?q1 w1" by simp
  from e1 have c1: "rq_counter E rd (hist w) \<le> rq_counter E rd (hist w1)" using grows_append [OF g] by auto
  let ?v = "rq_counter E rd (hist w1)"
  have ne: "?v \<noteq> qp_rq_pidb ?q1" "?v \<noteq> - 1" using p c1 g by (auto simp: grows_def)
  from receive_run [OF q1 d ne] obtain a w2 where
    v: "rdma_post_receive E rdev qp w1 = Some (Ret a, w2)"
    and h2: "heap w2 = (heap w1)(qp \<mapsto> O_qp (?q1\<lparr>qp_rq_pidb := ?v\<rparr>))" and e2: "\<exists>e. hist w2 = e # hist w1" by fastforce
  from e2 have "?v \<le> rq_counter E rd (hist w2)" using g by (auto simp: grows_def)
  moreover have "release_round E rdev w = Some (Ret True, w2)"
    using my_queue_run [OF q] my_queue_run [OF q1] r v by (simp add: release_round_def run_simps)
  moreover have "receive_queue rdev rd qp (?q1\<lparr>qp_rq_pidb := ?v\<rparr>) w2"
    using receive_queue_store [OF q1 h2] by simp
  ultimately show ?thesis using h1 h2 p c1 by (intro exI [of _ ?v] exI [of _ w2]) (auto intro: less_le_trans)
qed

subsection \<open>The loop\<close>

text \<open>
  C18: the release loop of \<open>send_recv.c\<close> ends on a device whose receive counter never falls, never
  shows the value -1, and after some number of events stays where it is, provided that the counter
  is not below the last value seen. It then has given back exactly what it has received: producer
  and consumer counter of the queue pair and the doorbell of the device agree, and nothing else in
  the store has changed.
\<close>

theorem release_loop_returns:
  assumes "receive_queue rdev rd qp q w" and "grows (rq_counter E rd)" and "\<not> env_DEBUG E"
    and "\<forall>h. N \<le> List.length h \<longrightarrow> rq_counter E rd h = v" and "qp_rq_pidb q \<le> rq_counter E rd (hist w)"
  shows "\<exists>w' c. release_loop E rdev w = Some (Ret (), w') \<and> qp_rq_pidb q \<le> c \<and> c \<le> v \<and>
    heap w' = (heap w)(qp \<mapsto> O_qp (q\<lparr>qp_rq_cidb := c, qp_rq_pidb := c\<rparr>)) \<and>
    last_write (hist w') (rq_doorbell rd) = Some c"
  using assms(1,5)
proof (induction "unat v - unat (qp_rq_pidb q)" arbitrary: q w rule: less_induct)
  case less
  let ?p = "qp_rq_pidb q"
  have top: "rq_counter E rd (hist w) \<le> v" by (rule grows_below [OF assms(2,4)])
  show ?case
  proof (cases "rq_counter E rd (hist w) = ?p")
    case True
    from last_round [OF less.prems(1) True] obtain w1 where
      one: "release_round E rdev w = Some (Ret False, w1)"
        "heap w1 = (heap w)(qp \<mapsto> O_qp (q\<lparr>qp_rq_cidb := ?p\<rparr>))"
        "last_write (hist w1) (rq_doorbell rd) = Some ?p" by blast
    have "release_loop E rdev w = Some (Ret (), w1)" by (subst release_loop.simps) (simp add: one(1) bindM_def returnM_def)
    with one top True show ?thesis by (intro exI [of _ w1] exI [of _ ?p]) simp
  next
    case False
    with less.prems(2) have p: "?p < rq_counter E rd (hist w)" by simp
    from next_round [OF less.prems(1) assms(2,3) p] obtain u w1 where
      one: "release_round E rdev w = Some (Ret True, w1)"
        "heap w1 = (heap w)(qp \<mapsto> O_qp (q\<lparr>qp_rq_cidb := ?p, qp_rq_pidb := u\<rparr>))"
        "receive_queue rdev rd qp (q\<lparr>qp_rq_cidb := ?p, qp_rq_pidb := u\<rparr>) w1" "?p < u"
        "u \<le> rq_counter E rd (hist w1)" by blast
    have "u \<le> v" using one(5) grows_below [OF assms(2,4)] by (rule order_trans)
    with one(4) have "unat v - unat u < unat v - unat ?p" by (simp add: word_less_nat_alt word_le_nat_alt)
    from less.hyps [OF _ one(3)] this one(5) obtain w2 c where
      rest: "release_loop E rdev w1 = Some (Ret (), w2)" "u \<le> c" "c \<le> v"
        "heap w2 = (heap w1)(qp \<mapsto> O_qp (q\<lparr>qp_rq_cidb := c, qp_rq_pidb := c\<rparr>))"
        "last_write (hist w2) (rq_doorbell rd) = Some c" by auto
    have "?p \<le> c" using one(4) rest(2) by simp
    moreover have "release_loop E rdev w = Some (Ret (), w2)"
      by (subst release_loop.simps) (simp add: one(1) rest(1) run_simps)
    ultimately show ?thesis using rest one(2) by (intro exI [of _ w2] exI [of _ c]) simp
  qed
qed

theorem release_loop_returns_witness:
  "\<exists>w' c. release_loop (idle_env\<lparr>env_mmio_read := \<lambda>_ _. 3\<rparr>) 4 demo_qp_world = Some (Ret (), w') \<and> c \<le> 3 \<and>
     heap w' = (heap demo_qp_world)(9 \<mapsto> O_qp (demo_qp\<lparr>qp_rq_cidb := c, qp_rq_pidb := c\<rparr>))"
proof -
  let ?E = "idle_env\<lparr>env_mmio_read := \<lambda>_ _. 3\<rparr>"
  have "receive_queue 4 demo_rdma 9 demo_qp demo_qp_world"
    by (simp add: receive_queue_def main_qpid_def demo_table_index)
  moreover have "rq_counter ?E demo_rdma h = 3" for h by (simp add: rq_counter_def)
  ultimately show ?thesis
    using release_loop_returns [of 4 demo_rdma 9 demo_qp demo_qp_world ?E 0 3] by (auto simp: grows_def)
qed

end
