(* ===== verification/Send_Queue.thy ===== *)
theory Send_Queue
  imports Rdma_Post
begin

text \<open>
  The send queue as the device sees it, and its refinement by the two calls that the programs use
  to send: \<open>create_a_wqe\<close> writes an element into a slot of the queue, \<open>rdma_post_send\<close> moves the
  doorbell over it. To the device the queue is the list of the elements below the doorbell,
  whatever the bookkeeping in the structures. The specification is the list with one operation:
  submitting a request appends its 64 bytes. The lemmas show that the code refines it for a queue
  in host memory, as long as the indices stay within the depth of the queue, and that
  \<open>allocate_rdma_qp\<close> makes such a queue.
\<close>

subsection \<open>Requests\<close>

record request =
  rq_wrid :: u16
  rq_laddr :: u64
  rq_length :: u32
  rq_opcode :: u32
  rq_remote :: u64
  rq_key :: u32
  rq_immdt :: u32

text \<open>One request, in slot \<open>idx\<close>, without inline payload.\<close>

definition submit :: "env \<Rightarrow> ptr \<Rightarrow> u32 \<Rightarrow> u32 \<Rightarrow> request \<Rightarrow> i32 io" where
  "submit E rdma_dev qpid idx r =
     thenM (create_a_wqe E rdma_dev qpid (rq_wrid r) idx (rq_laddr r) (rq_length r) (rq_opcode r)
              (rq_remote r) (rq_key r) 0 0 0 0 (rq_immdt r))
       (rdma_post_send E rdma_dev qpid)"

primrec submit_all :: "env \<Rightarrow> ptr \<Rightarrow> u32 \<Rightarrow> u32 \<Rightarrow> request list \<Rightarrow> i32 list io" where
  "submit_all E rdma_dev qpid idx [] = returnM []"
| "submit_all E rdma_dev qpid idx (r # rs) =
     bindM (submit E rdma_dev qpid idx r) (\<lambda>rc.
     bindM (submit_all E rdma_dev qpid (idx + 1) rs) (\<lambda>rcs. returnM (rc # rcs)))"

subsection \<open>The abstraction\<close>

definition element :: "win_size_t \<Rightarrow> request \<Rightarrow> u8 list" where
  "element ws r = wqe_bytes (make_wqe ws (rq_wrid r) (rq_laddr r) (rq_length r) (rq_opcode r)
     (rq_remote r) (rq_key r) 0 0 0 0 (rq_immdt r))"

lemma length_element [simp]: "List.length (element ws r) = 64"
  by (simp add: element_def)

text \<open>The doorbell, 0 before it is first written.\<close>

definition doorbell :: "rdma_dev_t \<Rightarrow> u32 \<Rightarrow> event list \<Rightarrow> u32" where
  "doorbell rd qpid h =
     (case last_write h (rd_axil_ctl rd + ucast (get_rdma_per_q_config_addr RN_RDMA_QCSR_SQPIi qpid)) of
        None \<Rightarrow> 0 | Some v \<Rightarrow> v)"

definition slot_bytes :: "(u64 \<Rightarrow> u8) \<Rightarrow> u64 \<Rightarrow> nat \<Rightarrow> u8 list" where
  "slot_bytes m a k = map (\<lambda>j. m (a + word_of_nat (64 * k + j))) [0..<64]"

definition posted :: "rdma_dev_t \<Rightarrow> u32 \<Rightarrow> rdma_buff_t \<Rightarrow> machine \<Rightarrow> event list \<Rightarrow> u8 list list" where
  "posted rd qpid sq m0 h =
     map (slot_bytes (m_host (replay m0 h)) (buf_buffer sq)) [0..<unat (doorbell rd qpid h)]"

text \<open>
  A send queue in host memory with \<open>n\<close> elements posted: the structures are there, and counter and
  doorbell agree.
\<close>

definition send_queue :: "ptr \<Rightarrow> u32 \<Rightarrow> rdma_dev_t \<Rightarrow> win_size_t \<Rightarrow> rdma_buff_t \<Rightarrow> nat \<Rightarrow> nat \<Rightarrow> world \<Rightarrow> bool" where
  "send_queue rdev qpid rd ws sq depth n w \<longleftrightarrow>
     rdev \<noteq> NULL \<and> heap w rdev = Some (O_rdma_dev rd) \<and> heap w (rd_winSize rd) = Some (O_win_size ws) \<and>
     is_device_address (buf_dma_addr sq) = 0 \<and>
     (\<exists>table q. heap w (rd_qps_ptr rd) = Some (O_qp_table table) \<and> unat qpid < List.length table \<and>
        heap w (table ! unat qpid) = Some (O_qp q) \<and> heap w (qp_sq q) = Some (O_rdma_buff sq) \<and>
        unat (qp_qdepth q) = depth \<and> qp_sq_pidb q = word_of_nat n) \<and>
     doorbell rd qpid (hist w) = word_of_nat n \<and> n \<le> depth \<and> depth < 2 ^ 32"

subsection \<open>The memory behind the registers\<close>

text \<open>Posting and polling exchange registers with the device and leave all memory as it is.\<close>

definition same_machine :: "world \<Rightarrow> world \<Rightarrow> bool" where
  "same_machine w w' \<longleftrightarrow> (\<forall>m0. replay m0 (hist w') = replay m0 (hist w))"

lemma reflp_same_machine [keeps_intros]: "reflp same_machine"
  by (simp add: reflp_def same_machine_def)

lemma transp_same_machine [keeps_intros]: "transp same_machine"
  by (rule transpI) (simp add: same_machine_def)

lemma keeps_store_machine [keeps_intros]: "keeps same_machine (load as p)" "keeps same_machine (store p ob)"
  by (auto intro!: keepsI simp: same_machine_def load_def store_def split: if_splits option.splits)

lemma keeps_regs_machine [keeps_intros]:
  "keeps same_machine (read32_data E base off)" "keeps same_machine (write32_data base off v)"
  by (auto intro!: keepsI simp: same_machine_def read32_run write32_data_def modifyM_run)

lemma mmio_sample_machine: "same_machine w (snd (mmio_sample E a w))"
  by (simp add: mmio_sample_def same_machine_def Let_def)

lemma keeps_post_machine [keeps_intros]:
  "keeps same_machine (debug_read E base r)" "keeps same_machine (dump_registers E rdev s qpid)"
  "keeps same_machine (poll_cq_cidb E rdev qpid sq)" "keeps same_machine (qps_index rd qpid)"
proof -
  show debug: "keeps same_machine (debug_read E base r)"
    and dump: "keeps same_machine (dump_registers E rdev s qpid)" for E base r rdev s qpid
    unfolding debug_read_def dump_registers_def by (intro keeps_intros)+
  show "keeps same_machine (poll_cq_cidb E rdev qpid sq)"
    unfolding poll_cq_cidb_def Let_def
    by (intro keeps_intros keeps_poll_cq_loop mmio_sample_machine dump)
  show "keeps same_machine (qps_index rd qpid)"
    unfolding qps_index_def by (intro keeps_intros)
qed

lemma keeps_send_machine [keeps_intros]: "keeps same_machine (rdma_post_send E rdev qpid)"
  unfolding rdma_post_send_def Let_def by (intro keeps_intros)

subsection \<open>Slots\<close>

lemma within_slot:
  assumes "x < 2 ^ 40" and "y < 2 ^ 40"
  shows "unat (word_of_nat x - word_of_nat y :: u64) < 64 \<longleftrightarrow> y \<le> x \<and> x - y < 64"
    and "y \<le> x \<Longrightarrow> unat (word_of_nat x - word_of_nat y :: u64) = x - y"
proof -
  have small: "unat (word_of_nat k :: u64) = k" if "k < 2 ^ 41" for k
    using that by (simp add: unat_of_nat take_bit_nat_eq_self)
  show diff: "unat (word_of_nat x - word_of_nat y :: u64) = x - y" if "y \<le> x"
    using that assms small [of "x - y"] by (simp flip: of_nat_diff)
  show "unat (word_of_nat x - word_of_nat y :: u64) < 64 \<longleftrightarrow> y \<le> x \<and> x - y < 64"
  proof
    let ?d = "word_of_nat x - word_of_nat y :: u64"
    assume d: "unat ?d < 64"
    have "word_of_nat (y + unat ?d) = (word_of_nat x :: u64)" by simp
    then have "unat (word_of_nat (y + unat ?d) :: u64) = unat (word_of_nat x :: u64)" by (rule arg_cong)
    moreover have "unat (word_of_nat (y + unat ?d) :: u64) = y + unat ?d" "unat (word_of_nat x :: u64) = x"
      using d assms by (intro small; simp)+
    ultimately show "y \<le> x \<and> x - y < 64" using d by linarith
  next
    assume "y \<le> x \<and> x - y < 64"
    then show "unat (word_of_nat x - word_of_nat y :: u64) < 64" using diff by simp
  qed
qed

lemma slot_store:
  assumes "k < 2 ^ 32" and "k' < 2 ^ 32" and "List.length bs = 64"
  shows "slot_bytes (store_bytes m (a + word_of_nat (64 * k)) bs) a k' = (if k' = k then bs else slot_bytes m a k')"
proof (rule nth_equalityI)
  show "List.length (slot_bytes (store_bytes m (a + word_of_nat (64 * k)) bs) a k') =
    List.length (if k' = k then bs else slot_bytes m a k')"
    using assms(3) by (simp add: slot_bytes_def)
  fix j assume "j < List.length (slot_bytes (store_bytes m (a + word_of_nat (64 * k)) bs) a k')"
  then have j: "j < 64" by (simp add: slot_bytes_def)
  have small: "64 * k' + j < 2 ^ 40" "64 * k < 2 ^ 40" using assms(1,2) j by auto
  have in_slot: "64 * k \<le> 64 * k' + j \<and> 64 * k' + j - 64 * k < 64 \<longleftrightarrow> k' = k" using j by auto
  have shift: "a + word_of_nat (64 * k' + j) - (a + word_of_nat (64 * k)) =
    (word_of_nat (64 * k' + j) - word_of_nat (64 * k) :: u64)" by simp
  show "slot_bytes (store_bytes m (a + word_of_nat (64 * k)) bs) a k' ! j =
    (if k' = k then bs else slot_bytes m a k') ! j"
  proof (cases "k' = k")
    case True
    with j assms(3) within_slot(2) [OF small] show ?thesis
      by (simp add: slot_bytes_def store_bytes_def shift del: of_nat_add of_nat_mult)
  next
    case False
    with j assms(3) within_slot(1) [OF small] in_slot show ?thesis
      by (simp add: slot_bytes_def store_bytes_def shift del: of_nat_add of_nat_mult)
  qed
qed

subsection \<open>One request\<close>

text \<open>Of \<open>rdma_post_send_run\<close>, only the state that is left.\<close>

lemma rdma_post_send_state:
  assumes "rdev \<noteq> NULL" and "heap w rdev = Some (O_rdma_dev rd)"
    and "heap w (rd_qps_ptr rd) = Some (O_qp_table table)" and "unat qpid < List.length table"
    and "heap w (table ! unat qpid) = Some (O_qp q)"
  shows "\<exists>c w2. rdma_post_send E rdev qpid w = Some (Ret (if is_negative c then - 1 else 0), w2) \<and>
    heap w2 = (heap w)(table ! unat qpid \<mapsto>
      O_qp (q\<lparr>qp_sq_pidb := qp_sq_pidb q + 1, qp_cq_cidb := c, qp_sq_cidb := qp_sq_cidb q + 1\<rparr>)) \<and>
    last_write (hist w2) = (\<lambda>a.
      if a = rd_axil_ctl rd + ucast (get_rdma_per_q_config_addr RN_RDMA_QCSR_SQPIi qpid)
      then Some (qp_sq_pidb q + 1) else last_write (hist w) a)"
proof -
  from rdma_post_send_run [OF assms, of E] obtain c and wp :: world and wc where
    regs: "last_write (hist wp) = (\<lambda>a.
      if a = rd_axil_ctl rd + ucast (get_rdma_per_q_config_addr RN_RDMA_QCSR_SQPIi qpid)
      then Some (qp_sq_pidb q + 1) else last_write (hist w) a)" "last_write (hist wc) = last_write (hist wp)"
    and run: "rdma_post_send E rdev qpid w = Some (Ret (if is_negative c then - 1 else 0),
      wc\<lparr>heap := (heap w)(table ! unat qpid \<mapsto>
        O_qp (q\<lparr>qp_sq_pidb := qp_sq_pidb q + 1, qp_cq_cidb := c, qp_sq_cidb := qp_sq_cidb q + 1\<rparr>))\<rparr>)"
    by (elim exE conjE) (rule that, assumption+)
  show ?thesis by (intro exI conjI, rule run) (simp_all add: regs)
qed

lemma submit_effect:
  assumes "rdev \<noteq> NULL" and "heap w rdev = Some (O_rdma_dev rd)"
    and "heap w (rd_winSize rd) = Some (O_win_size ws)" and "heap w (rd_qps_ptr rd) = Some (O_qp_table table)"
    and "unat qpid < List.length table" and "heap w (table ! unat qpid) = Some (O_qp q)"
    and "heap w (qp_sq q) = Some (O_rdma_buff sq)" and "is_device_address (buf_dma_addr sq) = 0"
  shows "\<exists>rc c w'. submit E rdev qpid idx r w = Some (Ret rc, w') \<and>
    heap w' = (heap w)(table ! unat qpid \<mapsto>
      O_qp (q\<lparr>qp_sq_pidb := qp_sq_pidb q + 1, qp_cq_cidb := c, qp_sq_cidb := qp_sq_cidb q + 1\<rparr>)) \<and>
    last_write (hist w') = (\<lambda>a.
      if a = rd_axil_ctl rd + ucast (get_rdma_per_q_config_addr RN_RDMA_QCSR_SQPIi qpid)
      then Some (qp_sq_pidb q + 1) else last_write (hist w) a) \<and>
    (\<forall>m0. m_host (replay m0 (hist w')) =
      store_bytes (m_host (replay m0 (hist w))) (buf_buffer sq + word_of_nat (64 * unat idx)) (element ws r))"
proof -
  let ?a = "buf_buffer sq + ucast idx * WQE_SIZE"
  let ?w1 = "emit (Mem_Store ?a (element ws r)) (emit (Mem_Store ?a (replicate 64 0)) w)"
  have create: "create_a_wqe E rdev qpid (rq_wrid r) idx (rq_laddr r) (rq_length r) (rq_opcode r)
      (rq_remote r) (rq_key r) 0 0 0 0 (rq_immdt r) w = Some (Ret (), ?w1)"
    using create_a_wqe_host_run [OF assms(2-8)] by (simp add: Let_def element_def)
  have "rdev \<noteq> NULL" "heap ?w1 rdev = Some (O_rdma_dev rd)" "heap ?w1 (rd_qps_ptr rd) = Some (O_qp_table table)"
      "unat qpid < List.length table" "heap ?w1 (table ! unat qpid) = Some (O_qp q)"
    using assms by simp_all
  from rdma_post_send_state [OF this, of E] obtain c w2 where
    post: "rdma_post_send E rdev qpid ?w1 = Some (Ret (if is_negative c then - 1 else 0), w2)"
    and heap: "heap w2 = (heap ?w1)(table ! unat qpid \<mapsto>
      O_qp (q\<lparr>qp_sq_pidb := qp_sq_pidb q + 1, qp_cq_cidb := c, qp_sq_cidb := qp_sq_cidb q + 1\<rparr>))"
    and regs: "last_write (hist w2) = (\<lambda>a.
      if a = rd_axil_ctl rd + ucast (get_rdma_per_q_config_addr RN_RDMA_QCSR_SQPIi qpid)
      then Some (qp_sq_pidb q + 1) else last_write (hist ?w1) a)"
    by (elim exE conjE) (rule that)
  have "ucast idx * WQE_SIZE = (word_of_nat (64 * unat idx) :: u64)"
    by (simp add: WQE_SIZE_def mult.commute of_nat_unat)
  moreover have "replay m0 (hist w2) = replay m0 (hist ?w1)" for m0
    using keepsD [OF keeps_send_machine post] by (simp add: same_machine_def)
  ultimately have "m_host (replay m0 (hist w2)) =
      store_bytes (m_host (replay m0 (hist w))) (buf_buffer sq + word_of_nat (64 * unat idx)) (element ws r)" for m0
    by (simp add: store_bytes_over del: of_nat_mult)
  note mem = this
  have sub: "submit E rdev qpid idx r w = Some (Ret (if is_negative c then - 1 else 0), w2)"
    using create post by (simp add: submit_def run_simps)
  show ?thesis by (intro exI conjI, rule sub) (simp_all add: heap regs mem fun_eq_iff)
qed

lemma submit_refines:
  assumes Q: "send_queue rdev qpid rd ws sq depth n w" and room: "n < depth"
  shows "\<exists>rc w'. submit E rdev qpid (word_of_nat n) r w = Some (Ret rc, w') \<and>
    send_queue rdev qpid rd ws sq depth (Suc n) w' \<and>
    (\<forall>m0. posted rd qpid sq m0 (hist w') = posted rd qpid sq m0 (hist w) @ [element ws r]) \<and>
    (\<forall>p x. heap w p = Some x \<longrightarrow> (\<forall>q. x \<noteq> O_qp q) \<longrightarrow> heap w' p = Some x)"
proof -
  from Q obtain table q where live: "rdev \<noteq> NULL" "heap w rdev = Some (O_rdma_dev rd)"
      "heap w (rd_winSize rd) = Some (O_win_size ws)" "heap w (rd_qps_ptr rd) = Some (O_qp_table table)"
      "unat qpid < List.length table" "heap w (table ! unat qpid) = Some (O_qp q)"
      "heap w (qp_sq q) = Some (O_rdma_buff sq)" "is_device_address (buf_dma_addr sq) = 0"
    and q: "unat (qp_qdepth q) = depth" "qp_sq_pidb q = word_of_nat n"
    and bell: "doorbell rd qpid (hist w) = word_of_nat n" and small: "depth < 2 ^ 32"
    unfolding send_queue_def by blast
  from submit_effect [OF live, of E "word_of_nat n" r] obtain rc c w2 where
    run: "submit E rdev qpid (word_of_nat n) r w = Some (Ret rc, w2)"
    and heap: "heap w2 = (heap w)(table ! unat qpid \<mapsto>
      O_qp (q\<lparr>qp_sq_pidb := qp_sq_pidb q + 1, qp_cq_cidb := c, qp_sq_cidb := qp_sq_cidb q + 1\<rparr>))"
    and regs: "last_write (hist w2) = (\<lambda>a.
      if a = rd_axil_ctl rd + ucast (get_rdma_per_q_config_addr RN_RDMA_QCSR_SQPIi qpid)
      then Some (qp_sq_pidb q + 1) else last_write (hist w) a)"
    and mem: "\<forall>m0. m_host (replay m0 (hist w2)) = store_bytes (m_host (replay m0 (hist w)))
      (buf_buffer sq + word_of_nat (64 * unat (word_of_nat n :: u32))) (element ws r)"
    by blast
  have n: "unat (word_of_nat n :: u32) = n" "unat (word_of_nat (Suc n) :: u32) = Suc n" "n < 2 ^ 32"
    using room small by (simp_all add: unat_of_nat take_bit_nat_eq_self del: of_nat_Suc)
  have bell2: "doorbell rd qpid (hist w2) = word_of_nat (Suc n)"
    using regs q(2) by (simp add: doorbell_def add.commute)
  have "send_queue rdev qpid rd ws sq depth (Suc n) w2"
    unfolding send_queue_def
    using live q small bell2 heap room by (auto simp: add.commute)
  moreover have "posted rd qpid sq m0 (hist w2) = posted rd qpid sq m0 (hist w) @ [element ws r]" for m0
  proof -
    have "k < 2 ^ 32" if "k < Suc n" for k using that n(3) by simp
    with mem show ?thesis
      unfolding posted_def bell bell2 n
      by (simp add: slot_store n(3) del: of_nat_mult)
  qed
  moreover have "heap w2 p = Some x" if "heap w p = Some x" "\<forall>q. x \<noteq> O_qp q" for p x
    using that heap live(6) by auto
  ultimately show ?thesis using run by blast
qed

lemma send_queue_same:
  "send_queue rdev qpid rd ws sq depth n w \<Longrightarrow> same_store w w' \<Longrightarrow> same_regs w w' \<Longrightarrow>
   send_queue rdev qpid rd ws sq depth n w'"
  by (simp add: send_queue_def same_store_def same_regs_def doorbell_def)

lemma posted_same:
  "same_regs w w' \<Longrightarrow> same_machine w w' \<Longrightarrow> posted rd qpid sq m0 (hist w') = posted rd qpid sq m0 (hist w)"
  by (simp add: posted_def same_regs_def same_machine_def doorbell_def)

text \<open>Dumping the registers changes nothing of this.\<close>

lemma dump_registers_queue:
  assumes "send_queue rdev qpid rd ws sq depth n w"
  shows "\<exists>w'. dump_registers E rdev s k w = Some (Ret (), w') \<and> send_queue rdev qpid rd ws sq depth n w' \<and>
    (\<forall>m0. posted rd qpid sq m0 (hist w') = posted rd qpid sq m0 (hist w)) \<and> heap w' = heap w"
proof -
  from assms have "heap w rdev = Some (O_rdma_dev rd)" by (simp add: send_queue_def)
  then obtain w' where run: "dump_registers E rdev s k w = Some (Ret (), w')" using dump_registers_run by blast
  have same: "same_store w w'" "same_regs w w'" "same_machine w w'"
    using keepsD [OF keeps_dump_registers(2) run] keepsD [OF keeps_dump_registers(3) run]
      keepsD [OF keeps_post_machine(2) run] .
  show ?thesis
    using run send_queue_same [OF assms same(1,2)] posted_same [OF same(2,3)] same(1)
    by (auto simp: same_store_def)
qed

lemma submit_all_run:
  assumes "send_queue rdev qpid rd ws sq depth n w" and "n + List.length rs \<le> depth"
  shows "\<exists>rcs w'. submit_all E rdev qpid (word_of_nat n) rs w = Some (Ret rcs, w') \<and>
    List.length rcs = List.length rs \<and> send_queue rdev qpid rd ws sq depth (n + List.length rs) w' \<and>
    (\<forall>m0. posted rd qpid sq m0 (hist w') = posted rd qpid sq m0 (hist w) @ map (element ws) rs)"
  using assms
proof (induction rs arbitrary: n w)
  case Nil
  then show ?case by (simp add: run_simps)
next
  case (Cons r rs)
  from Cons.prems(2) have "n < depth" by simp
  from submit_refines [OF Cons.prems(1) this, of E r] obtain rc w1 where
    one: "submit E rdev qpid (word_of_nat n) r w = Some (Ret rc, w1)"
      "send_queue rdev qpid rd ws sq depth (Suc n) w1"
      "\<forall>m0. posted rd qpid sq m0 (hist w1) = posted rd qpid sq m0 (hist w) @ [element ws r]" by blast
  from Cons.IH [OF one(2)] Cons.prems(2) obtain rcs w2 where
    rest: "submit_all E rdev qpid (word_of_nat (Suc n)) rs w1 = Some (Ret rcs, w2)" "List.length rcs = List.length rs"
      "send_queue rdev qpid rd ws sq depth (Suc n + List.length rs) w2"
      "\<forall>m0. posted rd qpid sq m0 (hist w2) = posted rd qpid sq m0 (hist w1) @ map (element ws) rs" by auto
  have "(word_of_nat n :: u32) + 1 = word_of_nat (Suc n)" by (simp add: add.commute)
  with one rest show ?case by (auto simp: run_simps simp del: of_nat_Suc)
qed

text \<open>
  C7: refinement of the append-only queue. On a host-memory send queue with \<open>n\<close> posted elements and
  room for the requests, submitting them one after the other always returns, whatever the device
  answers and whether or not a completion arrives in time; the device then sees the elements it
  saw before, unchanged, followed by the encodings of the requests in their order, and the queue
  is again one with that many elements posted.
\<close>

theorem submit_all_refines_append:
  assumes "send_queue rdev qpid rd ws sq depth n w" and "n + List.length rs \<le> depth"
  shows "\<exists>rcs w'. submit_all E rdev qpid (word_of_nat n) rs w = Some (Ret rcs, w') \<and>
    List.length rcs = List.length rs \<and> send_queue rdev qpid rd ws sq depth (n + List.length rs) w' \<and>
    (\<forall>m0. posted rd qpid sq m0 (hist w') = posted rd qpid sq m0 (hist w) @ map (element ws) rs)"
  by (rule submit_all_run [OF assms])

lemma demo_send_queue:
  "send_queue 4 2 demo_rdma \<lparr>win_size_lsb = 0xffffffff, win_size_msb = 0xff\<rparr> demo_sq 64 0 demo_qp_world"
  by (simp add: send_queue_def is_device_address_def DEVICE_MEM_OFFSET_def doorbell_def)

definition demo_request :: request where
  "demo_request = \<lparr>rq_wrid = 7, rq_laddr = 0x1234567b000, rq_length = 4096, rq_opcode = 2, rq_remote = 0,
     rq_key = 8, rq_immdt = 0\<rparr>"

theorem submit_all_refines_append_witness:
  "\<exists>rcs w'. submit_all idle_env 4 2 0 [demo_request, demo_request\<lparr>rq_wrid := 8\<rparr>] demo_qp_world = Some (Ret rcs, w') \<and>
     List.length rcs = 2"
  using submit_all_refines_append [OF demo_send_queue, of "[demo_request, demo_request\<lparr>rq_wrid := 8\<rparr>]" idle_env] by auto

subsection \<open>A new queue pair\<close>

text \<open>\<open>allocate_rdma_qp\<close> does not write the doorbell, so a queue is empty as far as the register was 0.\<close>

lemma new_send_queue:
  assumes "world_ok w" and "rdev \<noteq> NULL" and "heap w rdev = Some (O_rdma_dev rd)"
    and "heap w (rd_winSize rd) = Some (O_win_size ws)"
    and "heap w (rd_rn_dev rd) = Some (O_rn_dev d)" and "heap w (rn_base_buf d) = Some (O_rdma_buff bb)"
    and "heap w (rd_qps_ptr rd) = Some (O_qp_table table)"
    and "allocate_rdma_qp E rdev qpid dst pdp cqa rqa qdepth loc macp ip key w = Some (Ret qp, w')"
    and "doorbell rd qpid (hist w) = 0"
  shows "\<exists>q sq. heap w' qp = Some (O_qp q) \<and> heap w' (qp_sq q) = Some (O_rdma_buff sq) \<and>
    (is_device_address (buf_dma_addr sq) = 0 \<longrightarrow> send_queue rdev qpid rd ws sq (unat qdepth) 0 w')"
proof -
  from assms(8) obtain q w1 u where
      build: "build_qp E rdev rd qpid dst pdp cqa rqa qdepth loc macp ip w = Some (Ret (qp, q), w1)"
    and prog: "program_qp rd ws q key w1 = Some (Ret u, w')"
    using assms(3,4) by (auto simp: allocate_rdma_qp_def run_simps returnM_def
        elim!: bindM_RetE thenM_RetE split: prod.splits)
  note built = build_qp_effect [OF assms(1,5,6,7) build]
  from program_qp_effect [OF prog] obtain mac sq cq rq pd where
      sq: "heap w1 (qp_sq q) = Some (O_rdma_buff sq)" and heap: "heap w' = heap w1"
    and hist: "hist w' = block_events (rd_axil_ctl rd) (qp_bank ws q mac sq cq rq key pd) @ hist w1"
    by blast
  have q: "qp_qpid q = qpid" "qp_sq_pidb q = 0" "qp_qdepth q = qdepth" using built by (simp_all add: built_qp_def)
  have bell: "doorbell rd qpid (hist w') = doorbell rd qpid (hist w)"
  proof -
    have "reg32 (hist w') (rd_axil_ctl rd) (get_rdma_per_q_config_addr RN_RDMA_QCSR_SQPIi qpid) =
        reg32 (hist w1) (rd_axil_ctl rd) (get_rdma_per_q_config_addr RN_RDMA_QCSR_SQPIi qpid)"
      by (simp add: hist reg_block qp_bank_def qp_writes_def Let_def q get_rdma_per_q_config_addr_def reg_defs
          del: block_events_Cons)
    then show ?thesis
      using keepsD [OF keeps_build_qp(2) build] by (simp add: doorbell_def same_regs_def reg32_def)
  qed
  have "rdev < next_ptr w" "rd_winSize rd < next_ptr w" "rdev \<noteq> rd_rn_dev rd" "rdev \<noteq> rd_qps_ptr rd"
    "rd_winSize rd \<noteq> rd_rn_dev rd" "rd_winSize rd \<noteq> rd_qps_ptr rd"
    using assms(1,3-5,7) by (auto simp: world_ok_def)
  then have kept: "heap w' rdev = Some (O_rdma_dev rd)" "heap w' (rd_winSize rd) = Some (O_win_size ws)"
    using built assms(3,4) by (simp_all add: heap)
  have table: "heap w' (rd_qps_ptr rd) = Some (O_qp_table (table[unat qpid := qp]))"
    "unat qpid < List.length table" "heap w' qp = Some (O_qp q)"
    unfolding heap using built by blast+
  have "send_queue rdev qpid rd ws sq (unat qdepth) 0 w'" if "is_device_address (buf_dma_addr sq) = 0"
    using that kept table sq q bell assms(2,9) unsigned_less [of qdepth] by (simp add: send_queue_def heap)
  with table sq show ?thesis by (auto simp: heap)
qed

text \<open>
  C8: from \<open>allocate_rdma_qp\<close> to the device. A queue pair is allocated, and its send queue lies in
  host memory; the doorbell register, which the allocation does not write, was 0, as after a reset
  or after \<open>destroy_rdma_qp\<close>. Then any requests that fit the depth can be submitted from slot 0
  on, always return, and the device finds exactly these requests, in their order, below the
  doorbell.
\<close>

theorem new_queue_carries_requests:
  assumes "world_ok w" and "rdev \<noteq> NULL" and "heap w rdev = Some (O_rdma_dev rd)"
    and "heap w (rd_winSize rd) = Some (O_win_size ws)"
    and "heap w (rd_rn_dev rd) = Some (O_rn_dev d)" and "heap w (rn_base_buf d) = Some (O_rdma_buff bb)"
    and "heap w (rd_qps_ptr rd) = Some (O_qp_table table)"
    and "allocate_rdma_qp E rdev qpid dst pdp cqa rqa qdepth loc macp ip key w = Some (Ret qp, w')"
    and "doorbell rd qpid (hist w) = 0" and "List.length rs \<le> unat qdepth"
  shows "\<exists>q sq. heap w' qp = Some (O_qp q) \<and> heap w' (qp_sq q) = Some (O_rdma_buff sq) \<and>
    (is_device_address (buf_dma_addr sq) = 0 \<longrightarrow>
       (\<exists>rcs w''. submit_all E rdev qpid 0 rs w' = Some (Ret rcs, w'') \<and> List.length rcs = List.length rs \<and>
          (\<forall>m0. posted rd qpid sq m0 (hist w'') = map (element ws) rs)))"
proof -
  from new_send_queue [OF assms(1-9)] obtain q sq where
    q: "heap w' qp = Some (O_qp q)" "heap w' (qp_sq q) = Some (O_rdma_buff sq)"
      "is_device_address (buf_dma_addr sq) = 0 \<longrightarrow> send_queue rdev qpid rd ws sq (unat qdepth) 0 w'" by blast
  have "\<exists>rcs w''. submit_all E rdev qpid 0 rs w' = Some (Ret rcs, w'') \<and> List.length rcs = List.length rs \<and>
      (\<forall>m0. posted rd qpid sq m0 (hist w'') = map (element ws) rs)" if "is_device_address (buf_dma_addr sq) = 0"
  proof -
    from q(3) that have sq: "send_queue rdev qpid rd ws sq (unat qdepth) 0 w'" by blast
    then have "posted rd qpid sq m0 (hist w') = []" for m0 by (simp add: posted_def send_queue_def)
    with submit_all_run [OF sq, of rs E] assms(10) show ?thesis by auto
  qed
  with q(1,2) show ?thesis by blast
qed

lemma demo_host_qp_run:
  "\<exists>w' q sq. allocate_rdma_qp idle_env 4 2 5 7 0x12345679000 0x1234567a000 64 HOST_MEM 8 0xc0a80102 4660
     demo_pd_world = Some (Ret 9, w') \<and> heap w' 9 = Some (O_qp q) \<and> qp_sq q = 10 \<and>
     heap w' 10 = Some (O_rdma_buff sq) \<and> is_device_address (buf_dma_addr sq) = 0"
  by (simp add: allocate_rdma_qp_def build_qp_def program_qp_def set_qps_index_def run_simps Let_def
      allocate_rdma_buffer_def allocate_host_arm_def assertM_def place_buffer_def RQE_SIZE_def
      HARDWARE_PAGE_SIZE_def HARDWARE_PAGE_SIZE_ADDRESS_MASK_def
      HARDWARE_PAGE_SIZE_ALIGNMENT_MASK_def get_buffer_paddr_def get_page_frame_number_of_address_def
      PAGEMAP_LENGTH_def PAGE_SHIFT_def is_device_address_def
      DEVICE_MEM_OFFSET_def)

theorem new_queue_carries_requests_witness:
  "\<exists>w' rcs w'' sq. allocate_rdma_qp idle_env 4 2 5 7 0x12345679000 0x1234567a000 64 HOST_MEM 8 0xc0a80102 4660
       demo_pd_world = Some (Ret 9, w') \<and>
     submit_all idle_env 4 2 0 [demo_request, demo_request] w' = Some (Ret rcs, w'') \<and>
     (\<forall>m0. posted demo_rdma 2 sq m0 (hist w'') =
        replicate 2 (element \<lparr>win_size_lsb = 0xffffffff, win_size_msb = 0xff\<rparr> demo_request))"
proof -
  obtain w' q sq where run: "allocate_rdma_qp idle_env 4 2 5 7 0x12345679000 0x1234567a000 64 HOST_MEM 8 0xc0a80102 4660
       demo_pd_world = Some (Ret 9, w')" "heap w' 9 = Some (O_qp q)" "qp_sq q = 10"
     "heap w' 10 = Some (O_rdma_buff sq)" "is_device_address (buf_dma_addr sq) = 0"
    using demo_host_qp_run by blast
  have "\<exists>q sq. heap w' 9 = Some (O_qp q) \<and> heap w' (qp_sq q) = Some (O_rdma_buff sq) \<and>
    (is_device_address (buf_dma_addr sq) = 0 \<longrightarrow>
       (\<exists>rcs w''. submit_all idle_env 4 2 0 [demo_request, demo_request] w' = Some (Ret rcs, w'') \<and>
          List.length rcs = List.length [demo_request, demo_request] \<and>
          (\<forall>m0. posted demo_rdma 2 sq m0 (hist w'') =
            map (element \<lparr>win_size_lsb = 0xffffffff, win_size_msb = 0xff\<rparr>) [demo_request, demo_request])))"
    by (rule new_queue_carries_requests [OF demo_pd_world_ok _ _ _ _ _ _ run(1), of _ _ demo_rn])
      (simp_all add: doorbell_def)
  with run show ?thesis by (auto simp: numeral_2_eq_2)
qed

end
