(* ===== verification/Systolic_Example.thy ===== *)
theory Systolic_Example
  imports Rdma_Examples Dma_Utils Compute Send_Queue
begin

text \<open>
  The two programs that drive the systolic array: \<open>systolic_mm.c\<close>, which copies two matrices to
  the device, starts the kernel, and compares its result with the product computed by the host,
  and \<open>network_systolic_mm.c\<close>, whose client fetches the matrices from a server by RDMA reads first.
  \<open>systolic_mm.c\<close> has transfer functions and register accesses of its own. The lemmas show
  under which conditions the programs keep to their objects, what the verdict of the comparison means, and that the host's
  verdict is the kernel model's product.

  Messages and the clock are left out. \<open>posix_memalign\<close> is an allocation; the variables that a
  failing \<open>mlock\<close> leaves uninitialised are parameters.
\<close>

subsection \<open>Functions of \<open>systolic_mm.c\<close>\<close>

definition systolic_read_to_buffer :: "env \<Rightarrow> i32 \<Rightarrow> u64 \<Rightarrow> u64 \<Rightarrow> u64 \<Rightarrow> i64 io" where
  "systolic_read_to_buffer E fd buffer nbytes base =
     (\<lambda>w. finish_transfer nbytes (chunk_loop (dma_read_chunk E fd) nbytes 0 buffer base w))"

definition systolic_write_from_buffer :: "env \<Rightarrow> i32 \<Rightarrow> u64 \<Rightarrow> u64 \<Rightarrow> u64 \<Rightarrow> i64 io" where
  "systolic_write_from_buffer E fd buffer nbytes base =
     (\<lambda>w. finish_transfer nbytes (chunk_loop (dma_write_chunk E fd) nbytes 0 buffer base w))"

definition systolic_write32_data :: "u64 \<Rightarrow> u64 \<Rightarrow> u32 \<Rightarrow> unit io" where
  "systolic_write32_data base_address offset v = modifyM (emit (Mmio_Write (base_address + offset) v))"

definition systolic_read32_data :: "env \<Rightarrow> u64 \<Rightarrow> u64 \<Rightarrow> u32 io" where
  "systolic_read32_data E base_address offset =
     (\<lambda>w. case mmio_sample E (base_address + offset) w of (v, w') \<Rightarrow> Some (Ret v, w'))"

text \<open>The parameter \<open>offset\<close> of the function is not used.\<close>

definition systolic_issue_ctl_cmd :: "u64 \<Rightarrow> u32 \<Rightarrow> ctl_cmd_t \<Rightarrow> unit io" where
  "systolic_issue_ctl_cmd axil_base offset ctl_cmd =
     (let fifo = ucast RN_CLR_CTL_CMD in
      thenM (systolic_write32_data axil_base fifo (ctl_cmd_size ctl_cmd)) (
      thenM (systolic_write32_data axil_base fifo (a_baseaddr ctl_cmd)) (
      thenM (systolic_write32_data axil_base fifo (b_baseaddr ctl_cmd)) (
      thenM (systolic_write32_data axil_base fifo (c_baseaddr ctl_cmd)) (
      thenM (systolic_write32_data axil_base fifo (pack16 (a_row ctl_cmd) (a_col ctl_cmd))) (
      systolic_write32_data axil_base fifo (pack16 (b_col ctl_cmd) (work_id ctl_cmd))))))))"

subsection \<open>The comparison\<close>

definition matrix_size :: nat where
  "matrix_size = DATA_SIZE * DATA_SIZE"

definition matrix_bytes :: u64 where
  "matrix_bytes = 1024"

primrec load_words :: "env \<Rightarrow> host \<Rightarrow> ptr \<Rightarrow> nat list \<Rightarrow> u32 list io" where
  "load_words E H p [] = returnM []"
| "load_words E H p (i # is) = bindM (load_word E H p i) (\<lambda>x. bindM (load_words E H p is) (\<lambda>xs. returnM (x # xs)))"

text \<open>The host's product, in an array that starts with zeros.\<close>

definition software_results :: "i32 list \<Rightarrow> i32 list \<Rightarrow> i32 list" where
  "software_results in1 in2 =
     (case software_mmult in1 in2 (replicate matrix_size 0) of Some (_, out) \<Rightarrow> out | None \<Rightarrow> [])"

text \<open>\<open>not_match\<close> from the loop, which stops at the first difference.\<close>

primrec results_differ :: "env \<Rightarrow> host \<Rightarrow> ptr \<Rightarrow> i32 list \<Rightarrow> nat list \<Rightarrow> bool io" where
  "results_differ E H hw sw [] = returnM False"
| "results_differ E H hw sw (i # is) =
     bindM (load_word E H hw i) (\<lambda>x. if x \<noteq> sw ! i then returnM True else results_differ E H hw sw is)"

definition work_id_const :: u32 where
  "work_id_const = 0xdd"

text \<open>The verdict: 0 for a pass and -1 for a failure, with the work id that the kernel reports.\<close>

definition verdict :: "env \<Rightarrow> host \<Rightarrow> ptr \<Rightarrow> i32 list \<Rightarrow> u32 \<Rightarrow> i32 io" where
  "verdict E H hw sw hw_work_id =
     bindM (results_differ E H hw sw [0..<matrix_size]) (\<lambda>not_match.
     returnM (if not_match \<or> work_id_const \<noteq> hw_work_id then - 1 else 0))"

subsection \<open>\<open>systolic_mm.c\<close>\<close>

record systolic_junk =
  junk_rc :: i32
  junk_reconic_fd :: i32
  junk_fpga_fd :: i32
  junk_cmd :: ctl_cmd_t

record systolic_options =
  sys_device :: string
  sys_pcie :: "string option"

text \<open>Any option but \<open>d\<close> and \<open>p\<close> ends the program.\<close>

primrec systolic_parse :: "(char \<times> string) list \<Rightarrow> systolic_options \<Rightarrow> systolic_options io" where
  "systolic_parse [] o1 = returnM o1"
| "systolic_parse (arg # args) o1 = (case arg of (cmd_opt, optarg) \<Rightarrow>
     if cmd_opt = CHR ''d'' then systolic_parse args (o1\<lparr>sys_device := optarg\<rparr>)
     else if cmd_opt = CHR ''p'' then systolic_parse args (o1\<lparr>sys_pcie := Some optarg\<rparr>)
     else exitM 0)"

text \<open>
  One array, locked in memory; three times its size is locked. Without memory \<open>rc\<close> is \<open>-ENOMEM\<close>;
  after a failed \<open>mlock\<close> it has never been written.
\<close>

definition locked_array :: "env \<Rightarrow> systolic_junk \<Rightarrow> (i32 + ptr) io" where
  "locked_array E J =
     bindM (malloc E (O_mem matrix_bytes)) (\<lambda>p.
     if p = NULL then thenM (free_obj p) (returnM (Inl (- 12)))
     else bindM (sys_mlock E (mem_addr E p) (matrix_bytes * 3)) (\<lambda>r.
       if r = - 1 then thenM (free_obj p) (returnM (Inl (junk_rc J))) else returnM (Inr p)))"

definition systolic_out :: "i32 \<Rightarrow> i32 \<Rightarrow> i32 \<Rightarrow> i32 io" where
  "systolic_out reconic_fd fpga_fd rc = thenM (sys_close reconic_fd) (thenM (sys_close fpga_fd) (returnM rc))"

definition systolic_fill :: "env \<Rightarrow> ptr \<Rightarrow> ptr \<Rightarrow> ptr \<Rightarrow> unit io" where
  "systolic_fill E in1 in2 hw =
     forM [0..<matrix_size] (\<lambda>i.
       thenM (store_word E in1 i (golden_word i)) (
       thenM (store_word E in2 i (golden_word i)) (
       store_word E hw i 0)))"

text \<open>From the open device on.\<close>

definition systolic_compute :: "env \<Rightarrow> host \<Rightarrow> systolic_junk \<Rightarrow> u64 \<Rightarrow> i32 \<Rightarrow> ptr \<Rightarrow> ptr \<Rightarrow> ptr \<Rightarrow> i32 io" where
  "systolic_compute E H J axil_base fpga_fd in1 in2 hw =
     (let a_base = 0; b_base = 1024; c_base = 2048 in
      thenM (fits in1 matrix_bytes) (
      bindM (systolic_write_from_buffer E fpga_fd (mem_addr E in1) matrix_bytes a_base) (\<lambda>rc.
      if is_negative rc then returnM (scast rc) else
      thenM (fits in2 matrix_bytes) (
      bindM (systolic_write_from_buffer E fpga_fd (mem_addr E in2) matrix_bytes b_base) (\<lambda>rc.
      if is_negative rc then returnM (scast rc) else
      thenM (systolic_issue_ctl_cmd axil_base RN_CLR_CTL_CMD
               (init_ctl_cmd (junk_cmd J) (ucast a_base) (ucast b_base) (ucast c_base) 6 16 16 16 (ucast work_id_const))) (
      bindM (\<lambda>w. map_option (\<lambda>(v, w'). (Ret v, w')) (poll_until
               (mmio_sample E (axil_base + ucast RN_CLR_JOB_COMPLETED_NOT_READ)) (\<lambda>v. v \<noteq> 0) 0 w)) (\<lambda>compute_done.
      thenM (fits hw matrix_bytes) (
      bindM (systolic_read_to_buffer E fpga_fd (mem_addr E hw) matrix_bytes c_base) (\<lambda>rc.
      if is_negative rc then returnM (scast rc) else
      bindM (load_words E H in1 [0..<matrix_size]) (\<lambda>a.
      bindM (load_words E H in2 [0..<matrix_size]) (\<lambda>b.
      bindM (systolic_read32_data E axil_base (ucast RN_CLR_KER_STS)) (\<lambda>hw_work_id.
      verdict E H hw (software_results a b) hw_work_id))))))))))))"

definition systolic_main :: "env \<Rightarrow> host \<Rightarrow> systolic_junk \<Rightarrow> (char \<times> string) list \<Rightarrow> i32 io" where
  "systolic_main E H J args =
     (let early = systolic_out (junk_reconic_fd J) (junk_fpga_fd J) in
      bindM (systolic_parse args \<lparr>sys_device = DEVICE_NAME_DEFAULT, sys_pcie = None\<rparr>) (\<lambda>o1.
      bindM (locked_array E J) (\<lambda>r1. case r1 of Inl rc \<Rightarrow> early rc | Inr in1 \<Rightarrow>
      bindM (locked_array E J) (\<lambda>r2. case r2 of Inl rc \<Rightarrow> early rc | Inr in2 \<Rightarrow>
      bindM (locked_array E J) (\<lambda>r3. case r3 of Inl rc \<Rightarrow> early rc | Inr hw \<Rightarrow>
      thenM (systolic_fill E in1 in2 hw) (
      case sys_pcie o1 of None \<Rightarrow> returnM minus_EINVAL | Some pcie_device \<Rightarrow>
      bindM (sys_open E pcie_device) (\<lambda>reconic_fd.
      if is_negative reconic_fd then returnM minus_EINVAL else
      bindM (sys_mmap E (ucast RN_SCR_MAP_SIZE) reconic_fd) (\<lambda>axil_base.
      if axil_base = MAP_FAILED then thenM (sys_close reconic_fd) (returnM minus_EINVAL) else
      bindM (sys_open E (sys_device o1)) (\<lambda>fpga_fd.
      if is_negative fpga_fd then thenM (sys_close fpga_fd) (returnM minus_EINVAL) else
      bindM (systolic_compute E H J axil_base fpga_fd in1 in2 hw) (\<lambda>rc.
      systolic_out reconic_fd fpga_fd rc))))))))))"

subsection \<open>\<open>network_systolic_mm.c\<close>\<close>

text \<open>Here the allocation of the matrix is checked, and the program goes on without it.\<close>

definition make_matrix :: "env \<Rightarrow> ptr io" where
  "make_matrix E =
     bindM (malloc E (O_mem matrix_bytes)) (\<lambda>matrix_data.
     thenM (if matrix_data \<noteq> NULL then fill_golden E matrix_data matrix_size else returnM ())
       (returnM matrix_data))"

definition network_setup :: "env \<Rightarrow> host \<Rightarrow> i32 \<Rightarrow> options \<Rightarrow> session option io" where
  "network_setup E H sockfd o1 = example_setup E H sockfd o1 matrix_bytes (make_matrix E)"

definition transfer_size :: u32 where
  "transfer_size = 1024"

text \<open>One read from the server: element \<open>wqe_idx\<close>, its doorbell, and the registers.\<close>

definition fetch_matrix :: "env \<Rightarrow> session \<Rightarrow> u32 \<Rightarrow> u64 \<Rightarrow> u64 \<Rightarrow> unit io" where
  "fetch_matrix E s wqe_idx dma_addr remote_offset =
     thenM (with_rn s (\<lambda>dev. create_a_wqe E dev main_qpid 0 wqe_idx dma_addr transfer_size RNIC_OP_READ
              remote_offset R_KEY 0 0 0 0 0)) (
     thenM (with_rn s (\<lambda>dev. rdma_post_send E dev main_qpid))
       (with_rn s (\<lambda>dev. dump_registers E dev 1 main_qpid)))"

definition test_matrix :: "i32 list" where
  "test_matrix = map (\<lambda>i. word_of_nat (i mod 10)) [0..<matrix_size]"

text \<open>
  The kernel on the fetched matrices. \<open>rc\<close> holds the verdict afterwards, but \<open>main\<close> does not
  return it.
\<close>

definition network_compute :: "env \<Rightarrow> host \<Rightarrow> session \<Rightarrow> ctl_cmd_t \<Rightarrow> ptr \<Rightarrow> u64 \<Rightarrow> u64 \<Rightarrow> u64 \<Rightarrow> flow io" where
  "network_compute E H s ctl_cmd hw a b c =
     bindM (load as_rdma_dev (s_rdma_dev s)) (\<lambda>rd.
     thenM (issue_ctl_cmd (rd_axil_ctl rd) RN_CLR_CTL_CMD
              (gen_ctl_cmd ctl_cmd (ucast a) (ucast b) (ucast c) 6 16 16 16 (ucast work_id_const))) (
     bindM (wait_compute E (rd_axil_ctl rd) RN_CLR_JOB_COMPLETED_NOT_READ) (\<lambda>compute_done.
     bindM (device_to_array E hw matrix_bytes c) (\<lambda>rc.
     if is_negative rc then returnM Goto_Out else
     bindM (read32_data E (rd_axil_ctl rd) (ucast RN_CLR_KER_STS)) (\<lambda>hw_work_id.
     bindM (verdict E H hw (software_results test_matrix test_matrix) hw_work_id) (\<lambda>rc.
     returnM Continue))))))"

definition network_client :: "ctl_cmd_t \<Rightarrow> ptr \<Rightarrow> env \<Rightarrow> host \<Rightarrow> options \<Rightarrow> session \<Rightarrow> flow io" where
  "network_client ctl_cmd hw E H o1 s =
     thenM (connect_peer o1 s) (
     bindM (fetch_offset H s) (\<lambda>r. case r of None \<Rightarrow> returnM (Return (- 1)) | Some read_A_offset \<Rightarrow>
     bindM (fetch_offset H s) (\<lambda>r. case r of None \<Rightarrow> returnM (Return (- 1)) | Some read_B_offset \<Rightarrow>
     bindM (allocate_rdma_buffer E (s_rn_dev s) (ucast transfer_size) DEVICE_MEM) (\<lambda>device_bufferA.
     bindM (allocate_rdma_buffer E (s_rn_dev s) (ucast transfer_size) DEVICE_MEM) (\<lambda>device_bufferB.
     bindM (allocate_rdma_buffer E (s_rn_dev s) (ucast transfer_size) DEVICE_MEM) (\<lambda>device_bufferC.
     bindM (load as_rdma_buff device_bufferA) (\<lambda>a.
     thenM (fetch_matrix E s 0 (buf_dma_addr a) read_A_offset) (
     bindM (load as_rdma_buff device_bufferB) (\<lambda>b.
     thenM (fetch_matrix E s 1 (buf_dma_addr b) read_B_offset) (
     bindM (load as_rdma_buff device_bufferC) (\<lambda>c.
     network_compute E H s ctl_cmd hw (buf_dma_addr a) (buf_dma_addr b) (buf_dma_addr c))))))))))))"

text \<open>\<open>mr_bufferA\<close> and \<open>mr_bufferB\<close> are windows of one buffer; their \<open>buf_size\<close> is never set.\<close>

definition set_window :: "ptr \<Rightarrow> u64 \<Rightarrow> u64 \<Rightarrow> unit io" where
  "set_window mr buffer dma_addr =
     bindM (load as_rdma_buff mr) (\<lambda>b.
     store mr (O_rdma_buff (b\<lparr>buf_buffer := buffer, buf_dma_addr := dma_addr\<rparr>)))"

definition place_matrices :: "env \<Rightarrow> ptr \<Rightarrow> u64 \<Rightarrow> rdma_buff_t \<Rightarrow> rdma_buff_t \<Rightarrow> flow io" where
  "place_matrices E matrix_data tmp_dma_addr a b =
     (if is_device_address tmp_dma_addr \<noteq> 0 then
        bindM (array_to_device E matrix_data matrix_bytes (buf_dma_addr a)) (\<lambda>rc1.
        bindM (array_to_device E matrix_data matrix_bytes (buf_dma_addr b)) (\<lambda>rc2.
        returnM (if is_negative rc1 \<or> is_negative rc2 then Goto_Out else Continue)))
      else
        thenM (forM [0..<matrix_size] (\<lambda>i.
          thenM (modifyM (emit (Mem_Store (buf_buffer a + word_of_nat (4 * i)) (le_bytes 4 (golden_word i)))))
            (modifyM (emit (Mem_Store (buf_buffer b + word_of_nat (4 * i)) (le_bytes 4 (golden_word i)))))))
          (returnM Continue))"

definition network_server :: "ptr \<Rightarrow> ptr \<Rightarrow> env \<Rightarrow> host \<Rightarrow> options \<Rightarrow> session \<Rightarrow> flow io" where
  "network_server mr_bufferA mr_bufferB E H o1 s =
     bindM (accept_peer H o1 s) (\<lambda>accepted_sockfd.
     bindM (allocate_rdma_buffer E (s_rn_dev s) 4096 DEVICE_MEM) (\<lambda>tmp_buffer.
     thenM (rdma_register_memory_region (s_rdma_dev s) (s_rdma_pd s) R_KEY tmp_buffer) (
     bindM (load as_rdma_buff tmp_buffer) (\<lambda>t.
     thenM (set_window mr_bufferA (buf_buffer t) (buf_dma_addr t)) (
     thenM (set_window mr_bufferB (buf_buffer t + matrix_bytes) (buf_dma_addr t + matrix_bytes)) (
     bindM (load as_rdma_buff mr_bufferA) (\<lambda>a.
     bindM (load as_rdma_buff mr_bufferB) (\<lambda>b.
     and_then (place_matrices E (s_golden s) (buf_dma_addr t) a b) (
     thenM (publish_offset accepted_sockfd a) (
     thenM (publish_offset accepted_sockfd b) (
     thenM (wait_key H) (
     thenM (with_rn s (\<lambda>dev. dump_registers E dev 0 main_qpid)) (
     thenM (shutdown_close accepted_sockfd) (returnM Continue))))))))))))))"

text \<open>The two windows are allocated first and never freed; \<open>source_hw_results\<close> is on the stack.\<close>

definition network_main :: "env \<Rightarrow> host \<Rightarrow> ctl_cmd_t \<Rightarrow> (char \<times> string) list \<Rightarrow> i32 io" where
  "network_main E H ctl_cmd args =
     bindM (malloc E (O_rdma_buff (junk_rdma_buff E))) (\<lambda>mr_bufferA.
     bindM (malloc E (O_rdma_buff (junk_rdma_buff E))) (\<lambda>mr_bufferB.
     bindM (static_object (O_mem matrix_bytes)) (\<lambda>source_hw_results.
     program_main Network_MM network_setup (network_client ctl_cmd source_hw_results)
       (network_server mr_bufferA mr_bufferB) shutdown_close E H args)))"

subsection \<open>Runs without faults\<close>

lemma quiet_systolic [quiet_intros]:
  "quiet (systolic_read_to_buffer E fd buf n base)" "quiet (systolic_write_from_buffer E fd buf n base)"
  "quiet (systolic_write32_data base off v)" "quiet (systolic_read32_data E base off)" "quiet (issue_ctl_cmd base o1 cmd)"
proof -
  have "keeps same_store (systolic_read_to_buffer E fd buf n base)" "keeps same_store (systolic_write_from_buffer E fd buf n base)"
    using keeps_dma_transfer [of E fd buf n base]
    by (simp_all add: systolic_read_to_buffer_def systolic_write_from_buffer_def dma_read_to_buffer_def dma_write_from_buffer_def)
  then show "quiet (systolic_read_to_buffer E fd buf n base)" "quiet (systolic_write_from_buffer E fd buf n base)"
    by (auto intro!: quietI simp: systolic_read_to_buffer_def systolic_write_from_buffer_def finish_transfer_def wp_def
        Let_def split: option.split)
  show "quiet (systolic_write32_data base off v)" "quiet (issue_ctl_cmd base o1 cmd)"
    unfolding systolic_write32_data_def issue_ctl_cmd_def by (intro quiet_intros)+
  show "quiet (systolic_read32_data E base off)"
    unfolding systolic_read32_data_def mmio_sample_def
    by (rule quietI) (auto intro!: keepsI simp: wp_def Let_def same_store_def)
qed

lemma quiet_systolic_issue [quiet_intros]: "quiet (systolic_issue_ctl_cmd base o1 cmd)"
  unfolding systolic_issue_ctl_cmd_def Let_def by (intro quiet_intros)

lemmas systolic_calls = wp_quiet [OF quiet_systolic(1)] wp_quiet [OF quiet_systolic(2)] wp_quiet [OF quiet_systolic(3)]
  wp_quiet [OF quiet_systolic(4)] wp_quiet [OF quiet_systolic(5)] wp_quiet [OF quiet_systolic_issue] wp_sys

lemma matrix_index: "i \<in> set [0..<matrix_size] \<Longrightarrow> 4 * i + 4 \<le> unat matrix_bytes"
  by (simp add: matrix_size_def DATA_SIZE_def matrix_bytes_def)

lemma wp_load_words:
  assumes w: "conforms T w" and p: "T p = Some (O_mem matrix_bytes)" and idx: "set ks \<subseteq> set [0..<matrix_size]" and Q: "\<And>xs. Q xs w"
  shows "wp (load_words E H p ks) Q w"
  using idx Q
proof (induction ks arbitrary: Q)
  case (Cons i ks)
  have i: "4 * i + 4 \<le> unat matrix_bytes" using Cons.prems(1) by (intro matrix_index) simp
  show ?case
    unfolding load_words.simps
    by (intro wp_bindM wp_load_word [OF w p i] Cons.IH wp_returnM) (use Cons.prems in auto)
qed (simp add: wp_returnM)

lemma wp_verdict:
  assumes w: "conforms T w" and p: "T hw = Some (O_mem matrix_bytes)" and Q: "\<And>x. Q x w"
  shows "wp (verdict E H hw sw wid) Q w"
proof -
  have "wp (results_differ E H hw sw ks) R w" if "set ks \<subseteq> set [0..<matrix_size]" "\<And>x. R x w" for ks R
    using that
  proof (induction ks arbitrary: R)
    case (Cons i ks)
    have i: "4 * i + 4 \<le> unat matrix_bytes" using Cons.prems(1) by (intro matrix_index) simp
    show ?case
      unfolding results_differ.simps
      by (intro wp_bindM wp_load_word [OF w p i] wp_if wp_returnM Cons.IH) (use Cons.prems in auto)
  qed (simp add: wp_returnM)
  then show ?thesis unfolding verdict_def by (intro wp_bindM) (simp add: wp_returnM Q)
qed

lemma wp_locked_array:
  assumes w: "conforms T w"
    and Q: "\<And>rc w'. conforms T w' \<Longrightarrow> Q (Inl rc) w'"
      "\<And>p w'. conforms (T(p \<mapsto> O_mem matrix_bytes)) w' \<Longrightarrow> T p = None \<Longrightarrow> Q (Inr p) w'"
  shows "wp (locked_array E J) Q w"
proof -
  have free: "wp (free_obj p) R w1" if "conforms (T(p \<mapsto> O_mem matrix_bytes)) w1" "T p = None" "\<And>w'. conforms T w' \<Longrightarrow> R () w'" for p R w1
    by (rule wp_free_typed [OF that(1), of _ "O_mem matrix_bytes"]) (use that(2,3) in \<open>auto simp: fun_upd_idem simp del: drop_types_simps\<close>)
  show ?thesis
    unfolding locked_array_def using w
    by - ((assumption | rule wp_malloc_any wp_free_NULL wp_sys wp_intros Q | erule free | (simp; fail))+)
qed

lemma wp_systolic_fill:
  assumes w: "conforms T w" and p: "T a = Some (O_mem matrix_bytes)" "T b = Some (O_mem matrix_bytes)"
    "T c = Some (O_mem matrix_bytes)" and Q: "\<And>w'. conforms T w' \<Longrightarrow> Q () w'"
  shows "wp (systolic_fill E a b c) Q w"
proof -
  have "wp (systolic_fill E a b c) (\<lambda>_. conforms T) w"
    unfolding systolic_fill_def
    by (intro wp_forM w wp_thenM wp_store_word [where T = T and n = matrix_bytes] p; (assumption | erule matrix_index))
  then show ?thesis by (rule wp_mono) (simp add: Q)
qed

lemma wp_systolic_compute:
  assumes w: "conforms T w" and p: "T a = Some (O_mem matrix_bytes)" "T b = Some (O_mem matrix_bytes)"
    "T c = Some (O_mem matrix_bytes)" and Q: "\<And>x w'. conforms T w' \<Longrightarrow> Q x w'"
  shows "wp (systolic_compute E H J axil fd a b c) Q w"
  unfolding systolic_compute_def Let_def using w
  by - ((assumption | rule p Q order_refl subset_refl wp_fits systolic_calls wp_load_words wp_verdict wp_intros | (simp add: p; fail))+)

lemma wp_with_array:
  assumes "conforms T w"
    and "\<And>rc w'. conforms T w' \<Longrightarrow> wp (f rc) Q w'"
    and "\<And>p w'. conforms (T(p \<mapsto> O_mem matrix_bytes)) w' \<Longrightarrow> T p = None \<Longrightarrow> wp (g p) Q w'"
  shows "wp (bindM (locked_array E J) (\<lambda>r. case r of Inl rc \<Rightarrow> f rc | Inr p \<Rightarrow> g p)) Q w"
  by (intro wp_bindM wp_locked_array [OF assms(1)]) (simp_all add: assms(2,3))

lemma wp_systolic_parse: "(\<And>o2. Q o2 w) \<Longrightarrow> wp (systolic_parse args o1) Q w"
  by (induction args arbitrary: o1) (auto simp: wp_returnM wp_exitM split: prod.split)

lemma systolic_main_safe:
  assumes w: "world_ok w"
  shows "wp (systolic_main E H J args) (\<lambda>_ _. True) w"
proof -
  have c: "conforms Map.empty w" using w by (simp add: conforms_def)
  have early: "wp (systolic_out a b rc) (\<lambda>_ _. True) w1" if "conforms T w1" for T a b rc w1
    unfolding systolic_out_def using that by - ((assumption | rule wp_thenM wp_sys wp_returnM TrueI)+)
  show ?thesis
    unfolding systolic_main_def Let_def using c
    by - ((assumption | rule TrueI wp_systolic_parse wp_with_array wp_systolic_fill wp_systolic_compute
        systolic_calls wp_intros fun_upd_same | erule early | (rule typing_keep, assumption) | (simp; fail))+)
qed

text \<open>The objects of the network program's own.\<close>

definition network_own :: "ptr \<Rightarrow> ptr \<Rightarrow> ptr \<Rightarrow> typing \<Rightarrow> bool" where
  "network_own mrA mrB hw T \<longleftrightarrow> (\<exists>a. T mrA = Some (O_rdma_buff a)) \<and> (\<exists>b. T mrB = Some (O_rdma_buff b)) \<and>
     T hw = Some (O_mem matrix_bytes)"

lemma network_own_fresh: "T p = None \<Longrightarrow> network_own mrA mrB hw T \<Longrightarrow> network_own mrA mrB hw (T(p \<mapsto> x))"
  by (auto simp: network_own_def)

lemma network_own_window:
  "T p = Some (O_rdma_buff b) \<Longrightarrow> network_own mrA mrB hw T \<Longrightarrow> network_own mrA mrB hw (T(p \<mapsto> O_rdma_buff b'))"
  by (auto simp: network_own_def)

lemma network_own_carried: "carries T T' \<Longrightarrow> network_own mrA mrB hw T \<Longrightarrow> network_own mrA mrB hw T'"
  unfolding network_own_def carries_def by blast

lemma wp_set_window:
  assumes w: "conforms T w" and p: "T p = Some (O_rdma_buff b)" and s: "typed_session T s rd qp q"
    and K: "network_own mrA mrB hw T"
    and Q: "\<And>T' w'. conforms T' w' \<Longrightarrow> typed_session T' s rd qp q \<Longrightarrow> network_own mrA mrB hw T' \<Longrightarrow> Q () w'"
  shows "wp (set_window p x y) Q w"
  unfolding set_window_def
  by (intro wp_bindM wp_load_typed(3) [OF w p] wp_store_upd [OF w p])
    (rule Q, assumption, rule typed_session_window [OF p _ s], simp, rule network_own_window [OF p K])

lemma wp_fetch_matrix:
  assumes w: "conforms T w" and s: "typed_session T s rd qp q" and E: "host_ready E" and Q: "\<And>x w'. conforms T w' \<Longrightarrow> Q x w'"
  shows "wp (fetch_matrix E s i a ro) Q w"
  unfolding fetch_matrix_def using w
  by - ((assumption | rule wp_thenM wp_with_rn [OF _ s] session_create_wqe [OF _ s E] session_post_send [OF _ s]
      session_engine(2) [OF _ s] Q)+)

lemma wp_place_matrices:
  assumes w: "conforms T w" and g: "T m = Some (O_mem matrix_bytes)" and Q: "\<And>x w'. conforms T w' \<Longrightarrow> Q x w'"
  shows "wp (place_matrices E m d a b) Q w"
proof -
  have loop: "quiet (forM ks (\<lambda>i. thenM (modifyM (emit (e i))) (modifyM (emit (e' i)))))" for e e' and ks :: "nat list"
    by (intro quiet_intros)
  show ?thesis
    unfolding place_matrices_def using w
    by - ((assumption | rule wp_if wp_bindM wp_array_transfer(1) wp_thenM wp_returnM Q wp_quiet [OF loop] exI conjI g order_refl)+)
qed

lemma wp_network_compute:
  assumes w: "conforms T w" and s: "typed_session T s rd qp q" and hw: "T hw = Some (O_mem matrix_bytes)"
    and Q: "\<And>x w'. conforms T w' \<Longrightarrow> Q x w'"
  shows "wp (network_compute E H s cmd hw a b c) Q w"
  unfolding network_compute_def wait_compute_def using w
  by - ((assumption | rule wp_if wp_bindM wp_array_transfer(2) wp_thenM wp_returnM Q wp_load_typed(4)
      typed_sessionD(3) [OF s] systolic_calls wp_poll_until wp_read32 wp_verdict exI conjI hw order_refl)+)

lemma network_bodies_safe:
  assumes E: "host_ready E" and size: "s_golden_size s = matrix_bytes"
  shows "keeps_session (network_own mrA mrB hw) (network_client cmd hw E H o1 s) s"
    "keeps_session (network_own mrA mrB hw) (network_server mrA mrB E H o1 s) s"
proof -
  let ?K = "network_own mrA mrB hw"
  have compute: "wp (network_compute E H s cmd hw a b c) Q w"
    if "conforms T w" "typed_session T s rd qp q" "?K T" "\<And>x w'. conforms T w' \<Longrightarrow> Q x w'" for T w rd qp q a b c Q
    using that(3) by (intro wp_network_compute [OF that(1,2) _ that(4)]) (simp_all add: network_own_def)
  have window: "wp (set_window p x y) Q w"
    if "conforms T w" "typed_session T s rd qp q" "?K T" "p \<in> {mrA, mrB}" "\<And>T' w'. conforms T' w' \<Longrightarrow>
        typed_session T' s rd qp q \<Longrightarrow> ?K T' \<Longrightarrow> Q () w'" for T w rd qp q p x y Q
  proof -
    from that(3,4) obtain b where "T p = Some (O_rdma_buff b)" by (auto simp: network_own_def)
    from wp_set_window [where Q = Q, OF that(1) this that(2,3)] that(5) show ?thesis by blast
  qed
  have mr: "wp (load as_rdma_buff p) Q w" if "conforms T w" "?K T" "p \<in> {mrA, mrB}" "\<And>b. Q b w" for T w p Q
  proof -
    from that(2,3) obtain b where "T p = Some (O_rdma_buff b)" by (auto simp: network_own_def)
    from wp_load_typed(3) [where ?Q3.0 = Q, OF that(1) this] that(4) show ?thesis by blast
  qed
  have place: "wp (place_matrices E (s_golden s) d a b) Q w"
    if "conforms T w" "typed_session T s rd qp q" "\<And>x w'. conforms T w' \<Longrightarrow> Q x w'" for T w rd qp q d a b Q
    using typed_sessionD(7) [OF that(2)] size by (intro wp_place_matrices [OF that(1)] that(3)) simp
  show "keeps_session ?K (network_client cmd hw E H o1 s) s"
    unfolding keeps_session_def network_client_def
    by ((assumption | rule allI impI exI conjI compute session_exchange session_allocate [OF _ _ E]
          wp_fetch_matrix [OF _ _ E] wp_intros fun_upd_same | (rule network_own_fresh typing_keep, assumption))+)
  show "keeps_session ?K (network_server mrA mrB E H o1 s) s"
    unfolding keeps_session_def network_server_def
    by ((assumption | rule allI impI exI conjI window mr place session_allocate [OF _ _ E] session_calls wp_with_rn
          wp_and_then wp_intros fun_upd_same | (rule network_own_fresh typing_keep, assumption) | (simp; fail))+)
qed

lemma wp_make_matrix:
  assumes w: "conforms T w" and E: "host_ready E"
    and Q: "\<And>p w'. conforms (T(p \<mapsto> O_mem matrix_bytes)) w' \<Longrightarrow> T p = None \<Longrightarrow> p \<noteq> NULL \<Longrightarrow> Q p w'"
  shows "wp (make_matrix E) Q w"
proof -
  have E': "\<not> env_malloc_fails E p" for p using E by (simp add: host_ready_def)
  have fill: "wp (fill_golden E p matrix_size) R w1"
    if "conforms (T(p \<mapsto> O_mem matrix_bytes)) w1" "\<And>w'. conforms (T(p \<mapsto> O_mem matrix_bytes)) w' \<Longrightarrow> R () w'" for p R w1
    by (rule wp_fill_golden [OF that(1), where n = matrix_bytes])
      (simp_all add: that(2) matrix_size_def DATA_SIZE_def matrix_bytes_def)
  show ?thesis
    unfolding make_matrix_def using w
    by - ((assumption | rule wp_malloc_typed [OF _ E'] wp_bindM wp_thenM wp_if wp_returnM fill Q | erule (2) Q)+)
qed

lemma network_main_safe:
  assumes w: "world_ok w" and E: "host_ready E" and H: "host_ok H" and args: "arguments_ok args"
  shows "wp (network_main E H cmd args) (\<lambda>_ _. True) w"
proof -
  have c: "conforms Map.empty w" using w by (simp add: conforms_def)
  have E': "\<not> env_malloc_fails E p" for p using E by (simp add: host_ready_def)
  have prog: "wp (program_main Network_MM network_setup (network_client cmd hw) (network_server mrA mrB) shutdown_close
      E H args) (\<lambda>_ _. True) w1"
    if "conforms T0 w1" "network_own mrA mrB hw T0" for T0 w1 hw mrA mrB
    by (rule wp_program_main [OF that(1) _ E H args, where P = "\<lambda>_. True" and n = "\<lambda>_. matrix_bytes" and
          K = "network_own mrA mrB hw" and golden = "\<lambda>_. make_matrix E"])
      (auto simp: network_setup_def intro: network_own_carried [OF _ that(2)] network_bodies_safe [OF E] quiet_close
        wp_make_matrix [OF _ E])
  show ?thesis
    unfolding network_main_def
    by (intro wp_bindM wp_malloc_typed [OF c E'] wp_malloc_typed [OF _ E'] wp_static_object, assumption)
      (assumption, erule prog, auto simp: network_own_def split: if_splits)
qed

text \<open>
  C21: memory safety of the two systolic programs, for the C objects they work on (structures, the queue
  table, arrays, strings), as for the RDMA examples. \<open>systolic_mm.c\<close> has no condition: whatever the
  device, the files and the allocator do (a \<open>malloc\<close> or an \<open>mlock\<close> may fail) and whatever its options,
  it follows no NULL or dangling pointer, leaves none of its arrays, and frees nothing twice.
  \<open>network_systolic_mm.c\<close> is safe in this sense if every \<open>malloc\<close> succeeds and the pagemap file opens,
  every interface of the list has an address, no line of \<open>arp\<close> ends in or right behind its first \<open>at\<close>,
  the addresses given with \<open>-r\<close> and \<open>-i\<close> have at most 15 characters, and \<open>-i\<close> is given at most once; it
  checks none of this, and \<open>get_mac_addr_first_match\<close> and \<open>second_dst_ip_faults\<close> show the faults
  otherwise. The only abort is that of a failed \<open>assert\<close>. Accesses to huge pages and to device memory
  have no bounds in the model and are not covered; and the descriptors that \<open>systolic_mm.c\<close> closes
  uninitialised when an allocation or \<open>mlock\<close> fails are arbitrary values here.
\<close>

theorem systolic_programs_safe:
  assumes "world_ok w"
    and "m = systolic_main E H J args \<or>
      m = network_main E H cmd args \<and>
      (\<forall>p. \<not> env_malloc_fails E p) \<and> (\<forall>h. env_pagemap_open E h) \<and>
      (\<forall>ifas. h_ifaddrs H = Some ifas \<longrightarrow> (\<forall>ifa \<in> set ifas. ifa_family ifa \<noteq> None)) \<and>
      (\<forall>h cmd lines line s. h_popen H h cmd = Some lines \<longrightarrow> line \<in> set lines \<longrightarrow>
         strstr line ''at'' = Some s \<longrightarrow> 3 \<le> List.length s) \<and>
      (\<forall>(c, s) \<in> set args. c \<in> {CHR ''r'', CHR ''i''} \<longrightarrow> List.length s < 16) \<and>
      List.length (filter (\<lambda>(c, s). c = CHR ''i'') args) \<le> 1"
  shows "m w \<noteq> Some (Fault e, w') \<or> e = Assert_Failed"
proof -
  have "wp m (\<lambda>_ _. True) w"
    using assms(2)
  proof (elim disjE conjE)
    assume "m = systolic_main E H J args"
    then show ?thesis by (simp add: systolic_main_safe assms(1))
  next
    assume m: "m = network_main E H cmd args" and env: "\<forall>p. \<not> env_malloc_fails E p" "\<forall>h. env_pagemap_open E h"
      and host: "\<forall>ifas. h_ifaddrs H = Some ifas \<longrightarrow> (\<forall>ifa \<in> set ifas. ifa_family ifa \<noteq> None)"
        "\<forall>h cmd lines line s. h_popen H h cmd = Some lines \<longrightarrow> line \<in> set lines \<longrightarrow>
         strstr line ''at'' = Some s \<longrightarrow> 3 \<le> List.length s"
      and line: "\<forall>(c, s) \<in> set args. c \<in> {CHR ''r'', CHR ''i''} \<longrightarrow> List.length s < 16"
        "List.length (filter (\<lambda>(c, s). c = CHR ''i'') args) \<le> 1"
    from env have "host_ready E" by (simp add: host_ready_def)
    moreover from host have "host_ok H" unfolding host_ok_def by blast
    moreover from line have "arguments_ok args" by (simp add: arguments_ok_def)
    ultimately show ?thesis unfolding m by (rule network_main_safe [OF assms(1)])
  qed
  from wp_no_fault [OF this] show ?thesis by blast
qed

definition demo_junk :: systolic_junk where
  "demo_junk = \<lparr>junk_rc = 0, junk_reconic_fd = 0, junk_fpga_fd = 0, junk_cmd = demo_cmd\<rparr>"

text \<open>A run in which no memory is left: the program ends with \<open>-ENOMEM\<close>.\<close>

lemma no_memory_run:
  "\<exists>w'. systolic_main (idle_env\<lparr>env_malloc_fails := \<lambda>_. True\<rparr>) demo_host demo_junk [] idle_world = Some (Ret (- 12), w')"
  by (simp add: systolic_main_def locked_array_def systolic_out_def run_simps sys_close_def modifyM_run Let_def
      bindM_def thenM_def returnM_def)

theorem systolic_programs_safe_witness:
  "(\<exists>w'. systolic_main (idle_env\<lparr>env_malloc_fails := \<lambda>_. True\<rparr>) demo_host demo_junk [] idle_world = Some (Ret (- 12), w')) \<and>
   (\<forall>w'. systolic_main (idle_env\<lparr>env_malloc_fails := \<lambda>_. True\<rparr>) demo_host demo_junk [] idle_world \<noteq> Some (Fault Bad_Pointer, w')) \<and>
   (\<forall>w'. network_main idle_env demo_host demo_cmd demo_args idle_world \<noteq> Some (Fault Bad_Pointer, w'))"
proof -
  note H = demo_host_ok [unfolded host_ok_def]
  have "network_main idle_env demo_host demo_cmd demo_args idle_world \<noteq> Some (Fault Bad_Pointer, w')" for w'
    using systolic_programs_safe [OF idle_world_ok, of "network_main idle_env demo_host demo_cmd demo_args" idle_env demo_host
        demo_junk demo_args demo_cmd Bad_Pointer w'] H demo_args_ok(1)
    by (auto simp: arguments_ok_def)
  moreover have "systolic_main (idle_env\<lparr>env_malloc_fails := \<lambda>_. True\<rparr>) demo_host demo_junk [] idle_world \<noteq> Some (Fault Bad_Pointer, w')"
    for w'
    using systolic_programs_safe [OF idle_world_ok, of "systolic_main (idle_env\<lparr>env_malloc_fails := \<lambda>_. True\<rparr>) demo_host demo_junk []"
        "idle_env\<lparr>env_malloc_fails := \<lambda>_. True\<rparr>" demo_host demo_junk "[]" demo_cmd Bad_Pointer w'] by simp
  ultimately show ?thesis using no_memory_run by blast
qed

subsection \<open>The verdict\<close>

text \<open>A word of an array as the history leaves it.\<close>

definition mem_word :: "env \<Rightarrow> host \<Rightarrow> ptr \<Rightarrow> world \<Rightarrow> nat \<Rightarrow> u32" where
  "mem_word E H p w i =
     le_word (map (\<lambda>k. host_bytes H (hist w) (mem_addr E p + word_of_nat (4 * i + k))) [0..<4])"

lemma load_word_run [run_simps]:
  "heap w p = Some (O_mem n) \<Longrightarrow> 4 * i + 4 \<le> unat n \<Longrightarrow> load_word E H p i w = Some (Ret (mem_word E H p w i), w)"
  by (simp add: load_word_def run_simps as_mem_def mem_word_def)

lemma results_differ_run:
  assumes "heap w p = Some (O_mem n)" and "\<forall>i \<in> set ks. 4 * i + 4 \<le> unat n"
  shows "results_differ E H p sw ks w = Some (Ret (\<exists>i \<in> set ks. mem_word E H p w i \<noteq> sw ! i), w)"
  using assms(2) by (induction ks) (auto simp: run_simps assms(1))

lemma load_words_run:
  assumes "heap w p = Some (O_mem n)" and "\<forall>i \<in> set ks. 4 * i + 4 \<le> unat n"
  shows "load_words E H p ks w = Some (Ret (map (mem_word E H p w) ks), w)"
  using assms(2) by (induction ks) (auto simp: run_simps assms(1))

lemma map_upt_eq_iff: "List.length C = n \<Longrightarrow> map f [0..<n] = C \<longleftrightarrow> (\<forall>i<n. f i = C ! i)"
  by (auto simp: list_eq_iff_nth_eq)

text \<open>
  C22: the verdict of the two systolic programs is right: for any two matrices the kernel model
  returns a result \<open>C\<close>, and the program reports 0 exactly when the words it has read back are
  those of \<open>C\<close> and the kernel has reported the work id 0xdd; otherwise it reports -1. Nothing else
  changes.
\<close>

theorem verdict_accepts_kernel:
  assumes "heap w hw = Some (O_mem matrix_bytes)" and "List.length junk = 256"
  shows "\<exists>C. mmult a b 16 16 16 wid junk = Some (Ret (C, wid), C) \<and>
    verdict E H hw (software_results a b) hw_work_id w =
      Some (Ret (if load_words E H hw [0..<256] w = Some (Ret C, w) \<and> hw_work_id = 0xdd then 0 else - 1), w)"
proof -
  obtain C where C: "mmult a b 16 16 16 wid junk = Some (Ret (C, wid), C)" "List.length C = 256"
    "software_mmult a b (replicate 256 0) = Some (Ret (), C)"
    using mmult_software_run [OF assms(2)] by blast
  have idx: "\<forall>i \<in> set [0..<256]. 4 * i + 4 \<le> unat matrix_bytes" by (simp add: matrix_bytes_def)
  have sw: "software_results a b = C" using C(3) by (simp add: software_results_def matrix_size_def DATA_SIZE_def)
  have "results_differ E H hw C [0..<matrix_size] w = Some (Ret (\<exists>i<256. mem_word E H hw w i \<noteq> C ! i), w)"
    using results_differ_run [OF assms(1) idx] by (simp add: matrix_size_def DATA_SIZE_def Bex_def)
  moreover have "load_words E H hw [0..<256] w = Some (Ret C, w) \<longleftrightarrow> (\<forall>i<256. mem_word E H hw w i = C ! i)"
    using load_words_run [OF assms(1) idx] map_upt_eq_iff [OF C(2)] by simp
  ultimately show ?thesis
    using C(1) by (auto simp: verdict_def sw run_simps work_id_const_def)
qed

theorem verdict_accepts_kernel_witness:
  "\<exists>rc. verdict idle_env demo_host 7 (software_results (replicate 256 1) (replicate 256 2)) 0
     (idle_world\<lparr>heap := [7 \<mapsto> O_mem matrix_bytes]\<rparr>) = Some (Ret rc, idle_world\<lparr>heap := [7 \<mapsto> O_mem matrix_bytes]\<rparr>) \<and> rc = - 1"
  using verdict_accepts_kernel [of "idle_world\<lparr>heap := [7 \<mapsto> O_mem matrix_bytes]\<rparr>" 7 "replicate 256 0"
      "replicate 256 1" "replicate 256 2" 7 idle_env demo_host 0] by auto

subsection \<open>The two reads of the network client\<close>

lemma fetch_matrix_submits:
  assumes Q: "send_queue rdev main_qpid rd ws sq depth n w" and room: "n < depth"
    and rn: "heap w (s_rn_dev s) = Some (O_rn_dev d)" "rn_rdma_dev d = rdev"
  shows "\<exists>w'. fetch_matrix E s (word_of_nat n) laddr remote w = Some (Ret (), w') \<and>
    send_queue rdev main_qpid rd ws sq depth (Suc n) w' \<and>
    (\<forall>p x. heap w p = Some x \<longrightarrow> (\<forall>q. x \<noteq> O_qp q) \<longrightarrow> heap w' p = Some x) \<and>
    (\<forall>m0. posted rd main_qpid sq m0 (hist w') = posted rd main_qpid sq m0 (hist w) @
       [element ws \<lparr>rq_wrid = 0, rq_laddr = laddr, rq_length = transfer_size, rq_opcode = RNIC_OP_READ,
          rq_remote = remote, rq_key = R_KEY, rq_immdt = 0\<rparr>])"
proof -
  let ?r = "\<lparr>rq_wrid = 0, rq_laddr = laddr, rq_length = transfer_size, rq_opcode = RNIC_OP_READ,
          rq_remote = remote, rq_key = R_KEY, rq_immdt = 0\<rparr>"
  from submit_refines [OF Q room, of E ?r] obtain rc w2 where
    sub: "submit E rdev main_qpid (word_of_nat n) ?r w = Some (Ret rc, w2)"
    and w2: "send_queue rdev main_qpid rd ws sq depth (Suc n) w2"
      "\<forall>p x. heap w p = Some x \<longrightarrow> (\<forall>q. x \<noteq> O_qp q) \<longrightarrow> heap w2 p = Some x"
      "\<forall>m0. posted rd main_qpid sq m0 (hist w2) = posted rd main_qpid sq m0 (hist w) @ [element ws ?r]" by blast
  from dump_registers_queue [OF w2(1), of E 1 main_qpid] obtain w3 where
    dump: "dump_registers E rdev 1 main_qpid w2 = Some (Ret (), w3)" "send_queue rdev main_qpid rd ws sq depth (Suc n) w3"
      "\<forall>m0. posted rd main_qpid sq m0 (hist w3) = posted rd main_qpid sq m0 (hist w2)" "heap w3 = heap w2" by blast
  from Q obtain table q where live: "heap w rdev = Some (O_rdma_dev rd)" "heap w (rd_winSize rd) = Some (O_win_size ws)"
      "heap w (rd_qps_ptr rd) = Some (O_qp_table table)" "unat main_qpid < List.length table"
      "heap w (table ! unat main_qpid) = Some (O_qp q)" "heap w (qp_sq q) = Some (O_rdma_buff sq)"
      "is_device_address (buf_dma_addr sq) = 0" unfolding send_queue_def by blast
  note create = create_a_wqe_host_run [OF live]
  have rn2: "heap w2 (s_rn_dev s) = Some (O_rn_dev d)" using w2(2) rn(1) by simp
  have "fetch_matrix E s (word_of_nat n) laddr remote w = Some (Ret (), w3)"
    using sub dump(1) rn rn2
    by (auto simp: fetch_matrix_def with_rn_def submit_def run_simps create Let_def)
  with w2 dump show ?thesis by auto
qed

text \<open>The exchange of the addresses is two reads of the socket, which leave the queue as it is.\<close>

lemma fetch_offset_queue:
  assumes "fetch_offset H s w = Some (Ret (Some x), w')"
  shows "heap w' = heap w \<and> next_ptr w' = next_ptr w \<and> same_store w w' \<and> same_regs w w' \<and> same_machine w w'"
  using assms
  by (auto simp: fetch_offset_def recv_offset_def Let_def returnM_def same_store_def same_regs_def same_machine_def sys_close_def fun_eq_iff
      split: prod.splits if_splits elim!: bindM_RetE thenM_RetE)

text \<open>A buffer in device memory: the queue does not notice its allocation.\<close>

lemma send_queue_other_objects:
  assumes "send_queue rdev qpid rd ws sq depth n w" and "hist w' = hist w"
    and "\<And>p x. heap w p = Some x \<Longrightarrow> (\<forall>d. x \<noteq> O_rn_dev d) \<Longrightarrow> heap w' p = Some x"
  shows "send_queue rdev qpid rd ws sq depth n w'"
proof -
  have keep: "heap w' p = Some x" if "heap w p = Some x" "\<forall>d. x \<noteq> O_rn_dev d" for p x by (rule assms(3) [OF that])
  from assms(1) show ?thesis
    unfolding send_queue_def assms(2) by (auto intro!: keep)
qed

lemma allocate_device_step:
  assumes "world_ok w" and "\<not> env_malloc_fails E (next_ptr w)" and rn: "heap w rn = Some (O_rn_dev d)"
    and room: "unat (rn_dev_buffer_offset d) + (4096 + unat n) \<le> unat DEVICE_MEM_SIZE"
  shows "\<exists>w' d' b. allocate_rdma_buffer E rn n DEVICE_MEM w = Some (Ret (next_ptr w), w') \<and> world_ok w' \<and> hist w' = hist w \<and>
    (\<forall>p x. heap w p = Some x \<longrightarrow> (\<forall>d. x \<noteq> O_rn_dev d) \<longrightarrow> heap w' p = Some x) \<and>
    heap w' rn = Some (O_rn_dev d') \<and> rn_rdma_dev d' = rn_rdma_dev d \<and>
    heap w' (next_ptr w) = Some (O_rdma_buff b) \<and> is_device_address (buf_dma_addr b) = 1 \<and>
    unat DEVICE_MEM_OFFSET + unat (rn_dev_buffer_offset d) \<le> unat (buf_dma_addr b) \<and>
    unat (buf_dma_addr b) + unat n = unat DEVICE_MEM_OFFSET + unat (rn_dev_buffer_offset d') \<and>
    unat (rn_dev_buffer_offset d') \<le> unat (rn_dev_buffer_offset d) + (4096 + unat n)"
proof -
  let ?off = "place_buffer (rn_dev_buffer_offset d) n" and ?p = "next_ptr w"
  let ?b = "\<lparr>buf_buffer = ?off OR DEVICE_MEM_OFFSET, buf_dma_addr = ?off OR DEVICE_MEM_OFFSET, buf_buf_size = ucast n\<rparr>"
  let ?d = "d\<lparr>rn_dev_buffer_offset := ?off + n\<rparr>"
  have small: "unat (rn_dev_buffer_offset d) + (4096 + unat n) \<le> 2 ^ 32" using room by (simp add: DEVICE_MEM_SIZE_def)
  then have off: "unat (rn_dev_buffer_offset d) \<le> unat ?off" "unat ?off < unat (rn_dev_buffer_offset d) + 4096"
    using place_buffer_spec [of "rn_dev_buffer_offset d" n] by auto
  have sum: "unat (?off + n) = unat ?off + unat n" using off small by (intro unat_u64_add) simp
  have bound: "?off + n \<le> DEVICE_MEM_SIZE" using sum off room by (simp add: word_le_nat_alt)
  have fresh: "?p \<noteq> NULL" "rn \<noteq> ?p" "heap w ?p = None" using assms(1) rn world_ok_fresh [OF assms(1)] by (auto simp: world_ok_def)
  let ?w = "w\<lparr>next_ptr := Suc ?p, heap := (heap w)(?p \<mapsto> O_rdma_buff ?b, rn \<mapsto> O_rn_dev ?d)\<rparr>"
  have run: "allocate_rdma_buffer E rn n DEVICE_MEM w = Some (Ret ?p, ?w)"
    using assms(2) fresh rn bound
    by (cases "junk_rdma_buff E") (simp add: allocate_rdma_buffer_def allocate_device_arm_def run_simps Let_def assertM_def fun_upd_twist)
  have "world_ok ?w" using keepsD [OF keeps_allocate_rdma_buffer run] assms(1) by (simp add: steps_ok_def)
  moreover have "unat ?off \<le> 2 ^ 32" using off small by simp
  note device_address_unat [OF this]
  ultimately show ?thesis
    using run fresh rn off sum by (intro exI [where x = ?w] exI [where x = ?d] exI [where x = ?b]) auto
qed

text \<open>Three of them, and the two reads.\<close>

lemma three_device_buffers:
  assumes "world_ok w" and E: "\<forall>p. \<not> env_malloc_fails E p" and Q: "send_queue rdev qpid rd ws sq depth k w"
    and rn: "heap w rn = Some (O_rn_dev d)" and room: "unat (rn_dev_buffer_offset d) + 3 * (4096 + unat n) \<le> unat DEVICE_MEM_SIZE"
  shows "\<exists>pa w1 pb w2 pc w3 d' a b c. allocate_rdma_buffer E rn n DEVICE_MEM w = Some (Ret pa, w1) \<and>
    allocate_rdma_buffer E rn n DEVICE_MEM w1 = Some (Ret pb, w2) \<and> allocate_rdma_buffer E rn n DEVICE_MEM w2 = Some (Ret pc, w3) \<and>
    send_queue rdev qpid rd ws sq depth k w3 \<and> heap w3 rn = Some (O_rn_dev d') \<and> rn_rdma_dev d' = rn_rdma_dev d \<and>
    heap w3 pa = Some (O_rdma_buff a) \<and> heap w3 pb = Some (O_rdma_buff b) \<and> heap w3 pc = Some (O_rdma_buff c) \<and>
    is_device_address (buf_dma_addr a) = 1 \<and> is_device_address (buf_dma_addr b) = 1 \<and> is_device_address (buf_dma_addr c) = 1 \<and>
    unat (buf_dma_addr a) + unat n \<le> unat (buf_dma_addr b) \<and> unat (buf_dma_addr b) + unat n \<le> unat (buf_dma_addr c)"
proof -
  have "unat (rn_dev_buffer_offset d) + (4096 + unat n) \<le> unat DEVICE_MEM_SIZE" using room by simp
  from allocate_device_step [OF assms(1) _ rn this] E obtain w1 d1 a where
    A: "allocate_rdma_buffer E rn n DEVICE_MEM w = Some (Ret (next_ptr w), w1)" "world_ok w1" "hist w1 = hist w"
      "\<forall>p x. heap w p = Some x \<longrightarrow> (\<forall>d. x \<noteq> O_rn_dev d) \<longrightarrow> heap w1 p = Some x"
      "heap w1 rn = Some (O_rn_dev d1)" "rn_rdma_dev d1 = rn_rdma_dev d" "heap w1 (next_ptr w) = Some (O_rdma_buff a)"
      "is_device_address (buf_dma_addr a) = 1"
      "unat (buf_dma_addr a) + unat n = unat DEVICE_MEM_OFFSET + unat (rn_dev_buffer_offset d1)"
      "unat (rn_dev_buffer_offset d1) \<le> unat (rn_dev_buffer_offset d) + (4096 + unat n)" by blast
  have "unat (rn_dev_buffer_offset d1) + (4096 + unat n) \<le> unat DEVICE_MEM_SIZE" using room A(10) by simp
  from allocate_device_step [OF A(2) _ A(5) this] E obtain w2 d2 b where
    B: "allocate_rdma_buffer E rn n DEVICE_MEM w1 = Some (Ret (next_ptr w1), w2)" "world_ok w2" "hist w2 = hist w1"
      "\<forall>p x. heap w1 p = Some x \<longrightarrow> (\<forall>d. x \<noteq> O_rn_dev d) \<longrightarrow> heap w2 p = Some x"
      "heap w2 rn = Some (O_rn_dev d2)" "rn_rdma_dev d2 = rn_rdma_dev d" "heap w2 (next_ptr w1) = Some (O_rdma_buff b)"
      "is_device_address (buf_dma_addr b) = 1"
      "unat DEVICE_MEM_OFFSET + unat (rn_dev_buffer_offset d1) \<le> unat (buf_dma_addr b)"
      "unat (buf_dma_addr b) + unat n = unat DEVICE_MEM_OFFSET + unat (rn_dev_buffer_offset d2)"
      "unat (rn_dev_buffer_offset d2) \<le> unat (rn_dev_buffer_offset d1) + (4096 + unat n)" unfolding A(6) by blast
  have "unat (rn_dev_buffer_offset d2) + (4096 + unat n) \<le> unat DEVICE_MEM_SIZE" using room A(10) B(11) by simp
  from allocate_device_step [OF B(2) _ B(5) this] E obtain w3 d3 c where
    C: "allocate_rdma_buffer E rn n DEVICE_MEM w2 = Some (Ret (next_ptr w2), w3)" "hist w3 = hist w2"
      "\<forall>p x. heap w2 p = Some x \<longrightarrow> (\<forall>d. x \<noteq> O_rn_dev d) \<longrightarrow> heap w3 p = Some x"
      "heap w3 rn = Some (O_rn_dev d3)" "rn_rdma_dev d3 = rn_rdma_dev d" "heap w3 (next_ptr w2) = Some (O_rdma_buff c)"
      "is_device_address (buf_dma_addr c) = 1"
      "unat DEVICE_MEM_OFFSET + unat (rn_dev_buffer_offset d2) \<le> unat (buf_dma_addr c)" unfolding B(6) by blast
  have Q3: "send_queue rdev qpid rd ws sq depth k w3"
    by (rule send_queue_other_objects [OF send_queue_other_objects [OF send_queue_other_objects [OF Q A(3)] B(3)] C(2)])
      (use A(4) B(4) C(3) in blast)+
  have bufs: "heap w3 (next_ptr w) = Some (O_rdma_buff a)" "heap w3 (next_ptr w1) = Some (O_rdma_buff b)"
    using A(7) B(4,7) C(3) by simp_all
  show ?thesis
    by (intro exI conjI, rule A(1), rule B(1), rule C(1), rule Q3, rule C(4), rule C(5), rule bufs(1), rule bufs(2), rule C(6))
      (use A(8,9) B(8,9,10) C(7,8) in simp_all)
qed

lemma two_reads:
  assumes Q: "send_queue rdev main_qpid rd ws sq depth 0 w" and "2 \<le> depth"
    and rn: "heap w (s_rn_dev s) = Some (O_rn_dev d)" "rn_rdma_dev d = rdev"
  shows "\<exists>w1 w2. fetch_matrix E s 0 a remote_A w = Some (Ret (), w1) \<and> fetch_matrix E s 1 b remote_B w1 = Some (Ret (), w2) \<and>
    (\<forall>p x. heap w p = Some x \<longrightarrow> (\<forall>q. x \<noteq> O_qp q) \<longrightarrow> heap w1 p = Some x \<and> heap w2 p = Some x) \<and>
    (\<forall>m0. posted rd main_qpid sq m0 (hist w2) =
       map (\<lambda>(laddr, remote). wqe_bytes (make_wqe ws 0 laddr 1024 RNIC_OP_READ remote R_KEY 0 0 0 0 0))
         [(a, remote_A), (b, remote_B)])"
proof -
  from assms(2) have room: "0 < depth" "Suc 0 < depth" by simp_all
  from fetch_matrix_submits [OF Q room(1) rn, of E a remote_A] obtain w1 where
    one: "fetch_matrix E s 0 a remote_A w = Some (Ret (), w1)" "send_queue rdev main_qpid rd ws sq depth (Suc 0) w1"
      "\<forall>p x. heap w p = Some x \<longrightarrow> (\<forall>q. x \<noteq> O_qp q) \<longrightarrow> heap w1 p = Some x"
      "\<forall>m0. posted rd main_qpid sq m0 (hist w1) = posted rd main_qpid sq m0 (hist w) @ [element ws
      \<lparr>rq_wrid = 0, rq_laddr = a, rq_length = transfer_size, rq_opcode = RNIC_OP_READ, rq_remote = remote_A,
       rq_key = R_KEY, rq_immdt = 0\<rparr>]" by auto
  have "heap w1 (s_rn_dev s) = Some (O_rn_dev d)" using one(3) rn(1) by simp
  from fetch_matrix_submits [OF one(2) room(2) this rn(2), of E b remote_B] obtain w2 where
    two: "fetch_matrix E s 1 b remote_B w1 = Some (Ret (), w2)"
      "\<forall>p x. heap w1 p = Some x \<longrightarrow> (\<forall>q. x \<noteq> O_qp q) \<longrightarrow> heap w2 p = Some x"
      "\<forall>m0. posted rd main_qpid sq m0 (hist w2) = posted rd main_qpid sq m0 (hist w1) @ [element ws
      \<lparr>rq_wrid = 0, rq_laddr = b, rq_length = transfer_size, rq_opcode = RNIC_OP_READ, rq_remote = remote_B,
       rq_key = R_KEY, rq_immdt = 0\<rparr>]" by auto
  have "posted rd main_qpid sq m0 (hist w) = []" for m0 using Q by (simp add: posted_def send_queue_def)
  with one two show ?thesis by (auto simp: element_def transfer_size_def)
qed

text \<open>
  C23: the network client up to the kernel. It has connected and got two addresses from the server; its
  send queue lies in host memory, is empty and has two slots, \<open>malloc\<close> works and the device memory
  has room for three buffers. Then the client always gets to the kernel: it allocates three
  buffers in device memory, one behind the other, and posts exactly two elements, in this order: the
  read of the first address that came into the first buffer and the read of the second address into
  the second one. The kernel is started on the three buffers in their order, two inputs and the
  output, whether or not the reads have completed.
\<close>

theorem network_reads_posted:
  assumes "world_ok w" and "\<forall>p. \<not> env_malloc_fails E p"
    and "send_queue rdev main_qpid rd ws sq depth 0 w" and "2 \<le> depth"
    and "heap w (s_rn_dev s) = Some (O_rn_dev d)" and "rn_rdma_dev d = rdev"
    and "unat (rn_dev_buffer_offset d) + 3 * (4096 + 1024) \<le> unat DEVICE_MEM_SIZE"
    and "thenM (connect_peer o1 s) (fetch_offset H s) w = Some (Ret (Some remote_A), w1)"
    and "fetch_offset H s w1 = Some (Ret (Some remote_B), w2)"
  shows "\<exists>a b c w3. network_client cmd hw E H o1 s w = network_compute E H s cmd hw a b c w3 \<and>
    (\<forall>m0. posted rd main_qpid sq m0 (hist w3) =
       map (\<lambda>(laddr, remote). wqe_bytes (make_wqe ws 0 laddr 1024 RNIC_OP_READ remote R_KEY 0 0 0 0 0))
         [(a, remote_A), (b, remote_B)]) \<and>
    is_device_address a = 1 \<and> is_device_address b = 1 \<and> is_device_address c = 1 \<and>
    unat a + 1024 \<le> unat b \<and> unat b + 1024 \<le> unat c"
proof -
  let ?rn = "s_rn_dev s" and ?Q = "send_queue rdev main_qpid rd ws sq depth" and ?sz = "ucast transfer_size :: u64"
  have sz: "unat ?sz = 1024" by (simp add: transfer_size_def)
  let ?w0 = "emit (Sock_Connect (s_sockfd s) (opt_dst_ip_str o1) (opt_tcp_sport o1)) w"
  have c0: "connect_peer o1 s w = Some (Ret (), ?w0)" by (simp add: connect_peer_def modifyM_run)
  from assms(8) c0 have fA: "fetch_offset H s ?w0 = Some (Ret (Some remote_A), w1)" by (simp add: thenM_def bindM_def)
  note fB = assms(9)
  have Q2: "?Q 0 w2"
  proof -
    have "?Q 0 ?w0" by (rule send_queue_same [OF assms(3)]) (simp_all add: same_store_def same_regs_def fun_eq_iff)
    then show ?thesis using fetch_offset_queue [OF fA] fetch_offset_queue [OF fB] send_queue_same by blast
  qed
  have w2: "heap w2 = heap w" "next_ptr w2 = next_ptr w" using fetch_offset_queue [OF fA] fetch_offset_queue [OF fB] by auto
  then have ok2: "world_ok w2" and rn2: "heap w2 ?rn = Some (O_rn_dev d)" using assms(1,5) by (auto simp: world_ok_def)
  have "unat (rn_dev_buffer_offset d) + 3 * (4096 + unat ?sz) \<le> unat DEVICE_MEM_SIZE" using assms(7) sz by simp
  from three_device_buffers [OF ok2 assms(2) Q2 rn2 this] obtain pa w3 pb w4 pc w5 d5 a b c where
    bufs: "allocate_rdma_buffer E ?rn ?sz DEVICE_MEM w2 = Some (Ret pa, w3)"
      "allocate_rdma_buffer E ?rn ?sz DEVICE_MEM w3 = Some (Ret pb, w4)" "allocate_rdma_buffer E ?rn ?sz DEVICE_MEM w4 = Some (Ret pc, w5)"
    and Q5: "?Q 0 w5" "heap w5 ?rn = Some (O_rn_dev d5)" "rn_rdma_dev d5 = rdev"
    and at5: "heap w5 pa = Some (O_rdma_buff a)" "heap w5 pb = Some (O_rdma_buff b)" "heap w5 pc = Some (O_rdma_buff c)"
    and layout: "is_device_address (buf_dma_addr a) = 1" "is_device_address (buf_dma_addr b) = 1" "is_device_address (buf_dma_addr c) = 1"
      "unat (buf_dma_addr a) + 1024 \<le> unat (buf_dma_addr b)" "unat (buf_dma_addr b) + 1024 \<le> unat (buf_dma_addr c)"
    unfolding sz assms(6) by blast
  from two_reads [OF Q5(1) assms(4) Q5(2,3), of E "buf_dma_addr a" remote_A "buf_dma_addr b" remote_B] obtain w6 w7 where
    reads: "fetch_matrix E s 0 (buf_dma_addr a) remote_A w5 = Some (Ret (), w6)"
      "fetch_matrix E s 1 (buf_dma_addr b) remote_B w6 = Some (Ret (), w7)"
      "\<forall>p x. heap w5 p = Some x \<longrightarrow> (\<forall>q. x \<noteq> O_qp q) \<longrightarrow> heap w6 p = Some x \<and> heap w7 p = Some x"
    and view: "\<forall>m0. posted rd main_qpid sq m0 (hist w7) =
       map (\<lambda>(laddr, remote). wqe_bytes (make_wqe ws 0 laddr 1024 RNIC_OP_READ remote R_KEY 0 0 0 0 0))
         [(buf_dma_addr a, remote_A), (buf_dma_addr b, remote_B)]" by auto
  have "heap w6 pb = Some (O_rdma_buff b)" "heap w7 pc = Some (O_rdma_buff c)" using reads(3) at5 by simp_all
  then have run: "network_client cmd hw E H o1 s w =
      network_compute E H s cmd hw (buf_dma_addr a) (buf_dma_addr b) (buf_dma_addr c) w7"
    using c0 fA fB bufs at5(1) reads(1,2) by (simp add: network_client_def bindM_def thenM_def load_def as_rdma_buff_def)
  show ?thesis by (intro exI conjI, rule run, rule view) (use layout in simp_all)
qed

definition demo_session :: session where
  "demo_session = \<lparr>s_sockfd = 5, s_rn_dev = 1, s_pcie_resource_fd = 3, s_rdma_dev = 4, s_cidb_buffer = 0,
     s_data_buf = 0, s_ipkterr_buf = 0, s_err_buf = 0, s_resp_err_pkt_buf = 0, s_rdma_pd = 0, s_golden = 0,
     s_golden_size = 1024\<rparr>"

definition demo_network_world :: world where
  "demo_network_world = demo_qp_world\<lparr>heap := (heap demo_qp_world)(1 \<mapsto> O_rn_dev (demo_rn\<lparr>rn_rdma_dev := 4\<rparr>))\<rparr>"

lemma demo_network_queue:
  "send_queue 4 main_qpid demo_rdma \<lparr>win_size_lsb = 0xffffffff, win_size_msb = 0xff\<rparr> demo_sq 64 0 demo_network_world"
  by (simp add: send_queue_def is_device_address_def DEVICE_MEM_OFFSET_def doorbell_def main_qpid_def demo_network_world_def)

theorem network_reads_posted_witness:
  "\<exists>a b c w3. network_client demo_cmd 0 idle_env demo_host (initial_options Network_MM) demo_session demo_network_world =
       network_compute idle_env demo_host demo_session demo_cmd 0 a b c w3 \<and> unat a + 1024 \<le> unat b"
proof -
  let ?w1 = "emit (Sock_Read 5 8 [0, 0, 0, 0, 0, 0, 0x10, 0]) (emit (Sock_Connect 5 [] 0) demo_network_world)"
  have fetch: "\<exists>x. fetch_offset demo_host demo_session w = Some (Ret (Some x), emit (Sock_Read 5 8 [0, 0, 0, 0, 0, 0, 0x10, 0]) w)" for w
    by (simp add: fetch_offset_def recv_offset_def run_simps bindM_def Let_def returnM_def demo_host_def demo_session_def)
  then obtain A B where f: "fetch_offset demo_host demo_session (emit (Sock_Connect 5 [] 0) demo_network_world) = Some (Ret (Some A), ?w1)"
    "fetch_offset demo_host demo_session ?w1 = Some (Ret (Some B), emit (Sock_Read 5 8 [0, 0, 0, 0, 0, 0, 0x10, 0]) ?w1)" by blast
  have first: "thenM (connect_peer (initial_options Network_MM) demo_session) (fetch_offset demo_host demo_session) demo_network_world =
      Some (Ret (Some A), ?w1)"
    using f(1) by (simp add: connect_peer_def modifyM_run thenM_def bindM_def demo_session_def initial_options_def)
  have rn: "heap demo_network_world (s_rn_dev demo_session) = Some (O_rn_dev (demo_rn\<lparr>rn_rdma_dev := 4\<rparr>))"
    by (simp add: demo_network_world_def demo_session_def)
  have ok: "world_ok demo_network_world"
    using demo_qp_world_ok by (auto simp: demo_network_world_def world_ok_def)
  from network_reads_posted [OF ok _ demo_network_queue _ rn _ _ first f(2), of idle_env demo_cmd 0]
  show ?thesis by (auto simp: DEVICE_MEM_SIZE_def)
qed

end
