(* ===== verification/Example_Results.thy ===== *)
theory Example_Results
  imports Systolic_Example
begin

text \<open>
  What the example programs achieve: the offset that a server publishes is the one that its client
  fetches, as far as the bytes arrive; the MAC address that \<open>arp\<close> prints is the one that is used,
  unless the host name says otherwise; a batch is one element many times; and what the exit status
  of a program says.
\<close>

subsection \<open>The exchange of an offset\<close>

lemma bit_byte_of: "bit (byte_of x i) n \<longleftrightarrow> n < 8 \<and> bit x (8 * i + n)"
  by (auto simp: byte_of_def bit_simps)

lemma no_bit_beyond: "8 \<le> m \<Longrightarrow> \<not> bit (b :: u8) m"
  using bit_imp_le_length [of b m] by auto

lemma byte_of_le_word:
  "i < List.length bs \<Longrightarrow> List.length bs \<le> 8 \<Longrightarrow> byte_of (le_word bs :: u64) i = bs ! i"
proof (induction bs arbitrary: i)
  case (Cons b bs)
  show ?case
  proof (cases i)
    case 0
    then show ?thesis by (auto intro!: bit_word_eqI simp: bit_byte_of bit_simps dest: bit_imp_le_length)
  next
    case (Suc j)
    with Cons.prems have j: "j < List.length bs" "List.length bs \<le> 8" "j < 7" by auto
    have "byte_of (le_word (b # bs) :: u64) (Suc j) = byte_of (le_word bs :: u64) j"
      using j(3) by (auto intro!: bit_word_eqI simp: bit_byte_of bit_simps no_bit_beyond)
    with Suc Cons.IH [OF j(1,2)] show ?thesis by simp
  qed
qed simp

lemma upper_bytes:
  assumes "k \<le> 8" and "\<forall>j<8. 8 - k \<le> j \<longrightarrow> byte_of x j = byte_of y j"
  shows "drop_bit (64 - 8 * k) x = drop_bit (64 - 8 * k) (y :: u64)"
proof (rule bit_word_eqI)
  fix n assume "n < LENGTH(64)"
  let ?m = "64 - 8 * k + n"
  show "bit (drop_bit (64 - 8 * k) x) n = bit (drop_bit (64 - 8 * k) y) n"
  proof (cases "?m < 64")
    case True
    then have "?m div 8 < 8" "8 - k \<le> ?m div 8" using assms(1) by auto
    with assms(2) have "byte_of x (?m div 8) = byte_of y (?m div 8)" by blast
    then have "bit (byte_of x (?m div 8)) (?m mod 8) = bit (byte_of y (?m div 8)) (?m mod 8)" by simp
    then show ?thesis by (simp add: bit_byte_of bit_simps)
  next
    case False
    then show ?thesis by (auto simp: bit_simps dest: bit_imp_le_length)
  qed
qed

text \<open>
  C24: the exchange of a buffer address between two hosts. The server writes the eight bytes of
  \<open>htonll\<close>; a client whose \<open>read\<close> delivers the first \<open>k\<close> of them and reports a positive count
  takes the result as the address, and the upper \<open>k\<close> bytes of it are those of the server's buffer.
  With \<open>k = 8\<close> it is the server's address; a shorter read goes unnoticed, and each of the lower
  bytes is a byte that the uninitialised variable held before, from its upper end, in the reverse order.
\<close>

theorem offset_exchange:
  assumes "k \<le> 8" and "0 < sint rc" and "List.length (h_junk_offset H) = 8"
    and "h_recv H (hist w) (s_sockfd s) = (rc, take k (le_bytes 8 (htonll (buf_buffer b))))"
  shows "publish_offset fd b v = Some (Ret (), emit (Sock_Write fd (le_bytes 8 (htonll (buf_buffer b)))) v) \<and>
    (\<exists>x w'. fetch_offset H s w = Some (Ret (Some x), w') \<and>
       drop_bit (64 - 8 * k) x = drop_bit (64 - 8 * k) (buf_buffer b) \<and>
       (\<forall>j<8. byte_of x j = (if 8 - k \<le> j then byte_of (buf_buffer b) j else h_junk_offset H ! (7 - j))))"
proof -
  let ?sent = "le_bytes 8 (htonll (buf_buffer b))" and ?y = "buf_buffer b"
  let ?bytes = "take k ?sent @ drop k (h_junk_offset H)"
  let ?x = "ntohll (le_word ?bytes)"
  have len: "List.length ?bytes = 8" using assms(1,3) by simp
  have fetched: "byte_of ?x j = ?bytes ! (7 - j)" if "j < 8" for j
    using that len by (simp add: ntohll_htonll_eq byte_of_htonll byte_of_le_word)
  have came: "byte_of ?x j = byte_of ?y j" if "j < 8" "8 - k \<le> j" for j
  proof -
    note fetched [OF that(1)]
    also have "7 - j < k" using that by arith
    then have "?bytes ! (7 - j) = ?sent ! (7 - j)" using assms(1) by (simp add: nth_append)
    also have "\<dots> = byte_of ?y j" using that(1) by (simp add: le_bytes_def byte_of_htonll)
    finally show ?thesis .
  qed
  have "byte_of ?x j = h_junk_offset H ! (7 - j)" if "j < 8" "\<not> 8 - k \<le> j" for j
  proof -
    have "\<not> 7 - j < k" "List.length (take k ?sent) = k" using that assms(1) by auto
    with fetched [OF that(1)] show ?thesis using that assms(1,3) by (simp add: nth_append)
  qed
  with came have "\<forall>j<8. byte_of ?x j = (if 8 - k \<le> j then byte_of ?y j else h_junk_offset H ! (7 - j))" by simp
  moreover from came have "drop_bit (64 - 8 * k) ?x = drop_bit (64 - 8 * k) ?y" by (intro upper_bytes assms(1)) blast
  moreover have "\<exists>w'. fetch_offset H s w = Some (Ret (Some ?x), w')"
    using assms by (simp add: fetch_offset_def recv_offset_def run_simps bindM_def Let_def min_def returnM_def)
  ultimately show ?thesis
    by (auto simp: publish_offset_def send_offset_def modifyM_run)
qed

theorem offset_exchange_witness:
  "\<exists>x w'. fetch_offset demo_host demo_session idle_world = Some (Ret (Some x), w') \<and> x = 0x1000"
proof -
  have "le_bytes 8 (htonll 0x1000) = map (\<lambda>i. byte_of (0x1000 :: u64) (7 - i)) [0..<8]"
    unfolding le_bytes_def by (rule map_cong) (simp_all add: byte_of_htonll)
  then have sent: "le_bytes 8 (htonll 0x1000) = [0, 0, 0, 0, 0, 0, 0x10, 0]"
    by (simp add: upt_rec byte_of_def)
  show ?thesis
    using offset_exchange [of 8 8 demo_host idle_world demo_session
        "\<lparr>buf_buffer = 0x1000, buf_dma_addr = 0, buf_buf_size = 0\<rparr>" 6 idle_world] sent
    by (auto simp: demo_host_def)
qed

subsection \<open>The address of the peer\<close>

lemma length_show_fields:
  "fs \<noteq> [] \<Longrightarrow> \<forall>f \<in> set fs. List.length f = 2 \<Longrightarrow> List.length (show_fields sep fs) = 3 * List.length fs - 1"
  by (induction sep fs rule: show_fields.induct) auto

lemma length_show_mac: "List.length bs = 6 \<Longrightarrow> List.length (show_mac bs) = 17"
  unfolding show_mac_def using length_show_fields [of "map show_hex2 bs" "CHR '':''"]
  by (cases "bs = []") (auto simp: show_hex2_def)

text \<open>
  C39: what the programs take from a line of \<open>arp\<close>, which is searched for \<open>no match found\<close> (then they
  exit; here neither line has it) and otherwise for the first \<open>at\<close>. If what stands before the printed
  \<open>at\<close> (the name and the number of the host) has no \<open>at\<close> in it, the printed hardware address behind it is
  used, and the queue pair gets the register pair of its six bytes. If the name does have one (as in
  \<open>gateway\<close>), the address is made of the 17 characters that stand one behind it, whatever they are, and
  the line is not searched for the printed one.
\<close>

theorem arp_mac_address:
  assumes "strstr host_name ''at'' = None" and "List.length mac = 6"
    and "strstr (host_name @ ''at '' @ show_mac mac @ rest) ''no match found'' = None"
    and "strstr (host_name @ ''at'' @ tail @ '' at '' @ show_mac mac @ rest) ''no match found'' = None"
  shows "arp_lines ((host_name @ ''at '' @ show_mac mac @ rest) # lines) m = Ret (convert_mac_addr_to_uint mac) \<and>
    arp_lines ((host_name @ ''at'' @ tail @ '' at '' @ show_mac mac @ rest) # lines) m =
      Ret (convert_mac_addr_str_to_uint (take 17 (drop 1 (tail @ '' at '' @ show_mac mac @ rest))))"
proof
  note len = length_show_mac [OF assms(2)]
  have "strstr (host_name @ ''at '' @ show_mac mac) ''at'' = Some (''at '' @ show_mac mac)"
    using strstr_prefix [OF assms(1), of "'' '' @ show_mac mac"] by simp
  from arp_line_at [OF _ this, of rest lines m] assms(3) len
  have "arp_lines ((host_name @ ''at '' @ show_mac mac @ rest) # lines) m =
      Ret (convert_mac_addr_str_to_uint (take 17 (show_mac mac)))" by simp
  then show "arp_lines ((host_name @ ''at '' @ show_mac mac @ rest) # lines) m = Ret (convert_mac_addr_to_uint mac)"
    using len convert_shown_mac [OF assms(2)] by simp
next
  let ?behind = "tail @ '' at '' @ show_mac mac @ rest"
  have "strstr (host_name @ ''at'' @ ?behind) ''at'' = Some (''at'' @ ?behind)"
    by (rule strstr_prefix [OF assms(1)])
  from arp_line_at [OF _ this, of "[]" lines m] assms(4)
  show "arp_lines ((host_name @ ''at'' @ ?behind) # lines) m =
      Ret (convert_mac_addr_str_to_uint (take 17 (drop 1 ?behind)))"
    by (simp add: length_show_mac [OF assms(2)] drop_Suc numeral_3_eq_3)
qed

theorem arp_mac_address_witness:
  "arp_lines [''karl (10.0.0.2) at 00:0a:35:02:9d:e5 [ether] on eth1''] \<lparr>mac_lsb = 0, mac_msb = 0\<rparr> =
     Ret (convert_mac_addr_to_uint [0, 10, 53, 2, 157, 229])"
proof -
  have shown: "show_mac [0, 10, 53, 2, 157, 229] = ''00:0a:35:02:9d:e5''" by code_simp
  show ?thesis
    using arp_mac_address [of "''karl (10.0.0.2) ''" "[0, 10, 53, 2, 157, 229]" "'' [ether] on eth1''"
        "[]" "[]" "\<lparr>mac_lsb = 0, mac_msb = 0\<rparr>"]
    by (simp add: shown eval_nat_numeral)
qed

text \<open>
  The option \<open>i\<close> cannot be given twice: the first use frees the line that \<open>getline\<close> allocated,
  without resetting the pointer, and the second hands the freed line to \<open>getline\<close>.
\<close>

theorem second_dst_ip_faults:
  assumes "List.length ip1 < 16" and "List.length ip2 < 16"
    and "\<And>h cmd. h_popen H h cmd = Some (line # lines)" and "\<And>m. arp_lines (line # lines) m = Ret mac"
  shows "\<exists>w'. parse_command_line prog H [(CHR ''i'', ip1), (CHR ''i'', ip2)] w = Some (Fault Bad_Pointer, w')"
proof -
  have step: "option_step prog H (CHR ''i'', s) o1 w =
      (if opt_line_freed o1 then Some (Fault Bad_Pointer, emit (Proc_Open (''arp -a '' @ s) True) w)
       else Some (Ret (o1\<lparr>opt_dst_ip := convert_ip_addr_to_uint s, opt_dst_ip_str := s, opt_dst_mac := mac,
           opt_line_freed := True\<rparr>), emit Proc_Close (emit (Proc_Open (''arp -a '' @ s) True) w)))"
    if "List.length s < 16" for s o1 w
    using that assms(3,4)
    by (simp add: option_step_def dst_ip_option_def strcpy16_def Let_def run_simps modifyM_run lift_outcome_def
        faultM_def bindM_def thenM_def del: arp_lines.simps)
  show ?thesis
    using assms(1,2)
    by (simp add: parse_command_line_def thenM_def bindM_def modifyM_run step initial_options_def del: arp_lines.simps)
qed

theorem second_dst_ip_faults_witness:
  "\<exists>w'. parse_command_line Read_Prog (demo_host\<lparr>h_popen := \<lambda>_ _. Some [''at 00:00:00:00:00:00'']\<rparr>)
     [(CHR ''i'', ''10.0.0.2''), (CHR ''i'', ''10.0.0.3'')] idle_world = Some (Fault Bad_Pointer, w')"
  by (rule second_dst_ip_faults [where line = "''at 00:00:00:00:00:00''" and lines = "[]" and
        mac = "convert_mac_addr_str_to_uint ''00:00:00:00:00:00''"]) (simp_all add: eval_nat_numeral)

subsection \<open>The exit status\<close>

text \<open>What every normal result of a program satisfies, together with the state it leaves.\<close>

definition yields :: "('a \<Rightarrow> world \<Rightarrow> bool) \<Rightarrow> 'a io \<Rightarrow> bool" where
  "yields R m \<longleftrightarrow> (\<forall>w r w'. m w = Some (Ret r, w') \<longrightarrow> R r w')"

lemma yieldsD: "yields R m \<Longrightarrow> m w = Some (Ret r, w') \<Longrightarrow> R r w'"
  by (simp add: yields_def)

named_theorems yields_intros \<open>normal results of programs\<close>

lemma yields_bindM [yields_intros]: "(\<And>a. yields R (f a)) \<Longrightarrow> yields R (bindM m f)"
  unfolding yields_def by (blast elim: bindM_RetE)

lemma yields_thenM [yields_intros]: "yields R n \<Longrightarrow> yields R (thenM m n)"
  unfolding yields_def by (blast elim: thenM_RetE)

lemma yields_returnM: "(\<And>w. R r w) \<Longrightarrow> yields R (returnM r)"
  by (auto simp: yields_def returnM_def)

lemma yields_exitM [yields_intros]: "yields R (exitM c)"
  by (simp add: yields_def exitM_def)

lemma yields_if [yields_intros]: "yields R m \<Longrightarrow> yields R n \<Longrightarrow> yields R (if b then m else n)"
  by simp

lemma yields_case_prod [yields_intros]: "(\<And>a b. yields R (f a b)) \<Longrightarrow> yields R (case x of (a, b) \<Rightarrow> f a b)"
  by (cases x) simp

text \<open>A peer that has sent nothing, and a device file that does not open.\<close>

definition peer_lost :: "world \<Rightarrow> bool" where
  "peer_lost w \<longleftrightarrow> (\<exists>fd rc bs h. hist w = Sys_Close fd # Sock_Read fd rc bs # h \<and> sint rc \<le> 0)"

definition no_device_file :: "world \<Rightarrow> bool" where
  "no_device_file w \<longleftrightarrow> (\<exists>path fd h. hist w = Sys_Close fd # Sys_Open path fd # h \<and> sint fd < 0)"

definition returns_if_lost :: "flow \<Rightarrow> world \<Rightarrow> bool" where
  "returns_if_lost f w \<longleftrightarrow> (\<forall>rc. f = Return rc \<longrightarrow> rc = - 1 \<and> peer_lost w)"

abbreviation body_ok :: "flow io \<Rightarrow> bool" where
  "body_ok \<equiv> yields returns_if_lost"

lemma yields_flow [yields_intros]: "body_ok (returnM Continue)" "body_ok (returnM Goto_Out)"
  by (simp_all add: yields_returnM returns_if_lost_def)

lemma yields_flow_if [yields_intros]: "body_ok (returnM (if b then Continue else Goto_Out))"
  "body_ok (returnM (if b then Goto_Out else Continue))"
  by (simp_all add: yields_returnM returns_if_lost_def)

lemma yields_and_then [yields_intros]: "body_ok m \<Longrightarrow> body_ok n \<Longrightarrow> body_ok (and_then m n)"
  unfolding and_then_def yields_def
  by (auto elim!: bindM_RetE split: flow.splits simp: returnM_def)

lemma fetch_offset_None:
  assumes "fetch_offset H s w = Some (Ret None, w')"
  shows "peer_lost w'"
  using assms
  by (auto simp: fetch_offset_def recv_offset_def sys_close_def modifyM_run run_simps Let_def peer_lost_def returnM_def
      split: prod.splits if_splits elim!: bindM_RetE thenM_RetE)

lemma yields_fetch [yields_intros]:
  assumes "\<And>x. body_ok (g x)"
  shows "body_ok (bindM (fetch_offset H s) (\<lambda>r. case r of None \<Rightarrow> returnM (Return (- 1)) | Some x \<Rightarrow> g x))"
  unfolding yields_def
proof (intro allI impI)
  fix w f w'
  assume "bindM (fetch_offset H s) (\<lambda>r. case r of None \<Rightarrow> returnM (Return (- 1)) | Some x \<Rightarrow> g x) w = Some (Ret f, w')"
  then obtain r w1 where "fetch_offset H s w = Some (Ret r, w1)"
    "(case r of None \<Rightarrow> returnM (Return (- 1)) | Some x \<Rightarrow> g x) w1 = Some (Ret f, w')" by (rule bindM_RetE)
  then show "returns_if_lost f w'"
    using yieldsD [OF assms] by (cases r) (auto simp: returnM_def returns_if_lost_def dest: fetch_offset_None)
qed

lemma yields_payload [yields_intros]:
  "body_ok (place_payload E g n k b)" "body_ok (check_payload E H g r sz bu a)" "body_ok (place_matrices E m d x y)"
  "body_ok (network_compute E H s cmd hw x' y' z)"
  unfolding place_payload_def check_payload_def place_matrices_def network_compute_def Let_def
  by (rule yields_intros)+

lemma bodies_status [yields_intros]:
  "body_ok (read_client E H o1 s)" "body_ok (read_server E H o1 s)" "body_ok (write_client E H o1 s)"
  "body_ok (write_server E H o1 s)" "body_ok (read_batch_client E H o1 s)" "body_ok (read_batch_server E H o1 s)"
  "body_ok (write_batch_client E H o1 s)" "body_ok (write_batch_server E H o1 s)"
  "body_ok (send_recv_client E H o1 s)" "body_ok (send_recv_server E H o1 s)"
  "body_ok (network_client cmd hw E H o1 s)" "body_ok (network_server mrA mrB E H o1 s)"
  unfolding read_client_def read_server_def write_client_def write_server_def read_batch_client_def
    read_batch_server_def write_batch_client_def write_batch_server_def send_recv_client_def send_recv_server_def
    network_client_def network_server_def Let_def
  by (rule yields_intros)+

text \<open>The setup gives no session only when the device file does not open.\<close>

definition session_or_no_file :: "session option \<Rightarrow> world \<Rightarrow> bool" where
  "session_or_no_file r w \<longleftrightarrow> (r = None \<longrightarrow> no_device_file w)"

lemma open_device_file_False:
  assumes "open_device_file E w = Some (Ret False, w')"
  shows "no_device_file w'"
  using assms
  by (auto simp: open_device_file_def sys_open_def sys_close_def modifyM_run run_simps Let_def no_device_file_def
      is_negative_def split: if_splits elim!: bindM_RetE thenM_RetE)

lemma yields_open [yields_intros]:
  assumes "yields session_or_no_file m"
  shows "yields session_or_no_file (bindM (open_device_file E) (\<lambda>opened. if \<not> opened then returnM None else m))"
  using assms unfolding yields_def session_or_no_file_def
  by (auto elim!: bindM_RetE split: if_splits simp: returnM_def dest: open_device_file_False)

lemma yields_session: "yields session_or_no_file (returnM (Some s))"
  by (simp add: yields_returnM session_or_no_file_def)

lemma setup_status: "yields session_or_no_file (example_setup E H fd o1 n golden)"
  unfolding example_setup_def by (rule yields_intros yields_session)+

text \<open>The code behind the label \<open>out\<close> has just been run to its end.\<close>

definition cleaned_up :: "env \<Rightarrow> world \<Rightarrow> bool" where
  "cleaned_up E w \<longleftrightarrow> (\<exists>s w1. cleanup E s w1 = Some (Ret 0, w))"

definition exit_status_ok :: "env \<Rightarrow> i32 \<Rightarrow> world \<Rightarrow> bool" where
  "exit_status_ok E rc w \<longleftrightarrow>
     rc = 0 \<and> cleaned_up E w \<or> rc = - 1 \<and> peer_lost w \<or> rc = - 22 \<and> no_device_file w"

lemma cleanup_status: "yields (exit_status_ok E) (cleanup E s)"
proof -
  have "yields (\<lambda>rc _. rc = 0) (cleanup E s)"
    unfolding cleanup_def by (rule yields_intros yields_returnM refl)+
  then show ?thesis by (auto simp: yields_def exit_status_ok_def cleaned_up_def)
qed

lemma run_bodies_status:
  assumes "body_ok client" and "body_ok server"
  shows "yields (exit_status_ok E) (run_bodies E o1 s client server close)"
proof -
  have after: "yields (exit_status_ok E) (bindM (if c then body else returnM Continue) g)"
    if body: "body_ok body" and g: "\<And>f. yields (exit_status_ok E) (g f) \<or> (\<exists>rc. f = Return rc \<and> g f = returnM rc)" for c body g
    unfolding yields_def
  proof (intro allI impI)
    fix w rc w'
    assume "bindM (if c then body else returnM Continue) g w = Some (Ret rc, w')"
    then obtain f w1 where "(if c then body else returnM Continue) w = Some (Ret f, w1)" and then_g: "g f w1 = Some (Ret rc, w')"
      by (rule bindM_RetE)
    then have f: "returns_if_lost f w1"
      by (cases c) (simp add: yieldsD [OF body], auto simp: returns_if_lost_def returnM_def)
    from g [of f] show "exit_status_ok E rc w'"
    proof
      assume "yields (exit_status_ok E) (g f)"
      from yieldsD [OF this then_g] show ?thesis .
    next
      assume "\<exists>rc. f = Return rc \<and> g f = returnM rc"
      then obtain rc' where "f = Return rc'" "g f = returnM rc'" by blast
      with f then_g show ?thesis by (simp add: returns_if_lost_def exit_status_ok_def returnM_def)
    qed
  qed
  have server_part: "yields (exit_status_ok E) (bindM (if opt_server o1 \<noteq> 0 then server else returnM Continue) (\<lambda>f.
         case f of Return rc \<Rightarrow> returnM rc | Goto_Out \<Rightarrow> cleanup E s | Continue \<Rightarrow> thenM close (cleanup E s)))"
    by (rule after [OF assms(2)], case_tac f) (simp_all add: cleanup_status yields_thenM)
  show ?thesis
    unfolding run_bodies_def
    by (rule after [OF assms(1)], case_tac f) (simp_all add: cleanup_status server_part)
qed

lemma program_status:
  assumes "\<And>fd o1. start E H fd o1 = example_setup E H fd o1 (n o1) (golden o1)"
    and "\<And>o1 s. body_ok (client E H o1 s) \<and> body_ok (server E H o1 s)"
  shows "yields (exit_status_ok E) (program_main prog start client server close E H args)"
  unfolding yields_def
proof (intro allI impI)
  fix w rc w'
  assume "program_main prog start client server close E H args w = Some (Ret rc, w')"
  then obtain fd o1 w1 r w2 where start: "start E H fd o1 w1 = Some (Ret r, w2)"
    and finish: "(case r of None \<Rightarrow> returnM minus_EINVAL
       | Some s \<Rightarrow> run_bodies E o1 s (client E H o1 s) (server E H o1 s) (close fd)) w2 = Some (Ret rc, w')"
    unfolding program_main_def by (elim bindM_RetE) (rule that)
  show "exit_status_ok E rc w'"
  proof (cases r)
    case None
    then show ?thesis
      using start finish yieldsD [OF setup_status] assms(1)
      by (auto simp: session_or_no_file_def exit_status_ok_def minus_EINVAL_def returnM_def)
  next
    case (Some s)
    with finish show ?thesis using yieldsD [OF run_bodies_status] assms(2) by (simp only: option.case) blast
  qed
qed

text \<open>
  C11: what the value means that \<open>main\<close> of one of the six network programs returns. It is one of three:
  0 when the code behind the label \<open>out\<close> has just been run to its end, whichever way it was reached;
  -1 when the last that happened was a failed or empty read of an address from the peer and the
  closing of the socket; -22 when the last that happened was that the device file did not open and
  was closed. So a transfer that fails in the program, or a wrong result, has no value of its own.
  Runs that end in \<open>exit\<close> (an allocation or a mapping that fails, an unknown option) do not return
  from \<open>main\<close> and are not covered.
\<close>

theorem exit_status:
  assumes "m \<in> {read_main E H args, write_main E H args, read_batch_main E H args, write_batch_main E H args,
      send_recv_main E H args, network_main E H cmd args}"
    and "m w = Some (Ret rc, w')"
  shows "rc = 0 \<and> (\<exists>s w1. cleanup E s w1 = Some (Ret 0, w')) \<or>
    rc = - 1 \<and> (\<exists>fd r bs h. hist w' = Sys_Close fd # Sock_Read fd r bs # h \<and> sint r \<le> 0) \<or>
    rc = - 22 \<and> (\<exists>path fd h. hist w' = Sys_Close fd # Sys_Open path fd # h \<and> sint fd < 0)"
proof -
  have "yields (exit_status_ok E) m"
  proof -
    have main: "yields (exit_status_ok E) (program_main prog start client server close E H args)"
      if "\<And>fd o1. start E H fd o1 = example_setup E H fd o1 (n o1) (golden o1)"
        "\<And>o1 s. body_ok (client E H o1 s) \<and> body_ok (server E H o1 s)"
      for prog start client server close and n :: "options \<Rightarrow> u64" and golden
      using that by (rule program_status)
    note setups = read_setup_def write_setup_def read_batch_setup_def write_batch_setup_def send_recv_setup_def
      network_setup_def
    have "yields (exit_status_ok E) (network_main E H cmd args)"
      unfolding network_main_def by (intro yields_bindM main) (simp_all add: setups bodies_status)
    with assms(1) show ?thesis
      unfolding read_main_def write_main_def read_batch_main_def write_batch_main_def send_recv_main_def
      by (auto intro!: main simp: setups bodies_status)
  qed
  from yieldsD [OF this assms(2)] show ?thesis by (simp add: exit_status_ok_def cleaned_up_def peer_lost_def no_device_file_def)
qed

theorem exit_status_witness:
  "\<exists>w'. read_main no_file_env demo_host short_args idle_world = Some (Ret (- 22), w') \<and>
     (\<exists>path fd h. hist w' = Sys_Close fd # Sys_Open path fd # h \<and> sint fd < 0)"
proof -
  obtain w' where run: "read_main no_file_env demo_host short_args idle_world = Some (Ret (- 22), w')"
    using no_file_run by blast
  from exit_status [of "read_main no_file_env demo_host short_args" no_file_env demo_host short_args demo_cmd, OF _ run] run show ?thesis by auto
qed

subsection \<open>A batch\<close>

lemma batch_slots:
  fixes laddr remote :: u64 and len opc :: u32
  assumes Q: "send_queue rdev main_qpid rd ws sq depth n w"
    and rn: "heap w (s_rn_dev s) = Some (O_rn_dev d)" "rn_rdma_dev d = rdev" and N: "N \<le> 2 ^ 32"
  defines "e \<equiv> element ws \<lparr>rq_wrid = 0, rq_laddr = laddr, rq_length = len, rq_opcode = opc, rq_remote = remote,
      rq_key = R_KEY, rq_immdt = 0\<rparr>"
  shows "\<exists>w'. forM [0..<N] (\<lambda>i. with_rn s (\<lambda>dev. create_a_wqe E dev main_qpid 0 (word_of_nat i) laddr len opc
        remote R_KEY 0 0 0 0 0)) w = Some (Ret (), w') \<and> heap w' = heap w \<and> last_write (hist w') = last_write (hist w) \<and>
    (\<forall>m0 k. k < 2 ^ 32 \<longrightarrow> slot_bytes (m_host (replay m0 (hist w'))) (buf_buffer sq) k =
       (if k < N then e else slot_bytes (m_host (replay m0 (hist w))) (buf_buffer sq) k))"
  using N
proof (induction N)
  case 0
  then show ?case by (simp add: run_simps)
next
  case (Suc N)
  then obtain w1 where w1: "forM [0..<N] (\<lambda>i. with_rn s (\<lambda>dev. create_a_wqe E dev main_qpid 0 (word_of_nat i) laddr len opc
        remote R_KEY 0 0 0 0 0)) w = Some (Ret (), w1)" "heap w1 = heap w" "last_write (hist w1) = last_write (hist w)"
    "\<forall>m0 k. k < 2 ^ 32 \<longrightarrow> slot_bytes (m_host (replay m0 (hist w1))) (buf_buffer sq) k =
       (if k < N then e else slot_bytes (m_host (replay m0 (hist w))) (buf_buffer sq) k)" by auto
  from Q w1(2) obtain table q where live: "heap w1 rdev = Some (O_rdma_dev rd)" "heap w1 (rd_winSize rd) = Some (O_win_size ws)"
      "heap w1 (rd_qps_ptr rd) = Some (O_qp_table table)" "unat main_qpid < List.length table"
      "heap w1 (table ! unat main_qpid) = Some (O_qp q)" "heap w1 (qp_sq q) = Some (O_rdma_buff sq)"
      "is_device_address (buf_dma_addr sq) = 0" unfolding send_queue_def by auto
  let ?a = "buf_buffer sq + word_of_nat (64 * N)"
  let ?w2 = "emit (Mem_Store ?a e) (emit (Mem_Store ?a (replicate 64 0)) w1)"
  have "(ucast (word_of_nat N :: u32) :: u64) = word_of_nat N"
    using Suc.prems by (simp add: word_unat_eq_iff unsigned_ucast_eq unat_of_nat take_bit_nat_eq_self)
  then have run: "with_rn s (\<lambda>dev. create_a_wqe E dev main_qpid 0 (word_of_nat N) laddr len opc remote R_KEY 0 0 0 0 0) w1 =
      Some (Ret (), ?w2)"
    using rn w1(2) create_a_wqe_host_run [OF live] by (simp add: with_rn_def run_simps Let_def e_def element_def WQE_SIZE_def mult.commute)
  have mem: "m_host (replay m0 (hist ?w2)) = store_bytes (m_host (replay m0 (hist w1))) ?a e" for m0
    by (simp add: store_bytes_over e_def del: of_nat_mult)
  have "slot_bytes (m_host (replay m0 (hist ?w2))) (buf_buffer sq) k =
       (if k < Suc N then e else slot_bytes (m_host (replay m0 (hist w))) (buf_buffer sq) k)" if "k < 2 ^ 32" for m0 k
    unfolding mem using that Suc.prems w1(4) slot_store [of N k e "m_host (replay m0 (hist w1))" "buf_buffer sq"]
    by (auto simp: e_def less_Suc_eq simp del: of_nat_mult)
  then show ?case
    using run w1(1-3) by (intro exI [where x = ?w2]) (simp add: forM_append run_simps fun_eq_iff del: replay.simps)
qed

text \<open>
  C25: the batch of \<open>read_batch.c\<close> and \<open>write_batch.c\<close> on a queue in host memory is the same element in
  every slot: all requests have the local address of the start of the buffer and the remote
  address that the peer sent, so a batch moves its first payload over and over instead of the
  \<open>total_payload_size\<close> bytes that were allocated and checked for. Nothing bounds the number of slots
  by the depth of the queue.
\<close>

theorem batch_elements_identical:
  assumes "send_queue rdev main_qpid rd ws sq depth n w"
    and "heap w (s_rn_dev s) = Some (O_rn_dev d)" and "rn_rdma_dev d = rdev"
  shows "\<exists>w'. create_batch E o1 s b opcode remote_offset w = Some (Ret (), w') \<and>
    (\<forall>m0 k. k < 2 ^ 32 \<longrightarrow> slot_bytes (m_host (replay m0 (hist w'))) (buf_buffer sq) k =
       (if k < unat (opt_WQE_count o1)
        then wqe_bytes (make_wqe ws 0 (buf_dma_addr b) (opt_payload_size o1) opcode remote_offset R_KEY 0 0 0 0 0)
        else slot_bytes (m_host (replay m0 (hist w))) (buf_buffer sq) k))"
proof -
  have "unat (opt_WQE_count o1) \<le> 2 ^ 32" using unat_u32_less [of "opt_WQE_count o1"] by simp
  from batch_slots [OF assms this, of E "buf_dma_addr b" "opt_payload_size o1" opcode remote_offset]
  show ?thesis by (auto simp: create_batch_def element_def)
qed

theorem batch_elements_identical_witness:
  "\<exists>w'. create_batch idle_env ((initial_options Read_Batch)\<lparr>opt_WQE_count := 100\<rparr>) demo_session demo_sq RNIC_OP_READ 0x1000
     demo_network_world = Some (Ret (), w') \<and>
     slot_bytes (m_host (replay (\<lparr>m_host = \<lambda>_. 0, m_dev = \<lambda>_. 0, m_pos = \<lambda>_. 0\<rparr>) (hist w'))) 0x7f0000001000 99 =
       wqe_bytes (make_wqe \<lparr>win_size_lsb = 0xffffffff, win_size_msb = 0xff\<rparr> 0 0x12345679000 128 RNIC_OP_READ 0x1000 R_KEY 0 0 0 0 0)"
proof -
  have "heap demo_network_world (s_rn_dev demo_session) = Some (O_rn_dev (demo_rn\<lparr>rn_rdma_dev := 4\<rparr>))"
    by (simp add: demo_network_world_def demo_session_def)
  from batch_elements_identical [OF demo_network_queue this, where E = idle_env and b = demo_sq and opcode = RNIC_OP_READ and
      remote_offset = "0x1000" and ?o1.0 = "(initial_options Read_Batch)\<lparr>opt_WQE_count := 100\<rparr>"]
  obtain w' where run: "create_batch idle_env ((initial_options Read_Batch)\<lparr>opt_WQE_count := 100\<rparr>) demo_session demo_sq
      RNIC_OP_READ 0x1000 demo_network_world = Some (Ret (), w')"
    and slots: "\<forall>m0 k. k < 2 ^ 32 \<longrightarrow> slot_bytes (m_host (replay m0 (hist w'))) (buf_buffer demo_sq) k =
       (if k < unat (opt_WQE_count ((initial_options Read_Batch)\<lparr>opt_WQE_count := 100\<rparr>))
        then wqe_bytes (make_wqe \<lparr>win_size_lsb = 0xffffffff, win_size_msb = 0xff\<rparr> 0 (buf_dma_addr demo_sq)
          (opt_payload_size ((initial_options Read_Batch)\<lparr>opt_WQE_count := 100\<rparr>)) RNIC_OP_READ 0x1000 R_KEY 0 0 0 0 0)
        else slot_bytes (m_host (replay m0 (hist demo_network_world))) (buf_buffer demo_sq) k)" by auto
  from run slots [rule_format, of 99] show ?thesis by (auto simp: initial_options_def)
qed

end
