(* ===== verification/Queue_State.thy ===== *)
theory Queue_State
  imports Send_Queue Rdma_Teardown
begin

text \<open>
  The queue pairs of one RDMA device, as the library keeps them and as the registers show them:
  which slots of the table hold a live queue pair, and the invariant that ties the structures, the
  register file and the layout of the queues in host memory together. The lemmas say which changes
  of the state keep the invariant; \<open>Queue_Protocol\<close> applies them to the calls of the library.

  A destroyed queue pair leaves its structure in the table; it counts as gone because its send
  queue has been freed.
\<close>

subsection \<open>Live queue pairs\<close>

definition queue_of ::
    "rdma_dev_t \<Rightarrow> (ptr \<Rightarrow> obj option) \<Rightarrow> u32 \<Rightarrow> (ptr \<times> rdma_qp_t \<times> rdma_buff_t) option" where
  "queue_of rd h qpid = (case h (rd_qps_ptr rd) of
       Some (O_qp_table table) \<Rightarrow>
         if unat qpid < List.length table then
           (case h (table ! unat qpid) of
              Some (O_qp q) \<Rightarrow>
                (case h (qp_sq q) of
                   Some (O_rdma_buff sq) \<Rightarrow> Some (table ! unat qpid, q, sq)
                 | _ \<Rightarrow> None)
            | _ \<Rightarrow> None)
         else None
     | _ \<Rightarrow> None)"

lemma queue_of_iff:
  "queue_of rd h qpid = Some (qp, q, sq) \<longleftrightarrow>
     (\<exists>table. h (rd_qps_ptr rd) = Some (O_qp_table table) \<and> unat qpid < List.length table \<and>
        qp = table ! unat qpid \<and> h qp = Some (O_qp q) \<and> h (qp_sq q) = Some (O_rdma_buff sq))"
  by (auto simp: queue_of_def split: option.split obj.split)

lemma queue_ofD:
  assumes "queue_of rd h qpid = Some (qp, q, sq)"
  shows "h qp = Some (O_qp q)" "h (qp_sq q) = Some (O_rdma_buff sq)"
  using assms by (auto simp: queue_of_iff)

text \<open>A register of a queue, and the same for one that counts, which shows 0 until it is written.\<close>

definition reg_of :: "rdma_dev_t \<Rightarrow> u32 \<Rightarrow> u32 \<Rightarrow> event list \<Rightarrow> u32 option" where
  "reg_of rd r qpid h = reg32 h (rd_axil_ctl rd) (get_rdma_per_q_config_addr r qpid)"

definition counter_of :: "rdma_dev_t \<Rightarrow> u32 \<Rightarrow> u32 \<Rightarrow> event list \<Rightarrow> u32" where
  "counter_of rd r qpid h = (case reg_of rd r qpid h of None \<Rightarrow> 0 | Some v \<Rightarrow> v)"

lemma doorbell_counter: "doorbell rd qpid h = counter_of rd RN_RDMA_QCSR_SQPIi qpid h"
  by (simp add: doorbell_def counter_of_def reg_of_def reg32_def)

text \<open>The registers of a queue that repeat what its structure says.\<close>

definition state_regs :: "u32 list" where
  "state_regs = [RN_RDMA_QCSR_SQPIi, RN_RDMA_QCSR_RQCIi, RN_RDMA_QCSR_QDEPTHi,
     RN_RDMA_QCSR_SQBAi, RN_RDMA_QCSR_SQBAMSBi, RN_RDMA_QCSR_CQBAi, RN_RDMA_QCSR_CQBAMSBi,
     RN_RDMA_QCSR_RQBAi, RN_RDMA_QCSR_RQBAMSBi]"

lemma state_regs_QCSR: "set state_regs \<subseteq> set QCSR_REGS"
  by (simp add: state_regs_def QCSR_REGS_def)

definition valid_qpid :: "u32 \<Rightarrow> bool" where
  "valid_qpid qpid \<longleftrightarrow> qpid - 1 < 256"

lemma reg_of_inject:
  assumes "r \<in> set QCSR_REGS" and "r' \<in> set QCSR_REGS" and "valid_qpid i" and "valid_qpid j"
  shows "rd_axil_ctl rd + ucast (get_rdma_per_q_config_addr r i) =
      rd_axil_ctl rd + ucast (get_rdma_per_q_config_addr r' j) \<longleftrightarrow> r = r' \<and> i = j"
proof -
  have "unat (i - 1) < 256" "unat (j - 1) < 256"
    using assms(3,4) by (simp_all add: valid_qpid_def word_less_nat_alt)
  from queue_bank.addr_inject [OF assms(1) this(1) assms(2) this(2)] show ?thesis by simp
qed

subsection \<open>The invariant\<close>

text \<open>What all calls rely on: the device structures are there.\<close>

definition lib_state :: "ptr \<Rightarrow> rdma_dev_t \<Rightarrow> win_size_t \<Rightarrow> world \<Rightarrow> bool" where
  "lib_state rdev rd ws w \<longleftrightarrow> world_ok w \<and> rdev \<noteq> NULL \<and> heap w rdev = Some (O_rdma_dev rd) \<and>
     heap w (rd_winSize rd) = Some (O_win_size ws) \<and>
     (\<exists>d bb. heap w (rd_rn_dev rd) = Some (O_rn_dev d) \<and> heap w (rn_base_buf d) = Some (O_rdma_buff bb)) \<and>
     (\<exists>table. heap w (rd_qps_ptr rd) = Some (O_qp_table table))"

text \<open>
  The structures: a live queue pair is in the slot of its number, belongs to the device and owns
  live objects that no other live queue pair owns and that are not the device's huge pages.
  References in the table are old, so an allocation cannot bring a destroyed queue pair back.
\<close>

definition queue_ok :: "ptr \<Rightarrow> world \<Rightarrow> u32 \<Rightarrow> rdma_qp_t \<Rightarrow> bool" where
  "queue_ok rdev w qpid q \<longleftrightarrow> valid_qpid qpid \<and> qp_qpid q = qpid \<and> qp_rdma_dev q = rdev \<and>
     distinct [qp_sq q, qp_rq q, qp_cq q] \<and>
     (\<exists>b. heap w (qp_rq q) = Some (O_rdma_buff b)) \<and> (\<exists>b. heap w (qp_cq q) = Some (O_rdma_buff b)) \<and>
     (\<exists>pd. heap w (qp_pd_entry q) = Some (O_pd pd))"

definition queues_ok :: "ptr \<Rightarrow> rdma_dev_t \<Rightarrow> world \<Rightarrow> bool" where
  "queues_ok rdev rd w \<longleftrightarrow>
     (\<forall>i qp q sq. queue_of rd (heap w) i = Some (qp, q, sq) \<longrightarrow> queue_ok rdev w i q) \<and>
     (\<forall>i qp q sq j qp' q' sq'. queue_of rd (heap w) i = Some (qp, q, sq) \<longrightarrow>
        queue_of rd (heap w) j = Some (qp', q', sq') \<longrightarrow> i \<noteq> j \<longrightarrow> set (owned q) \<inter> set (owned q') = {}) \<and>
     (\<forall>i qp q sq d. queue_of rd (heap w) i = Some (qp, q, sq) \<longrightarrow>
        heap w (rd_rn_dev rd) = Some (O_rn_dev d) \<longrightarrow> rn_base_buf d \<notin> set (owned q)) \<and>
     (\<forall>table. heap w (rd_qps_ptr rd) = Some (O_qp_table table) \<longrightarrow> (\<forall>p \<in> set table.
        p < next_ptr w \<and> (\<forall>q. heap w p = Some (O_qp q) \<longrightarrow> qp_sq q < next_ptr w)))"

text \<open>The registers: counters, depth and buffers of a live queue; the counters of a free slot are 0.\<close>

definition base_agrees :: "rdma_dev_t \<Rightarrow> win_size_t \<Rightarrow> world \<Rightarrow> u32 \<Rightarrow> u32 \<Rightarrow> u32 \<Rightarrow> ptr \<Rightarrow> bool" where
  "base_agrees rd ws w qpid msb lsb p \<longleftrightarrow> (\<exists>b. heap w p = Some (O_rdma_buff b) \<and>
     reg64 (hist w) (rd_axil_ctl rd) (get_rdma_per_q_config_addr msb qpid) (get_rdma_per_q_config_addr lsb qpid) =
       Some (engine_address ws (buf_dma_addr b)))"

definition registers_agree :: "rdma_dev_t \<Rightarrow> win_size_t \<Rightarrow> world \<Rightarrow> u32 \<Rightarrow> bool" where
  "registers_agree rd ws w qpid \<longleftrightarrow> (case queue_of rd (heap w) qpid of
       None \<Rightarrow> counter_of rd RN_RDMA_QCSR_SQPIi qpid (hist w) = 0 \<and> counter_of rd RN_RDMA_QCSR_RQCIi qpid (hist w) = 0
     | Some (qp, q, sq) \<Rightarrow>
         counter_of rd RN_RDMA_QCSR_SQPIi qpid (hist w) = qp_sq_pidb q \<and>
         counter_of rd RN_RDMA_QCSR_RQCIi qpid (hist w) = qp_rq_cidb q \<and>
         reg_of rd RN_RDMA_QCSR_QDEPTHi qpid (hist w) = Some (qp_qdepth q OR push_bit 16 (qp_qdepth q)) \<and>
         base_agrees rd ws w qpid RN_RDMA_QCSR_SQBAMSBi RN_RDMA_QCSR_SQBAi (qp_sq q) \<and>
         base_agrees rd ws w qpid RN_RDMA_QCSR_CQBAMSBi RN_RDMA_QCSR_CQBAi (qp_cq q) \<and>
         base_agrees rd ws w qpid RN_RDMA_QCSR_RQBAMSBi RN_RDMA_QCSR_RQBAi (qp_rq q))"

text \<open>
  The layout: the send queues are in host memory, below the mark of the allocator, and do not
  overlap; a queue never has more elements posted than it has slots.
\<close>

definition sq_bytes :: "rdma_qp_t \<Rightarrow> rdma_buff_t \<Rightarrow> nat \<times> nat" where
  "sq_bytes q sq = (unat (buf_buffer sq), unat (buf_buffer sq) + 64 * unat (qp_qdepth q))"

definition layout_ok :: "rdma_dev_t \<Rightarrow> world \<Rightarrow> bool" where
  "layout_ok rd w \<longleftrightarrow> host_mark (rd_rn_dev rd) w < 2 ^ 64 \<and>
     (\<forall>i qp q sq. queue_of rd (heap w) i = Some (qp, q, sq) \<longrightarrow>
        is_device_address (buf_dma_addr sq) = 0 \<and> snd (sq_bytes q sq) \<le> host_mark (rd_rn_dev rd) w \<and>
        unat (qp_sq_pidb q) \<le> unat (qp_qdepth q)) \<and>
     (\<forall>i qp q sq j qp' q' sq'. queue_of rd (heap w) i = Some (qp, q, sq) \<longrightarrow>
        queue_of rd (heap w) j = Some (qp', q', sq') \<longrightarrow> i \<noteq> j \<longrightarrow>
        snd (sq_bytes q sq) \<le> fst (sq_bytes q' sq') \<or> snd (sq_bytes q' sq') \<le> fst (sq_bytes q sq))"

definition coherent :: "ptr \<Rightarrow> rdma_dev_t \<Rightarrow> win_size_t \<Rightarrow> world \<Rightarrow> bool" where
  "coherent rdev rd ws w \<longleftrightarrow> lib_state rdev rd ws w \<and> queues_ok rdev rd w \<and>
     (\<forall>qpid. valid_qpid qpid \<longrightarrow> registers_agree rd ws w qpid) \<and> layout_ok rd w"

subsection \<open>Changes that no queue notices\<close>

text \<open>
  Old objects stay, up to the allocation marks of the device and the contents of protection
  domains; the mark of the host allocator only advances.
\<close>

definition heap_frame :: "rdma_dev_t \<Rightarrow> world \<Rightarrow> world \<Rightarrow> bool" where
  "heap_frame rd w w' \<longleftrightarrow> world_ok w' \<and> next_ptr w \<le> next_ptr w' \<and>
     host_mark (rd_rn_dev rd) w \<le> host_mark (rd_rn_dev rd) w' \<and> host_mark (rd_rn_dev rd) w' < 2 ^ 64 \<and>
     (\<forall>p < next_ptr w. heap w' p = heap w p \<or>
        (\<exists>d d'. heap w p = Some (O_rn_dev d) \<and> heap w' p = Some (O_rn_dev d') \<and> rn_base_buf d' = rn_base_buf d) \<or>
        (\<exists>x y. heap w p = Some (O_pd x) \<and> heap w' p = Some (O_pd y)))"

lemma heap_frame_old:
  assumes "heap_frame rd w w'" and "p < next_ptr w"
  shows "heap w' p = heap w p \<or>
    (\<exists>d d'. heap w p = Some (O_rn_dev d) \<and> heap w' p = Some (O_rn_dev d') \<and> rn_base_buf d' = rn_base_buf d) \<or>
    (\<exists>x y. heap w p = Some (O_pd x) \<and> heap w' p = Some (O_pd y))"
  using assms by (simp add: heap_frame_def)

lemma heap_frame_live:
  assumes "heap_frame rd w w'" and "world_ok w" and "heap w p = Some ob"
  shows "heap w' p = Some ob \<or>
    (\<exists>d d'. ob = O_rn_dev d \<and> heap w' p = Some (O_rn_dev d') \<and> rn_base_buf d' = rn_base_buf d) \<or>
    (\<exists>x y. ob = O_pd x \<and> heap w' p = Some (O_pd y))"
proof -
  have "p < next_ptr w" using assms(2,3) by (simp add: world_ok_def)
  from heap_frame_old [OF assms(1) this] assms(3) show ?thesis by auto
qed

lemma heap_frame_queue_of:
  assumes f: "heap_frame rd w w'" and l: "lib_state rdev rd ws w" and q: "queues_ok rdev rd w"
  shows "queue_of rd (heap w') i = queue_of rd (heap w) i"
proof -
  from l obtain table where ok: "world_ok w" and t: "heap w (rd_qps_ptr rd) = Some (O_qp_table table)"
    by (auto simp: lib_state_def)
  from heap_frame_live [OF f ok t] have t': "heap w' (rd_qps_ptr rd) = Some (O_qp_table table)" by auto
  show ?thesis
  proof (cases "unat i < List.length table")
    case True
    let ?p = "table ! unat i"
    have "?p \<in> set table" using True by simp
    with q t have old: "?p < next_ptr w" "\<And>q. heap w ?p = Some (O_qp q) \<Longrightarrow> qp_sq q < next_ptr w"
      by (auto simp: queues_ok_def)
    show ?thesis
    proof (cases "\<exists>q. heap w ?p = Some (O_qp q)")
      case True
      then obtain q where q: "heap w ?p = Some (O_qp q)" by blast
      from heap_frame_live [OF f ok q] have "heap w' ?p = Some (O_qp q)" by auto
      moreover from heap_frame_old [OF f old(2) [OF q]]
      have "(case heap w' (qp_sq q) of Some (O_rdma_buff sq) \<Rightarrow> Some (?p, q, sq) | _ \<Rightarrow> None) =
        (case heap w (qp_sq q) of Some (O_rdma_buff sq) \<Rightarrow> Some (?p, q, sq) | _ \<Rightarrow> None)" by auto
      ultimately show ?thesis using t t' q \<open>unat i < List.length table\<close> by (simp add: queue_of_def)
    next
      case False
      with heap_frame_old [OF f old(1)] have "\<not> (\<exists>q. heap w' ?p = Some (O_qp q))" by auto
      with False have "queue_of rd (heap w') i \<noteq> Some x" "queue_of rd (heap w) i \<noteq> Some x" for x
        using t t' by (cases x; auto simp: queue_of_iff)+
      then show ?thesis by (metis option.exhaust)
    qed
  qed (simp add: queue_of_def t t')
qed

text \<open>The registers that repeat the structures are not written.\<close>

definition regs_frame :: "rdma_dev_t \<Rightarrow> world \<Rightarrow> world \<Rightarrow> bool" where
  "regs_frame rd w w' \<longleftrightarrow> (\<forall>i. valid_qpid i \<longrightarrow> (\<forall>r \<in> set state_regs. reg_of rd r i (hist w') = reg_of rd r i (hist w)))"

lemma same_regs_frame: "same_regs w w' \<Longrightarrow> regs_frame rd w w'"
  by (simp add: same_regs_def regs_frame_def reg_of_def reg32_def)

lemma base_agrees_keep:
  assumes "base_agrees rd ws w i msb lsb p" and "\<And>b. heap w p = Some (O_rdma_buff b) \<Longrightarrow> heap w' p = Some (O_rdma_buff b)"
    and "reg_of rd msb i (hist w') = reg_of rd msb i (hist w)" and "reg_of rd lsb i (hist w') = reg_of rd lsb i (hist w)"
  shows "base_agrees rd ws w' i msb lsb p"
  using assms by (auto simp: base_agrees_def reg64_eq reg_of_def)

text \<open>A queue whose static part stays agrees again, once its two counters do.\<close>

lemma registers_agree_keep:
  assumes "queue_of rd (heap w) i = Some (qp, q, sq)" and "registers_agree rd ws w i"
    and "queue_of rd (heap w') i = Some (qp, q', sq)"
    and "qp_qdepth q' = qp_qdepth q" "qp_sq q' = qp_sq q" "qp_cq q' = qp_cq q" "qp_rq q' = qp_rq q"
    and "\<And>p b. heap w p = Some (O_rdma_buff b) \<Longrightarrow> heap w' p = Some (O_rdma_buff b)"
    and "\<And>r. r \<in> set state_regs \<Longrightarrow> r \<noteq> RN_RDMA_QCSR_SQPIi \<Longrightarrow> r \<noteq> RN_RDMA_QCSR_RQCIi \<Longrightarrow>
      reg_of rd r i (hist w') = reg_of rd r i (hist w)"
    and "counter_of rd RN_RDMA_QCSR_SQPIi i (hist w') = qp_sq_pidb q'"
    and "counter_of rd RN_RDMA_QCSR_RQCIi i (hist w') = qp_rq_cidb q'"
  shows "registers_agree rd ws w' i"
proof -
  have same: "reg_of rd r i (hist w') = reg_of rd r i (hist w)"
    if "r \<in> {RN_RDMA_QCSR_QDEPTHi, RN_RDMA_QCSR_SQBAi, RN_RDMA_QCSR_SQBAMSBi, RN_RDMA_QCSR_CQBAi,
      RN_RDMA_QCSR_CQBAMSBi, RN_RDMA_QCSR_RQBAi, RN_RDMA_QCSR_RQBAMSBi}" for r
    using that by (intro assms(9)) (auto simp: state_regs_def reg_defs)
  have base: "base_agrees rd ws w' i msb lsb p" if "base_agrees rd ws w i msb lsb p"
    "(msb, lsb) \<in> {(RN_RDMA_QCSR_SQBAMSBi, RN_RDMA_QCSR_SQBAi), (RN_RDMA_QCSR_CQBAMSBi, RN_RDMA_QCSR_CQBAi),
      (RN_RDMA_QCSR_RQBAMSBi, RN_RDMA_QCSR_RQBAi)}" for msb lsb p
    using that by (intro base_agrees_keep [OF that(1) assms(8)] same) auto
  show ?thesis
    using assms(2-7,10,11) same base by (simp add: registers_agree_def assms(1))
qed

lemma registers_agree_frame:
  assumes "registers_agree rd ws w i" and "queue_of rd (heap w') i = queue_of rd (heap w) i"
    and "\<And>p b. heap w p = Some (O_rdma_buff b) \<Longrightarrow> heap w' p = Some (O_rdma_buff b)"
    and "\<And>r. r \<in> set state_regs \<Longrightarrow> reg_of rd r i (hist w') = reg_of rd r i (hist w)"
  shows "registers_agree rd ws w' i"
proof -
  have counters: "counter_of rd r i (hist w') = counter_of rd r i (hist w)"
    if "r \<in> {RN_RDMA_QCSR_SQPIi, RN_RDMA_QCSR_RQCIi}" for r
    using assms(4) [of r] that by (auto simp: counter_of_def state_regs_def)
  show ?thesis
  proof (cases "queue_of rd (heap w) i")
    case None
    with assms(1,2) counters show ?thesis by (simp add: registers_agree_def)
  next
    case (Some x)
    obtain qp q sq where q: "queue_of rd (heap w) i = Some (qp, q, sq)" using Some by (cases x) auto
    show ?thesis
      by (rule registers_agree_keep [OF q assms(1)])
        (use assms q counters in \<open>simp_all add: registers_agree_def\<close>)
  qed
qed

lemma queues_okD:
  assumes "queues_ok rdev rd w"
  shows "queue_of rd (heap w) i = Some (qp, q, sq) \<Longrightarrow> queue_ok rdev w i q"
    and "queue_of rd (heap w) i = Some (qp, q, sq) \<Longrightarrow> queue_of rd (heap w) j = Some (qp', q', sq') \<Longrightarrow>
      i \<noteq> j \<Longrightarrow> set (owned q) \<inter> set (owned q') = {}"
    and "queue_of rd (heap w) i = Some (qp, q, sq) \<Longrightarrow> heap w (rd_rn_dev rd) = Some (O_rn_dev d) \<Longrightarrow>
      rn_base_buf d \<notin> set (owned q)"
    and "heap w (rd_qps_ptr rd) = Some (O_qp_table table) \<Longrightarrow> p \<in> set table \<Longrightarrow>
      p < next_ptr w \<and> (\<forall>q. heap w p = Some (O_qp q) \<longrightarrow> qp_sq q < next_ptr w)"
  using assms unfolding queues_ok_def by blast+

lemma queues_okI:
  assumes "\<And>i qp q sq. queue_of rd (heap w) i = Some (qp, q, sq) \<Longrightarrow> queue_ok rdev w i q"
    and "\<And>i qp q sq j qp' q' sq'. queue_of rd (heap w) i = Some (qp, q, sq) \<Longrightarrow>
      queue_of rd (heap w) j = Some (qp', q', sq') \<Longrightarrow> i \<noteq> j \<Longrightarrow> set (owned q) \<inter> set (owned q') = {}"
    and "\<And>i qp q sq d. queue_of rd (heap w) i = Some (qp, q, sq) \<Longrightarrow> heap w (rd_rn_dev rd) = Some (O_rn_dev d) \<Longrightarrow>
      rn_base_buf d \<notin> set (owned q)"
    and "\<And>table p. heap w (rd_qps_ptr rd) = Some (O_qp_table table) \<Longrightarrow> p \<in> set table \<Longrightarrow>
      p < next_ptr w \<and> (\<forall>q. heap w p = Some (O_qp q) \<longrightarrow> qp_sq q < next_ptr w)"
  shows "queues_ok rdev rd w"
  unfolding queues_ok_def
  by (intro conjI) (use assms(1) in blast, use assms(2) in blast, use assms(3) in blast, use assms(4) in blast)

lemma layout_okD:
  assumes "layout_ok rd w"
  shows "host_mark (rd_rn_dev rd) w < 2 ^ 64"
    and "queue_of rd (heap w) i = Some (qp, q, sq) \<Longrightarrow> is_device_address (buf_dma_addr sq) = 0 \<and>
      snd (sq_bytes q sq) \<le> host_mark (rd_rn_dev rd) w \<and> unat (qp_sq_pidb q) \<le> unat (qp_qdepth q)"
    and "queue_of rd (heap w) i = Some (qp, q, sq) \<Longrightarrow> queue_of rd (heap w) j = Some (qp', q', sq') \<Longrightarrow>
      i \<noteq> j \<Longrightarrow> snd (sq_bytes q sq) \<le> fst (sq_bytes q' sq') \<or> snd (sq_bytes q' sq') \<le> fst (sq_bytes q sq)"
  using assms unfolding layout_ok_def by blast+

lemma layout_okI:
  assumes "host_mark (rd_rn_dev rd) w < 2 ^ 64"
    and "\<And>i qp q sq. queue_of rd (heap w) i = Some (qp, q, sq) \<Longrightarrow> is_device_address (buf_dma_addr sq) = 0 \<and>
      snd (sq_bytes q sq) \<le> host_mark (rd_rn_dev rd) w \<and> unat (qp_sq_pidb q) \<le> unat (qp_qdepth q)"
    and "\<And>i qp q sq j qp' q' sq'. queue_of rd (heap w) i = Some (qp, q, sq) \<Longrightarrow>
      queue_of rd (heap w) j = Some (qp', q', sq') \<Longrightarrow> i \<noteq> j \<Longrightarrow>
      snd (sq_bytes q sq) \<le> fst (sq_bytes q' sq') \<or> snd (sq_bytes q' sq') \<le> fst (sq_bytes q sq)"
  shows "layout_ok rd w"
  unfolding layout_ok_def
  by (intro conjI) (rule assms(1), use assms(2) in blast, use assms(3) in blast)

lemma option_eqI: "(\<And>x. a = Some x \<longleftrightarrow> b = Some x) \<Longrightarrow> a = b"
  by (cases a; cases b) auto

lemma coherent_frame:
  assumes c: "coherent rdev rd ws w" and f: "heap_frame rd w w'" and r: "regs_frame rd w w'"
  shows "coherent rdev rd ws w' \<and> (\<forall>i. queue_of rd (heap w') i = queue_of rd (heap w) i)"
proof -
  from c have l: "lib_state rdev rd ws w" and q: "queues_ok rdev rd w" and y: "layout_ok rd w"
    and g: "\<And>i. valid_qpid i \<Longrightarrow> registers_agree rd ws w i" by (auto simp: coherent_def)
  from l have ok: "world_ok w" by (simp add: lib_state_def)
  note live = heap_frame_live [OF f ok] and same [simp] = heap_frame_queue_of [OF f l q]
  have buff: "heap w' p = Some (O_rdma_buff b)" if "heap w p = Some (O_rdma_buff b)" for p b
    using live [OF that] by auto
  from l obtain d bb table where o: "heap w rdev = Some (O_rdma_dev rd)" "heap w (rd_winSize rd) = Some (O_win_size ws)"
      "heap w (rd_rn_dev rd) = Some (O_rn_dev d)" "heap w (rn_base_buf d) = Some (O_rdma_buff bb)"
      "heap w (rd_qps_ptr rd) = Some (O_qp_table table)"
    by (auto simp: lib_state_def)
  from live [OF o(3)] obtain d' where d': "heap w' (rd_rn_dev rd) = Some (O_rn_dev d')" "rn_base_buf d' = rn_base_buf d"
    by auto
  have "lib_state rdev rd ws w'"
    using live [OF o(1)] live [OF o(2)] live [OF o(5)] buff [OF o(4)] d' f l
    by (auto simp: lib_state_def heap_frame_def)
  moreover have "queues_ok rdev rd w'"
  proof -
    have "queue_ok rdev w' i u" if "queue_ok rdev w i u" for i u
    proof -
      from that obtain a b pd where "heap w (qp_rq u) = Some (O_rdma_buff a)" "heap w (qp_cq u) = Some (O_rdma_buff b)"
        "heap w (qp_pd_entry u) = Some (O_pd pd)" by (auto simp: queue_ok_def)
      with buff [OF this(1)] buff [OF this(2)] live [OF this(3)] that show ?thesis by (auto simp: queue_ok_def)
    qed
    moreover have "p < next_ptr w' \<and> (\<forall>q. heap w' p = Some (O_qp q) \<longrightarrow> qp_sq q < next_ptr w')"
      if "heap w' (rd_qps_ptr rd) = Some (O_qp_table t)" "p \<in> set t" for t p
    proof -
      have "t = table" using that(1) live [OF o(5)] by auto
      with q o(5) that(2) have "p < next_ptr w" "\<And>q. heap w p = Some (O_qp q) \<Longrightarrow> qp_sq q < next_ptr w"
        by (auto simp: queues_ok_def)
      with heap_frame_old [OF f this(1)] f show ?thesis by (auto simp: heap_frame_def)
    qed
    moreover have "rn_base_buf e \<notin> set (owned u)"
      if "queue_of rd (heap w) i = Some (p, u, s)" "heap w' (rd_rn_dev rd) = Some (O_rn_dev e)" for i p u s e
      using queues_okD(3) [OF q that(1) o(3)] d' that(2) by simp
    ultimately show ?thesis
      using queues_okD(1,2) [OF q] by (intro queues_okI) simp_all
  qed
  moreover have "registers_agree rd ws w' i" if "valid_qpid i" for i
    using registers_agree_frame [OF g [OF that] same buff] r that by (simp add: regs_frame_def)
  moreover have "layout_ok rd w'"
  proof (rule layout_okI)
    have marks: "host_mark (rd_rn_dev rd) w \<le> host_mark (rd_rn_dev rd) w'" "host_mark (rd_rn_dev rd) w' < 2 ^ 64"
      using f by (simp_all add: heap_frame_def)
    show "host_mark (rd_rn_dev rd) w' < 2 ^ 64" by (rule marks(2))
    fix i qp q sq
    assume "queue_of rd (heap w') i = Some (qp, q, sq)"
    then have "queue_of rd (heap w) i = Some (qp, q, sq)" by simp
    from layout_okD(2) [OF y this] marks(1)
    show "is_device_address (buf_dma_addr sq) = 0 \<and> snd (sq_bytes q sq) \<le> host_mark (rd_rn_dev rd) w' \<and>
      unat (qp_sq_pidb q) \<le> unat (qp_qdepth q)" by simp
  qed (use layout_okD(3) [OF y] in simp)
  ultimately show ?thesis by (simp add: coherent_def)
qed

subsection \<open>Changes of one queue pair\<close>

text \<open>A new structure for queue \<open>i\<close> that keeps what the queue owns and its depth.\<close>

definition same_queue :: "rdma_qp_t \<Rightarrow> rdma_qp_t \<Rightarrow> bool" where
  "same_queue q q' \<longleftrightarrow> qp_qpid q' = qp_qpid q \<and> qp_rdma_dev q' = qp_rdma_dev q \<and> qp_qdepth q' = qp_qdepth q \<and>
     qp_sq q' = qp_sq q \<and> qp_cq q' = qp_cq q \<and> qp_rq q' = qp_rq q \<and> qp_pd_entry q' = qp_pd_entry q"

lemma queue_of_update:
  assumes q: "queues_ok rdev rd w" and i: "queue_of rd (heap w) i = Some (qp, q, sq)"
    and h: "heap w' = (heap w)(qp \<mapsto> O_qp q')" and s: "same_queue q q'"
  shows "queue_of rd (heap w') j = (if j = i then Some (qp, q', sq) else queue_of rd (heap w) j)"
proof -
  from i obtain table where t: "heap w (rd_qps_ptr rd) = Some (O_qp_table table)" "unat i < List.length table"
      "qp = table ! unat i" "heap w qp = Some (O_qp q)" "heap w (qp_sq q) = Some (O_rdma_buff sq)"
    by (auto simp: queue_of_iff)
  then have ne: "rd_qps_ptr rd \<noteq> qp" "qp_sq q \<noteq> qp" by auto
  show ?thesis
  proof (cases "j = i")
    case True
    with t ne s show ?thesis by (simp add: queue_of_def h same_queue_def)
  next
    case False
    show ?thesis
    proof (cases "unat j < List.length table \<and> table ! unat j = qp")
      case True
      then have "queue_of rd (heap w) j = Some (qp, q, sq)" using t by (auto simp: queue_of_iff)
      with i q have "qp_qpid q = j" "qp_qpid q = i" by (auto simp: queues_ok_def queue_ok_def)
      with False show ?thesis by simp
    next
      case other: False
      have "queue_of rd (heap w') j = Some x \<longleftrightarrow> queue_of rd (heap w) j = Some x" for x
        using other t ne(1) by (cases x) (auto simp: queue_of_iff h split: if_splits)
      then have "queue_of rd (heap w') j = queue_of rd (heap w) j" by (rule option_eqI)
      with False show ?thesis by simp
    qed
  qed
qed

lemma coherent_update:
  assumes c: "coherent rdev rd ws w" and i: "queue_of rd (heap w) i = Some (qp, q, sq)"
    and w': "world_ok w'" "next_ptr w \<le> next_ptr w'" and h: "heap w' = (heap w)(qp \<mapsto> O_qp q')"
    and s: "same_queue q q'" and room: "unat (qp_sq_pidb q') \<le> unat (qp_qdepth q)"
    and other: "\<And>j r. valid_qpid j \<Longrightarrow> j \<noteq> i \<Longrightarrow> r \<in> set state_regs \<Longrightarrow> reg_of rd r j (hist w') = reg_of rd r j (hist w)"
    and own: "\<And>r. r \<in> set state_regs \<Longrightarrow> r \<noteq> RN_RDMA_QCSR_SQPIi \<Longrightarrow> r \<noteq> RN_RDMA_QCSR_RQCIi \<Longrightarrow>
      reg_of rd r i (hist w') = reg_of rd r i (hist w)"
    and sqpi: "counter_of rd RN_RDMA_QCSR_SQPIi i (hist w') = qp_sq_pidb q'"
    and rqci: "counter_of rd RN_RDMA_QCSR_RQCIi i (hist w') = qp_rq_cidb q'"
  shows "coherent rdev rd ws w' \<and>
    (\<forall>j. queue_of rd (heap w') j = (if j = i then Some (qp, q', sq) else queue_of rd (heap w) j))"
proof -
  from c have l: "lib_state rdev rd ws w" and Q: "queues_ok rdev rd w" and y: "layout_ok rd w"
    and g: "\<And>i. valid_qpid i \<Longrightarrow> registers_agree rd ws w i" by (auto simp: coherent_def)
  note upd = queue_of_update [OF Q i h s]
  have qp: "heap w qp = Some (O_qp q)" using i by (rule queue_ofD)
  have kept: "heap w' p = heap w p" if "\<not> (\<exists>u. heap w p = Some (O_qp u))" for p
    using that qp by (auto simp: h)
  have own_s: "owned q' = owned q" "sq_bytes q' sq = sq_bytes q sq"
    using s by (simp_all add: owned_def same_queue_def sq_bytes_def)
  have mark: "host_mark (rd_rn_dev rd) w' = host_mark (rd_rn_dev rd) w"
    using l kept by (auto simp: host_mark_def lib_state_def)
  from l have "lib_state rdev rd ws w'"
    unfolding lib_state_def using w'(1) kept by fastforce
  moreover have "queues_ok rdev rd w'"
  proof (rule queues_okI)
    have ok: "queue_ok rdev w' j u" if "queue_ok rdev w j u" for j u
      using that kept by (auto simp: queue_ok_def)
    have ok': "queue_ok rdev w' i q'"
      using ok [OF queues_okD(1) [OF Q i]] s by (simp add: queue_ok_def same_queue_def)
    show "queue_ok rdev w' j u" if "queue_of rd (heap w') j = Some (p, u, b)" for j p u b
      using that ok' ok [OF queues_okD(1) [OF Q]] by (auto simp: upd split: if_splits)
    show "set (owned u) \<inter> set (owned u') = {}"
      if "queue_of rd (heap w') j = Some (p, u, b)" "queue_of rd (heap w') k = Some (p', u', b')" "j \<noteq> k"
      for j p u b k p' u' b'
      using that queues_okD(2) [OF Q] i own_s by (auto simp: upd split: if_splits)
    show "rn_base_buf d \<notin> set (owned u)"
      if "queue_of rd (heap w') j = Some (p, u, b)" "heap w' (rd_rn_dev rd) = Some (O_rn_dev d)" for j p u b d
    proof -
      have "heap w (rd_rn_dev rd) = Some (O_rn_dev d)" using that(2) qp by (auto simp: h split: if_splits)
      from queues_okD(3) [OF Q _ this] that(1) i own_s show ?thesis by (auto simp: upd split: if_splits)
    qed
    show "p < next_ptr w' \<and> (\<forall>q. heap w' p = Some (O_qp q) \<longrightarrow> qp_sq q < next_ptr w')"
      if "heap w' (rd_qps_ptr rd) = Some (O_qp_table t)" "p \<in> set t" for t p
    proof -
      have "heap w (rd_qps_ptr rd) = Some (O_qp_table t)" using that(1) qp by (auto simp: h split: if_splits)
      from queues_okD(4) [OF Q this that(2)] w'(2) s qp show ?thesis
        by (auto simp: h same_queue_def)
    qed
  qed
  moreover have "registers_agree rd ws w' j" if "valid_qpid j" for j
  proof (cases "j = i")
    case True
    have "registers_agree rd ws w' i"
      by (rule registers_agree_keep [OF i])
        (use g that True s own in \<open>simp_all add: upd same_queue_def kept sqpi rqci\<close>)
    with True show ?thesis by simp
  next
    case False
    show ?thesis
      by (rule registers_agree_frame [OF g [OF that]]) (use other that False in \<open>simp_all add: upd kept\<close>)
  qed
  moreover have "layout_ok rd w'"
  proof (rule layout_okI)
    show "host_mark (rd_rn_dev rd) w' < 2 ^ 64" using layout_okD(1) [OF y] by (simp add: mark)
    show "is_device_address (buf_dma_addr b) = 0 \<and> snd (sq_bytes u b) \<le> host_mark (rd_rn_dev rd) w' \<and>
        unat (qp_sq_pidb u) \<le> unat (qp_qdepth u)" if "queue_of rd (heap w') j = Some (p, u, b)" for j p u b
      using that layout_okD(2) [OF y] i own_s room s by (auto simp: upd mark same_queue_def split: if_splits)
    show "snd (sq_bytes u b) \<le> fst (sq_bytes u' b') \<or> snd (sq_bytes u' b') \<le> fst (sq_bytes u b)"
      if "queue_of rd (heap w') j = Some (p, u, b)" "queue_of rd (heap w') k = Some (p', u', b')" "j \<noteq> k"
      for j p u b k p' u' b'
      using that layout_okD(3) [OF y] i own_s by (auto simp: upd split: if_splits)
  qed
  ultimately show ?thesis using upd by (simp add: coherent_def)
qed

end
