(* ===== verification/Queue_Alloc.thy ===== *)
theory Queue_Alloc
  imports Queue_State
begin

text \<open>
  Where \<open>allocate_rdma_qp\<close> puts the buffers of a queue pair in host memory: the send queue lies
  between the allocator's marks before and after the call.
\<close>

subsection \<open>The buffers of a new queue pair\<close>

lemma host_mark_eq:
  "heap w rn = Some (O_rn_dev d) \<Longrightarrow> heap w (rn_base_buf d) = Some (O_rdma_buff b) \<Longrightarrow>
   host_mark rn w = unat (buf_buffer b) + unat (rn_buffer_offset d)"
  by (simp add: host_mark_def)

text \<open>
  A kernel whose physical addresses never look like addresses of device memory, as the code
  supposes when it tells the two apart by their top bits.
\<close>

definition kernel_ram :: "env \<Rightarrow> bool" where
  "kernel_ram E \<longleftrightarrow> (\<forall>a w p w'. get_buffer_paddr E a w = Some (Ret p, w') \<longrightarrow> is_device_address p = 0)"

lemma allocate_host_region:
  assumes ram: "kernel_ram E" and ok: "world_ok w" and rn: "heap w rn = Some (O_rn_dev d)"
    and base: "heap w (rn_base_buf d) = Some (O_rdma_buff b)"
    and run: "allocate_rdma_buffer E rn n HOST_MEM w = Some (Ret p, w')"
    and fits: "host_mark rn w + unat n + 4096 < 2 ^ 64"
  shows "\<exists>b'. heap w' p = Some (O_rdma_buff b') \<and> host_mark rn w \<le> unat (buf_buffer b') \<and>
    unat (buf_buffer b') + unat n \<le> host_mark rn w' \<and> is_device_address (buf_dma_addr b') = 0 \<and>
    host_mark rn w' \<le> host_mark rn w + unat n + 4096"
proof -
  let ?off = "place_buffer (rn_buffer_offset d) n"
  have mark: "host_mark rn w = unat (buf_buffer b) + unat (rn_buffer_offset d)" by (rule host_mark_eq [OF rn base])
  have spec: "unat (rn_buffer_offset d) \<le> unat ?off" "unat ?off < unat (rn_buffer_offset d) + 4096"
    using place_buffer_spec [of "rn_buffer_offset d" n] fits mark by auto
  from allocate_host_effect [OF ok rn base run] obtain dma w1 w2 where p: "p = next_ptr w" and
    dma: "get_buffer_paddr E (buf_buffer b + ?off) w1 = Some (Ret dma, w2)" and
    heap: "heap w' = (heap w)(rn \<mapsto> O_rn_dev (d\<lparr>rn_buffer_offset := ?off + n\<rparr>),
      p \<mapsto> O_rdma_buff \<lparr>buf_buffer = buf_buffer b + ?off, buf_dma_addr = dma, buf_buf_size = ucast n\<rparr>)" by blast
  have ne: "rn \<noteq> p" "rn_base_buf d \<noteq> p" "rn_base_buf d \<noteq> rn"
    using world_ok_fresh [OF ok] rn base by (auto simp: p)
  have sums: "unat (buf_buffer b + ?off) = unat (buf_buffer b) + unat ?off" "unat (?off + n) = unat ?off + unat n"
    using fits spec mark by (auto intro: unat_u64_add)
  have "host_mark rn w' = unat (buf_buffer b) + unat (?off + n)"
    using heap ne base by (subst host_mark_eq [of w' rn "d\<lparr>rn_buffer_offset := ?off + n\<rparr>" b]) simp_all
  moreover have "is_device_address dma = 0" using ram dma by (auto simp: kernel_ram_def)
  ultimately show ?thesis using heap ne spec sums mark by simp
qed

lemma host_stage:
  assumes ram: "kernel_ram E" and ok: "world_ok w" and rn: "heap w rn = Some (O_rn_dev d)"
    and base: "heap w (rn_base_buf d) = Some (O_rdma_buff bb)" and qp: "heap w qp = Some (O_qp q0)"
    and al: "allocate_rdma_buffer E rn n HOST_MEM w = Some (Ret p, w0)"
    and st: "store qp (O_qp q1) w0 = Some (Ret u, w1)" and fits: "host_mark rn w + unat n + 4096 < 2 ^ 64"
  shows "p = next_ptr w \<and> world_ok w1 \<and> next_ptr w1 = Suc (next_ptr w) \<and> heap w1 qp = Some (O_qp q1) \<and>
    (\<exists>d1. heap w1 rn = Some (O_rn_dev d1) \<and> rn_base_buf d1 = rn_base_buf d) \<and>
    heap w1 (rn_base_buf d) = Some (O_rdma_buff bb) \<and>
    (\<exists>b. heap w1 (next_ptr w) = Some (O_rdma_buff b) \<and> host_mark rn w \<le> unat (buf_buffer b) \<and>
       unat (buf_buffer b) + unat n \<le> host_mark rn w1 \<and> is_device_address (buf_dma_addr b) = 0) \<and>
    host_mark rn w1 \<le> host_mark rn w + unat n + 4096 \<and>
    (\<forall>x. x \<noteq> rn \<and> x \<noteq> qp \<and> x \<noteq> next_ptr w \<longrightarrow> heap w1 x = heap w x)"
proof -
  note frame = allocate_frame [OF ok rn base al] and region = allocate_host_region [OF ram ok rn base al fits]
  have ne: "qp \<noteq> rn" "qp \<noteq> next_ptr w" "rn \<noteq> next_ptr w" "rn_base_buf d \<noteq> rn"
    "rn_base_buf d \<noteq> next_ptr w" "rn_base_buf d \<noteq> qp"
    using rn base qp world_ok_fresh [OF ok] by auto
  from st have w1: "w1 = w0\<lparr>heap := (heap w0)(qp \<mapsto> O_qp q1)\<rparr>" and live: "heap w0 qp \<noteq> None"
    by (auto elim!: store_RetE)
  from frame obtain d1 where d1: "heap w0 rn = Some (O_rn_dev d1)" "rn_base_buf d1 = rn_base_buf d" by blast
  have b0: "heap w0 (rn_base_buf d) = Some (O_rdma_buff bb)" using frame ne base by simp
  have mark: "host_mark rn w1 = host_mark rn w0"
    using d1 b0 ne by (simp add: host_mark_def w1)
  have "world_ok w1" using world_ok_store [OF _ live] frame w1 by simp
  moreover have "heap w1 rn = Some (O_rn_dev d1) \<and> rn_base_buf d1 = rn_base_buf d"
    "heap w1 (rn_base_buf d) = Some (O_rdma_buff bb)"
    using d1 b0 ne by (simp_all add: w1)
  ultimately show ?thesis using frame region ne mark by (auto simp: w1)
qed

text \<open>Three buffers of less than 4 GB each, with their alignment, are far below \<open>2 ^ 34\<close> bytes.\<close>

lemma host_stages:
  fixes n1 n2 n3 :: u32
  assumes ram: "kernel_ram E" and ok: "world_ok w" and rn: "heap w rn = Some (O_rn_dev d)"
    and base: "heap w (rn_base_buf d) = Some (O_rdma_buff bb)" and qp: "heap w qp = Some (O_qp q0)"
    and fits: "host_mark rn w + 2 ^ 34 < 2 ^ 64"
    and a1: "allocate_rdma_buffer E rn (ucast n1) HOST_MEM w = Some (Ret sq, w1)"
    and s1: "store qp (O_qp q1) w1 = Some (Ret u1, w2)"
    and a2: "allocate_rdma_buffer E rn (ucast n2) HOST_MEM w2 = Some (Ret cq, w3)"
    and s2: "store qp (O_qp q2) w3 = Some (Ret u2, w4)"
    and a3: "allocate_rdma_buffer E rn (ucast n3) HOST_MEM w4 = Some (Ret rq, w5)"
    and s3: "store qp (O_qp q3) w5 = Some (Ret u3, w6)"
  shows "world_ok w6 \<and> next_ptr w6 = Suc (Suc (Suc (next_ptr w))) \<and>
    (\<exists>d'. heap w6 rn = Some (O_rn_dev d') \<and> rn_base_buf d' = rn_base_buf d) \<and>
    heap w6 (rn_base_buf d) = Some (O_rdma_buff bb) \<and>
    (\<exists>b. heap w6 (next_ptr w) = Some (O_rdma_buff b) \<and> host_mark rn w \<le> unat (buf_buffer b) \<and>
       unat (buf_buffer b) + unat n1 \<le> host_mark rn w6 \<and> is_device_address (buf_dma_addr b) = 0) \<and>
    host_mark rn w \<le> host_mark rn w6 \<and> host_mark rn w6 < 2 ^ 64 \<and>
    (\<forall>x < next_ptr w. x \<noteq> rn \<and> x \<noteq> qp \<longrightarrow> heap w6 x = heap w x)"
proof -
  have size: "unat (ucast n :: u64) < 2 ^ 32" "unat (ucast n :: u64) = unat n" for n :: u32
    using unat_u32_less [of n] by simp_all
  have old: "rn < next_ptr w" "qp < next_ptr w" using ok rn qp by (auto simp: world_ok_def)
  have f1: "host_mark rn w + unat (ucast n1 :: u64) + 4096 < 2 ^ 64" using fits size(1) [of n1] by simp
  note st1 = host_stage [OF ram ok rn base qp a1 s1 f1]
  then obtain d1 where d1: "heap w2 rn = Some (O_rn_dev d1)" "rn_base_buf d1 = rn_base_buf d" by blast
  from st1 have g1: "world_ok w2" "next_ptr w2 = Suc (next_ptr w)" "heap w2 qp = Some (O_qp q1)"
    "heap w2 (rn_base_buf d1) = Some (O_rdma_buff bb)" unfolding d1(2) by blast+
  from st1 have m1: "host_mark rn w2 \<le> host_mark rn w + unat (ucast n1 :: u64) + 4096" by blast
  have f2: "host_mark rn w2 + unat (ucast n2 :: u64) + 4096 < 2 ^ 64"
    using fits size(1) [of n1] size(1) [of n2] m1 by simp
  note st2 = host_stage [OF ram g1(1) d1(1) g1(4,3) a2 s2 f2]
  then obtain d2 where d2: "heap w4 rn = Some (O_rn_dev d2)" "rn_base_buf d2 = rn_base_buf d" using d1(2) by auto
  from st2 have g2: "world_ok w4" "next_ptr w4 = Suc (Suc (next_ptr w))" "heap w4 qp = Some (O_qp q2)"
    "heap w4 (rn_base_buf d2) = Some (O_rdma_buff bb)" unfolding d2(2) d1(2) g1(2) by blast+
  from st2 have m2: "host_mark rn w4 \<le> host_mark rn w2 + unat (ucast n2 :: u64) + 4096" by blast
  have f3: "host_mark rn w4 + unat (ucast n3 :: u64) + 4096 < 2 ^ 64"
    using fits size(1) [of n1] size(1) [of n2] size(1) [of n3] m1 m2 by simp
  note st3 = host_stage [OF ram g2(1) d2(1) g2(4,3) a3 s3 f3]
  then obtain d3 where d3: "heap w6 rn = Some (O_rn_dev d3)" "rn_base_buf d3 = rn_base_buf d" using d2(2) by auto
  from st3 have g3: "world_ok w6" "next_ptr w6 = Suc (Suc (Suc (next_ptr w)))"
    "heap w6 (rn_base_buf d) = Some (O_rdma_buff bb)" unfolding d2(2) g2(2) by blast+
  from st1 obtain b where b: "heap w2 (next_ptr w) = Some (O_rdma_buff b)" "host_mark rn w \<le> unat (buf_buffer b)"
    "unat (buf_buffer b) + unat (ucast n1 :: u64) \<le> host_mark rn w2" "is_device_address (buf_dma_addr b) = 0" by blast
  from st2 have up2: "host_mark rn w2 \<le> host_mark rn w4" by (blast dest: trans_le_add1 le_trans)
  from st3 have up3: "host_mark rn w4 \<le> host_mark rn w6" by (blast dest: trans_le_add1 le_trans)
  from st3 f3 have top: "host_mark rn w6 < 2 ^ 64" by linarith
  from st1 have k1: "heap w2 x = heap w x" if "x \<noteq> rn" "x \<noteq> qp" "x < next_ptr w" for x using that by auto
  from st2 have k2: "heap w4 x = heap w2 x" if "x \<noteq> rn" "x \<noteq> qp" "x < next_ptr w2" for x using that by auto
  from st3 have k3: "heap w6 x = heap w4 x" if "x \<noteq> rn" "x \<noteq> qp" "x < next_ptr w4" for x using that by auto
  have "heap w6 (next_ptr w) = Some (O_rdma_buff b)" using k2 k3 b(1) old by (simp add: g1(2) g2(2))
  moreover have "heap w6 x = heap w x" if "x < next_ptr w" "x \<noteq> rn \<and> x \<noteq> qp" for x
    using k1 k2 k3 that by (simp add: g1(2) g2(2))
  moreover have "unat (buf_buffer b) + unat n1 \<le> host_mark rn w6" "host_mark rn w \<le> host_mark rn w6"
    using b(2,3) up2 up3 by (simp_all only: size(2))
  ultimately show ?thesis using g3 d3 b(2,4) top by blast
qed

lemma build_qp_host:
  fixes rd :: rdma_dev_t
  assumes ram: "kernel_ram E" and ok: "world_ok w" and rn: "heap w (rd_rn_dev rd) = Some (O_rn_dev d)"
    and base: "heap w (rn_base_buf d) = Some (O_rdma_buff bb)"
    and tab: "heap w (rd_qps_ptr rd) = Some (O_qp_table table)"
    and fits: "host_mark (rd_rn_dev rd) w + 2 ^ 34 < 2 ^ 64"
    and run: "build_qp E rdev rd qpid dst pd cqa rqa qdepth HOST_MEM mac ip w = Some (Ret (qp, q), w')"
  shows "world_ok w' \<and> next_ptr w' = Suc (Suc (Suc (Suc (next_ptr w)))) \<and>
    (\<exists>d'. heap w' (rd_rn_dev rd) = Some (O_rn_dev d') \<and> rn_base_buf d' = rn_base_buf d) \<and>
    (\<exists>b. heap w' (Suc (next_ptr w)) = Some (O_rdma_buff b) \<and> host_mark (rd_rn_dev rd) w \<le> unat (buf_buffer b) \<and>
       unat (buf_buffer b) + unat (rd_num_qp rd * qdepth * 64) \<le> host_mark (rd_rn_dev rd) w' \<and>
       is_device_address (buf_dma_addr b) = 0) \<and>
    host_mark (rd_rn_dev rd) w \<le> host_mark (rd_rn_dev rd) w' \<and> host_mark (rd_rn_dev rd) w' < 2 ^ 64"
proof -
  let ?rn = "rd_rn_dev rd" and ?tab = "rd_qps_ptr rd"
  from run obtain w0 u0 w1 sq w2 u1 w3 cq w4 u2 w5 rq w6 u3 w7 u4 q0 q1 q2 where
      m: "malloc E (O_qp (junk_qp E)) w = Some (Ret qp, w0)" and s0: "store qp (O_qp q0) w0 = Some (Ret u0, w1)"
    and st: "allocate_rdma_buffer E ?rn (ucast (rd_num_qp rd * qdepth * 64)) HOST_MEM w1 = Some (Ret sq, w2)"
      "store qp (O_qp q1) w2 = Some (Ret u1, w3)"
      "allocate_rdma_buffer E ?rn (ucast (rd_num_qp rd * qdepth * 4)) HOST_MEM w3 = Some (Ret cq, w4)"
      "store qp (O_qp q2) w4 = Some (Ret u2, w5)"
      "allocate_rdma_buffer E ?rn (ucast (rd_num_qp rd * qdepth * RQE_SIZE)) HOST_MEM w5 = Some (Ret rq, w6)"
      "store qp (O_qp q) w6 = Some (Ret u3, w7)"
    and ix: "set_qps_index rd qpid qp w7 = Some (Ret u4, w')"
    by (rule build_qp_RetE) blast
  have qp: "qp = next_ptr w" "qp \<noteq> NULL"
    using m s0 ok world_ok_NULL [OF ok] by (auto simp: malloc_def Let_def store_def world_ok_def split: if_splits)
  have w1: "w1 = w\<lparr>next_ptr := Suc qp, heap := (heap w)(qp \<mapsto> O_qp q0)\<rparr>"
    using m s0 qp by (auto elim!: malloc_RetE store_RetE)
  have ne: "?rn \<noteq> qp" "rn_base_buf d \<noteq> qp" "?tab \<noteq> qp" "?tab \<noteq> ?rn" "rn_base_buf d \<noteq> ?rn" "rn_base_buf d \<noteq> ?tab"
    "?tab < qp"
    using rn base tab world_ok_fresh [OF ok] ok by (auto simp: qp(1) world_ok_def)
  have ok1: "world_ok w1" using ok by (auto simp: w1 qp(1) world_ok_def less_Suc_eq)
  have n1: "next_ptr w1 = Suc qp" "heap w1 ?rn = Some (O_rn_dev d)" "heap w1 (rn_base_buf d) = Some (O_rdma_buff bb)"
    "heap w1 qp = Some (O_qp q0)" "heap w1 ?tab = Some (O_qp_table table)"
    using ne rn base tab by (simp_all add: w1)
  have mark1: "host_mark ?rn w1 = host_mark ?rn w"
    using host_mark_eq [OF rn base] host_mark_eq [OF n1(2,3)] by simp
  note stages = host_stages [OF ram ok1 n1(2-4) fits [folded mark1] st, unfolded mark1 n1(1)]
  then obtain d3 b where h: "world_ok w7" "next_ptr w7 = Suc (Suc (Suc (Suc qp)))"
    "heap w7 ?rn = Some (O_rn_dev d3)" "rn_base_buf d3 = rn_base_buf d" "heap w7 (rn_base_buf d) = Some (O_rdma_buff bb)"
    "heap w7 (Suc qp) = Some (O_rdma_buff b)" by blast
  from stages h(6) have marks: "host_mark ?rn w \<le> unat (buf_buffer b)"
    "unat (buf_buffer b) + unat (rd_num_qp rd * qdepth * 64) \<le> host_mark ?rn w7" "is_device_address (buf_dma_addr b) = 0"
    "host_mark ?rn w \<le> host_mark ?rn w7" "host_mark ?rn w7 < 2 ^ 64" by auto
  have tab7: "heap w7 ?tab = Some (O_qp_table table)" using stages ne n1(5) by auto
  from ix tab7 have w': "w' = w7\<lparr>heap := (heap w7)(?tab \<mapsto> O_qp_table (table[unat qpid := qp]))\<rparr>"
    by (auto elim: set_qps_index_RetE)
  have mark7: "host_mark ?rn w' = host_mark ?rn w7"
    using h(3-5) ne by (simp add: host_mark_def w')
  have "world_ok w'" using h(1) tab7 unfolding w' by (intro world_ok_store) simp_all
  moreover have "heap w' ?rn = Some (O_rn_dev d3)" "heap w' (Suc qp) = Some (O_rdma_buff b)"
    "next_ptr w' = Suc (Suc (Suc (Suc qp)))"
    using h(2,3,6) ne(4,7) by (simp_all add: w')
  ultimately show ?thesis using marks h(4) unfolding qp(1) mark7 by blast
qed

end
