(* ===== verification/Queue_Steps.thy ===== *)
theory Queue_Steps
  imports Queue_Alloc
begin

text \<open>
  What each call of the library does to a coherent state: it leaves a coherent state again, and
  the lanes of all queue pairs, except the one it is about, and the memories stay.
\<close>

subsection \<open>Memory that stays\<close>

lemma keeps_events_machine [keeps_intros]:
  "(\<And>m. replay_event e m = m) \<Longrightarrow> keeps same_machine (modifyM (emit e))"
  "keeps same_machine (malloc E ob)" "keeps same_machine (free_obj p)"
  by (auto intro!: keepsI simp: same_machine_def modifyM_run malloc_def free_obj_def Let_def split: if_splits)

lemma block_machine [simp]: "replay m0 (block_events base ws @ h) = replay m0 h"
  by (induction ws arbitrary: h) (auto simp: block_events_def)

lemma keeps_block_machine [keeps_intros]: "keeps same_machine (write32_block base ws)"
  by (auto intro!: keepsI simp: same_machine_def write32_block_run)

lemma keeps_allocate_machine [keeps_intros]:
  "keeps same_machine (allocate_rdma_buffer E rn n loc)"
  unfolding allocate_rdma_buffer_def allocate_host_arm_def allocate_device_arm_def
    get_buffer_paddr_def get_page_frame_number_of_address_def
  by (intro keeps_intros) simp_all

lemma keeps_config_machine [keeps_intros]:
  "keeps same_machine (allocate_rdma_pd E rdev n)" "keeps same_machine (rdma_register_memory_region rdev p key buf)"
  "keeps same_machine (config_last_rq_psn rdev qpid psn)" "keeps same_machine (config_sq_psn rdev qpid psn)"
  "keeps same_machine (set_qps_index rd qpid qp)"
  unfolding allocate_rdma_pd_def rdma_register_memory_region_def config_last_rq_psn_def config_sq_psn_def
    set_qps_index_def Let_def
  by (intro keeps_intros)+

lemma keeps_qp_machine [keeps_intros]:
  "keeps same_machine (allocate_rdma_qp E rdev qpid dst pd cqa rqa qdepth loc mac ip key)"
  unfolding allocate_rdma_qp_def build_qp_def program_qp_def Let_def by (intro keeps_intros)

lemma keeps_receive_machine [keeps_intros]:
  "keeps same_machine (rdma_post_receive E rdev qp)" "keeps same_machine (rdma_release_rq_consumed E rdev qp)"
  unfolding rdma_post_receive_def poll_rq_pidb_def rdma_release_rq_consumed_def write_rq_cidb_def Let_def
  by (intro keeps_intros keeps_poll_until mmio_sample_machine)+

lemma keeps_destroy_machine [keeps_intros]: "keeps same_machine (destroy_rdma_qp E qp)"
  unfolding destroy_rdma_qp_def rdma_qp_fatal_recovery_def reset_qp_def destroy_rdma_pd_entry_def Let_def
  by (intro keeps_intros keeps_wait_queues_empty keeps_wait_heads mmio_sample_machine)

subsection \<open>Lanes\<close>

text \<open>What the device may know of a queue pair: how much is posted, how much fits, and where.\<close>

definition lane :: "rdma_dev_t \<Rightarrow> world \<Rightarrow> u32 \<Rightarrow> (u32 \<times> u32 \<times> rdma_buff_t) option" where
  "lane rd w i = map_option (\<lambda>(qp, q, sq). (qp_sq_pidb q, qp_qdepth q, sq)) (queue_of rd (heap w) i)"

definition unseen :: "ptr \<Rightarrow> rdma_dev_t \<Rightarrow> win_size_t \<Rightarrow> world \<Rightarrow> world \<Rightarrow> bool" where
  "unseen rdev rd ws w w' \<longleftrightarrow> coherent rdev rd ws w' \<and> same_machine w w' \<and> (\<forall>i. lane rd w' i = lane rd w i)"

lemma frame_unseen:
  "coherent rdev rd ws w \<Longrightarrow> heap_frame rd w w' \<Longrightarrow> regs_frame rd w w' \<Longrightarrow> same_machine w w' \<Longrightarrow> unseen rdev rd ws w w'"
  using coherent_frame [of rdev rd ws w w'] by (simp add: unseen_def lane_def)

lemma coherentD:
  assumes "coherent rdev rd ws w"
  shows "world_ok w" "rdev \<noteq> NULL" "heap w rdev = Some (O_rdma_dev rd)" "heap w (rd_winSize rd) = Some (O_win_size ws)"
    and "lib_state rdev rd ws w" "queues_ok rdev rd w" "layout_ok rd w"
    and "valid_qpid i \<Longrightarrow> registers_agree rd ws w i"
  using assms by (simp_all add: coherent_def lib_state_def)

lemma coherent_rn:
  assumes "coherent rdev rd ws w"
  obtains d bb where "heap w (rd_rn_dev rd) = Some (O_rn_dev d)" "heap w (rn_base_buf d) = Some (O_rdma_buff bb)"
  using assms by (auto simp: coherent_def lib_state_def)

lemma coherent_table:
  assumes "coherent rdev rd ws w"
  obtains table where "heap w (rd_qps_ptr rd) = Some (O_qp_table table)"
  using assms by (auto simp: coherent_def lib_state_def)

text \<open>What the queue pairs of a coherent state own is older than anything new.\<close>

lemma owned_old:
  assumes c: "coherent rdev rd ws w" and i: "queue_of rd (heap w) i = Some (qp, q, sq)" and p: "p \<in> set (owned q)"
  shows "p < next_ptr w" "(\<exists>b. heap w p = Some (O_rdma_buff b)) \<or> (\<exists>pd. heap w p = Some (O_pd pd))"
proof -
  show "(\<exists>b. heap w p = Some (O_rdma_buff b)) \<or> (\<exists>pd. heap w p = Some (O_pd pd))"
    using queues_okD(1) [OF coherentD(6) [OF c] i] queue_ofD(2) [OF i] p
    by (auto simp: queue_ok_def owned_def)
  then show "p < next_ptr w" using coherentD(1) [OF c] by (auto simp: world_ok_def)
qed

text \<open>The entries of protection domains are no registers of queues.\<close>

lemma pd_register_other:
  assumes "r \<in> set PDT_REGS" and "d < 512" and "r' \<in> set QCSR_REGS" and "valid_qpid i"
  shows "get_rdma_pd_config_addr r d \<noteq> get_rdma_per_q_config_addr r' i"
proof -
  have "unat (d - 0) < 512" "unat (i - 1) < 256"
    using assms(2,4) by (simp_all add: valid_qpid_def word_less_nat_alt)
  then have "unat (get_rdma_pd_config_addr r d) < 0x60000" "0x60200 \<le> unat (get_rdma_per_q_config_addr r' i)"
    using pd_bank.addr_bounds [OF assms(1)] queue_bank.addr_bounds [OF assms(3)] by (simp_all add: reg_defs)
  then show ?thesis by auto
qed

lemma reg_of_write:
  assumes "last_write (hist w') = (last_write (hist w))(rd_axil_ctl rd + ucast (get_rdma_per_q_config_addr r i) \<mapsto> v)"
    and "r \<in> set QCSR_REGS" and "valid_qpid i" and "r' \<in> set QCSR_REGS" and "valid_qpid j"
  shows "reg_of rd r' j (hist w') = (if r' = r \<and> j = i then Some v else reg_of rd r' j (hist w))"
  using reg_of_inject [OF assms(4,2,5,3), of rd] by (simp add: reg_of_def reg32_def assms(1))

text \<open>A call that changes one structure and writes one register of that queue pair.\<close>

lemma coherent_register:
  assumes c: "coherent rdev rd ws w" and i: "queue_of rd (heap w) i = Some (qp, q, sq)"
    and w': "world_ok w'" "next_ptr w \<le> next_ptr w'" and h: "heap w' = (heap w)(qp \<mapsto> O_qp q')"
    and s: "same_queue q q'" and room: "unat (qp_sq_pidb q') \<le> unat (qp_qdepth q)"
    and lw: "last_write (hist w') = (last_write (hist w))(rd_axil_ctl rd + ucast (get_rdma_per_q_config_addr r i) \<mapsto> v)"
    and r: "r \<in> set QCSR_REGS" "r \<in> set state_regs \<longrightarrow> r = RN_RDMA_QCSR_SQPIi \<or> r = RN_RDMA_QCSR_RQCIi"
    and pidb: "qp_sq_pidb q' = (if r = RN_RDMA_QCSR_SQPIi then v else qp_sq_pidb q)"
    and cidb: "qp_rq_cidb q' = (if r = RN_RDMA_QCSR_RQCIi then v else qp_rq_cidb q)"
  shows "coherent rdev rd ws w' \<and>
    (\<forall>j. queue_of rd (heap w') j = (if j = i then Some (qp, q', sq) else queue_of rd (heap w) j))"
proof -
  have i': "valid_qpid i" using queues_okD(1) [OF coherentD(6) [OF c] i] by (simp add: queue_ok_def)
  have agree: "counter_of rd RN_RDMA_QCSR_SQPIi i (hist w) = qp_sq_pidb q"
    "counter_of rd RN_RDMA_QCSR_RQCIi i (hist w) = qp_rq_cidb q"
    using coherentD(8) [OF c i'] i by (simp_all add: registers_agree_def)
  have reg: "reg_of rd r' j (hist w') = (if r' = r \<and> j = i then Some v else reg_of rd r' j (hist w))"
    if "r' \<in> set state_regs" "valid_qpid j" for r' j
    using reg_of_write [OF lw r(1) i'] that state_regs_QCSR by blast
  have in_state: "RN_RDMA_QCSR_SQPIi \<in> set state_regs" "RN_RDMA_QCSR_RQCIi \<in> set state_regs"
    by (simp_all add: state_regs_def)
  show ?thesis
  proof (rule coherent_update [OF c i w' h s room])
    show "reg_of rd r' j (hist w') = reg_of rd r' j (hist w)"
      if "valid_qpid j" "j \<noteq> i" "r' \<in> set state_regs" for j r'
      using reg [OF that(3,1)] that(2) by simp
    show "reg_of rd r' i (hist w') = reg_of rd r' i (hist w)"
      if "r' \<in> set state_regs" "r' \<noteq> RN_RDMA_QCSR_SQPIi" "r' \<noteq> RN_RDMA_QCSR_RQCIi" for r'
      using reg [OF that(1) i'] that r(2) by auto
    show "counter_of rd RN_RDMA_QCSR_SQPIi i (hist w') = qp_sq_pidb q'"
      using reg [OF in_state(1) i'] agree(1) pidb by (simp add: counter_of_def)
    show "counter_of rd RN_RDMA_QCSR_RQCIi i (hist w') = qp_rq_cidb q'"
      using reg [OF in_state(2) i'] agree(2) cidb by (simp add: counter_of_def)
  qed
qed

subsection \<open>Calls that no queue notices\<close>

lemma unseen_allocate_buffer:
  assumes ram: "kernel_ram E" and c: "coherent rdev rd ws w" and run: "allocate_rdma_buffer E (rd_rn_dev rd) n loc w = Some (Ret p, w')"
    and fits: "loc = HOST_MEM \<Longrightarrow> host_mark (rd_rn_dev rd) w + unat n + 4096 < 2 ^ 64"
  shows "unseen rdev rd ws w w'"
proof (rule frame_unseen [OF c])
  note ok = coherentD(1) [OF c]
  from c obtain d bb where rn: "heap w (rd_rn_dev rd) = Some (O_rn_dev d)"
    and base: "heap w (rn_base_buf d) = Some (O_rdma_buff bb)" by (rule coherent_rn)
  note frame = allocate_frame [OF ok rn base run]
  have ne: "rn_base_buf d \<noteq> rd_rn_dev rd" "rn_base_buf d \<noteq> next_ptr w" "rd_rn_dev rd \<noteq> next_ptr w"
    using rn base world_ok_fresh [OF ok] by auto
  have mark: "host_mark (rd_rn_dev rd) w \<le> host_mark (rd_rn_dev rd) w' \<and> host_mark (rd_rn_dev rd) w' < 2 ^ 64"
  proof -
    consider "loc = HOST_MEM" | "loc = DEVICE_MEM"
      using run by (auto simp: allocate_rdma_buffer_def exitM_def elim!: bindM_RetE split: if_splits)
    then show ?thesis
    proof cases
      case 1
      note h = allocate_host_region [OF ram ok rn base run [unfolded 1] fits [OF 1]]
      from h fits [OF 1] show ?thesis by auto
    next
      case 2
      from allocate_device_effect [OF ok rn run [unfolded 2]] ne rn base
      have "host_mark (rd_rn_dev rd) w' = host_mark (rd_rn_dev rd) w" by (auto simp: host_mark_def)
      with layout_okD(1) [OF coherentD(7) [OF c]] show ?thesis by simp
    qed
  qed
  from frame obtain d' where d': "heap w' (rd_rn_dev rd) = Some (O_rn_dev d')" "rn_base_buf d' = rn_base_buf d" by blast
  show "heap_frame rd w w'"
    unfolding heap_frame_def
  proof (intro conjI allI impI)
    show "world_ok w'" "next_ptr w \<le> next_ptr w'" using frame by simp_all
    show "host_mark (rd_rn_dev rd) w \<le> host_mark (rd_rn_dev rd) w'" "host_mark (rd_rn_dev rd) w' < 2 ^ 64"
      using mark by simp_all
    fix x assume "x < next_ptr w"
    then show "heap w' x = heap w x \<or>
        (\<exists>d d'. heap w x = Some (O_rn_dev d) \<and> heap w' x = Some (O_rn_dev d') \<and> rn_base_buf d' = rn_base_buf d) \<or>
        (\<exists>u y. heap w x = Some (O_pd u) \<and> heap w' x = Some (O_pd y))"
      using frame rn d' by (cases "x = rd_rn_dev rd") auto
  qed
  show "regs_frame rd w w'" by (rule same_regs_frame [OF keepsD [OF keeps_allocate_same_regs run]])
  show "same_machine w w'" by (rule keepsD [OF keeps_allocate_machine run])
qed

text \<open>Structures that are no part of the marks leave them where they are.\<close>

lemma host_mark_keep:
  assumes "coherent rdev rd ws w"
    and "\<And>p d. heap w p = Some (O_rn_dev d) \<Longrightarrow> heap w' p = Some (O_rn_dev d)"
    and "\<And>p b. heap w p = Some (O_rdma_buff b) \<Longrightarrow> heap w' p = Some (O_rdma_buff b)"
  shows "host_mark (rd_rn_dev rd) w' = host_mark (rd_rn_dev rd) w"
  using assms(1) by (rule coherent_rn) (simp add: host_mark_def assms(2,3))

lemma pd_writes_frame:
  assumes "\<And>a v. (a, v) \<in> set ws \<Longrightarrow> \<exists>r \<in> set PDT_REGS. \<exists>d < 512. a = get_rdma_pd_config_addr r d"
    and "last_write (hist w') = last_write (block_events (rd_axil_ctl rd) ws @ hist w)"
  shows "regs_frame rd w w'"
  unfolding regs_frame_def
proof (intro allI impI ballI)
  fix i r assume i: "valid_qpid i" "r \<in> set state_regs"
  then have "r \<in> set QCSR_REGS" using state_regs_QCSR by blast
  with assms(1) i(1) have "get_rdma_per_q_config_addr r i \<notin> fst ` set ws"
    using pd_register_other by fastforce
  then have "map_of (rev ws) (get_rdma_per_q_config_addr r i) = None" by (simp add: map_of_eq_None_iff)
  with reg_block [of "rd_axil_ctl rd" ws "hist w" "get_rdma_per_q_config_addr r i"]
  show "reg_of rd r i (hist w') = reg_of rd r i (hist w)"
    by (simp add: reg_of_def reg32_def assms(2))
qed

lemma unseen_allocate_pd:
  assumes c: "coherent rdev rd ws w" and run: "allocate_rdma_pd E rdev n w = Some (Ret p, w')" and n: "n < 512"
  shows "unseen rdev rd ws w w'"
proof (rule frame_unseen [OF c])
  note ok = coherentD(1) [OF c]
  have rdev: "heap w rdev = Some (O_rdma_dev rd)" "rdev \<noteq> next_ptr w"
    using coherentD(3) [OF c] world_ok_fresh [OF ok] by auto
  have ok': "world_ok w'" using keepsD [OF keeps_allocate_rdma_pd run] ok by (simp add: steps_ok_def)
  from run have "\<not> env_malloc_fails E (next_ptr w)"
    using coherentD(2) [OF c] world_ok_NULL [OF ok]
    by (auto simp: allocate_rdma_pd_def malloc_def bindM_def load_def Let_def split: if_splits)
  then obtain pd where w': "heap w' = (heap w)(next_ptr w \<mapsto> O_pd pd)" "next_ptr w' = Suc (next_ptr w)"
    "hist w' = block_events (rd_axil_ctl rd) [(get_rdma_pd_config_addr RN_RDMA_PDT_PDPDNUM n, n)] @ hist w"
    using run coherentD(2) [OF c] rdev
    by (auto simp: allocate_rdma_pd_def run_simps Let_def emit_def)
  have old: "heap w' x = heap w x" if "x < next_ptr w" for x using that by (simp add: w')
  have live: "heap w' x = Some ob" if "heap w x = Some ob" for x ob
    using that world_ok_fresh [OF ok] by (auto simp: w')
  show "heap_frame rd w w'"
    using ok' layout_okD(1) [OF coherentD(7) [OF c]]
    by (simp add: heap_frame_def w'(2) old host_mark_keep [OF c live live])
  show "regs_frame rd w w'"
    by (rule pd_writes_frame [OF _ arg_cong [where f = last_write, OF w'(3)]]) (use n in \<open>auto simp: PDT_REGS_def\<close>)
  show "same_machine w w'" by (rule keepsD [OF keeps_config_machine(1) run])
qed

lemma unseen_register_region:
  assumes c: "coherent rdev rd ws w" and run: "rdma_register_memory_region rdev p key buf w = Some (Ret u, w')"
    and pd: "heap w p = Some (O_pd pd)" "pd_pd_num pd < 512"
  shows "unseen rdev rd ws w w'"
proof (rule frame_unseen [OF c])
  note ok = coherentD(1) [OF c]
  have ok': "world_ok w'" using keepsD [OF keeps_rdma_register_memory_region run] ok by (simp add: steps_ok_def)
  from run obtain b where b: "heap w buf = Some (O_rdma_buff b)"
    using coherentD(2-4) [OF c] pd
    by (auto simp: rdma_register_memory_region_def run_simps exitM_def as_obj_eq Let_def
        elim!: bindM_RetE load_RetE split: if_splits)
  let ?pd = "fill_pd ws key buf b pd"
  from run have w': "heap w' = (heap w)(p \<mapsto> O_pd ?pd)" "next_ptr w' = next_ptr w"
    "hist w' = block_events (rd_axil_ctl rd) (pd_writes ?pd key (ucast (buf_buf_size b))) @ hist w"
    using coherentD(2-4) [OF c] pd b
    by (auto simp: rdma_register_memory_region_def run_simps exitM_def Let_def simp del: block_events_Cons split: if_splits)
  have live: "heap w' x = Some ob" if "heap w x = Some ob" "\<nexists>y. ob = O_pd y" for x ob
    using that pd(1) by (auto simp: w'(1))
  have mark: "host_mark (rd_rn_dev rd) w' = host_mark (rd_rn_dev rd) w"
    by (rule host_mark_keep [OF c]) (simp_all add: live)
  show "heap_frame rd w w'"
    using ok' layout_okD(1) [OF coherentD(7) [OF c]] pd(1)
    by (auto simp: heap_frame_def w'(1,2) mark)
  have "pd_pd_num ?pd = pd_pd_num pd" by (simp add: fill_pd_def Let_def)
  then show "regs_frame rd w w'"
    by (intro pd_writes_frame [OF _ arg_cong [where f = last_write, OF w'(3)]])
      (use pd(2) in \<open>auto simp: pd_writes_def PDT_REGS_def Let_def\<close>)
  show "same_machine w w'" by (rule keepsD [OF keeps_config_machine(2) run])
qed

subsection \<open>Calls on one queue pair\<close>

text \<open>What a live queue pair of a coherent state gives the code to follow.\<close>

lemma liveE:
  assumes "coherent rdev rd ws w" and "queue_of rd (heap w) i = Some (qp, q, sq)"
  obtains table where "heap w (rd_qps_ptr rd) = Some (O_qp_table table)" "unat i < List.length table"
    "table ! unat i = qp" "heap w qp = Some (O_qp q)" "heap w (qp_sq q) = Some (O_rdma_buff sq)"
    "rdev \<noteq> qp" "rd_qps_ptr rd \<noteq> qp" "qp \<noteq> NULL" "qp_qpid q = i" "valid_qpid i" "qp_rdma_dev q = rdev"
proof -
  from assms(2) obtain table where t: "heap w (rd_qps_ptr rd) = Some (O_qp_table table)" "unat i < List.length table"
    "qp = table ! unat i" "heap w qp = Some (O_qp q)" "heap w (qp_sq q) = Some (O_rdma_buff sq)"
    by (auto simp: queue_of_iff)
  moreover have "rdev \<noteq> qp" "rd_qps_ptr rd \<noteq> qp" using t coherentD(3) [OF assms(1)] by auto
  moreover have "qp \<noteq> NULL"
    using t(4) world_ok_NULL [OF coherentD(1) [OF assms(1)]] by (intro notI) simp
  moreover have "qp_qpid q = i" "valid_qpid i" "qp_rdma_dev q = rdev"
    using queues_okD(1) [OF coherentD(6) [OF assms(1)] assms(2)] by (simp_all add: queue_ok_def)
  ultimately show thesis by (intro that) simp_all
qed

lemma live_run:
  assumes "coherent rdev rd ws w" and "queue_of rd (heap w) i = Some (qp, q, sq)"
  shows "qps_index rd i w = Some (Ret qp, w)"
  using assms by (rule liveE) (simp add: qps_index_run)

text \<open>A changed structure that keeps the producer counter keeps all lanes.\<close>

lemma unseen_update:
  assumes "queue_of rd (heap w) i = Some (qp, q, sq)" and "qp_sq_pidb q' = qp_sq_pidb q"
    and "same_queue q q'" and "same_machine w w'"
    and "coherent rdev rd ws w' \<and>
      (\<forall>j. queue_of rd (heap w') j = (if j = i then Some (qp, q', sq) else queue_of rd (heap w) j))"
  shows "unseen rdev rd ws w w'"
  using assms by (simp add: unseen_def lane_def same_queue_def)

lemma psn_registers:
  "RN_RDMA_QCSR_LSTRQREQi \<in> set QCSR_REGS" "RN_RDMA_QCSR_LSTRQREQi \<notin> set state_regs"
  "RN_RDMA_QCSR_SQPSNi \<in> set QCSR_REGS" "RN_RDMA_QCSR_SQPSNi \<notin> set state_regs"
  "RN_RDMA_QCSR_SQPIi \<in> set QCSR_REGS" "RN_RDMA_QCSR_RQCIi \<in> set QCSR_REGS"
  by (simp_all add: QCSR_REGS_def state_regs_def reg_defs)

lemma counter_registers:
  "RN_RDMA_QCSR_LSTRQREQi \<noteq> RN_RDMA_QCSR_SQPIi" "RN_RDMA_QCSR_LSTRQREQi \<noteq> RN_RDMA_QCSR_RQCIi"
  "RN_RDMA_QCSR_SQPSNi \<noteq> RN_RDMA_QCSR_SQPIi" "RN_RDMA_QCSR_SQPSNi \<noteq> RN_RDMA_QCSR_RQCIi"
  "RN_RDMA_QCSR_SQPIi \<noteq> RN_RDMA_QCSR_RQCIi"
  by (simp_all add: reg_defs)

lemma world_ok_update: "world_ok w \<Longrightarrow> heap w p \<noteq> None \<Longrightarrow> heap w' = (heap w)(p \<mapsto> ob) \<Longrightarrow> next_ptr w' = next_ptr w \<Longrightarrow> world_ok w'"
  by (auto simp: world_ok_def)

text \<open>A call that writes a register of its queue pair other than the doorbell of the send queue.\<close>

lemma unseen_register:
  assumes c: "coherent rdev rd ws w" and i: "queue_of rd (heap w) i = Some (qp, q, sq)" and m: "same_machine w w'"
    and h: "heap w' = (heap w)(qp \<mapsto> O_qp q')" and n: "next_ptr w' = next_ptr w"
    and lw: "last_write (hist w') = (last_write (hist w))(rd_axil_ctl rd + ucast (get_rdma_per_q_config_addr r i) \<mapsto> v)"
    and s: "same_queue q q'" and r: "r \<in> set QCSR_REGS" "r \<in> set state_regs \<longrightarrow> r = RN_RDMA_QCSR_RQCIi"
      "r \<noteq> RN_RDMA_QCSR_SQPIi"
    and q': "qp_sq_pidb q' = qp_sq_pidb q" "qp_rq_cidb q' = (if r = RN_RDMA_QCSR_RQCIi then v else qp_rq_cidb q)"
  shows "unseen rdev rd ws w w'"
proof -
  have "heap w qp \<noteq> None" using i by (auto dest: queue_ofD)
  from world_ok_update [OF coherentD(1) [OF c] this h n] n layout_okD(2) [OF coherentD(7) [OF c] i]
  show ?thesis
    by (intro unseen_update [OF i q'(1) s m] coherent_register [OF c i _ _ h s _ lw r(1)]) (use r q' in auto)
qed

lemma last_rq_psn_run:
  assumes c: "coherent rdev rd ws w" and i: "queue_of rd (heap w) i = Some (qp, q, sq)"
  shows "\<exists>v. config_last_rq_psn rdev i psn w = Some (Ret (),
    w\<lparr>hist := Mmio_Write (rd_axil_ctl rd + ucast (get_rdma_per_q_config_addr RN_RDMA_QCSR_LSTRQREQi i)) v # hist w,
      heap := (heap w)(qp \<mapsto> O_qp (q\<lparr>qp_last_rq_psn := psn\<rparr>))\<rparr>)"
  by (rule liveE [OF c i], insert coherentD(3) [OF c], simp add: config_last_rq_psn_def run_simps Let_def emit_def) blast

lemma sq_psn_run:
  assumes c: "coherent rdev rd ws w" and i: "queue_of rd (heap w) i = Some (qp, q, sq)"
  shows "config_sq_psn rdev i psn w = Some (Ret (),
    w\<lparr>heap := (heap w)(qp \<mapsto> O_qp (q\<lparr>qp_sq_psn := psn\<rparr>)),
      hist := Mmio_Write (rd_axil_ctl rd + ucast (get_rdma_per_q_config_addr RN_RDMA_QCSR_SQPSNi i)) psn # hist w\<rparr>)"
  by (rule liveE [OF c i], insert coherentD(3) [OF c]) (simp add: config_sq_psn_def run_simps Let_def emit_def)

lemma unseen_last_rq_psn:
  assumes c: "coherent rdev rd ws w" and i: "queue_of rd (heap w) i = Some (qp, q, sq)"
    and run: "config_last_rq_psn rdev i psn w = Some (Ret u, w')"
  shows "unseen rdev rd ws w w'"
proof -
  from last_rq_psn_run [OF c i, of psn] run obtain v where
    w': "heap w' = (heap w)(qp \<mapsto> O_qp (q\<lparr>qp_last_rq_psn := psn\<rparr>))" "next_ptr w' = next_ptr w"
      "last_write (hist w') = (last_write (hist w))
        (rd_axil_ctl rd + ucast (get_rdma_per_q_config_addr RN_RDMA_QCSR_LSTRQREQi i) \<mapsto> v)" by (auto simp: fun_eq_iff)
  show ?thesis
    by (rule unseen_register [OF c i keepsD [OF keeps_config_machine(3) run] w'])
      (simp_all add: same_queue_def psn_registers counter_registers)
qed

lemma unseen_sq_psn:
  assumes c: "coherent rdev rd ws w" and i: "queue_of rd (heap w) i = Some (qp, q, sq)"
    and run: "config_sq_psn rdev i psn w = Some (Ret u, w')"
  shows "unseen rdev rd ws w w'"
proof -
  from sq_psn_run [OF c i, of psn] run have
    w': "heap w' = (heap w)(qp \<mapsto> O_qp (q\<lparr>qp_sq_psn := psn\<rparr>))" "next_ptr w' = next_ptr w"
      "last_write (hist w') = (last_write (hist w))
        (rd_axil_ctl rd + ucast (get_rdma_per_q_config_addr RN_RDMA_QCSR_SQPSNi i) \<mapsto> psn)" by (auto simp: fun_eq_iff)
  show ?thesis
    by (rule unseen_register [OF c i keepsD [OF keeps_config_machine(4) run] w'])
      (simp_all add: same_queue_def psn_registers counter_registers)
qed

lemma release_consumed_run:
  assumes c: "coherent rdev rd ws w" and i: "queue_of rd (heap w) i = Some (qp, q, sq)"
  shows "\<exists>rc v. rdma_release_rq_consumed E rdev qp w = Some (Ret rc,
    w\<lparr>heap := (heap w)(qp \<mapsto> O_qp (q\<lparr>qp_rq_cidb := qp_rq_pidb q\<rparr>)),
      hist := Mmio_Write (rd_axil_ctl rd + ucast (get_rdma_per_q_config_addr RN_RDMA_QCSR_RQCIi i)) (qp_rq_pidb q) #
        Mmio_Read (rq_status_addr rd i) v # hist w\<rparr>)"
  by (rule liveE [OF c i], insert coherentD(3) [OF c],
      simp add: rdma_release_rq_consumed_def write_rq_cidb_def rq_status_addr_def run_simps Let_def emit_def) blast

lemma unseen_release:
  assumes c: "coherent rdev rd ws w" and i: "queue_of rd (heap w) i = Some (qp, q, sq)"
    and run: "rdma_release_rq_consumed E rdev qp w = Some (Ret u, w')"
  shows "unseen rdev rd ws w w'"
proof -
  from release_consumed_run [OF c i, of E] run have
    w': "heap w' = (heap w)(qp \<mapsto> O_qp (q\<lparr>qp_rq_cidb := qp_rq_pidb q\<rparr>))" "next_ptr w' = next_ptr w"
      "last_write (hist w') = (last_write (hist w))
        (rd_axil_ctl rd + ucast (get_rdma_per_q_config_addr RN_RDMA_QCSR_RQCIi i) \<mapsto> qp_rq_pidb q)"
    by (auto simp: fun_eq_iff)
  show ?thesis
    by (rule unseen_register [OF c i keepsD [OF keeps_receive_machine(2) run] w'])
      (simp_all add: same_queue_def psn_registers counter_registers counter_registers(5) [symmetric])
qed

text \<open>A receive that returns has stored the new counter and written no register.\<close>

lemma keeps_receive_regs [keeps_intros]: "keeps same_regs (rdma_post_receive E rdev qp)"
  unfolding rdma_post_receive_def poll_rq_pidb_def Let_def
  by (intro keeps_intros keeps_poll_until mmio_sample_keeps)

lemma poll_rq_pidb_Ret:
  assumes rd: "heap w rdev = Some (O_rdma_dev rd)" and ix: "qps_index rd i w = Some (Ret qp, w)"
    and q: "heap w qp = Some (O_qp q)" and run: "poll_rq_pidb E rdev i w = Some (Ret v, w')"
  shows "heap w' = (heap w)(qp \<mapsto> O_qp (q\<lparr>qp_rq_pidb := v\<rparr>)) \<and> next_ptr w' = next_ptr w"
proof -
  obtain rd0 w1 qp0 w2 x w3 y w4 q0 w5 v0 w6 u w7 where
      ld: "load as_rdma_dev rdev w = Some (Ret rd0, w1)" "qps_index rd0 i w1 = Some (Ret qp0, w2)"
    and r: "read32_data E (rd_axil_ctl rd0) (ucast (get_rdma_per_q_config_addr RN_RDMA_QCSR_STATRQPIDBi i)) w2 = Some (Ret x, w3)"
    and d: "(if env_DEBUG E then dump_registers E rdev 0 i else returnM ()) w3 = Some (Ret y, w4)"
    and lq: "load as_qp qp0 w4 = Some (Ret q0, w5)"
    and p: "map_option (\<lambda>(v, w'). (Ret v, w')) (poll_until
      (mmio_sample E (rd_axil_ctl rd0 + ucast (get_rdma_per_q_config_addr RN_RDMA_QCSR_STATRQPIDBi i)))
      (\<lambda>v. v \<noteq> qp_rq_pidb q0) x w5) = Some (Ret v0, w6)"
    and st: "store qp0 (O_qp (q0\<lparr>qp_rq_pidb := v0\<rparr>)) w6 = Some (Ret u, w7)" "returnM v0 w7 = Some (Ret v, w')"
    using run unfolding poll_rq_pidb_def Let_def by (elim bindM_RetE thenM_RetE) (rule that)
  have 1: "rd0 = rd" "qp0 = qp" "w2 = w" using ld rd ix by (auto elim!: load_RetE)
  have "same_store w w3" using r by (auto simp: 1 read32_run same_store_def)
  moreover have "same_store w3 w4"
    using d by (auto simp: returnM_run same_store_def dest: keepsD [OF keeps_dump_registers(2)] split: if_splits)
  ultimately have 2: "heap w4 = heap w" "next_ptr w4 = next_ptr w" by (simp_all add: same_store_def)
  have 3: "q0 = q" "w5 = w4" using lq q by (auto simp: 1 2 elim!: load_RetE)
  have "same_store w5 w6"
    by (rule keepsD [OF keeps_poll_until [OF reflp_same_store transp_same_store mmio_sample_keeps(2)] p])
  with st show ?thesis by (auto simp: 1 2 3 same_store_def returnM_run elim!: store_RetE)
qed

lemma receive_Ret:
  assumes c: "coherent rdev rd ws w" and i: "queue_of rd (heap w) i = Some (qp, q, sq)"
    and run: "rdma_post_receive E rdev qp w = Some (Ret a, w')"
  shows "\<exists>v. heap w' = (heap w)(qp \<mapsto> O_qp (q\<lparr>qp_rq_pidb := v\<rparr>)) \<and> next_ptr w' = next_ptr w"
proof -
  from c i have qp: "heap w qp = Some (O_qp q)" "qp \<noteq> NULL" "qp_qpid q = i" by (rule liveE, simp)+
  with run coherentD(2) [OF c] obtain v w1 where p: "poll_rq_pidb E rdev i w = Some (Ret v, w1)"
    and rest: "(if v = - 1 then exitM EXIT_FAILURE else bindM (load as_qp qp) (\<lambda>q.
      bindM (load as_rdma_buff (qp_rq q)) (\<lambda>rq. returnM (rq_element (buf_buffer rq) (qp_qdepth q) v)))) w1 = Some (Ret a, w')"
    by (auto simp: rdma_post_receive_def run_simps elim!: bindM_RetE)
  from rest have "w' = w1"
    by (auto simp: exitM_def returnM_def elim!: bindM_RetE load_RetE split: if_splits)
  with poll_rq_pidb_Ret [OF coherentD(3) [OF c] live_run [OF c i] qp(1) p] show ?thesis by blast
qed

lemma unseen_receive:
  assumes c: "coherent rdev rd ws w" and i: "queue_of rd (heap w) i = Some (qp, q, sq)"
    and run: "rdma_post_receive E rdev qp w = Some (Ret a, w')"
  shows "unseen rdev rd ws w w'"
proof -
  from receive_Ret [OF c i run] obtain v where
    w': "heap w' = (heap w)(qp \<mapsto> O_qp (q\<lparr>qp_rq_pidb := v\<rparr>))" "next_ptr w' = next_ptr w" by blast
  have live: "heap w qp \<noteq> None" using i by (auto dest: queue_ofD)
  have "valid_qpid i" using c i by (rule liveE)
  from coherentD(8) [OF c this] i have agree: "counter_of rd RN_RDMA_QCSR_SQPIi i (hist w) = qp_sq_pidb q"
    "counter_of rd RN_RDMA_QCSR_RQCIi i (hist w) = qp_rq_cidb q" by (simp_all add: registers_agree_def)
  have regs: "reg_of rd r j (hist w') = reg_of rd r j (hist w)" for r j
    using keepsD [OF keeps_receive_regs run] by (simp add: reg_of_def reg32_def same_regs_def)
  show ?thesis
    by (rule unseen_update [OF i _ _ keepsD [OF keeps_receive_machine(1) run] coherent_update [OF c i
          world_ok_update [OF coherentD(1) [OF c] live w'] _ w'(1)]])
      (use layout_okD(2) [OF coherentD(7) [OF c] i] w'(2) agree in
        \<open>simp_all add: same_queue_def regs counter_of_def\<close>)
qed

subsection \<open>Submitting\<close>

lemma keeps_submit: "keeps steps_ok (submit E rdev i n r)"
  unfolding submit_def by (intro keeps_intros)

lemma submit_step:
  assumes c: "coherent rdev rd ws w" and i: "queue_of rd (heap w) i = Some (qp, q, sq)"
    and room: "qp_sq_pidb q < qp_qdepth q"
  shows "\<exists>rc w'. submit E rdev i (qp_sq_pidb q) r w = Some (Ret rc, w') \<and> coherent rdev rd ws w' \<and>
    (\<forall>j. lane rd w' j = (if j = i then Some (qp_sq_pidb q + 1, qp_qdepth q, sq) else lane rd w j)) \<and>
    (\<forall>m0. m_host (replay m0 (hist w')) = store_bytes (m_host (replay m0 (hist w)))
      (buf_buffer sq + word_of_nat (64 * unat (qp_sq_pidb q))) (element ws r))"
proof -
  from c i obtain table where t: "heap w (rd_qps_ptr rd) = Some (O_qp_table table)" "unat i < List.length table"
    "table ! unat i = qp" "heap w qp = Some (O_qp q)" "heap w (qp_sq q) = Some (O_rdma_buff sq)" by (rule liveE)
  from submit_effect [OF coherentD(2-4) [OF c] t(1,2), of q sq E "qp_sq_pidb q" r] t layout_okD(2) [OF coherentD(7) [OF c] i]
  obtain rc x w' where run: "submit E rdev i (qp_sq_pidb q) r w = Some (Ret rc, w')"
    and h: "heap w' = (heap w)(qp \<mapsto>
      O_qp (q\<lparr>qp_sq_pidb := qp_sq_pidb q + 1, qp_cq_cidb := x, qp_sq_cidb := qp_sq_cidb q + 1\<rparr>))" (is "_ = (heap w)(qp \<mapsto> O_qp ?q)")
    and lw: "last_write (hist w') = (\<lambda>a.
      if a = rd_axil_ctl rd + ucast (get_rdma_per_q_config_addr RN_RDMA_QCSR_SQPIi i)
      then Some (qp_sq_pidb q + 1) else last_write (hist w) a)"
    and m: "\<forall>m0. m_host (replay m0 (hist w')) = store_bytes (m_host (replay m0 (hist w)))
      (buf_buffer sq + word_of_nat (64 * unat (qp_sq_pidb q))) (element ws r)" by auto
  have w': "world_ok w'" "next_ptr w \<le> next_ptr w'"
    using keepsD [OF keeps_submit run] coherentD(1) [OF c] by (simp_all add: steps_ok_def)
  have lw': "last_write (hist w') = (last_write (hist w))
      (rd_axil_ctl rd + ucast (get_rdma_per_q_config_addr RN_RDMA_QCSR_SQPIi i) \<mapsto> qp_sq_pidb q + 1)"
    by (simp add: lw fun_eq_iff)
  have "unat (qp_sq_pidb q + 1) = Suc (unat (qp_sq_pidb q))"
    using room unat_u32_less [of "qp_qdepth q"] by (simp add: word_less_nat_alt unat_word_ariths)
  then have "coherent rdev rd ws w' \<and>
      (\<forall>j. queue_of rd (heap w') j = (if j = i then Some (qp, ?q, sq) else queue_of rd (heap w) j))"
    by (intro coherent_register [OF c i w' h _ _ lw'])
      (use room in \<open>simp_all add: same_queue_def psn_registers counter_registers word_less_nat_alt\<close>)
  with run m show ?thesis by (auto simp: lane_def)
qed

end
