(* ===== verification/Queue_New.thy ===== *)
theory Queue_New
  imports Queue_Steps
begin

text \<open>
  A new queue pair in a coherent state: what has to hold of the new state, that it is then
  coherent, and that \<open>allocate_rdma_qp\<close> makes it so.
\<close>

subsection \<open>A queue pair in a free slot\<close>

definition queue_added ::
    "ptr \<Rightarrow> rdma_dev_t \<Rightarrow> win_size_t \<Rightarrow> world \<Rightarrow> u32 \<Rightarrow> ptr \<Rightarrow> rdma_qp_t \<Rightarrow> rdma_buff_t \<Rightarrow> world \<Rightarrow> bool" where
  "queue_added rdev rd ws w i qp q sq w' \<longleftrightarrow>
     world_ok w' \<and> next_ptr w \<le> qp \<and> qp < next_ptr w' \<and> next_ptr w \<le> qp_sq q \<and> qp_sq q < next_ptr w' \<and>
     next_ptr w \<le> qp_cq q \<and> next_ptr w \<le> qp_rq q \<and>
     (\<forall>p. p < next_ptr w \<and> p \<noteq> rd_rn_dev rd \<and> p \<noteq> rd_qps_ptr rd \<longrightarrow> heap w' p = heap w p) \<and>
     (\<exists>d d'. heap w (rd_rn_dev rd) = Some (O_rn_dev d) \<and> heap w' (rd_rn_dev rd) = Some (O_rn_dev d') \<and>
        rn_base_buf d' = rn_base_buf d) \<and>
     (\<exists>table. heap w (rd_qps_ptr rd) = Some (O_qp_table table) \<and> unat i < List.length table \<and>
        heap w' (rd_qps_ptr rd) = Some (O_qp_table (table[unat i := qp]))) \<and>
     heap w' qp = Some (O_qp q) \<and> heap w' (qp_sq q) = Some (O_rdma_buff sq) \<and> queue_ok rdev w' i q \<and>
     qp_sq_pidb q = 0 \<and> qp_rq_cidb q = 0 \<and>
     host_mark (rd_rn_dev rd) w \<le> fst (sq_bytes q sq) \<and> snd (sq_bytes q sq) \<le> host_mark (rd_rn_dev rd) w' \<and>
     host_mark (rd_rn_dev rd) w' < 2 ^ 64 \<and>
     (\<forall>j r. valid_qpid j \<longrightarrow> j \<noteq> i \<longrightarrow> r \<in> set state_regs \<longrightarrow> reg_of rd r j (hist w') = reg_of rd r j (hist w)) \<and>
     (\<forall>r \<in> {RN_RDMA_QCSR_SQPIi, RN_RDMA_QCSR_RQCIi}. reg_of rd r i (hist w') = reg_of rd r i (hist w)) \<and>
     reg_of rd RN_RDMA_QCSR_QDEPTHi i (hist w') = Some (qp_qdepth q OR push_bit 16 (qp_qdepth q)) \<and>
     base_agrees rd ws w' i RN_RDMA_QCSR_SQBAMSBi RN_RDMA_QCSR_SQBAi (qp_sq q) \<and>
     base_agrees rd ws w' i RN_RDMA_QCSR_CQBAMSBi RN_RDMA_QCSR_CQBAi (qp_cq q) \<and>
     base_agrees rd ws w' i RN_RDMA_QCSR_RQBAMSBi RN_RDMA_QCSR_RQBAi (qp_rq q)"

lemma queue_addedD:
  assumes "queue_added rdev rd ws w i qp q sq w'"
  shows "world_ok w'" "next_ptr w \<le> qp" "qp < next_ptr w'" "next_ptr w \<le> qp_sq q" "qp_sq q < next_ptr w'"
    "next_ptr w \<le> qp_cq q" "next_ptr w \<le> qp_rq q"
    "p < next_ptr w \<Longrightarrow> p \<noteq> rd_rn_dev rd \<Longrightarrow> p \<noteq> rd_qps_ptr rd \<Longrightarrow> heap w' p = heap w p"
    "heap w (rd_rn_dev rd) = Some (O_rn_dev d) \<Longrightarrow>
      \<exists>d'. heap w' (rd_rn_dev rd) = Some (O_rn_dev d') \<and> rn_base_buf d' = rn_base_buf d"
    "heap w (rd_qps_ptr rd) = Some (O_qp_table table) \<Longrightarrow>
      unat i < List.length table \<and> heap w' (rd_qps_ptr rd) = Some (O_qp_table (table[unat i := qp]))"
    "heap w' qp = Some (O_qp q)" "heap w' (qp_sq q) = Some (O_rdma_buff sq)" "queue_ok rdev w' i q"
    "qp_sq_pidb q = 0" "qp_rq_cidb q = 0"
    "host_mark (rd_rn_dev rd) w \<le> fst (sq_bytes q sq)" "snd (sq_bytes q sq) \<le> host_mark (rd_rn_dev rd) w'"
    "host_mark (rd_rn_dev rd) w' < 2 ^ 64"
    "valid_qpid j \<Longrightarrow> j \<noteq> i \<Longrightarrow> r \<in> set state_regs \<Longrightarrow> reg_of rd r j (hist w') = reg_of rd r j (hist w)"
  using assms unfolding queue_added_def by (blast | fastforce)+

lemma added_keeps:
  assumes a: "queue_added rdev rd ws w i qp q sq w'" and c: "coherent rdev rd ws w"
    and p: "heap w p = Some ob" "\<nexists>d. ob = O_rn_dev d" "\<nexists>t. ob = O_qp_table t"
  shows "heap w' p = Some ob"
proof -
  from c obtain d bb where "heap w (rd_rn_dev rd) = Some (O_rn_dev d)" "heap w (rn_base_buf d) = Some (O_rdma_buff bb)"
    by (rule coherent_rn)
  moreover from c obtain table where "heap w (rd_qps_ptr rd) = Some (O_qp_table table)" by (rule coherent_table)
  ultimately have "p \<noteq> rd_rn_dev rd" "p \<noteq> rd_qps_ptr rd" using p by auto
  moreover have "p < next_ptr w" using coherentD(1) [OF c] p(1) by (auto simp: world_ok_def)
  ultimately show ?thesis using queue_addedD(8) [OF a] p(1) by simp
qed

lemma added_queue_of:
  assumes a: "queue_added rdev rd ws w i qp q sq w'" and c: "coherent rdev rd ws w"
  shows "queue_of rd (heap w') j = (if j = i then Some (qp, q, sq) else queue_of rd (heap w) j)"
proof -
  from c obtain table where t: "heap w (rd_qps_ptr rd) = Some (O_qp_table table)" by (rule coherent_table)
  from c obtain d bb where rn: "heap w (rd_rn_dev rd) = Some (O_rn_dev d)" "heap w (rn_base_buf d) = Some (O_rdma_buff bb)"
    by (rule coherent_rn)
  note t' = queue_addedD(10) [OF a t]
  show ?thesis
  proof (cases "j = i")
    case True
    then show ?thesis using t' queue_addedD(11,12) [OF a] by (simp add: queue_of_def)
  next
    case False
    then have ne: "unat j \<noteq> unat i" by (simp add: word_unat_eq_iff)
    from queue_addedD(9) [OF a rn(1)] obtain d' where d': "heap w' (rd_rn_dev rd) = Some (O_rn_dev d')" by blast
    have same: "heap w' p = Some ob \<longleftrightarrow> heap w p = Some ob"
      if "p < next_ptr w" "\<nexists>d. ob = O_rn_dev d" "\<nexists>t. ob = O_qp_table t" for p ob
      using that queue_addedD(8) [OF a that(1)] d' rn(1) t t'
      by (cases "p = rd_rn_dev rd"; cases "p = rd_qps_ptr rd") auto
    have old: "p < next_ptr w" "heap w p = Some (O_qp u) \<Longrightarrow> qp_sq u < next_ptr w" if "p \<in> set table" for p u
      using queues_okD(4) [OF coherentD(6) [OF c] t that] by blast+
    have "queue_of rd (heap w') j = Some x \<longleftrightarrow> queue_of rd (heap w) j = Some x" for x
    proof (cases x)
      case (fields p u b)
      have "queue_of rd (heap w') j = Some (p, u, b) \<longleftrightarrow> unat j < List.length table \<and> p = table ! unat j \<and>
          heap w' p = Some (O_qp u) \<and> heap w' (qp_sq u) = Some (O_rdma_buff b)"
        using t' ne by (auto simp: queue_of_iff)
      also have "\<dots> \<longleftrightarrow> unat j < List.length table \<and> p = table ! unat j \<and>
          heap w p = Some (O_qp u) \<and> heap w (qp_sq u) = Some (O_rdma_buff b)"
      proof -
        have "heap w' p = Some (O_qp u) \<longleftrightarrow> heap w p = Some (O_qp u)" if "p \<in> set table"
          using same [OF old(1) [OF that]] by simp
        moreover have "heap w' (qp_sq u) = Some (O_rdma_buff b) \<longleftrightarrow> heap w (qp_sq u) = Some (O_rdma_buff b)"
          if "p \<in> set table" "heap w p = Some (O_qp u)" using same [OF old(2) [OF that]] by simp
        ultimately show ?thesis by (meson nth_mem)
      qed
      also have "\<dots> \<longleftrightarrow> queue_of rd (heap w) j = Some (p, u, b)" using t by (auto simp: queue_of_iff)
      finally show ?thesis by (simp add: fields)
    qed
    then have "queue_of rd (heap w') j = queue_of rd (heap w) j" by (rule option_eqI)
    with False show ?thesis by simp
  qed
qed

text \<open>What the new queue pair owns is its own.\<close>

lemma added_fresh:
  assumes a: "queue_added rdev rd ws w i qp q sq w'" and c: "coherent rdev rd ws w"
    and pd: "\<And>j p u b. queue_of rd (heap w) j = Some (p, u, b) \<Longrightarrow> qp_pd_entry u \<noteq> qp_pd_entry q"
    and j: "queue_of rd (heap w) j = Some (p, u, b)"
  shows "set (owned q) \<inter> set (owned u) = {}"
proof -
  note Q = coherentD(6) [OF c] and keep = added_keeps [OF a c]
  have pd_new: "\<exists>pd. heap w' (qp_pd_entry q) = Some (O_pd pd)"
    using queue_addedD(13) [OF a] by (simp add: queue_ok_def)
  have "qp_pd_entry q \<notin> set (owned u)"
  proof
    assume m: "qp_pd_entry q \<in> set (owned u)"
    from pd [OF j] m have "qp_pd_entry q \<in> {qp_sq u, qp_rq u, qp_cq u}" by (auto simp: owned_def)
    then have "\<exists>b. heap w (qp_pd_entry q) = Some (O_rdma_buff b)"
      using queues_okD(1) [OF Q j] queue_ofD(2) [OF j] by (auto simp: queue_ok_def)
    with keep pd_new show False by fastforce
  qed
  moreover have "x \<notin> set (owned u)" if "next_ptr w \<le> x" for x
    using owned_old(1) [OF c j, of x] that by auto
  then have "qp_sq q \<notin> set (owned u)" "qp_rq q \<notin> set (owned u)" "qp_cq q \<notin> set (owned u)"
    using queue_addedD(4,6,7) [OF a] by simp_all
  ultimately show ?thesis by (auto simp: owned_def)
qed

lemma added_queues_ok:
  assumes a: "queue_added rdev rd ws w i qp q sq w'" and c: "coherent rdev rd ws w"
    and pd: "\<And>j p u b. queue_of rd (heap w) j = Some (p, u, b) \<Longrightarrow> qp_pd_entry u \<noteq> qp_pd_entry q"
  shows "queues_ok rdev rd w'"
proof (rule queues_okI)
  note q_of [simp] = added_queue_of [OF a c] and keep = added_keeps [OF a c] and Q = coherentD(6) [OF c]
  from c obtain table where t: "heap w (rd_qps_ptr rd) = Some (O_qp_table table)" by (rule coherent_table)
  from c obtain d bb where rn: "heap w (rd_rn_dev rd) = Some (O_rn_dev d)" "heap w (rn_base_buf d) = Some (O_rdma_buff bb)"
    by (rule coherent_rn)
  from queue_addedD(9) [OF a rn(1)] obtain d' where
    d': "heap w' (rd_rn_dev rd) = Some (O_rn_dev d')" "rn_base_buf d' = rn_base_buf d" by blast
  have ok_i: "queue_ok rdev w' i q" using queue_addedD(13) [OF a] .
  have pd_new: "\<exists>pd. heap w' (qp_pd_entry q) = Some (O_pd pd)" using ok_i by (simp add: queue_ok_def)
  have old: "queue_ok rdev w' j u" if "queue_ok rdev w j u" for j u
    using that keep by (auto simp: queue_ok_def)
  have fresh: "set (owned q) \<inter> set (owned u) = {}" if "queue_of rd (heap w) j = Some (p, u, b)" for j p u b
    by (rule added_fresh [OF a c pd that])
  show "queue_ok rdev w' j u" if "queue_of rd (heap w') j = Some (p, u, b)" for j p u b
    using that ok_i old [OF queues_okD(1) [OF Q]] by (auto split: if_splits)
  show "set (owned u) \<inter> set (owned u') = {}"
    if "queue_of rd (heap w') j = Some (p, u, b)" "queue_of rd (heap w') k = Some (p', u', b')" "j \<noteq> k"
    for j p u b k p' u' b'
    using that fresh [of j p u b] fresh [of k p' u' b'] queues_okD(2) [OF Q, of j p u b k p' u' b']
    by (auto split: if_splits)
  show "rn_base_buf e \<notin> set (owned u)"
    if "queue_of rd (heap w') j = Some (p, u, b)" "heap w' (rd_rn_dev rd) = Some (O_rn_dev e)" for j p u b e
  proof -
    have e: "rn_base_buf e = rn_base_buf d" "rn_base_buf d < next_ptr w"
      using that(2) d' coherentD(1) [OF c] rn(2) by (auto simp: world_ok_def)
    have "rn_base_buf d \<noteq> qp_pd_entry q" using pd_new keep [OF rn(2)] by auto
    then have "rn_base_buf d \<notin> set (owned q)"
      using e(2) queue_addedD(4,6,7) [OF a] by (auto simp: owned_def)
    then show ?thesis using that(1) e(1) queues_okD(3) [OF Q _ rn(1)] by (auto split: if_splits)
  qed
  show "p < next_ptr w' \<and> (\<forall>u. heap w' p = Some (O_qp u) \<longrightarrow> qp_sq u < next_ptr w')"
    if "heap w' (rd_qps_ptr rd) = Some (O_qp_table t')" "p \<in> set t'" for t' p
  proof (cases "p = qp")
    case True
    then show ?thesis using queue_addedD(3,5,11) [OF a] by simp
  next
    case False
    have "p \<in> set table"
      using that queue_addedD(10) [OF a t] False set_update_subset_insert [of table "unat i" qp] by auto
    from queues_okD(4) [OF Q t this] have p: "p < next_ptr w" "\<And>u. heap w p = Some (O_qp u) \<Longrightarrow> qp_sq u < next_ptr w"
      by blast+
    moreover have "heap w p = Some (O_qp u)" if "heap w' p = Some (O_qp u)" for u
      using that queue_addedD(8) [OF a p(1)] d' queue_addedD(10) [OF a t]
      by (cases "p = rd_rn_dev rd"; cases "p = rd_qps_ptr rd") auto
    ultimately show ?thesis using queue_addedD(2,3) [OF a] by fastforce
  qed
qed

lemma added_layout:
  assumes a: "queue_added rdev rd ws w i qp q sq w'" and c: "coherent rdev rd ws w"
    and host: "is_device_address (buf_dma_addr sq) = 0"
  shows "layout_ok rd w'"
proof (rule layout_okI)
  note y = coherentD(7) [OF c] and q_of [simp] = added_queue_of [OF a c]
  note new = queue_addedD(14,16,17,18) [OF a]
  have grow: "host_mark (rd_rn_dev rd) w \<le> host_mark (rd_rn_dev rd) w'"
    using new(2,3) by (simp add: sq_bytes_def)
  show "host_mark (rd_rn_dev rd) w' < 2 ^ 64" by (rule new(4))
  show "is_device_address (buf_dma_addr b) = 0 \<and> snd (sq_bytes u b) \<le> host_mark (rd_rn_dev rd) w' \<and>
      unat (qp_sq_pidb u) \<le> unat (qp_qdepth u)" if "queue_of rd (heap w') j = Some (p, u, b)" for j p u b
    using that layout_okD(2) [OF y] host new(1,3) grow by (fastforce split: if_splits)
  show "snd (sq_bytes u b) \<le> fst (sq_bytes u' b') \<or> snd (sq_bytes u' b') \<le> fst (sq_bytes u b)"
    if "queue_of rd (heap w') j = Some (p, u, b)" "queue_of rd (heap w') k = Some (p', u', b')" "j \<noteq> k"
    for j p u b k p' u' b'
    using that layout_okD(3) [OF y] layout_okD(2) [OF y, of j p u b] layout_okD(2) [OF y, of k p' u' b'] new(2)
    by (force split: if_splits)
qed

lemma added_coherent:
  assumes a: "queue_added rdev rd ws w i qp q sq w'" and c: "coherent rdev rd ws w"
    and free: "queue_of rd (heap w) i = None" and host: "is_device_address (buf_dma_addr sq) = 0"
    and pd: "\<And>j p u b. queue_of rd (heap w) j = Some (p, u, b) \<Longrightarrow> qp_pd_entry u \<noteq> qp_pd_entry q"
  shows "coherent rdev rd ws w'"
proof -
  note q_of [simp] = added_queue_of [OF a c] and keep = added_keeps [OF a c]
  from c obtain table where t: "heap w (rd_qps_ptr rd) = Some (O_qp_table table)" by (rule coherent_table)
  from c obtain d bb where rn: "heap w (rd_rn_dev rd) = Some (O_rn_dev d)" "heap w (rn_base_buf d) = Some (O_rdma_buff bb)"
    by (rule coherent_rn)
  from queue_addedD(9) [OF a rn(1)] obtain d' where
    d': "heap w' (rd_rn_dev rd) = Some (O_rn_dev d')" "rn_base_buf d' = rn_base_buf d" by blast
  have i: "valid_qpid i" using queue_addedD(13) [OF a] by (simp add: queue_ok_def)
  have "lib_state rdev rd ws w'"
    using queue_addedD(1) [OF a] coherentD(2) [OF c] keep [OF coherentD(3) [OF c]] keep [OF coherentD(4) [OF c]]
      keep [OF rn(2)] d' queue_addedD(10) [OF a t]
    by (simp add: lib_state_def)
  moreover have "queues_ok rdev rd w'" by (rule added_queues_ok [OF a c pd])
  moreover have "registers_agree rd ws w' j" if j: "valid_qpid j" for j
  proof (cases "j = i")
    case False
    show ?thesis
      by (rule registers_agree_frame [OF coherentD(8) [OF c j]])
        (use False queue_addedD(19) [OF a j] keep in simp_all)
  next
    case True
    have "counter_of rd RN_RDMA_QCSR_SQPIi i (hist w) = 0 \<and> counter_of rd RN_RDMA_QCSR_RQCIi i (hist w) = 0"
      using coherentD(8) [OF c i] free by (simp add: registers_agree_def)
    then show ?thesis
      using True a by (simp add: registers_agree_def counter_of_def queue_added_def)
  qed
  moreover have "layout_ok rd w'" by (rule added_layout [OF a c host])
  ultimately show ?thesis by (simp add: coherent_def)
qed

subsection \<open>\<open>allocate_rdma_qp\<close>\<close>

lemma queue_bytes:
  assumes "n \<noteq> 0" and "unat n * unat depth * 64 < 2 ^ 32"
  shows "64 * unat depth \<le> unat (n * depth * 64 :: u32)"
proof -
  have "unat n * unat depth < 2 ^ LENGTH(32)" using assms(2) by (simp add: mult.commute)
  then have nd: "unat (n * depth) = unat n * unat depth" by (rule unat_mult_lem [THEN iffD1])
  have "unat (n * depth * 64) = unat (n * depth) * 64"
    using assms(2) unat_mult_lem [of "n * depth" 64] by (simp add: nd)
  moreover have "1 * unat depth \<le> unat n * unat depth"
    using assms(1) unat_gt_0 [of n] by (intro mult_le_mono1) simp
  ultimately show ?thesis by (simp add: nd)
qed

text \<open>The registers that a queue pair's own bank sets, among those that repeat the structure.\<close>

lemma bank_state_regs:
  assumes hist: "hist w' = block_events (rd_axil_ctl rd) (qp_bank ws q mac sq cq rq key pd) @ h0"
    and objs: "heap w' (qp_sq q) = Some (O_rdma_buff sq)" "heap w' (qp_cq q) = Some (O_rdma_buff cq)"
      "heap w' (qp_rq q) = Some (O_rdma_buff rq)" and i: "valid_qpid (qp_qpid q)"
  shows "valid_qpid j \<Longrightarrow> j \<noteq> qp_qpid q \<Longrightarrow> r \<in> set state_regs \<Longrightarrow> reg_of rd r j (hist w') = reg_of rd r j h0"
    and "r \<in> {RN_RDMA_QCSR_SQPIi, RN_RDMA_QCSR_RQCIi} \<Longrightarrow> reg_of rd r (qp_qpid q) (hist w') = reg_of rd r (qp_qpid q) h0"
    and "reg_of rd RN_RDMA_QCSR_QDEPTHi (qp_qpid q) (hist w') = Some (qp_qdepth q OR push_bit 16 (qp_qdepth q))"
    and "base_agrees rd ws w' (qp_qpid q) RN_RDMA_QCSR_SQBAMSBi RN_RDMA_QCSR_SQBAi (qp_sq q)"
    and "base_agrees rd ws w' (qp_qpid q) RN_RDMA_QCSR_CQBAMSBi RN_RDMA_QCSR_CQBAi (qp_cq q)"
    and "base_agrees rd ws w' (qp_qpid q) RN_RDMA_QCSR_RQBAMSBi RN_RDMA_QCSR_RQBAi (qp_rq q)"
proof -
  note bank = qp_bank_regs_values [of w' rd ws q mac sq cq rq key pd, OF hist, unfolded Let_def]
  show "reg_of rd r j (hist w') = reg_of rd r j h0" if "valid_qpid j" "j \<noteq> qp_qpid q" "r \<in> set state_regs"
    using other_queue_untouched [OF qp_bank_regs [of ws q mac sq cq rq key pd], of r j] that i state_regs_QCSR
    by (auto simp: reg_of_def hist reg_block valid_qpid_def)
  show "reg_of rd r (qp_qpid q) (hist w') = reg_of rd r (qp_qpid q) h0"
    if "r \<in> {RN_RDMA_QCSR_SQPIi, RN_RDMA_QCSR_RQCIi}"
    using that by (auto simp: reg_of_def hist reg_block qp_bank_def qp_writes_def Let_def
        get_rdma_per_q_config_addr_def reg_defs simp del: block_events_Cons)
  show "reg_of rd RN_RDMA_QCSR_QDEPTHi (qp_qpid q) (hist w') = Some (qp_qdepth q OR push_bit 16 (qp_qdepth q))"
    using bank by (simp add: reg_of_def)
  show "base_agrees rd ws w' (qp_qpid q) RN_RDMA_QCSR_SQBAMSBi RN_RDMA_QCSR_SQBAi (qp_sq q)"
    "base_agrees rd ws w' (qp_qpid q) RN_RDMA_QCSR_CQBAMSBi RN_RDMA_QCSR_CQBAi (qp_cq q)"
    "base_agrees rd ws w' (qp_qpid q) RN_RDMA_QCSR_RQBAMSBi RN_RDMA_QCSR_RQBAi (qp_rq q)"
    using bank objs by (simp_all add: base_agrees_def)
qed

lemma allocate_added:
  fixes rd :: rdma_dev_t
  assumes ram: "kernel_ram E" and c: "coherent rdev rd ws w" and i: "valid_qpid i"
    and fits: "host_mark (rd_rn_dev rd) w + 2 ^ 34 < 2 ^ 64"
    and n: "rd_num_qp rd \<noteq> 0" "unat (rd_num_qp rd) * unat depth * 64 < 2 ^ 32"
    and run: "allocate_rdma_qp E rdev i dst pdp cqa rqa depth HOST_MEM macp ip key w = Some (Ret qp, w')"
  shows "\<exists>q sq. queue_added rdev rd ws w i qp q sq w' \<and> qp_pd_entry q = pdp \<and> qp_qdepth q = depth \<and>
    is_device_address (buf_dma_addr sq) = 0"
proof -
  note ok = coherentD(1) [OF c]
  from c obtain d bb where rn: "heap w (rd_rn_dev rd) = Some (O_rn_dev d)" "heap w (rn_base_buf d) = Some (O_rdma_buff bb)"
    by (rule coherent_rn)
  from c obtain table where t: "heap w (rd_qps_ptr rd) = Some (O_qp_table table)" by (rule coherent_table)
  from run coherentD(3,4) [OF c] obtain q w1 u where
      build: "build_qp E rdev rd i dst pdp cqa rqa depth HOST_MEM macp ip w = Some (Ret (qp, q), w1)"
    and prog: "program_qp rd ws q key w1 = Some (Ret u, w')"
    by (auto simp: allocate_rdma_qp_def run_simps returnM_def elim!: bindM_RetE thenM_RetE split: prod.splits)
  note built = build_qp_effect [OF ok rn t build] and host = build_qp_host [OF ram ok rn t fits build]
  from program_qp_effect [OF prog] obtain mac sq cq rq pd where
      objs: "heap w1 (qp_sq q) = Some (O_rdma_buff sq)" "heap w1 (qp_cq q) = Some (O_rdma_buff cq)"
        "heap w1 (qp_rq q) = Some (O_rdma_buff rq)" "heap w1 (qp_pd_entry q) = Some (O_pd pd)"
    and heap: "heap w' = heap w1"
    and hist: "hist w' = block_events (rd_axil_ctl rd) (qp_bank ws q mac sq cq rq key pd) @ hist w1" by blast
  have q: "qp_qpid q = i" "qp_rdma_dev q = rdev" "qp_sq_pidb q = 0" "qp_rq_cidb q = 0" "qp_qdepth q = depth"
    "qp_pd_entry q = pdp" "qp_sq q = Suc qp" "qp_cq q = Suc (Suc qp)" "qp_rq q = Suc (Suc (Suc qp))" "qp = next_ptr w"
    using built by (simp_all add: built_qp_def)
  have "keeps steps_ok (program_qp rd ws q key)" unfolding program_qp_def by (intro keeps_intros)
  from keepsD [OF this prog] host have steps: "world_ok w'" "next_ptr w1 \<le> next_ptr w'"
    by (simp_all add: steps_ok_def)
  from keepsD [OF keeps_build_qp(2) build] have same: "reg_of rd r j (hist w1) = reg_of rd r j (hist w)" for r j
    by (simp add: same_regs_def reg_of_def reg32_def)
  note regs = bank_state_regs [OF hist objs(1-3) [folded heap], unfolded q(1), OF i]
  from host objs(1) q(7,10) have region: "host_mark (rd_rn_dev rd) w \<le> unat (buf_buffer sq)"
    "unat (buf_buffer sq) + unat (rd_num_qp rd * depth * 64) \<le> host_mark (rd_rn_dev rd) w1"
    "host_mark (rd_rn_dev rd) w1 < 2 ^ 64" "is_device_address (buf_dma_addr sq) = 0" by auto
  have mark: "host_mark (rd_rn_dev rd) w' = host_mark (rd_rn_dev rd) w1" by (simp only: host_mark_def heap)
  have "queue_ok rdev w' i q" using i objs by (simp add: queue_ok_def heap q)
  moreover have "\<exists>d d'. heap w (rd_rn_dev rd) = Some (O_rn_dev d) \<and> heap w' (rd_rn_dev rd) = Some (O_rn_dev d') \<and>
      rn_base_buf d' = rn_base_buf d"
    using host rn(1) heap by auto
  moreover have "\<exists>table. heap w (rd_qps_ptr rd) = Some (O_qp_table table) \<and> unat i < List.length table \<and>
      heap w' (rd_qps_ptr rd) = Some (O_qp_table (table[unat i := qp]))"
    using built t heap by auto
  moreover have "next_ptr w \<le> qp \<and> qp < next_ptr w' \<and> next_ptr w \<le> qp_sq q \<and> qp_sq q < next_ptr w' \<and>
      next_ptr w \<le> qp_cq q \<and> next_ptr w \<le> qp_rq q"
    using host steps(2) by (simp add: q(7-10))
  moreover have "\<forall>p. p < next_ptr w \<and> p \<noteq> rd_rn_dev rd \<and> p \<noteq> rd_qps_ptr rd \<longrightarrow> heap w' p = heap w p"
    using built by (simp add: heap)
  moreover have "heap w' qp = Some (O_qp q)" "heap w' (qp_sq q) = Some (O_rdma_buff sq)"
    using built objs(1) unfolding heap by blast+
  moreover have "host_mark (rd_rn_dev rd) w \<le> fst (sq_bytes q sq)" "snd (sq_bytes q sq) \<le> host_mark (rd_rn_dev rd) w'"
      "host_mark (rd_rn_dev rd) w' < 2 ^ 64"
    using region queue_bytes [OF n] by (simp_all add: mark sq_bytes_def q(5))
  ultimately have "queue_added rdev rd ws w i qp q sq w'"
    using steps(1) q(3,4) regs same unfolding queue_added_def by simp
  with q(5,6) region(4) show ?thesis by blast
qed

text \<open>The protection domain of a new queue pair must not belong to a live one already.\<close>

definition pd_free :: "rdma_dev_t \<Rightarrow> world \<Rightarrow> ptr \<Rightarrow> bool" where
  "pd_free rd w pd \<longleftrightarrow> (\<forall>k \<in> set [0..<256].
     case queue_of rd (heap w) (word_of_nat (Suc k)) of None \<Rightarrow> True | Some (qp, q, sq) \<Rightarrow> qp_pd_entry q \<noteq> pd)"

lemma pd_freeD:
  assumes "pd_free rd w pd" and c: "coherent rdev rd ws w" and j: "queue_of rd (heap w) j = Some (qp, q, sq)"
  shows "qp_pd_entry q \<noteq> pd"
proof -
  have "unat (j - 1) < 256"
    using queues_okD(1) [OF coherentD(6) [OF c] j] by (simp add: queue_ok_def valid_qpid_def word_less_nat_alt)
  then have "unat (j - 1) \<in> set [0..<256]" by simp
  moreover have "word_of_nat (Suc (unat (j - 1))) = j" by simp
  ultimately show ?thesis
    using bspec [OF assms(1) [unfolded pd_free_def], of "unat (j - 1)"] j by (simp del: of_nat_Suc)
qed

lemma allocate_step:
  fixes rd :: rdma_dev_t
  assumes ram: "kernel_ram E" and c: "coherent rdev rd ws w" and i: "valid_qpid i" "queue_of rd (heap w) i = None"
    and fits: "host_mark (rd_rn_dev rd) w + 2 ^ 34 < 2 ^ 64" and pd: "pd_free rd w pdp"
    and n: "rd_num_qp rd \<noteq> 0" "unat (rd_num_qp rd) * unat depth * 64 < 2 ^ 32"
    and run: "allocate_rdma_qp E rdev i dst pdp cqa rqa depth HOST_MEM macp ip key w = Some (Ret qp, w')"
  shows "coherent rdev rd ws w' \<and> same_machine w w' \<and>
    (\<exists>sq. \<forall>j. lane rd w' j = (if j = i then Some (0, depth, sq) else lane rd w j))"
proof -
  from allocate_added [OF ram c i(1) fits n run] obtain q sq where a: "queue_added rdev rd ws w i qp q sq w'"
    and q: "qp_pd_entry q = pdp" "is_device_address (buf_dma_addr sq) = 0" "qp_qdepth q = depth" by blast
  have "coherent rdev rd ws w'"
    by (rule added_coherent [OF a c i(2) q(2)]) (use pd_freeD [OF pd c] q(1) in simp)
  moreover have "\<forall>j. lane rd w' j = (if j = i then Some (0, depth, sq) else lane rd w j)"
    using queue_addedD(14) [OF a] q(3) by (simp add: lane_def added_queue_of [OF a c])
  ultimately show ?thesis using keepsD [OF keeps_qp_machine run] by blast
qed

end
