(* ===== verification/Queue_Gone.thy ===== *)
theory Queue_Gone
  imports Queue_Steps
begin

text \<open>
  The destruction of a queue pair in a coherent state: the state stays coherent and the slot is
  free, with its counters at 0.
\<close>

lemma registers_agree_heap:
  assumes "registers_agree rd ws w i" and "hist w' = hist w" and "queue_of rd (heap w') i = queue_of rd (heap w) i"
    and "\<And>qp q sq p. queue_of rd (heap w) i = Some (qp, q, sq) \<Longrightarrow> p \<in> set (owned q) \<Longrightarrow> heap w' p = heap w p"
  shows "registers_agree rd ws w' i"
proof (cases "queue_of rd (heap w) i")
  case None
  with assms(1-3) show ?thesis by (simp add: registers_agree_def)
next
  case (Some x)
  obtain qp q sq where q: "queue_of rd (heap w) i = Some (qp, q, sq)" using Some by (cases x) auto
  have "heap w' (qp_sq q) = heap w (qp_sq q)" "heap w' (qp_cq q) = heap w (qp_cq q)" "heap w' (qp_rq q) = heap w (qp_rq q)"
    using assms(4) [OF q] by (simp_all add: owned_def)
  with assms(1-3) show ?thesis by (simp add: registers_agree_def base_agrees_def q)
qed

lemma released_keeps:
  assumes "heap w' = release ps (heap w)" and "p \<notin> set ps"
  shows "heap w' p = heap w p"
  using assms by (simp add: release_def)

text \<open>Objects that are neither buffers nor protection domains are not what a queue pair owns.\<close>

lemma not_owned:
  assumes "coherent rdev rd ws w" and "queue_of rd (heap w) i = Some (qp, q, sq)"
    and "heap w p = Some ob" "\<nexists>b. ob = O_rdma_buff b" "\<nexists>pd. ob = O_pd pd"
  shows "p \<notin> set (owned q)"
  using owned_old(2) [OF assms(1,2), of p] assms(3-5) by auto

lemma released_queue_of:
  assumes c: "coherent rdev rd ws w" and i: "queue_of rd (heap w) i = Some (qp, q, sq)"
    and h: "heap w' = release (owned q) (heap w)"
  shows "queue_of rd (heap w') j = (if j = i then None else queue_of rd (heap w) j)"
proof -
  note keep = released_keeps [OF h] and apart = not_owned [OF c i]
  have sub: "heap w p = Some ob" if "heap w' p = Some ob" for p ob
    using that by (auto simp: h release_def split: if_splits)
  have sq: "heap w' (qp_sq q) = None"
    using queue_ofD(2) [OF i] world_ok_NULL [OF coherentD(1) [OF c]]
    by (cases "qp_sq q = NULL") (simp_all add: h release_def owned_def)
  show ?thesis
  proof (cases "j = i")
    case True
    have "queue_of rd (heap w') i \<noteq> Some x" for x
    proof
      assume x: "queue_of rd (heap w') i = Some x"
      obtain p u b where x': "x = (p, u, b)" by (cases x) auto
      with x have "queue_of rd (heap w) i = Some (p, u, b)" and b: "heap w' (qp_sq u) = Some (O_rdma_buff b)"
        by (auto simp: queue_of_iff dest!: sub)
      with i sq show False by simp
    qed
    with True show ?thesis by (auto intro: option.exhaust)
  next
    case False
    have "queue_of rd (heap w') j = Some x \<longleftrightarrow> queue_of rd (heap w) j = Some x" for x
    proof (cases x)
      case (fields p u b)
      have "queue_of rd (heap w') j = Some (p, u, b)" if j: "queue_of rd (heap w) j = Some (p, u, b)"
      proof -
        from j obtain table where t: "heap w (rd_qps_ptr rd) = Some (O_qp_table table)" "unat j < List.length table"
          "p = table ! unat j" "heap w p = Some (O_qp u)" "heap w (qp_sq u) = Some (O_rdma_buff b)"
          by (auto simp: queue_of_iff)
        have "qp_sq u \<notin> set (owned q)"
          using queues_okD(2) [OF coherentD(6) [OF c] j i False] by (auto simp: owned_def)
        with t keep apart [OF t(1)] apart [OF t(4)] show ?thesis by (auto simp: queue_of_iff)
      qed
      moreover have "queue_of rd (heap w) j = Some (p, u, b)" if "queue_of rd (heap w') j = Some (p, u, b)"
        using that by (auto simp: queue_of_iff dest!: sub)
      ultimately show ?thesis unfolding fields by blast
    qed
    then have "queue_of rd (heap w') j = queue_of rd (heap w) j" by (rule option_eqI)
    with False show ?thesis by simp
  qed
qed

lemma released_coherent:
  assumes c: "coherent rdev rd ws w" and i: "queue_of rd (heap w) i = Some (qp, q, sq)"
    and h: "heap w' = release (owned q) (heap w)" and ok': "world_ok w'" "next_ptr w \<le> next_ptr w'"
    and other: "\<And>j r. valid_qpid j \<Longrightarrow> j \<noteq> i \<Longrightarrow> r \<in> set state_regs \<Longrightarrow> reg_of rd r j (hist w') = reg_of rd r j (hist w)"
    and zero: "counter_of rd RN_RDMA_QCSR_SQPIi i (hist w') = 0" "counter_of rd RN_RDMA_QCSR_RQCIi i (hist w') = 0"
  shows "coherent rdev rd ws w'"
proof -
  note q_of [simp] = released_queue_of [OF c i h] and keep = released_keeps [OF h] and apart = not_owned [OF c i]
  note Q = coherentD(6) [OF c] and y = coherentD(7) [OF c]
  from c obtain table where t: "heap w (rd_qps_ptr rd) = Some (O_qp_table table)" by (rule coherent_table)
  from c obtain d bb where rn: "heap w (rd_rn_dev rd) = Some (O_rn_dev d)" "heap w (rn_base_buf d) = Some (O_rdma_buff bb)"
    by (rule coherent_rn)
  have base: "heap w' (rn_base_buf d) = Some (O_rdma_buff bb)"
    using keep [OF queues_okD(3) [OF Q i rn(1)]] rn(2) by simp
  have kept: "heap w' p = Some ob" if "heap w p = Some ob" "\<nexists>b. ob = O_rdma_buff b" "\<nexists>pd. ob = O_pd pd" for p ob
    using keep [OF apart [OF that]] that(1) by simp
  have sub: "heap w p = Some ob" if "heap w' p = Some ob" for p ob
    using that by (auto simp: h release_def split: if_splits)
  have theirs: "heap w' p = heap w p" if "queue_of rd (heap w) j = Some (p', u, b)" "j \<noteq> i" "p \<in> set (owned u)" for j p p' u b
    using queues_okD(2) [OF Q that(1) i that(2)] that(3) by (intro keep) auto
  have mark: "host_mark (rd_rn_dev rd) w' = host_mark (rd_rn_dev rd) w"
    using kept [OF rn(1)] rn base by (simp add: host_mark_def)
  have "lib_state rdev rd ws w'"
    using ok'(1) coherentD(2) [OF c] kept [OF coherentD(3) [OF c]] kept [OF coherentD(4) [OF c]] kept [OF rn(1)] base kept [OF t]
    by (simp add: lib_state_def)
  moreover have "queues_ok rdev rd w'"
  proof (rule queues_okI)
    show "queue_ok rdev w' j u" if "queue_of rd (heap w') j = Some (p, u, b)" for j p u b
    proof -
      from that have j: "queue_of rd (heap w) j = Some (p, u, b)" "j \<noteq> i" by (auto split: if_splits)
      have "heap w' (qp_rq u) = heap w (qp_rq u)" "heap w' (qp_cq u) = heap w (qp_cq u)"
        "heap w' (qp_pd_entry u) = heap w (qp_pd_entry u)"
        using theirs [OF j] by (simp_all add: owned_def)
      with queues_okD(1) [OF Q j(1)] show ?thesis by (simp add: queue_ok_def)
    qed
    show "set (owned u) \<inter> set (owned u') = {}"
      if "queue_of rd (heap w') j = Some (p, u, b)" "queue_of rd (heap w') k = Some (p', u', b')" "j \<noteq> k"
      for j p u b k p' u' b'
      using that queues_okD(2) [OF Q, of j p u b k p' u' b'] by (simp split: if_splits)
    show "rn_base_buf e \<notin> set (owned u)"
      if "queue_of rd (heap w') j = Some (p, u, b)" "heap w' (rd_rn_dev rd) = Some (O_rn_dev e)" for j p u b e
      using that queues_okD(3) [OF Q, of j p u b e] sub by (simp split: if_splits)
    show "p < next_ptr w' \<and> (\<forall>u. heap w' p = Some (O_qp u) \<longrightarrow> qp_sq u < next_ptr w')"
      if "heap w' (rd_qps_ptr rd) = Some (O_qp_table t')" "p \<in> set t'" for t' p
      using queues_okD(4) [OF Q sub [OF that(1)] that(2)] ok'(2) sub by fastforce
  qed
  moreover have "registers_agree rd ws w' j" if j: "valid_qpid j" for j
  proof (cases "j = i")
    case True
    then show ?thesis using zero by (simp add: registers_agree_def)
  next
    case False
    have "registers_agree rd ws (w'\<lparr>heap := heap w\<rparr>) j"
      by (rule registers_agree_frame [OF coherentD(8) [OF c j]]) (use other [OF j False] in simp_all)
    then show ?thesis
      by (rule registers_agree_heap) (use False theirs in simp_all)
  qed
  moreover have "layout_ok rd w'"
  proof (rule layout_okI)
    show "host_mark (rd_rn_dev rd) w' < 2 ^ 64" using layout_okD(1) [OF y] by (simp add: mark)
    show "is_device_address (buf_dma_addr b) = 0 \<and> snd (sq_bytes u b) \<le> host_mark (rd_rn_dev rd) w' \<and>
        unat (qp_sq_pidb u) \<le> unat (qp_qdepth u)" if "queue_of rd (heap w') j = Some (p, u, b)" for j p u b
      using that layout_okD(2) [OF y, of j p u b] by (simp add: mark split: if_splits)
    show "snd (sq_bytes u b) \<le> fst (sq_bytes u' b') \<or> snd (sq_bytes u' b') \<le> fst (sq_bytes u b)"
      if "queue_of rd (heap w') j = Some (p, u, b)" "queue_of rd (heap w') k = Some (p', u', b')" "j \<noteq> k"
      for j p u b k p' u' b'
      using that layout_okD(3) [OF y, of j p u b k p' u' b'] by (simp split: if_splits)
  qed
  ultimately show ?thesis by (simp add: coherent_def)
qed

subsection \<open>\<open>destroy_rdma_qp\<close>\<close>

lemma adconf_no_queue:
  assumes "r \<in> set QCSR_REGS" and "valid_qpid i"
  shows "get_rdma_per_q_config_addr r i \<noteq> RN_RDMA_GCSR_XRNICADCONF"
proof -
  have "unat (i - 1) < 256" using assms(2) by (simp add: valid_qpid_def word_less_nat_alt)
  from queue_bank.addr_bounds [OF assms(1) this] show ?thesis by (auto simp: reg_defs)
qed

lemma queue_addr_inject:
  assumes "r \<in> set QCSR_REGS" and "r' \<in> set QCSR_REGS" and "valid_qpid i" and "valid_qpid j"
  shows "get_rdma_per_q_config_addr r i = get_rdma_per_q_config_addr r' j \<longleftrightarrow> r = r' \<and> i = j"
  using reg_of_inject [OF assms] by simp

lemma destroy_step:
  assumes c: "coherent rdev rd ws w" and i: "queue_of rd (heap w) i = Some (qp, q, sq)"
    and run: "destroy_rdma_qp E qp w = Some (Ret r, w')"
  shows "coherent rdev rd ws w' \<and> same_machine w w' \<and> (\<forall>j. lane rd w' j = (if j = i then None else lane rd w j))"
proof -
  from c i have l: "heap w qp = Some (O_qp q)" "qp \<noteq> NULL" "qp_qpid q = i" "valid_qpid i" "qp_rdma_dev q = rdev"
    by (rule liveE, simp)+
  have "heap w (qp_rdma_dev q) = Some (O_rdma_dev rd)" using coherentD(3) [OF c] l(5) by simp
  from destroy_rdma_qp_Ret [OF l(2,1) this run] obtain w1 w2 u where h: "heap w' = release (owned q) (heap w)"
    and o: "only_reg (rd_axil_ctl rd + ucast (get_rdma_per_q_config_addr RN_RDMA_QCSR_QPCONFi i)) w w1"
    and reset: "reset_qp E (rd_axil_ctl rd) i w1 = Some (Ret u, w2)" and hist: "hist w' = hist w2"
    by (auto simp: l(3))
  have ok': "world_ok w'" "next_ptr w \<le> next_ptr w'"
    using keepsD [OF keeps_destroy_rdma_qp run] coherentD(1) [OF c] by (simp_all add: steps_ok_def)
  have reset_in: "set reset_regs \<subseteq> set QCSR_REGS" and conf: "RN_RDMA_QCSR_QPCONFi \<in> set QCSR_REGS"
    by (simp_all add: reset_regs_def QCSR_REGS_def)
  have regs: "reg_of rd r j (hist w') = (if j = i \<and> r \<in> set reset_regs then Some 0 else reg_of rd r j (hist w))"
    if r: "r \<in> set QCSR_REGS" "r \<noteq> RN_RDMA_QCSR_QPCONFi" and j: "valid_qpid j" for r j
  proof -
    let ?x = "get_rdma_per_q_config_addr r j"
    have "?x \<in> (\<lambda>r. get_rdma_per_q_config_addr r i) ` set reset_regs \<longleftrightarrow> j = i \<and> r \<in> set reset_regs"
      using queue_addr_inject [OF r(1) _ j l(4)] reset_in by blast
    moreover have "?x \<noteq> RN_RDMA_GCSR_XRNICADCONF" by (rule adconf_no_queue [OF r(1) j])
    moreover have ne: "?x \<noteq> get_rdma_per_q_config_addr RN_RDMA_QCSR_QPCONFi i"
      using queue_addr_inject [OF r(1) conf j l(4)] r(2) by blast
    moreover have "reg32 (hist w1) (rd_axil_ctl rd) ?x = reg32 (hist w) (rd_axil_ctl rd) ?x"
      using o ne by (simp add: only_reg_def reg32_def)
    ultimately show ?thesis
      using reset_qp_registers [OF reset] by (simp add: reg_of_def hist)
  qed
  have state: "r \<in> set QCSR_REGS" "r \<noteq> RN_RDMA_QCSR_QPCONFi" if "r \<in> set state_regs" for r
    using that state_regs_QCSR by (auto simp: state_regs_def reg_defs)
  have "RN_RDMA_QCSR_SQPIi \<in> set reset_regs" "RN_RDMA_QCSR_RQCIi \<in> set reset_regs"
    "RN_RDMA_QCSR_SQPIi \<in> set state_regs" "RN_RDMA_QCSR_RQCIi \<in> set state_regs"
    by (simp_all add: reset_regs_def state_regs_def)
  then have "counter_of rd RN_RDMA_QCSR_SQPIi i (hist w') = 0" "counter_of rd RN_RDMA_QCSR_RQCIi i (hist w') = 0"
    using regs [OF state] l(4) by (simp_all add: counter_of_def)
  with regs [OF state] have "coherent rdev rd ws w'"
    by (intro released_coherent [OF c i h ok']) simp_all
  moreover have "same_machine w w'" by (rule keepsD [OF keeps_destroy_machine run])
  ultimately show ?thesis by (simp add: lane_def released_queue_of [OF c i h])
qed

end
