(* ===== verification/Queue_Batch.thy ===== *)
theory Queue_Batch
  imports Queue_Steps
begin

text \<open>
  Batches: elements in consecutive slots of a send queue and one move of the doorbell over them, as
  the batched programs send. The memory that they leave, and their effect on a coherent state.
\<close>

subsection \<open>The calls\<close>

primrec create_wqes :: "env \<Rightarrow> ptr \<Rightarrow> u32 \<Rightarrow> u32 \<Rightarrow> request list \<Rightarrow> unit io" where
  "create_wqes E rdma_dev qpid wqe_idx [] = returnM ()"
| "create_wqes E rdma_dev qpid wqe_idx (r # rs) =
     thenM (create_a_wqe E rdma_dev qpid (rq_wrid r) wqe_idx (rq_laddr r) (rq_length r) (rq_opcode r)
              (rq_remote r) (rq_key r) 0 0 0 0 (rq_immdt r))
       (create_wqes E rdma_dev qpid (wqe_idx + 1) rs)"

definition submit_batch :: "env \<Rightarrow> ptr \<Rightarrow> u32 \<Rightarrow> u32 \<Rightarrow> request list \<Rightarrow> i32 io" where
  "submit_batch E rdma_dev qpid wqe_idx rs =
     thenM (create_wqes E rdma_dev qpid wqe_idx rs)
       (rdma_post_batch_send E rdma_dev qpid (word_of_nat (List.length rs)))"

lemma keeps_create_wqes [keeps_intros]: "keeps steps_ok (create_wqes E rdev i idx rs)"
  by (induction rs arbitrary: idx) (auto intro!: keeps_intros)

lemma keeps_batch_machine [keeps_intros]: "keeps same_machine (rdma_post_batch_send E rdev qpid n)"
  unfolding rdma_post_batch_send_def Let_def by (intro keeps_intros keeps_batch_loop)

lemma keeps_submit_batch: "keeps steps_ok (submit_batch E rdev i idx rs)"
  unfolding submit_batch_def by (intro keeps_intros)

subsection \<open>Consecutive slots\<close>

primrec store_slots :: "(u64 \<Rightarrow> u8) \<Rightarrow> u64 \<Rightarrow> nat \<Rightarrow> u8 list list \<Rightarrow> u64 \<Rightarrow> u8" where
  "store_slots m a k [] = m"
| "store_slots m a k (e # es) = store_slots (store_bytes m (a + word_of_nat (64 * k)) e) a (Suc k) es"

lemma slot_store_slots:
  assumes "\<forall>e \<in> set es. List.length e = 64" and "k + List.length es \<le> 2 ^ 32" and "k' < 2 ^ 32"
  shows "slot_bytes (store_slots m a k es) a k' =
    (if k \<le> k' \<and> k' < k + List.length es then es ! (k' - k) else slot_bytes m a k')"
  using assms(1,2)
proof (induction es arbitrary: m k)
  case (Cons e es)
  then show ?case
    using slot_store [of k k' e m a] assms(3)
    by (auto simp: nth_Cons' simp del: of_nat_mult)
qed auto

lemma slots_appended:
  assumes "\<forall>e \<in> set es. List.length e = 64" and "n + List.length es < 2 ^ 32"
  shows "map (slot_bytes (store_slots m a n es) a) [0..<n + List.length es] = map (slot_bytes m a) [0..<n] @ es"
  by (rule nth_equalityI) (use assms in \<open>auto simp: slot_store_slots nth_append\<close>)

subsection \<open>The elements\<close>

lemma create_wqes_run:
  assumes "heap w rdev = Some (O_rdma_dev rd)" and "heap w (rd_winSize rd) = Some (O_win_size ws)"
    and "heap w (rd_qps_ptr rd) = Some (O_qp_table table)" and "unat qpid < List.length table"
    and "heap w (table ! unat qpid) = Some (O_qp q)" and "heap w (qp_sq q) = Some (O_rdma_buff sq)"
    and "is_device_address (buf_dma_addr sq) = 0" and "n + List.length rs < 2 ^ 32"
  shows "\<exists>w'. create_wqes E rdev qpid (word_of_nat n) rs w = Some (Ret (), w') \<and> heap w' = heap w \<and>
    last_write (hist w') = last_write (hist w) \<and>
    (\<forall>m0. m_host (replay m0 (hist w')) =
      store_slots (m_host (replay m0 (hist w))) (buf_buffer sq) n (map (element ws) rs))"
  using assms
proof (induction rs arbitrary: n w)
  case Nil
  then show ?case by (simp add: run_simps)
next
  case (Cons r rs)
  have n: "unat (word_of_nat n :: u32) = n" "(word_of_nat n :: u32) + 1 = word_of_nat (Suc n)"
  proof -
    have "n < 2 ^ 32" using Cons.prems(8) by simp
    then show "unat (word_of_nat n :: u32) = n" by (simp add: unat_of_nat take_bit_nat_eq_self)
  qed (simp add: add.commute)
  let ?a = "buf_buffer sq + ucast (word_of_nat n :: u32) * WQE_SIZE"
  let ?w1 = "emit (Mem_Store ?a (element ws r)) (emit (Mem_Store ?a (replicate 64 0)) w)"
  have "ucast idx * WQE_SIZE = (word_of_nat (64 * unat idx) :: u64)" for idx :: u32
    by (simp add: WQE_SIZE_def mult.commute of_nat_unat)
  from this [of "word_of_nat n"] have a: "?a = buf_buffer sq + word_of_nat (64 * n)"
    by (simp only: n(1))
  have create: "create_a_wqe E rdev qpid (rq_wrid r) (word_of_nat n) (rq_laddr r) (rq_length r) (rq_opcode r)
      (rq_remote r) (rq_key r) 0 0 0 0 (rq_immdt r) w = Some (Ret (), ?w1)"
    using create_a_wqe_host_run [OF Cons.prems(1-7)] by (simp add: Let_def element_def)
  have mem: "m_host (replay m0 (hist ?w1)) = store_bytes (m_host (replay m0 (hist w))) (buf_buffer sq + word_of_nat (64 * n))
      (element ws r)" for m0
    by (simp add: a store_bytes_over del: of_nat_mult)
  from Cons.IH [of ?w1 "Suc n"] Cons.prems obtain w' where
    "create_wqes E rdev qpid (word_of_nat (Suc n)) rs ?w1 = Some (Ret (), w')" "heap w' = heap w"
    "last_write (hist w') = last_write (hist w)"
    "\<forall>m0. m_host (replay m0 (hist w')) =
      store_slots (m_host (replay m0 (hist ?w1))) (buf_buffer sq) (Suc n) (map (element ws) rs)" by auto
  then show ?case
    unfolding mem
    by (intro exI [where x = w']) (simp add: thenM_Ret [where m = "create_a_wqe _ _ _ _ _ _ _ _ _ _ _ _ _ _ _", OF create] n(2) del: of_nat_Suc of_nat_mult)
qed

subsection \<open>A batch on a coherent state\<close>

lemma batch_step:
  assumes c: "coherent rdev rd ws w" and i: "queue_of rd (heap w) i = Some (qp, q, sq)"
    and room: "unat (qp_sq_pidb q) + List.length rs \<le> unat (qp_qdepth q)"
    and run: "submit_batch E rdev i (qp_sq_pidb q) rs w = Some (Ret rc, w')"
  shows "coherent rdev rd ws w' \<and>
    (\<forall>j. lane rd w' j = (if j = i then Some (qp_sq_pidb q + word_of_nat (List.length rs), qp_qdepth q, sq) else lane rd w j)) \<and>
    (\<forall>m0. m_host (replay m0 (hist w')) = store_slots (m_host (replay m0 (hist w))) (buf_buffer sq)
      (unat (qp_sq_pidb q)) (map (element ws) rs))"
proof -
  let ?n = "word_of_nat (List.length rs) :: u32"
  from c i obtain table where t: "heap w (rd_qps_ptr rd) = Some (O_qp_table table)" "unat i < List.length table"
    "table ! unat i = qp" "heap w qp = Some (O_qp q)" "heap w (qp_sq q) = Some (O_rdma_buff sq)" by (rule liveE)
  have small: "unat (qp_sq_pidb q) + List.length rs < 2 ^ 32" using room unat_u32_less [of "qp_qdepth q"] by simp
  have host: "is_device_address (buf_dma_addr sq) = 0" using layout_okD(2) [OF coherentD(7) [OF c] i] by simp
  from create_wqes_run [OF coherentD(3,4) [OF c] t(1,2) _ t(5) host small, of E] t(3,4) obtain w1 where
    create: "create_wqes E rdev i (qp_sq_pidb q) rs w = Some (Ret (), w1)"
    and w1: "heap w1 = heap w" "last_write (hist w1) = last_write (hist w)"
    and mem: "\<forall>m0. m_host (replay m0 (hist w1)) = store_slots (m_host (replay m0 (hist w))) (buf_buffer sq)
      (unat (qp_sq_pidb q)) (map (element ws) rs)" by auto
  have post: "rdma_post_batch_send E rdev i ?n w1 = Some (Ret rc, w')"
    using run by (simp add: submit_batch_def thenM_Ret [where m = "create_wqes E rdev i (qp_sq_pidb q) rs", OF create])
  have "heap w1 rdev = Some (O_rdma_dev rd)" "heap w1 (rd_qps_ptr rd) = Some (O_qp_table table)"
    "heap w1 (table ! unat i) = Some (O_qp q)" using coherentD(3) [OF c] t by (simp_all add: w1)
  from batch_send_Ret [OF coherentD(2) [OF c] this(1,2) t(2) this(3) post] obtain x s where
    h: "heap w' = (heap w)(qp \<mapsto> O_qp (q\<lparr>qp_sq_pidb := qp_sq_pidb q + ?n, qp_cq_cidb := x, qp_sq_cidb := s\<rparr>))"
      (is "_ = (heap w)(qp \<mapsto> O_qp ?q)")
    and lw: "last_write (hist w') = (last_write (hist w))
      (rd_axil_ctl rd + ucast (get_rdma_per_q_config_addr RN_RDMA_QCSR_SQPIi i) \<mapsto> qp_sq_pidb q + ?n)"
    by (auto simp: w1 t(3))
  have w': "world_ok w'" "next_ptr w \<le> next_ptr w'"
    using keepsD [OF keeps_submit_batch run] coherentD(1) [OF c] by (simp_all add: steps_ok_def)
  have "unat ?n = List.length rs" using small by (simp add: unat_of_nat take_bit_nat_eq_self)
  then have "unat (qp_sq_pidb q + ?n) = unat (qp_sq_pidb q) + List.length rs"
    using small by (simp add: unat_word_ariths)
  then have "coherent rdev rd ws w' \<and>
      (\<forall>j. queue_of rd (heap w') j = (if j = i then Some (qp, ?q, sq) else queue_of rd (heap w) j))"
    by (intro coherent_register [OF c i w' h _ _ lw])
      (use room in \<open>simp_all add: same_queue_def psn_registers counter_registers\<close>)
  moreover have "replay m0 (hist w') = replay m0 (hist w1)" for m0
    using keepsD [OF keeps_batch_machine post] by (simp add: same_machine_def)
  ultimately show ?thesis using mem by (auto simp: lane_def)
qed

subsection \<open>Batches that return\<close>

text \<open>
  When the completion counter of the device has passed the batch, the wait ends: the first poll
  either sees it, or gives up because it still equals the counter of the last send; then -1
  takes the place of that counter and the next poll sees it.
\<close>

lemma batch_loop_done:
  "heap w qp = Some (O_qp q) \<Longrightarrow> sint (qp_sq_pidb q) \<le> sint (qp_cq_cidb q) \<Longrightarrow>
   batch_loop E rdev qpid qp w = Some (Ret (), w)"
  by (subst batch_loop.simps) (simp add: run_simps)

lemma batch_loop_step:
  assumes "heap w rdev = Some (O_rdma_dev rd)" and "heap w qp = Some (O_qp q)"
    and below: "sint (qp_cq_cidb q) < sint (qp_sq_pidb q)" and "\<forall>h. t \<le> sint (env_mmio_read E h (cq_head_addr rd qpid))"
  shows "\<exists>c w'. batch_loop E rdev qpid qp w = batch_loop E rdev qpid qp w' \<and>
    heap w' = (heap w)(qp \<mapsto> O_qp (q\<lparr>qp_cq_cidb := c, qp_sq_cidb := c\<rparr>)) \<and>
    (t \<le> sint c \<or> c = - 1 \<and> t \<le> sint (qp_sq_cidb q))"
proof -
  let ?v = "\<lambda>n. sample_value (mmio_sample E (cq_head_addr rd qpid)) n w"
  have ge: "t \<le> sint (?v n)" for n
    using assms(4) by (simp add: sample_value_def mmio_sample_def Let_def)
  from poll_cq_cidb_cases [OF assms(1), of E qpid "qp_sq_cidb q"] obtain c w1 where
    p: "poll_cq_cidb E rdev qpid (qp_sq_cidb q) w = Some (Ret c, w1)"
    and c: "(\<exists>n. c = ?v n) \<or> c = - 1 \<and> ?v 0 = qp_sq_cidb q" by auto
  have "heap w1 = heap w" using keepsD [OF keeps_poll_cq_cidb(2) p] by (simp add: same_store_def)
  with p assms(2) below have "batch_loop E rdev qpid qp w =
      batch_loop E rdev qpid qp (w1\<lparr>heap := (heap w)(qp \<mapsto> O_qp (q\<lparr>qp_cq_cidb := c, qp_sq_cidb := c\<rparr>))\<rparr>)"
    by (subst batch_loop.simps) (simp add: run_simps)
  moreover have "t \<le> sint c" if "c = ?v n" for n using ge that by simp
  moreover have "t \<le> sint (qp_sq_cidb q)" if "?v 0 = qp_sq_cidb q" using ge [of 0] that by simp
  moreover note c
  ultimately show ?thesis by force
qed

lemma batch_loop_returns:
  assumes rd: "heap w rdev = Some (O_rdma_dev rd)" and q: "heap w qp = Some (O_qp q)"
    and fin: "\<forall>h. sint (qp_sq_pidb q) \<le> sint (env_mmio_read E h (cq_head_addr rd qpid))"
    and pos: "0 \<le> sint (qp_sq_pidb q)"
  shows "\<exists>w'. batch_loop E rdev qpid qp w = Some (Ret (), w')"
proof (cases "sint (qp_cq_cidb q) < sint (qp_sq_pidb q)")
  case False
  with batch_loop_done [OF q] show ?thesis by auto
next
  case True
  from batch_loop_step [OF rd q True fin] obtain c w1 where
    one: "batch_loop E rdev qpid qp w = batch_loop E rdev qpid qp w1"
    and w1: "heap w1 = (heap w)(qp \<mapsto> O_qp (q\<lparr>qp_cq_cidb := c, qp_sq_cidb := c\<rparr>))" (is "_ = _(qp \<mapsto> O_qp ?q1)")
    and c: "sint (qp_sq_pidb q) \<le> sint c \<or> c = - 1 \<and> sint (qp_sq_pidb q) \<le> sint (qp_sq_cidb q)" by blast
  show ?thesis
  proof (cases "sint (qp_sq_pidb q) \<le> sint c")
    case True
    with one batch_loop_done [of w1 qp ?q1] w1 show ?thesis by auto
  next
    case False
    with c have m: "c = - 1" by blast
    have "rdev \<noteq> qp" using rd q by auto
    then have rd1: "heap w1 rdev = Some (O_rdma_dev rd)" using rd w1 by simp
    have q1: "heap w1 qp = Some (O_qp ?q1)" using w1 by simp
    have "sint (qp_cq_cidb ?q1) < sint (qp_sq_pidb ?q1)" using pos m by simp
    from batch_loop_step [OF rd1 q1 this] fin obtain d w2 where
      two: "batch_loop E rdev qpid qp w1 = batch_loop E rdev qpid qp w2"
      and w2: "heap w2 = (heap w1)(qp \<mapsto> O_qp (?q1\<lparr>qp_cq_cidb := d, qp_sq_cidb := d\<rparr>))"
      and d: "sint (qp_sq_pidb q) \<le> sint d \<or> d = - 1 \<and> sint (qp_sq_pidb q) \<le> sint (qp_sq_cidb ?q1)" by blast
    have "sint (qp_sq_pidb q) \<le> sint d" using d pos m by simp
    with one two batch_loop_done [of w2 qp "?q1\<lparr>qp_cq_cidb := d, qp_sq_cidb := d\<rparr>"] w2 show ?thesis by auto
  qed
qed

lemma sint_unat_small: "unat (x :: i32) < 2 ^ 31 \<Longrightarrow> sint x = int (unat x)"
proof -
  assume "unat x < 2 ^ 31"
  then have "int (unat x) < int (2 ^ 31)" by (simp only: of_nat_less_iff)
  then show ?thesis using sint_uint_small [of x] by simp
qed

lemma submit_batch_returns:
  assumes c: "coherent rdev rd ws w" and i: "queue_of rd (heap w) i = Some (qp, q, sq)"
    and room: "unat (qp_sq_pidb q) + List.length rs \<le> unat (qp_qdepth q)" and depth: "unat (qp_qdepth q) < 2 ^ 31"
    and fin: "\<forall>h. int (unat (qp_sq_pidb q) + List.length rs) \<le> sint (env_mmio_read E h (cq_head_addr rd i))"
  shows "\<exists>rc w'. submit_batch E rdev i (qp_sq_pidb q) rs w = Some (Ret rc, w')"
proof -
  let ?n = "word_of_nat (List.length rs) :: u32" and ?p = "qp_sq_pidb q + word_of_nat (List.length rs)"
  from c i obtain table where t: "heap w (rd_qps_ptr rd) = Some (O_qp_table table)" "unat i < List.length table"
    "table ! unat i = qp" "heap w qp = Some (O_qp q)" "heap w (qp_sq q) = Some (O_rdma_buff sq)" "rdev \<noteq> qp" by (rule liveE)
  have small: "unat (qp_sq_pidb q) + List.length rs < 2 ^ 32" using room depth by simp
  have host: "is_device_address (buf_dma_addr sq) = 0" using layout_okD(2) [OF coherentD(7) [OF c] i] by simp
  from create_wqes_run [OF coherentD(3,4) [OF c] t(1,2) _ t(5) host small, of E] t(3,4) obtain w1 where
    create: "create_wqes E rdev i (qp_sq_pidb q) rs w = Some (Ret (), w1)" and w1: "heap w1 = heap w" by auto
  have n: "unat ?n = List.length rs" using small by (simp add: unat_of_nat take_bit_nat_eq_self)
  then have p: "unat ?p = unat (qp_sq_pidb q) + List.length rs" using small by (simp add: unat_word_ariths)
  have le: "?n \<le> qp_qdepth q" "?p \<le> qp_qdepth q" using room n p by (simp_all add: word_le_nat_alt)
  have "heap w1 rdev = Some (O_rdma_dev rd)" "heap w1 (rd_qps_ptr rd) = Some (O_qp_table table)"
    "heap w1 (table ! unat i) = Some (O_qp q)" using coherentD(3) [OF c] t by (simp_all add: w1)
  from batch_send_enters_loop [OF coherentD(2) [OF c] this(1,2) t(2) this(3) le, of E] obtain w2 where
    enter: "rdma_post_batch_send E rdev i ?n w1 = thenM (batch_loop E rdev i qp) (bindM (load as_qp qp) (\<lambda>q.
        returnM (if is_negative (qp_cq_cidb q) then - 1 else 0))) w2"
    and w2: "heap w2 = (heap w)(qp \<mapsto> O_qp (q\<lparr>qp_sq_pidb := ?p\<rparr>))" by (auto simp: t(3) w1)
  have "unat ?p < 2 ^ 31" using p room depth by simp
  then have "sint ?p = int (unat ?p)" by (rule sint_unat_small)
  with fin p have "\<forall>h. sint ?p \<le> sint (env_mmio_read E h (cq_head_addr rd i))" "0 \<le> sint ?p" by auto
  with batch_loop_returns [of w2 rdev rd qp "q\<lparr>qp_sq_pidb := ?p\<rparr>" E i] w2 coherentD(3) [OF c] t(6)
  obtain w3 where loop: "batch_loop E rdev i qp w2 = Some (Ret (), w3)" by auto
  have "waited qp (q\<lparr>qp_sq_pidb := ?p\<rparr>) w2 w3" by (rule batch_loop_Ret [OF loop]) (simp add: w2)
  then obtain q3 where "heap w3 qp = Some (O_qp q3)" by (auto simp: waited_def)
  with enter loop show ?thesis
    by (simp add: submit_batch_def thenM_Ret [where m = "create_wqes E rdev i (qp_sq_pidb q) rs", OF create] run_simps)
qed

end
