(* ===== verification/Queue_Protocol.thy ===== *)
theory Queue_Protocol
  imports Queue_New Queue_Gone Queue_Batch
begin

text \<open>
  The queue pairs of a device over whole runs of the library: the calls as steps of a transition
  relation, the invariant of the reachable states, and the refinement of the table of
  append-only queues that the device sees.
\<close>

subsection \<open>Calls\<close>

datatype call =
    Allocate_Buffer u64 string
  | Allocate_Pd u32
  | Register_Region ptr u32 ptr                           \<comment> \<open>domain, key, buffer\<close>
  | Allocate_Qp u32 u32 ptr u64 u64 u32 ptr u32 u32       \<comment> \<open>number, remote number, domain, two doorbell addresses, depth, MAC, IP, partition\<close>
  | Set_Last_Rq_Psn u32 u32
  | Set_Sq_Psn u32 u32
  | Submit u32 request
  | Submit_Batch u32 "request list"
  | Receive u32
  | Release u32
  | Destroy u32

text \<open>
  The code of each call. A queue pair is named by its number, as the programs find it; a request
  goes to the next slot, the one that the producer counter names, a batch to the slots from there on.
\<close>

definition the_queue :: "rdma_dev_t \<Rightarrow> u32 \<Rightarrow> (ptr \<Rightarrow> 'a io) \<Rightarrow> unit io" where
  "the_queue rd qpid f = bindM (qps_index rd qpid) (\<lambda>qp. thenM (f qp) (returnM ()))"

fun run_call :: "env \<Rightarrow> ptr \<Rightarrow> rdma_dev_t \<Rightarrow> call \<Rightarrow> unit io" where
  "run_call E rdev rd (Allocate_Buffer n loc) = thenM (allocate_rdma_buffer E (rd_rn_dev rd) n loc) (returnM ())"
| "run_call E rdev rd (Allocate_Pd n) = thenM (allocate_rdma_pd E rdev n) (returnM ())"
| "run_call E rdev rd (Register_Region p key buf) = rdma_register_memory_region rdev p key buf"
| "run_call E rdev rd (Allocate_Qp qpid dst pd cqa rqa depth mac ip key) =
     thenM (allocate_rdma_qp E rdev qpid dst pd cqa rqa depth HOST_MEM mac ip key) (returnM ())"
| "run_call E rdev rd (Set_Last_Rq_Psn qpid psn) = config_last_rq_psn rdev qpid psn"
| "run_call E rdev rd (Set_Sq_Psn qpid psn) = config_sq_psn rdev qpid psn"
| "run_call E rdev rd (Submit qpid r) = the_queue rd qpid (\<lambda>qp.
     bindM (load as_qp qp) (\<lambda>q. submit E rdev qpid (qp_sq_pidb q) r))"
| "run_call E rdev rd (Submit_Batch qpid rs) = the_queue rd qpid (\<lambda>qp.
     bindM (load as_qp qp) (\<lambda>q. submit_batch E rdev qpid (qp_sq_pidb q) rs))"
| "run_call E rdev rd (Receive qpid) = the_queue rd qpid (rdma_post_receive E rdev)"
| "run_call E rdev rd (Release qpid) = the_queue rd qpid (rdma_release_rq_consumed E rdev)"
| "run_call E rdev rd (Destroy qpid) = the_queue rd qpid (destroy_rdma_qp E)"

text \<open>
  What a caller has to respect, since the code does not check it: a queue pair is used and
  destroyed only while it is live and is created only in a free slot, with a protection domain of
  its own; queues and buffers fit below the end of the address space; each request needs a free
  slot (\<open>rdma_post_batch_send\<close> checks the room for a batch, but only after the elements have been
  written, and with a sum that may wrap).
\<close>

definition live :: "rdma_dev_t \<Rightarrow> world \<Rightarrow> u32 \<Rightarrow> bool" where
  "live rd w qpid \<longleftrightarrow> queue_of rd (heap w) qpid \<noteq> None"

fun call_ok :: "rdma_dev_t \<Rightarrow> world \<Rightarrow> call \<Rightarrow> bool" where
  "call_ok rd w (Allocate_Buffer n loc) \<longleftrightarrow>
     (loc = HOST_MEM \<longrightarrow> host_mark (rd_rn_dev rd) w + unat n + 4096 < 2 ^ 64)"
| "call_ok rd w (Allocate_Pd n) \<longleftrightarrow> n < 512"
| "call_ok rd w (Register_Region p key buf) \<longleftrightarrow>
     (case heap w p of Some (O_pd pd) \<Rightarrow> pd_pd_num pd < 512 | _ \<Rightarrow> False)"
| "call_ok rd w (Allocate_Qp qpid dst pd cqa rqa depth mac ip key) \<longleftrightarrow>
     valid_qpid qpid \<and> \<not> live rd w qpid \<and> pd_free rd w pd \<and> host_mark (rd_rn_dev rd) w + 2 ^ 34 < 2 ^ 64 \<and>
     rd_num_qp rd \<noteq> 0 \<and> unat (rd_num_qp rd) * unat depth * 64 < 2 ^ 32"
| "call_ok rd w (Submit qpid r) \<longleftrightarrow>
     (case queue_of rd (heap w) qpid of None \<Rightarrow> False | Some (qp, q, sq) \<Rightarrow> qp_sq_pidb q < qp_qdepth q)"
| "call_ok rd w (Submit_Batch qpid rs) \<longleftrightarrow>
     (case queue_of rd (heap w) qpid of None \<Rightarrow> False
      | Some (qp, q, sq) \<Rightarrow> unat (qp_sq_pidb q) + List.length rs \<le> unat (qp_qdepth q))"
| "call_ok rd w (Set_Last_Rq_Psn qpid psn) \<longleftrightarrow> live rd w qpid"
| "call_ok rd w (Set_Sq_Psn qpid psn) \<longleftrightarrow> live rd w qpid"
| "call_ok rd w (Receive qpid) \<longleftrightarrow> live rd w qpid"
| "call_ok rd w (Release qpid) \<longleftrightarrow> live rd w qpid"
| "call_ok rd w (Destroy qpid) \<longleftrightarrow> live rd w qpid"

inductive call_step :: "env \<Rightarrow> ptr \<Rightarrow> rdma_dev_t \<Rightarrow> world \<Rightarrow> call \<Rightarrow> world \<Rightarrow> bool"
  for E :: env and rdev :: ptr and rd :: rdma_dev_t where
  "call_ok rd w c \<Longrightarrow> run_call E rdev rd c w = Some (Ret (), w') \<Longrightarrow> call_step E rdev rd w c w'"

inductive calls :: "env \<Rightarrow> ptr \<Rightarrow> rdma_dev_t \<Rightarrow> world \<Rightarrow> call list \<Rightarrow> world \<Rightarrow> bool"
  for E :: env and rdev :: ptr and rd :: rdma_dev_t where
  calls_Nil: "calls E rdev rd w [] w"
| calls_Cons: "call_step E rdev rd w c w1 \<Longrightarrow> calls E rdev rd w1 cs w2 \<Longrightarrow> calls E rdev rd w (c # cs) w2"

inductive_simps call_step_iff: "call_step E rdev rd w c w'"

subsection \<open>What the device sees\<close>

text \<open>The capacity of each live queue and the elements below its doorbell.\<close>

definition view :: "rdma_dev_t \<Rightarrow> machine \<Rightarrow> world \<Rightarrow> u32 \<Rightarrow> (nat \<times> u8 list list) option" where
  "view rd m0 w qpid = map_option
     (\<lambda>(qp, q, sq). (unat (qp_qdepth q), posted rd qpid sq m0 (hist w))) (queue_of rd (heap w) qpid)"

text \<open>The specification: a table of bounded append-only queues.\<close>

fun spec_call :: "win_size_t \<Rightarrow> call \<Rightarrow> (u32 \<Rightarrow> (nat \<times> u8 list list) option) \<Rightarrow> u32 \<Rightarrow> (nat \<times> u8 list list) option" where
  "spec_call ws (Allocate_Qp qpid dst pd cqa rqa depth mac ip key) f = f(qpid := Some (unat depth, []))"
| "spec_call ws (Submit qpid r) f = f(qpid := map_option (\<lambda>(n, es). (n, es @ [element ws r])) (f qpid))"
| "spec_call ws (Submit_Batch qpid rs) f = f(qpid := map_option (\<lambda>(n, es). (n, es @ map (element ws) rs)) (f qpid))"
| "spec_call ws (Destroy qpid) f = f(qpid := None)"
| "spec_call ws _ f = f"

definition contents :: "(u64 \<Rightarrow> u8) \<Rightarrow> u32 \<times> u32 \<times> rdma_buff_t \<Rightarrow> nat \<times> u8 list list" where
  "contents m = (\<lambda>(n, depth, sq). (unat depth, map (slot_bytes m (buf_buffer sq)) [0..<unat n]))"

lemma view_lane:
  assumes c: "coherent rdev rd ws w"
  shows "view rd m0 w i = map_option (contents (m_host (replay m0 (hist w)))) (lane rd w i)"
proof (cases "queue_of rd (heap w) i")
  case None
  then show ?thesis by (simp add: view_def lane_def)
next
  case (Some x)
  obtain qp q sq where q: "queue_of rd (heap w) i = Some (qp, q, sq)" using Some by (cases x) auto
  from c q have "valid_qpid i" by (rule liveE)
  from coherentD(8) [OF c this] q have "doorbell rd i (hist w) = qp_sq_pidb q"
    by (simp add: registers_agree_def doorbell_counter)
  with q show ?thesis by (simp add: view_def lane_def contents_def posted_def)
qed

lemma unseen_view:
  assumes "coherent rdev rd ws w" and "unseen rdev rd ws w w'"
  shows "view rd m0 w' = view rd m0 w"
  using assms view_lane [OF assms(1), of m0] view_lane [of rdev rd ws w' m0]
  by (simp add: unseen_def same_machine_def fun_eq_iff)

subsection \<open>Slots of different queues\<close>

lemma outside_store:
  fixes a x :: u64
  assumes "unat a + n \<le> 2 ^ 64" and "\<not> (unat a \<le> unat x \<and> unat x < unat a + n)"
  shows "\<not> unat (x - a) < n"
  using assms unat_u64_less [of x] unat_u64_less [of a] by (auto simp: unat_sub_if')

lemma other_contents:
  assumes apart: "unat (buf_buffer sq) + 64 * unat d \<le> unat (buf_buffer sq') \<or>
      unat (buf_buffer sq') + 64 * unat d' \<le> unat (buf_buffer sq)"
    and top: "unat (buf_buffer sq) + 64 * unat d < 2 ^ 64" "unat (buf_buffer sq') + 64 * unat d' < 2 ^ 64"
    and k: "k < unat d" and n: "unat n \<le> unat d'" and bs: "List.length bs = 64"
  shows "contents (store_bytes m (buf_buffer sq + word_of_nat (64 * k)) bs) (n, d', sq') = contents m (n, d', sq')"
proof -
  let ?a = "buf_buffer sq + word_of_nat (64 * k)"
  have "unat (word_of_nat (64 * k) :: u64) = 64 * k" using top(1) k by (intro unat_of_nat_u64) linarith
  then have a: "unat ?a = unat (buf_buffer sq) + 64 * k"
    using top(1) k by (subst unat_u64_add) (simp_all del: of_nat_mult)
  have "store_bytes m ?a bs (buf_buffer sq' + word_of_nat (64 * l + j)) = m (buf_buffer sq' + word_of_nat (64 * l + j))"
    if "l < unat n" "j < 64" for l j
  proof -
    let ?x = "buf_buffer sq' + word_of_nat (64 * l + j)"
    have l: "64 * l + j < 64 * unat d'" using that n by linarith
    have "unat (word_of_nat (64 * l + j) :: u64) = 64 * l + j" using top(2) l by (intro unat_of_nat_u64) linarith
    then have "unat ?x = unat (buf_buffer sq') + (64 * l + j)"
      using top(2) l by (subst unat_u64_add) (simp_all del: of_nat_mult of_nat_add)
    then have "\<not> (unat ?a \<le> unat ?x \<and> unat ?x < unat ?a + 64)" using apart k l a by linarith
    moreover have "unat ?a + 64 \<le> 2 ^ 64" using top(1) k a by linarith
    ultimately have "\<not> unat (?x - ?a) < 64" by (intro outside_store)
    then show ?thesis by (simp add: store_bytes_def bs del: of_nat_mult of_nat_add)
  qed
  then show ?thesis by (simp add: contents_def slot_bytes_def del: of_nat_mult of_nat_add)
qed

subsection \<open>One step\<close>

definition refines_step :: "ptr \<Rightarrow> rdma_dev_t \<Rightarrow> win_size_t \<Rightarrow> world \<Rightarrow> call \<Rightarrow> world \<Rightarrow> bool" where
  "refines_step rdev rd ws w c w' \<longleftrightarrow> coherent rdev rd ws w' \<and> (\<forall>m0. view rd m0 w' = spec_call ws c (view rd m0 w))"

lemma refines_unseen:
  assumes "coherent rdev rd ws w" and "unseen rdev rd ws w w'" and "\<And>f. spec_call ws c f = f"
  shows "refines_step rdev rd ws w c w'"
  using assms(2,3) unseen_view [OF assms(1,2)] by (simp add: refines_step_def unseen_def)

lemma liveD:
  assumes "live rd w i"
  obtains qp q sq where "queue_of rd (heap w) i = Some (qp, q, sq)"
  using assms by (auto simp: live_def)

lemma the_queue_Ret:
  assumes "coherent rdev rd ws w" and "queue_of rd (heap w) i = Some (qp, q, sq)"
    and "the_queue rd i f w = Some (Ret u, w')"
  obtains x where "f qp w = Some (Ret x, w')"
proof -
  from assms(3) have "thenM (f qp) (returnM ()) w = Some (Ret u, w')"
    unfolding the_queue_def bindM_Ret [where m = "qps_index rd i", OF live_run [OF assms(1,2)]] .
  then show thesis by (auto simp: returnM_def elim!: thenM_RetE intro: that)
qed

lemma other_contents_slots:
  assumes "unat (buf_buffer sq) + 64 * unat d \<le> unat (buf_buffer sq') \<or>
      unat (buf_buffer sq') + 64 * unat d' \<le> unat (buf_buffer sq)"
    and "unat (buf_buffer sq) + 64 * unat d < 2 ^ 64" and "unat (buf_buffer sq') + 64 * unat d' < 2 ^ 64"
    and "unat n \<le> unat d'" and "k + List.length es \<le> unat d" and "\<forall>e \<in> set es. List.length e = 64"
  shows "contents (store_slots m (buf_buffer sq) k es) (n, d', sq') = contents m (n, d', sq')"
  using assms(5,6)
proof (induction es arbitrary: m k)
  case (Cons e es)
  from Cons.IH [of "Suc k"] Cons.prems other_contents [OF assms(1-3) _ assms(4), of k e m] show ?case
    by (simp del: of_nat_mult)
qed simp

text \<open>Elements below a moved doorbell are appended to one queue and leave the slots of all others.\<close>

lemma appended_view:
  assumes c: "coherent rdev rd ws w" and i: "queue_of rd (heap w) i = Some (qp, q, sq)"
    and room: "unat (qp_sq_pidb q) + List.length es \<le> unat (qp_qdepth q)" and es: "\<forall>e \<in> set es. List.length e = 64"
    and c': "coherent rdev rd ws w'"
    and lane: "\<And>j. lane rd w' j =
      (if j = i then Some (qp_sq_pidb q + word_of_nat (List.length es), qp_qdepth q, sq) else lane rd w j)"
    and mem: "m_host (replay m0 (hist w')) =
      store_slots (m_host (replay m0 (hist w))) (buf_buffer sq) (unat (qp_sq_pidb q)) es"
  shows "view rd m0 w' = (view rd m0 w)(i := map_option (\<lambda>(n, xs). (n, xs @ es)) (view rd m0 w i))"
proof
  fix j
  let ?m = "m_host (replay m0 (hist w))" and ?n = "unat (qp_sq_pidb q)"
  let ?m' = "store_slots ?m (buf_buffer sq) ?n es"
  note y = coherentD(7) [OF c]
  have small: "?n + List.length es < 2 ^ 32" using room unat_u32_less [of "qp_qdepth q"] by linarith
  show "view rd m0 w' j = ((view rd m0 w)(i := map_option (\<lambda>(n, xs). (n, xs @ es)) (view rd m0 w i))) j"
  proof (cases "j = i")
    case True
    have "unat (word_of_nat (List.length es) :: u32) = List.length es"
      using small by (simp add: unat_of_nat take_bit_nat_eq_self)
    then have "unat (qp_sq_pidb q + word_of_nat (List.length es)) = ?n + List.length es"
      using small by (simp add: unat_word_ariths)
    with slots_appended [OF es small] have "contents ?m' (qp_sq_pidb q + word_of_nat (List.length es), qp_qdepth q, sq) =
        (case contents ?m (qp_sq_pidb q, qp_qdepth q, sq) of (n, xs) \<Rightarrow> (n, xs @ es))"
      by (simp add: contents_def)
    moreover have "lane rd w i = Some (qp_sq_pidb q, qp_qdepth q, sq)" using i by (simp add: lane_def)
    ultimately show ?thesis
      using True lane [of i] by (simp add: view_lane [OF c'] view_lane [OF c] mem)
  next
    case False
    show ?thesis
    proof (cases "queue_of rd (heap w) j")
      case None
      then show ?thesis
        using False lane [of j] by (simp add: view_lane [OF c'] view_lane [OF c] lane_def)
    next
      case (Some x)
      obtain p u b where j: "queue_of rd (heap w) j = Some (p, u, b)" using Some by (cases x) auto
      have top: "unat (buf_buffer u) + 64 * unat (qp_qdepth v) < 2 ^ 64"
        if "queue_of rd (heap w) k = Some (p, v, u)" for k p v u
        using layout_okD(1) [OF y] layout_okD(2) [OF y that] by (simp add: sq_bytes_def)
      have "contents ?m' (qp_sq_pidb u, qp_qdepth u, b) = contents ?m (qp_sq_pidb u, qp_qdepth u, b)"
        using layout_okD(3) [OF y i j] layout_okD(2) [OF y j] False top [OF i] top [OF j] room es
        by (intro other_contents_slots [of sq "qp_qdepth q" b "qp_qdepth u"]) (auto simp: sq_bytes_def)
      moreover have "lane rd w j = Some (qp_sq_pidb u, qp_qdepth u, b)" using j by (simp add: lane_def)
      ultimately show ?thesis
        using False lane [of j] by (simp add: view_lane [OF c'] view_lane [OF c] mem)
    qed
  qed
qed

lemma submit_runs:
  assumes c: "coherent rdev rd ws w" and ok: "call_ok rd w (Submit i r)"
  shows "\<exists>w'. run_call E rdev rd (Submit i r) w = Some (Ret (), w') \<and> refines_step rdev rd ws w (Submit i r) w'"
proof -
  from ok obtain qp q sq where i: "queue_of rd (heap w) i = Some (qp, q, sq)" and room: "qp_sq_pidb q < qp_qdepth q"
    by (auto split: option.splits)
  from submit_step [OF c i room, of E r] obtain rc w' where
    run: "submit E rdev i (qp_sq_pidb q) r w = Some (Ret rc, w')" and c': "coherent rdev rd ws w'"
    and eff: "\<forall>j. lane rd w' j = (if j = i then Some (qp_sq_pidb q + 1, qp_qdepth q, sq) else lane rd w j)"
      "\<forall>m0. m_host (replay m0 (hist w')) = store_bytes (m_host (replay m0 (hist w)))
        (buf_buffer sq + word_of_nat (64 * unat (qp_sq_pidb q))) (element ws r)" by blast
  have "run_call E rdev rd (Submit i r) w = Some (Ret (), w')"
    using run queue_ofD(1) [OF i] by (simp add: the_queue_def run_simps bindM_Ret [where m = "qps_index rd i", OF live_run [OF c i]])
  moreover have "view rd m0 w' = spec_call ws (Submit i r) (view rd m0 w)" for m0
    using appended_view [OF c i _ _ c', of "[element ws r]" m0] room eff by (simp add: word_less_nat_alt Suc_le_eq del: of_nat_mult)
  ultimately show ?thesis using c' by (auto simp: refines_step_def)
qed

lemma batch_refines:
  assumes c: "coherent rdev rd ws w" and ok: "call_ok rd w (Submit_Batch i rs)"
    and run: "run_call E rdev rd (Submit_Batch i rs) w = Some (Ret (), w')"
  shows "refines_step rdev rd ws w (Submit_Batch i rs) w'"
proof -
  from ok obtain qp q sq where i: "queue_of rd (heap w) i = Some (qp, q, sq)"
    and room: "unat (qp_sq_pidb q) + List.length rs \<le> unat (qp_qdepth q)" by (auto split: option.splits)
  from run obtain x where "bindM (load as_qp qp) (\<lambda>q. submit_batch E rdev i (qp_sq_pidb q) rs) w = Some (Ret x, w')"
    by (auto elim: the_queue_Ret [OF c i])
  with queue_ofD(1) [OF i] have "submit_batch E rdev i (qp_sq_pidb q) rs w = Some (Ret x, w')"
    by (auto elim!: bindM_RetE load_RetE)
  from batch_step [OF c i room this] have c': "coherent rdev rd ws w'"
    and eff: "\<forall>j. lane rd w' j =
        (if j = i then Some (qp_sq_pidb q + word_of_nat (List.length rs), qp_qdepth q, sq) else lane rd w j)"
      "\<forall>m0. m_host (replay m0 (hist w')) = store_slots (m_host (replay m0 (hist w))) (buf_buffer sq)
        (unat (qp_sq_pidb q)) (map (element ws) rs)" by blast+
  have "view rd m0 w' = spec_call ws (Submit_Batch i rs) (view rd m0 w)" for m0
    using appended_view [OF c i _ _ c', of "map (element ws) rs" m0] room eff by simp
  with c' show ?thesis by (simp add: refines_step_def)
qed

text \<open>The calls that the specification does not see.\<close>

fun silent :: "call \<Rightarrow> bool" where
  "silent (Allocate_Qp i dst pdp cqa rqa depth mac ip key) \<longleftrightarrow> False"
| "silent (Submit i r) \<longleftrightarrow> False"
| "silent (Submit_Batch i rs) \<longleftrightarrow> False"
| "silent (Destroy i) \<longleftrightarrow> False"
| "silent _ \<longleftrightarrow> True"

lemma silent_spec: "silent k \<Longrightarrow> spec_call ws k f = f"
  by (cases k) simp_all

lemma thenM_unit_Ret: "thenM m (returnM ()) w = Some (Ret (), w') \<Longrightarrow> \<exists>x. m w = Some (Ret x, w')"
  by (auto simp: returnM_def elim!: thenM_RetE)

lemma silent_unseen:
  assumes ram: "kernel_ram E" and c: "coherent rdev rd ws w" and ok: "call_ok rd w k"
    and run: "run_call E rdev rd k w = Some (Ret (), w')" and "silent k"
  shows "unseen rdev rd ws w w'"
proof (cases k)
  case (Allocate_Buffer n loc)
  with run obtain p where "allocate_rdma_buffer E (rd_rn_dev rd) n loc w = Some (Ret p, w')"
    by (auto dest: thenM_unit_Ret)
  from unseen_allocate_buffer [OF ram c this] ok show ?thesis by (simp add: Allocate_Buffer)
next
  case (Allocate_Pd n)
  with run obtain p where "allocate_rdma_pd E rdev n w = Some (Ret p, w')" by (auto dest: thenM_unit_Ret)
  from unseen_allocate_pd [OF c this] ok show ?thesis by (simp add: Allocate_Pd)
next
  case (Register_Region p key buf)
  with ok obtain pd where "heap w p = Some (O_pd pd)" "pd_pd_num pd < 512"
    by (auto split: option.splits obj.splits)
  from unseen_register_region [OF c _ this] run show ?thesis by (simp add: Register_Region)
next
  case (Set_Last_Rq_Psn i psn)
  with ok obtain qp q sq where "queue_of rd (heap w) i = Some (qp, q, sq)" by (auto elim: liveD)
  from unseen_last_rq_psn [OF c this] run show ?thesis by (simp add: Set_Last_Rq_Psn)
next
  case (Set_Sq_Psn i psn)
  with ok obtain qp q sq where "queue_of rd (heap w) i = Some (qp, q, sq)" by (auto elim: liveD)
  from unseen_sq_psn [OF c this] run show ?thesis by (simp add: Set_Sq_Psn)
next
  case (Receive i)
  with ok obtain qp q sq where i: "queue_of rd (heap w) i = Some (qp, q, sq)" by (auto elim: liveD)
  from run obtain x where "rdma_post_receive E rdev qp w = Some (Ret x, w')"
    by (auto simp: Receive elim: the_queue_Ret [OF c i])
  then show ?thesis by (rule unseen_receive [OF c i])
next
  case (Release i)
  with ok obtain qp q sq where i: "queue_of rd (heap w) i = Some (qp, q, sq)" by (auto elim: liveD)
  from run obtain x where "rdma_release_rq_consumed E rdev qp w = Some (Ret x, w')"
    by (auto simp: Release elim: the_queue_Ret [OF c i])
  then show ?thesis by (rule unseen_release [OF c i])
qed (use assms(5) in simp_all)

lemma step_refines:
  assumes ram: "kernel_ram E" and c: "coherent rdev rd ws w" and step: "call_step E rdev rd w k w'"
  shows "refines_step rdev rd ws w k w'"
proof -
  from step have ok: "call_ok rd w k" and run: "run_call E rdev rd k w = Some (Ret (), w')"
    by (simp_all add: call_step_iff)
  show ?thesis
  proof (cases "silent k")
    case True
    with silent_unseen [OF ram c ok run] show ?thesis by (auto intro: refines_unseen [OF c] silent_spec)
  next
    case False
    then consider i dst pdp cqa rqa depth mac ip key where "k = Allocate_Qp i dst pdp cqa rqa depth mac ip key"
      | i r where "k = Submit i r" | i rs where "k = Submit_Batch i rs" | i where "k = Destroy i" by (cases k) auto
    then show ?thesis
    proof cases
      case 1
      with run obtain qp where
        "allocate_rdma_qp E rdev i dst pdp cqa rqa depth HOST_MEM mac ip key w = Some (Ret qp, w')"
        by (auto dest: thenM_unit_Ret)
      moreover from ok have "valid_qpid i" "queue_of rd (heap w) i = None" "host_mark (rd_rn_dev rd) w + 2 ^ 34 < 2 ^ 64"
        "pd_free rd w pdp" "rd_num_qp rd \<noteq> 0" "unat (rd_num_qp rd) * unat depth * 64 < 2 ^ 32"
        unfolding 1 call_ok.simps live_def by blast+
      ultimately obtain sq where n: "coherent rdev rd ws w'" "same_machine w w'"
        "\<forall>j. lane rd w' j = (if j = i then Some (0, depth, sq) else lane rd w j)"
        using allocate_step [OF ram c] by blast
      then show ?thesis
        by (auto simp: refines_step_def 1 view_lane [OF c] view_lane [OF n(1)] same_machine_def fun_eq_iff
            contents_def)
    next
      case 2
      from submit_runs [OF c ok [unfolded 2], of E] run show ?thesis by (auto simp: 2)
    next
      case 3
      from batch_refines [OF c ok [unfolded 3]] run show ?thesis by (simp add: 3)
    next
      case 4
      with ok obtain qp q sq where i: "queue_of rd (heap w) i = Some (qp, q, sq)" by (auto elim: liveD)
      from run obtain x where "destroy_rdma_qp E qp w = Some (Ret x, w')"
        by (auto simp: 4 elim: the_queue_Ret [OF c i])
      from destroy_step [OF c i this] have n: "coherent rdev rd ws w'" "same_machine w w'"
        "\<forall>j. lane rd w' j = (if j = i then None else lane rd w j)" by blast+
      then show ?thesis
        by (auto simp: refines_step_def 4 view_lane [OF c] view_lane [OF n(1)] same_machine_def fun_eq_iff)
    qed
  qed
qed

lemma calls_refine:
  assumes "kernel_ram E" and "calls E rdev rd w cs w'" and "coherent rdev rd ws w"
  shows "coherent rdev rd ws w' \<and> (\<forall>m0. view rd m0 w' = fold (spec_call ws) cs (view rd m0 w))"
  using assms(2,3)
proof (induction rule: calls.induct)
  case (calls_Cons w c w1 cs w2)
  from step_refines [OF assms(1) calls_Cons.prems calls_Cons.hyps(1)] calls_Cons.IH show ?case
    by (simp add: refines_step_def)
qed simp

text \<open>The rule for requests, in terms of the specification.\<close>

definition has_room :: "nat \<Rightarrow> (nat \<times> u8 list list) option \<Rightarrow> bool" where
  "has_room k x \<longleftrightarrow> (case x of None \<Rightarrow> False | Some (n, es) \<Rightarrow> List.length es + k \<le> n)"

lemma submit_ok_view:
  assumes c: "coherent rdev rd ws w"
  shows "call_ok rd w (Submit i r) \<longleftrightarrow> has_room 1 (view rd m0 w i)"
    and "call_ok rd w (Submit_Batch i rs) \<longleftrightarrow> has_room (List.length rs) (view rd m0 w i)"
proof -
  have "(call_ok rd w (Submit i r) \<longleftrightarrow> has_room 1 (view rd m0 w i)) \<and>
    (call_ok rd w (Submit_Batch i rs) \<longleftrightarrow> has_room (List.length rs) (view rd m0 w i))"
  proof (cases "queue_of rd (heap w) i")
    case None
    then show ?thesis by (simp add: has_room_def view_def)
  next
    case (Some x)
    obtain qp q sq where "queue_of rd (heap w) i = Some (qp, q, sq)" using Some by (cases x) auto
    then show ?thesis
      by (simp add: has_room_def view_lane [OF c] lane_def contents_def word_less_nat_alt Suc_le_eq)
  qed
  then show "call_ok rd w (Submit i r) \<longleftrightarrow> has_room 1 (view rd m0 w i)"
    "call_ok rd w (Submit_Batch i rs) \<longleftrightarrow> has_room (List.length rs) (view rd m0 w i)" by blast+
qed

subsection \<open>Calls that return\<close>

text \<open>
  The calls that need no luck with the kernel or the device, a batch that the device has completed by
  the time it is asked, and the destruction of an idle queue pair.
\<close>

fun returning :: "env \<Rightarrow> rdma_dev_t \<Rightarrow> world \<Rightarrow> call \<Rightarrow> bool" where
  "returning E rd w (Submit i r) \<longleftrightarrow> True"
| "returning E rd w (Submit_Batch i rs) \<longleftrightarrow>
     (case queue_of rd (heap w) i of None \<Rightarrow> False
      | Some (qp, q, sq) \<Rightarrow> unat (qp_qdepth q) < 2 ^ 31 \<and>
          (\<forall>h. int (unat (qp_sq_pidb q) + List.length rs) \<le> sint (env_mmio_read E h (cq_head_addr rd i))))"
| "returning E rd w (Set_Last_Rq_Psn i psn) \<longleftrightarrow> True"
| "returning E rd w (Set_Sq_Psn i psn) \<longleftrightarrow> True"
| "returning E rd w (Release i) \<longleftrightarrow> True"
| "returning E rd w (Destroy i) \<longleftrightarrow> qp_idle E rd i"
| "returning E rd w _ \<longleftrightarrow> False"

lemma the_queue_run:
  assumes "coherent rdev rd ws w" and "queue_of rd (heap w) i = Some (qp, q, sq)" and "f qp w = Some (Ret x, w')"
  shows "the_queue rd i f w = Some (Ret (), w')"
  unfolding the_queue_def bindM_Ret [where m = "qps_index rd i", OF live_run [OF assms(1,2)]]
  by (simp add: thenM_Ret [where m = "f qp", OF assms(3)] returnM_run)

lemma destroy_runs:
  assumes c: "coherent rdev rd ws w" and i: "queue_of rd (heap w) i = Some (qp, q, sq)" and idle: "qp_idle E rd i"
  shows "\<exists>w'. destroy_rdma_qp E qp w = Some (Ret 0, w')"
proof -
  from c i have l: "heap w qp = Some (O_qp q)" "qp \<noteq> NULL" "qp_qpid q = i" "qp_rdma_dev q = rdev"
    by (rule liveE, simp)+
  obtain a b pd where o: "heap w (qp_rq q) = Some (O_rdma_buff a)" "heap w (qp_cq q) = Some (O_rdma_buff b)"
    "heap w (qp_pd_entry q) = Some (O_pd pd)" "heap w (qp_sq q) = Some (O_rdma_buff sq)"
    "distinct [qp_sq q, qp_rq q, qp_cq q]"
    using queues_okD(1) [OF coherentD(6) [OF c] i] queue_ofD(2) [OF i] by (auto simp: queue_ok_def)
  then have "qp_pd_entry q \<notin> {qp_sq q, qp_rq q, qp_cq q}" by auto
  with o(5) have "distinct (filter (\<lambda>p. p \<noteq> NULL) (owned q))" by (auto simp: owned_def)
  moreover have "\<forall>p \<in> set (owned q). p \<noteq> NULL \<longrightarrow> heap w p \<noteq> None" using o by (simp add: owned_def)
  ultimately show ?thesis
    using destroy_rdma_qp_idle [OF l(2,1)] coherentD(3) [OF c] l(3,4) idle by simp
qed

lemma returning_step:
  assumes c: "coherent rdev rd ws w" and ok: "call_ok rd w k" and r: "returning E rd w k"
  shows "\<exists>w'. call_step E rdev rd w k w'"
proof -
  have "\<exists>w'. run_call E rdev rd k w = Some (Ret (), w')"
  proof (cases k)
    case (Submit i req)
    with submit_runs [OF c ok [unfolded Submit], of E] show ?thesis by auto
  next
    case (Submit_Batch i rs)
    with ok r obtain qp q sq where i: "queue_of rd (heap w) i = Some (qp, q, sq)"
      and room: "unat (qp_sq_pidb q) + List.length rs \<le> unat (qp_qdepth q)" "unat (qp_qdepth q) < 2 ^ 31"
        "\<forall>h. int (unat (qp_sq_pidb q) + List.length rs) \<le> sint (env_mmio_read E h (cq_head_addr rd i))"
      by (auto split: option.splits)
    from submit_batch_returns [OF c i room] obtain rc w' where
      "submit_batch E rdev i (qp_sq_pidb q) rs w = Some (Ret rc, w')" by blast
    then have "bindM (load as_qp qp) (\<lambda>q. submit_batch E rdev i (qp_sq_pidb q) rs) w = Some (Ret rc, w')"
      using queue_ofD(1) [OF i] by (simp add: run_simps)
    from the_queue_run [where f = "\<lambda>qp. bindM (load as_qp qp) (\<lambda>q. submit_batch E rdev i (qp_sq_pidb q) rs)", OF c i this]
    show ?thesis by (simp add: Submit_Batch)
  next
    case (Set_Last_Rq_Psn i psn)
    with ok obtain qp q sq where "queue_of rd (heap w) i = Some (qp, q, sq)" by (auto elim: liveD)
    from last_rq_psn_run [OF c this, of psn] show ?thesis by (auto simp: Set_Last_Rq_Psn)
  next
    case (Set_Sq_Psn i psn)
    with ok obtain qp q sq where "queue_of rd (heap w) i = Some (qp, q, sq)" by (auto elim: liveD)
    from sq_psn_run [OF c this, of psn] show ?thesis by (auto simp: Set_Sq_Psn)
  next
    case (Release i)
    with ok obtain qp q sq where i: "queue_of rd (heap w) i = Some (qp, q, sq)" by (auto elim: liveD)
    from release_consumed_run [OF c i, of E] obtain rc w' where
      "rdma_release_rq_consumed E rdev qp w = Some (Ret rc, w')" by blast
    from the_queue_run [where f = "rdma_release_rq_consumed E rdev", OF c i this] show ?thesis by (simp add: Release)
  next
    case (Destroy i)
    with ok obtain qp q sq where i: "queue_of rd (heap w) i = Some (qp, q, sq)" by (auto elim: liveD)
    from destroy_runs [OF c i] r obtain w' where "destroy_rdma_qp E qp w = Some (Ret 0, w')" by (auto simp: Destroy)
    from the_queue_run [where f = "destroy_rdma_qp E", OF c i this] show ?thesis by (simp add: Destroy)
  qed (use r in simp_all)
  with ok show ?thesis by (auto simp: call_step_iff)
qed

subsection \<open>A new device\<close>

text \<open>Before the device exists no queue has a doorbell.\<close>

definition queues_silent :: "u64 \<Rightarrow> event list \<Rightarrow> bool" where
  "queues_silent base h \<longleftrightarrow> (\<forall>k \<in> set [0..<256]. \<forall>r \<in> {RN_RDMA_QCSR_SQPIi, RN_RDMA_QCSR_RQCIi}.
     case reg32 h base (get_rdma_per_q_config_addr r (word_of_nat (Suc k))) of None \<Rightarrow> True | Some v \<Rightarrow> v = 0)"

lemma queues_silentD:
  assumes "queues_silent base h" and "valid_qpid i" and "rd_axil_ctl rd = base"
  shows "counter_of rd RN_RDMA_QCSR_SQPIi i h = 0" "counter_of rd RN_RDMA_QCSR_RQCIi i h = 0"
proof -
  have k: "unat (i - 1) \<in> set [0..<256]" using assms(2) by (simp add: valid_qpid_def word_less_nat_alt)
  have "word_of_nat (Suc (unat (i - 1))) = i" by simp
  then have "counter_of rd r i h = 0" if "r \<in> {RN_RDMA_QCSR_SQPIi, RN_RDMA_QCSR_RQCIi}" for r
    using bspec [OF bspec [OF assms(1) [unfolded queues_silent_def] k] that] assms(3)
    by (simp add: counter_of_def reg_of_def split: option.splits)
  then show "counter_of rd RN_RDMA_QCSR_SQPIi i h = 0" "counter_of rd RN_RDMA_QCSR_RQCIi i h = 0" by simp_all
qed

lemma empty_table_coherent:
  assumes l: "lib_state rdev rd ws w" and t: "heap w (rd_qps_ptr rd) = Some (O_qp_table (replicate n NULL))"
    and s: "queues_silent (rd_axil_ctl rd) (hist w)" and m: "host_mark (rd_rn_dev rd) w < 2 ^ 64"
  shows "coherent rdev rd ws w \<and> (\<forall>i. queue_of rd (heap w) i = None)"
proof -
  have null: "heap w NULL = None" "0 < next_ptr w" using l by (auto simp: lib_state_def world_ok_def)
  have none: "queue_of rd (heap w) i = None" for i by (simp add: queue_of_def t null)
  have "queues_ok rdev rd w" by (rule queues_okI) (use t null none in auto)
  moreover have "registers_agree rd ws w i" if "valid_qpid i" for i
    using queues_silentD [OF s that refl] by (simp add: registers_agree_def none)
  moreover have "layout_ok rd w" by (rule layout_okI) (use m none in auto)
  ultimately show ?thesis using l none by (simp add: coherent_def)
qed

lemma create_rdma_dev_Ret:
  assumes ok: "world_ok w" and rn: "heap w rn = Some (O_rn_dev d)" and n: "rn_num_qp d \<noteq> 0"
    and run: "create_rdma_dev E rn w = Some (Ret rdev, w')"
  shows "\<exists>rd. rdev = next_ptr w \<and> hist w' = hist w \<and> heap w' rdev = Some (O_rdma_dev rd) \<and>
    rd_rn_dev rd = rn \<and> rd_winSize rd = rn_winSize d \<and> rd_axil_ctl rd = rn_axil_ctl d \<and>
    heap w' rn = Some (O_rn_dev (d\<lparr>rn_rdma_dev := rdev\<rparr>)) \<and>
    heap w' (rd_qps_ptr rd) = Some (O_qp_table (replicate (unat (rn_num_qp d)) NULL)) \<and>
    (\<forall>p < next_ptr w. p \<noteq> rn \<longrightarrow> heap w' p = heap w p)"
proof -
  have z: "0 < next_ptr w" "heap w 0 = None" "heap w (next_ptr w) = None"
      "heap w (Suc (next_ptr w)) = None" "heap w (Suc (Suc (next_ptr w))) = None"
    using ok by (auto simp: world_ok_def)
  then have ne: "rn \<noteq> next_ptr w" "rn \<noteq> Suc (next_ptr w)" "rn \<noteq> Suc (Suc (next_ptr w))"
    using rn by auto
  have u: "unat (ucast (rn_num_qp d) :: u32) = unat (rn_num_qp d)"
    using unat_u8_less [of "rn_num_qp d"] by (simp add: unsigned_ucast_eq take_bit_nat_eq_self)
  have pos: "(0 :: u32) < ucast (rn_num_qp d)"
    using n unat_gt_0 [of "rn_num_qp d"] u by (simp add: word_less_nat_alt)
  show ?thesis
    using run rn n z ne
    by (auto simp: create_rdma_dev_def bindM_def thenM_def malloc_def load_def store_def Let_def
        returnM_def pos u split: if_splits)
qed

lemma created_coherent:
  assumes ok: "world_ok w" and rn: "heap w rn = Some (O_rn_dev d)" and n: "rn_num_qp d \<noteq> 0"
    and ws: "heap w (rn_winSize d) = Some (O_win_size ws)" and base: "heap w (rn_base_buf d) = Some (O_rdma_buff bb)"
    and silent: "queues_silent (rn_axil_ctl d) (hist w)" and mark: "host_mark rn w < 2 ^ 64"
    and run: "create_rdma_dev E rn w = Some (Ret rdev, w')"
  shows "\<exists>rd. heap w' rdev = Some (O_rdma_dev rd) \<and> coherent rdev rd ws w' \<and> (\<forall>i. queue_of rd (heap w') i = None)"
proof -
  from create_rdma_dev_Ret [OF ok rn n run] obtain rd where rd: "rdev = next_ptr w" "hist w' = hist w"
    "heap w' rdev = Some (O_rdma_dev rd)" "rd_rn_dev rd = rn" "rd_winSize rd = rn_winSize d" "rd_axil_ctl rd = rn_axil_ctl d"
    "heap w' rn = Some (O_rn_dev (d\<lparr>rn_rdma_dev := rdev\<rparr>))"
    "heap w' (rd_qps_ptr rd) = Some (O_qp_table (replicate (unat (rn_num_qp d)) NULL))"
    and old: "\<forall>p < next_ptr w. p \<noteq> rn \<longrightarrow> heap w' p = heap w p" by blast
  have live: "p < next_ptr w" if "heap w p = Some ob" for p ob using ok that by (auto simp: world_ok_def)
  have objs: "heap w' (rn_winSize d) = Some (O_win_size ws)" "heap w' (rn_base_buf d) = Some (O_rdma_buff bb)"
    using old live [OF ws] live [OF base] ws base rn by fastforce+
  have "world_ok w'" using keepsD [OF keeps_create_rdma_dev run] ok by (simp add: steps_ok_def)
  moreover have "rdev \<noteq> NULL" using ok rd(1) by (simp add: world_ok_def)
  ultimately have "lib_state rdev rd ws w'" using rd objs by (simp add: lib_state_def)
  moreover have "host_mark (rd_rn_dev rd) w' = host_mark rn w"
    using rd(4,7) objs(2) rn base by (simp add: host_mark_def)
  ultimately show ?thesis
    using empty_table_coherent [of rdev rd ws w'] rd(2,3,6,8) silent mark by auto
qed

subsection \<open>Properties\<close>

lemma demo_paddr:
  assumes "get_buffer_paddr E a w = Some (Ret p, w')"
    and "env_pagesize E = 4096" and "\<And>h. env_pagemap_read E h = (7, 0x100)"
  shows "unat p < 2 ^ 52"
proof -
  have "p = 0x100000 + ucast (ucast (a mod 4096) :: u32)"
    using assms by (auto simp: get_buffer_paddr_def get_page_frame_number_of_address_def run_simps Let_def
        PAGEMAP_LENGTH_def PAGE_SHIFT_def faultM_def exitM_def elim!: bindM_RetE thenM_RetE split: if_splits)
  moreover have "unat (ucast (ucast (a mod 4096) :: u32) :: u64) < 2 ^ 32"
    using unat_u32_less [of "ucast (a mod 4096)"] by simp
  ultimately show ?thesis by (simp add: unat_word_ariths)
qed

lemma small_no_device:
  assumes "unat (p :: u64) < 2 ^ 52"
  shows "is_device_address p = 0"
proof -
  have p: "p = take_bit 52 p"
    using assms by (simp add: word_unat_eq_iff unsigned_take_bit_eq take_bit_nat_eq_self)
  have "\<not> bit (p AND 0xfff0000000000000) 63"
    by (subst p) (simp add: bit_simps)
  moreover have "bit (0xa350000000000000 :: u64) 63" by simp
  ultimately have "p AND 0xfff0000000000000 \<noteq> 0xa350000000000000" by metis
  then show ?thesis by (simp add: is_device_address_def DEVICE_MEM_OFFSET_def)
qed

lemma drained_answers [simp]:
  "env_pagesize drained_env = 4096" "env_pagemap_read drained_env h = (7, 0x100)" "env_pagemap_open drained_env h"
  "env_pagemap_seek drained_env h a" "\<not> env_malloc_fails drained_env p" "junk_qp drained_env = junk_qp idle_env"
  "junk_rdma_buff drained_env = junk_rdma_buff idle_env"
  by (simp_all add: drained_env_def)

lemma drained_ram: "kernel_ram drained_env"
  by (auto simp: kernel_ram_def intro!: small_no_device dest: demo_paddr)

lemma demo_pd_coherent:
  "coherent 4 demo_rdma \<lparr>win_size_lsb = 0xffffffff, win_size_msb = 0xff\<rparr> demo_pd_world \<and>
   (\<forall>i. queue_of demo_rdma (heap demo_pd_world) i = None)"
proof (rule empty_table_coherent [where n = 4])
  show "lib_state 4 demo_rdma \<lparr>win_size_lsb = 0xffffffff, win_size_msb = 0xff\<rparr> demo_pd_world"
    using demo_pd_world_ok by (auto simp: lib_state_def)
  have "replicate 4 NULL = [NULL, NULL, NULL, NULL]" by (simp add: numeral_eq_Suc)
  then show "heap demo_pd_world (rd_qps_ptr demo_rdma) = Some (O_qp_table (replicate 4 NULL))" by simp
  show "queues_silent (rd_axil_ctl demo_rdma) (hist demo_pd_world)"
    by (simp add: queues_silent_def reg32_def)
  show "host_mark (rd_rn_dev demo_rdma) demo_pd_world < 2 ^ 64" by (simp add: host_mark_def)
qed

definition demo_new_qp :: call where
  "demo_new_qp = Allocate_Qp 2 5 7 0x12345679000 0x1234567a000 64 8 0xc0a80102 4660"

lemma demo_new_qp_step: "\<exists>w'. call_step drained_env 4 demo_rdma demo_pd_world demo_new_qp w'"
proof -
  have "\<exists>w'. run_call drained_env 4 demo_rdma demo_new_qp demo_pd_world = Some (Ret (), w')"
    by (simp add: demo_new_qp_def allocate_rdma_qp_def build_qp_def program_qp_def set_qps_index_def
        run_simps Let_def allocate_rdma_buffer_def allocate_host_arm_def assertM_def place_buffer_def RQE_SIZE_def
        HARDWARE_PAGE_SIZE_def HARDWARE_PAGE_SIZE_ADDRESS_MASK_def HARDWARE_PAGE_SIZE_ALIGNMENT_MASK_def
        get_buffer_paddr_def get_page_frame_number_of_address_def PAGEMAP_LENGTH_def PAGE_SHIFT_def)
  moreover have "call_ok demo_rdma demo_pd_world demo_new_qp"
    using demo_pd_coherent
    by (simp add: demo_new_qp_def live_def pd_free_def host_mark_def valid_qpid_def)
  ultimately show ?thesis by (auto simp: call_step_iff)
qed

text \<open>
  C16: the invariant holds when the device is new. Once \<open>create_rdma_dev\<close> has returned on a RecoNIC
  device with at least one queue, over registers in which no queue has a doorbell, the state is
  coherent and no queue pair is live.
\<close>

theorem new_device_coherent:
  assumes "world_ok w" and "heap w rn = Some (O_rn_dev d)" and "rn_num_qp d \<noteq> 0"
    and "heap w (rn_winSize d) = Some (O_win_size ws)" and "heap w (rn_base_buf d) = Some (O_rdma_buff bb)"
    and "queues_silent (rn_axil_ctl d) (hist w)" and "host_mark rn w < 2 ^ 64"
    and "create_rdma_dev E rn w = Some (Ret rdev, w')"
  shows "\<exists>rd. heap w' rdev = Some (O_rdma_dev rd) \<and> coherent rdev rd ws w' \<and> (\<forall>i. queue_of rd (heap w') i = None)"
  by (rule created_coherent [OF assms])

theorem new_device_coherent_witness:
  "\<exists>rdev w' rd. create_rdma_dev idle_env 1 demo_world = Some (Ret rdev, w') \<and>
     coherent rdev rd \<lparr>win_size_lsb = 0xffffffff, win_size_msb = 0xff\<rparr> w'"
proof -
  obtain rdev w' where run: "create_rdma_dev idle_env 1 demo_world = Some (Ret rdev, w')"
    by (simp add: create_rdma_dev_def bindM_def thenM_def malloc_def load_def store_def Let_def
        returnM_def split: if_splits)
  have "host_mark 1 demo_world < 2 ^ 64" by (simp add: host_mark_def)
  from new_device_coherent [OF demo_world_ok _ _ _ _ _ this run, of demo_rn
      "\<lparr>win_size_lsb = 0xffffffff, win_size_msb = 0xff\<rparr>"] run show ?thesis
    by (auto simp: queues_silent_def reg32_def)
qed

text \<open>
  C2: the invariant of the library's state. Whatever calls follow a coherent state, in any order
  and any number, with any answers of the device, as long as each respects the rules of
  \<open>call_ok\<close> and returns: the state is coherent again. In particular the send doorbell of every
  queue is the producer counter of its live queue pair, and 0 without one; the depth register
  holds the depth twice, and the base address registers hold the address of the send queue as
  the engine sees it, although queue pairs are created and destroyed in between.
\<close>

theorem run_keeps_coherent:
  assumes "kernel_ram E" and "coherent rdev rd ws w" and "calls E rdev rd w cs w'"
  shows "coherent rdev rd ws w' \<and>
    (\<forall>i. valid_qpid i \<longrightarrow>
       (case queue_of rd (heap w') i of
          None \<Rightarrow> doorbell rd i (hist w') = 0
        | Some (qp, q, sq) \<Rightarrow>
            doorbell rd i (hist w') = qp_sq_pidb q \<and>
            reg_of rd RN_RDMA_QCSR_QDEPTHi i (hist w') = Some (qp_qdepth q OR push_bit 16 (qp_qdepth q)) \<and>
            reg64 (hist w') (rd_axil_ctl rd) (get_rdma_per_q_config_addr RN_RDMA_QCSR_SQBAMSBi i)
              (get_rdma_per_q_config_addr RN_RDMA_QCSR_SQBAi i) = Some (engine_address ws (buf_dma_addr sq))))"
proof -
  from calls_refine [OF assms(1,3,2)] have c: "coherent rdev rd ws w'" by blast
  have "case queue_of rd (heap w') i of
          None \<Rightarrow> doorbell rd i (hist w') = 0
        | Some (qp, q, sq) \<Rightarrow>
            doorbell rd i (hist w') = qp_sq_pidb q \<and>
            reg_of rd RN_RDMA_QCSR_QDEPTHi i (hist w') = Some (qp_qdepth q OR push_bit 16 (qp_qdepth q)) \<and>
            reg64 (hist w') (rd_axil_ctl rd) (get_rdma_per_q_config_addr RN_RDMA_QCSR_SQBAMSBi i)
              (get_rdma_per_q_config_addr RN_RDMA_QCSR_SQBAi i) = Some (engine_address ws (buf_dma_addr sq))"
    if "valid_qpid i" for i
    using coherentD(8) [OF c that]
    by (auto simp: registers_agree_def doorbell_counter base_agrees_def dest: queue_ofD split: option.splits)
  with c show ?thesis by blast
qed

text \<open>A whole life of queue 2: it is created, carries a request and a batch and is destroyed.\<close>

lemma demo_ws_coherent: "coherent 4 demo_rdma \<lparr>win_size_lsb = 0xffffffff, win_size_msb = 0xff\<rparr> demo_pd_world"
  using demo_pd_coherent by blast

lemma calls_snoc:
  "calls E rdev rd w cs w1 \<Longrightarrow> call_step E rdev rd w1 c w2 \<Longrightarrow> calls E rdev rd w (cs @ [c]) w2"
  by (induction rule: calls.induct) (auto intro: calls.intros)

abbreviation demo_ws :: win_size_t where
  "demo_ws \<equiv> \<lparr>win_size_lsb = 0xffffffff, win_size_msb = 0xff\<rparr>"

definition demo_calls :: "call list" where
  "demo_calls = [demo_new_qp, Submit 2 demo_request,
     Submit_Batch 2 [demo_request\<lparr>rq_wrid := 8\<rparr>, demo_request\<lparr>rq_wrid := 9\<rparr>]]"

lemma demo_state:
  assumes "calls drained_env 4 demo_rdma demo_pd_world cs w"
  shows "coherent 4 demo_rdma demo_ws w"
    and "view demo_rdma m0 w = fold (spec_call demo_ws) cs (\<lambda>_. None)"
proof -
  have "view demo_rdma m0 demo_pd_world = (\<lambda>_. None)" for m0
    using demo_pd_coherent by (simp add: view_def fun_eq_iff)
  with calls_refine [OF drained_ram assms demo_ws_coherent]
  show "coherent 4 demo_rdma demo_ws w" "view demo_rdma m0 w = fold (spec_call demo_ws) cs (\<lambda>_. None)" by auto
qed

lemma demo_batch_returns:
  assumes c: "coherent 4 demo_rdma demo_ws w" and v: "view demo_rdma m0 w 2 = Some (64, es)"
    and "List.length es + List.length rs \<le> 64"
  shows "returning drained_env demo_rdma w (Submit_Batch 2 rs)"
proof -
  from v obtain qp q sq where i: "queue_of demo_rdma (heap w) 2 = Some (qp, q, sq)" by (auto simp: view_def)
  have "cq_head_addr demo_rdma 2 \<noteq> status_addr demo_rdma 2"
    by (simp add: status_addr_def cq_head_addr_def get_rdma_per_q_config_addr_def reg_defs)
  then have read: "env_mmio_read drained_env h (cq_head_addr demo_rdma 2) = 64" for h by (simp add: drained_env_def)
  from v i have q: "unat (qp_qdepth q) = 64" "unat (qp_sq_pidb q) = List.length es"
    by (auto simp: view_lane [OF c] lane_def contents_def)
  from assms(3) q(2) have "int (unat (qp_sq_pidb q) + List.length rs) \<le> int 64" by (simp only: of_nat_le_iff)
  with q(1) i read show ?thesis by simp
qed

lemma demo_lifetime:
  "\<exists>w1 w2. calls drained_env 4 demo_rdma demo_pd_world demo_calls w1 \<and>
     calls drained_env 4 demo_rdma demo_pd_world (demo_calls @ [Destroy 2]) w2"
proof -
  let ?run = "calls drained_env 4 demo_rdma demo_pd_world"
  let ?b = "Submit_Batch 2 [demo_request\<lparr>rq_wrid := 8\<rparr>, demo_request\<lparr>rq_wrid := 9\<rparr>]"
  have step: "\<exists>w''. ?run (cs @ [k]) w''"
    if "?run cs w'" "call_ok demo_rdma w' k" "returning drained_env demo_rdma w' k" for cs w' k
    using returning_step [OF demo_state(1) [OF that(1)] that(2,3)] that(1) by (auto intro: calls_snoc)
  obtain w1 where "call_step drained_env 4 demo_rdma demo_pd_world demo_new_qp w1" using demo_new_qp_step by blast
  then have r1: "?run [demo_new_qp] w1" by (auto intro: calls.intros)
  note s1 = demo_state [OF r1]
  have "call_ok demo_rdma w1 (Submit 2 demo_request)"
    unfolding submit_ok_view(1) [OF s1(1), of _ _ undefined] by (simp add: s1(2) demo_new_qp_def has_room_def)
  from step [OF r1 this] obtain w2 where r2: "?run [demo_new_qp, Submit 2 demo_request] w2" by auto
  note s2 = demo_state [OF r2]
  have ok: "call_ok demo_rdma w2 ?b"
    unfolding submit_ok_view(2) [OF s2(1), of _ _ undefined] by (simp add: s2(2) demo_new_qp_def has_room_def)
  have "view demo_rdma undefined w2 2 = Some (64, [element demo_ws demo_request])"
    by (simp add: s2(2) demo_new_qp_def)
  from demo_batch_returns [OF s2(1) this] have "returning drained_env demo_rdma w2 ?b" by simp
  from step [OF r2 ok this] obtain w3 where r3: "?run demo_calls w3" by (auto simp: demo_calls_def)
  note s3 = demo_state [OF r3]
  have "view demo_rdma undefined w3 2 \<noteq> None" by (simp add: s3(2) demo_calls_def demo_new_qp_def)
  then have "call_ok demo_rdma w3 (Destroy 2)" by (simp add: live_def view_def)
  with step [OF r3] demo_qp_idle r3 show ?thesis by auto
qed

theorem run_keeps_coherent_witness:
  "\<exists>w'. calls drained_env 4 demo_rdma demo_pd_world (demo_calls @ [Destroy 2]) w' \<and> coherent 4 demo_rdma demo_ws w'"
  using demo_lifetime run_keeps_coherent [OF drained_ram demo_ws_coherent] by blast

text \<open>
  C1: refinement of a table of bounded append-only queues. Through any such sequence of calls the
  device sees of each queue pair, below its doorbell, what the specification says: a created
  queue pair is empty with the capacity asked for, a submitted request is appended to its queue,
  a batch appends all its requests in their order, a destroyed queue pair is gone, and no other
  call and no call on another queue pair changes anything. The rule that each request needs a free
  slot is the bound of the specification.
\<close>

theorem run_refines_queues:
  assumes "kernel_ram E" and "coherent rdev rd ws w" and "calls E rdev rd w cs w'"
  shows "view rd m0 w' = fold (spec_call ws) cs (view rd m0 w) \<and>
    (\<forall>i r. call_ok rd w' (Submit i r) \<longleftrightarrow> has_room 1 (fold (spec_call ws) cs (view rd m0 w) i)) \<and>
    (\<forall>i rs. call_ok rd w' (Submit_Batch i rs) \<longleftrightarrow>
       has_room (List.length rs) (fold (spec_call ws) cs (view rd m0 w) i))"
proof -
  from calls_refine [OF assms(1,3,2)] have c: "coherent rdev rd ws w'"
    and v: "view rd m0 w' = fold (spec_call ws) cs (view rd m0 w)" by blast+
  from submit_ok_view [OF c, of _ _ m0] show ?thesis unfolding v by blast
qed

theorem run_refines_queues_witness:
  "\<exists>w'. calls drained_env 4 demo_rdma demo_pd_world demo_calls w' \<and>
     (\<forall>m0. view demo_rdma m0 w' 2 = Some (64, map (element demo_ws)
        [demo_request, demo_request\<lparr>rq_wrid := 8\<rparr>, demo_request\<lparr>rq_wrid := 9\<rparr>]))"
proof -
  obtain w' where run: "calls drained_env 4 demo_rdma demo_pd_world demo_calls w'" using demo_lifetime by blast
  have "view demo_rdma m0 demo_pd_world 2 = None" for m0 using demo_pd_coherent by (simp add: view_def)
  with run run_refines_queues [OF drained_ram demo_ws_coherent run] show ?thesis
    by (auto simp: demo_calls_def demo_new_qp_def)
qed

text \<open>
  C9: in a coherent state the calls that depend on no luck return, whatever the device answers: a
  request to a queue with a free slot, the packet sequence numbers of a live queue pair, the
  release of its received elements, its destruction when its registers show it idle, and a batch
  that fits when the completion counter shows it done; each leads to a coherent state again.
\<close>

theorem coherent_calls_return:
  assumes "kernel_ram E" and "coherent rdev rd ws w" and "call_ok rd w c" and "returning E rd w c"
  shows "\<exists>w'. call_step E rdev rd w c w' \<and> coherent rdev rd ws w'"
  using returning_step [OF assms(2-4)] step_refines [OF assms(1,2)] by (auto simp: refines_step_def)

theorem coherent_calls_return_witness:
  "\<exists>w1 w2. calls drained_env 4 demo_rdma demo_pd_world demo_calls w1 \<and>
     call_step drained_env 4 demo_rdma w1 (Destroy 2) w2"
proof -
  obtain w1 where run: "calls drained_env 4 demo_rdma demo_pd_world demo_calls w1" using demo_lifetime by blast
  have "view demo_rdma undefined w1 2 \<noteq> None"
    by (simp add: demo_state(2) [OF run] demo_calls_def demo_new_qp_def)
  then have "call_ok demo_rdma w1 (Destroy 2)" by (simp add: live_def view_def)
  from coherent_calls_return [OF drained_ram demo_state(1) [OF run] this] demo_qp_idle run show ?thesis by auto
qed

end
