(* ===== verification/Example_Headers.thy ===== *)
theory Example_Headers
  imports Auxiliary Reg_Map
begin

text \<open>
  What the examples repeat of the library instead of including it: the register map
  \<open>src/examples/systolic_mm/rn_register.h\<close>, and the time difference of \<open>auxiliary.c\<close>, which
  \<open>dma_utils.c\<close>, \<open>systolic_mm.h\<close> and \<open>network_systolic_mm.h\<close> each define again. The lemmas compare the
  copies with the library: they agree, up to one value of the register map that no program uses.
\<close>

subsection \<open>The register map\<close>

text \<open>
  The macros in the order of the header, with their expressions; the bases that later macros
  refer to come first.
\<close>

definition rn_register :: "(string \<times> u32) list" where
  "rn_register =
     (let pc = 0x100000; scr = 0x2000; clr = 0x3000; rdma = 0x00040000; qdma = 0x00014000 in [
     (''RN_PC_BASE_ADDRESS'', pc), (''RN_SCR_OFFSET'', scr), (''RN_CLR_OFFSET'', clr),
     (''RN_SCR_MAP_SIZE'', 0x00400000), (''RN_RDMA_MAP_SIZE'', 0x10000000),
     (''RN_SCR_VERSION'', pc + scr + 0x0), (''RN_SCR_FATAL_ERR'', pc + scr + 0x4),
     (''RN_SCR_TRMHR_REG'', pc + scr + 0x8), (''RN_SCR_TRMLR_REG'', pc + scr + 0xc),
     (''RN_SCR_TRRMHR_REG'', pc + scr + 0x10), (''RN_SCR_TRRMLR_REG'', pc + scr + 0x14),
     (''RN_SCR_TEMPLATE_REG'', pc + scr + 0x200), (''RN_CLR_CTL_CMD'', pc + clr + 0x0),
     (''RN_CLR_KER_STS'', pc + clr + 0x4), (''RN_CLR_JOB_SUBMITTED'', pc + clr + 0x8),
     (''RN_CLR_JOB_COMPLETED_NOT_READ'', pc + clr + 0xc), (''RN_CLR_TEMPLATE'', pc + clr + 0x200),
     (''RN_RDMA_BASE_ADDRESS'', rdma), (''RN_RDMA_GCSR_XRNICCONF'', rdma + 0x00020000),
     (''RN_RDMA_GCSR_XRNICADCONF'', rdma + 0x00020004),
     (''RN_RDMA_GCSR_MACXADDLSB'', rdma + 0x00020010), (''RN_RDMA_GCSR_MACXADDMSB'', rdma + 0x00020014),
     (''RN_RDMA_GCSR_IPV6XADD1'', rdma + 0x00020020), (''RN_RDMA_GCSR_IPV6XADD2'', rdma + 0x00020024),
     (''RN_RDMA_GCSR_IPV6XADD3'', rdma + 0x00020028), (''RN_RDMA_GCSR_IPV6XADD4'', rdma + 0x0002002c),
     (''RN_RDMA_GCSR_IPV4XADD'', rdma + 0x00020070), (''RN_RDMA_GCSR_ERRBUFBA'', rdma + 0x00020060),
     (''RN_RDMA_GCSR_ERRBUFBAMSB'', rdma + 0x00020064), (''RN_RDMA_GCSR_ERRBUFSZ'', rdma + 0x00020068),
     (''RN_RDMA_GCSR_IPKTERRQBA'', rdma + 0x00020088),
     (''RN_RDMA_GCSR_IPKTERRQBAMSB'', rdma + 0x0002008c),
     (''RN_RDMA_GCSR_IPKTERRQSZ'', rdma + 0x00020090), (''RN_RDMA_GCSR_DATBUFBA'', rdma + 0x000200a0),
     (''RN_RDMA_GCSR_DATBUFBAMSB'', rdma + 0x000200a4), (''RN_RDMA_GCSR_DATBUFSZ'', rdma + 0x000200a8),
     (''RN_RDMA_GCSR_INSRRPKTCNT'', rdma + 0x00020100),
     (''RN_RDMA_GCSR_INAMPKTCNT'', rdma + 0x00020104),
     (''RN_RDMA_GCSR_OUTIOPKTCNT'', rdma + 0x00020108), (''RN_RDMA_GCSR_INTEN'', rdma + 0x00020180),
     (''RN_RDMA_GCSR_OUTAMPKTCNT'', rdma + 0x0002010c),
     (''RN_RDMA_GCSR_OUTNAKPKTCNT'', rdma + 0x00020138),
     (''RN_RDMA_GCSR_OUTRDRSPPKTCNT'', rdma + 0x0002017c),
     (''RN_RDMA_GCSR_RESPERRPKTBA'', rdma + 0x000200b0),
     (''RN_RDMA_GCSR_RESPERRPKTBAMSB'', rdma + 0x000200b4),
     (''RN_RDMA_GCSR_RESPERRSZ'', rdma + 0x000200b8),
     (''RN_RDMA_GCSR_RESPERRSZMSB'', rdma + 0x000200bc),
     (''RN_RDMA_GCSR_STATCURSQPTRi'', rdma + 0x0002028c), (''RN_RDMA_GCSR_STATMSN'', rdma + 0x00020284),
     (''RN_RDMA_PDT_PDPDNUM'', rdma + 0x00000000), (''RN_RDMA_PDT_VIRTADDRLSB'', rdma + 0x00000004),
     (''RN_RDMA_PDT_VIRTADDRMSB'', rdma + 0x00000008),
     (''RN_RDMA_PDT_BUFBASEADDRLSB'', rdma + 0x0000000c),
     (''RN_RDMA_PDT_BUFBASEADDRMSB'', rdma + 0x00000010), (''RN_RDMA_PDT_BUFRKEY'', rdma + 0x00000014),
     (''RN_RDMA_PDT_WRRDBUFLEN'', rdma + 0x00000018), (''RN_RDMA_PDT_ACCESSDESC'', rdma + 0x0000001c),
     (''RN_RDMA_QCSR_QPCONFi'', rdma + 0x00020200), (''RN_RDMA_QCSR_QPADVCONFi'', rdma + 0x00020204),
     (''RN_RDMA_QCSR_RQBAi'', rdma + 0x00020208), (''RN_RDMA_QCSR_RQBAMSBi'', rdma + 0x000202c0),
     (''RN_RDMA_QCSR_SQBAi'', rdma + 0x00020210), (''RN_RDMA_QCSR_SQBAMSBi'', rdma + 0x000202c8),
     (''RN_RDMA_QCSR_CQBAi'', rdma + 0x00020218), (''RN_RDMA_QCSR_CQBAMSBi'', rdma + 0x000202d0),
     (''RN_RDMA_QCSR_RQWPTRDBADDi'', rdma + 0x00020220),
     (''RN_RDMA_QCSR_RQWPTRDBADDMSBi'', rdma + 0x00020224),
     (''RN_RDMA_QCSR_CQDBADDi'', rdma + 0x00020228), (''RN_RDMA_QCSR_CQDBADDMSBi'', rdma + 0x0002022c),
     (''RN_RDMA_QCSR_CQHEADi'', rdma + 0x00020230), (''RN_RDMA_QCSR_RQCIi'', rdma + 0x00020234),
     (''RN_RDMA_QCSR_SQPIi'', rdma + 0x00020238), (''RN_RDMA_QCSR_QDEPTHi'', rdma + 0x0002023c),
     (''RN_RDMA_QCSR_SQPSNi'', rdma + 0x00020240), (''RN_RDMA_QCSR_LSTRQREQi'', rdma + 0x00020244),
     (''RN_RDMA_QCSR_DESTQPCONFi'', rdma + 0x00020248),
     (''RN_RDMA_QCSR_MACDESADDLSBi'', rdma + 0x00020250),
     (''RN_RDMA_QCSR_MACDESADDMSBi'', rdma + 0x00020254),
     (''RN_RDMA_QCSR_IPDESADDR1i'', rdma + 0x00020260),
     (''RN_RDMA_QCSR_IPDESADDR2i'', rdma + 0x00020264),
     (''RN_RDMA_QCSR_IPDESADDR3i'', rdma + 0x00020268),
     (''RN_RDMA_QCSR_IPDESADDR4i'', rdma + 0x0002026c), (''RN_RDMA_QCSR_STATMSNi'', rdma + 0x00020284),
     (''RN_RDMA_QCSR_STATQPi'', rdma + 0x00020288), (''RN_RDMA_QCSR_STATRQPIDBi'', rdma + 0x0002029c),
     (''RN_RDMA_QCSR_PDi'', rdma + 0x000202b0), (''RNIC_OP_WRITE'', 0), (''RNIC_OP_WRITE_IMMDT'', 1),
     (''RNIC_OP_SEND'', 2), (''RNIC_OP_SEND_IMMDT'', 3), (''RNIC_OP_READ'', 4),
     (''RNIC_OP_SEND_INV'', 12), (''RN_QDMA_CSR_BASE_ADDRESS'', qdma),
     (''AXIB_BDF_ADDR_TRANSLATE_ADDR_LSB'', qdma + 0x00002420),
     (''AXIB_BDF_ADDR_TRANSLATE_ADDR_MSB'', qdma + 0x00002424),
     (''AXIB_BDF_PASID_RESERVED_ADDR'', qdma + 0x00002428),
     (''AXIB_BDF_FUNCTION_NUM_ADDR'', qdma + 0x0000242c),
     (''AXIB_BDF_MAP_CONTROL_ADDR'', qdma + 0x00002430),
     (''AXIB_BDF_RESERVED_ADDR'', qdma + 0x00002434), (''AXIB_BDF_MAP_CONTROL'', 0xc4000000)])"

text \<open>
  All macros but two have the value of the library's header. The library has no
  \<open>RN_RDMA_MAP_SIZE\<close>, and its \<open>AXIB_BDF_MAP_CONTROL\<close> is another one; the example uses neither.
\<close>

lemma rn_register_agrees:
  "filter (\<lambda>(name, _). name \<notin> {''RN_RDMA_MAP_SIZE'', ''AXIB_BDF_MAP_CONTROL''}) rn_register = [
     (''RN_PC_BASE_ADDRESS'', RN_PC_BASE_ADDRESS), (''RN_SCR_OFFSET'', RN_SCR_OFFSET),
     (''RN_CLR_OFFSET'', RN_CLR_OFFSET), (''RN_SCR_MAP_SIZE'', RN_SCR_MAP_SIZE),
     (''RN_SCR_VERSION'', RN_SCR_VERSION), (''RN_SCR_FATAL_ERR'', RN_SCR_FATAL_ERR),
     (''RN_SCR_TRMHR_REG'', RN_SCR_TRMHR_REG), (''RN_SCR_TRMLR_REG'', RN_SCR_TRMLR_REG),
     (''RN_SCR_TRRMHR_REG'', RN_SCR_TRRMHR_REG), (''RN_SCR_TRRMLR_REG'', RN_SCR_TRRMLR_REG),
     (''RN_SCR_TEMPLATE_REG'', RN_SCR_TEMPLATE_REG), (''RN_CLR_CTL_CMD'', RN_CLR_CTL_CMD),
     (''RN_CLR_KER_STS'', RN_CLR_KER_STS), (''RN_CLR_JOB_SUBMITTED'', RN_CLR_JOB_SUBMITTED),
     (''RN_CLR_JOB_COMPLETED_NOT_READ'', RN_CLR_JOB_COMPLETED_NOT_READ),
     (''RN_CLR_TEMPLATE'', RN_CLR_TEMPLATE), (''RN_RDMA_BASE_ADDRESS'', RN_RDMA_BASE_ADDRESS),
     (''RN_RDMA_GCSR_XRNICCONF'', RN_RDMA_GCSR_XRNICCONF),
     (''RN_RDMA_GCSR_XRNICADCONF'', RN_RDMA_GCSR_XRNICADCONF),
     (''RN_RDMA_GCSR_MACXADDLSB'', RN_RDMA_GCSR_MACXADDLSB),
     (''RN_RDMA_GCSR_MACXADDMSB'', RN_RDMA_GCSR_MACXADDMSB),
     (''RN_RDMA_GCSR_IPV6XADD1'', RN_RDMA_GCSR_IPV6XADD1),
     (''RN_RDMA_GCSR_IPV6XADD2'', RN_RDMA_GCSR_IPV6XADD2),
     (''RN_RDMA_GCSR_IPV6XADD3'', RN_RDMA_GCSR_IPV6XADD3),
     (''RN_RDMA_GCSR_IPV6XADD4'', RN_RDMA_GCSR_IPV6XADD4),
     (''RN_RDMA_GCSR_IPV4XADD'', RN_RDMA_GCSR_IPV4XADD),
     (''RN_RDMA_GCSR_ERRBUFBA'', RN_RDMA_GCSR_ERRBUFBA),
     (''RN_RDMA_GCSR_ERRBUFBAMSB'', RN_RDMA_GCSR_ERRBUFBAMSB),
     (''RN_RDMA_GCSR_ERRBUFSZ'', RN_RDMA_GCSR_ERRBUFSZ),
     (''RN_RDMA_GCSR_IPKTERRQBA'', RN_RDMA_GCSR_IPKTERRQBA),
     (''RN_RDMA_GCSR_IPKTERRQBAMSB'', RN_RDMA_GCSR_IPKTERRQBAMSB),
     (''RN_RDMA_GCSR_IPKTERRQSZ'', RN_RDMA_GCSR_IPKTERRQSZ),
     (''RN_RDMA_GCSR_DATBUFBA'', RN_RDMA_GCSR_DATBUFBA),
     (''RN_RDMA_GCSR_DATBUFBAMSB'', RN_RDMA_GCSR_DATBUFBAMSB),
     (''RN_RDMA_GCSR_DATBUFSZ'', RN_RDMA_GCSR_DATBUFSZ),
     (''RN_RDMA_GCSR_INSRRPKTCNT'', RN_RDMA_GCSR_INSRRPKTCNT),
     (''RN_RDMA_GCSR_INAMPKTCNT'', RN_RDMA_GCSR_INAMPKTCNT),
     (''RN_RDMA_GCSR_OUTIOPKTCNT'', RN_RDMA_GCSR_OUTIOPKTCNT),
     (''RN_RDMA_GCSR_INTEN'', RN_RDMA_GCSR_INTEN),
     (''RN_RDMA_GCSR_OUTAMPKTCNT'', RN_RDMA_GCSR_OUTAMPKTCNT),
     (''RN_RDMA_GCSR_OUTNAKPKTCNT'', RN_RDMA_GCSR_OUTNAKPKTCNT),
     (''RN_RDMA_GCSR_OUTRDRSPPKTCNT'', RN_RDMA_GCSR_OUTRDRSPPKTCNT),
     (''RN_RDMA_GCSR_RESPERRPKTBA'', RN_RDMA_GCSR_RESPERRPKTBA),
     (''RN_RDMA_GCSR_RESPERRPKTBAMSB'', RN_RDMA_GCSR_RESPERRPKTBAMSB),
     (''RN_RDMA_GCSR_RESPERRSZ'', RN_RDMA_GCSR_RESPERRSZ),
     (''RN_RDMA_GCSR_RESPERRSZMSB'', RN_RDMA_GCSR_RESPERRSZMSB),
     (''RN_RDMA_GCSR_STATCURSQPTRi'', RN_RDMA_GCSR_STATCURSQPTRi),
     (''RN_RDMA_GCSR_STATMSN'', RN_RDMA_GCSR_STATMSN), (''RN_RDMA_PDT_PDPDNUM'', RN_RDMA_PDT_PDPDNUM),
     (''RN_RDMA_PDT_VIRTADDRLSB'', RN_RDMA_PDT_VIRTADDRLSB),
     (''RN_RDMA_PDT_VIRTADDRMSB'', RN_RDMA_PDT_VIRTADDRMSB),
     (''RN_RDMA_PDT_BUFBASEADDRLSB'', RN_RDMA_PDT_BUFBASEADDRLSB),
     (''RN_RDMA_PDT_BUFBASEADDRMSB'', RN_RDMA_PDT_BUFBASEADDRMSB),
     (''RN_RDMA_PDT_BUFRKEY'', RN_RDMA_PDT_BUFRKEY),
     (''RN_RDMA_PDT_WRRDBUFLEN'', RN_RDMA_PDT_WRRDBUFLEN),
     (''RN_RDMA_PDT_ACCESSDESC'', RN_RDMA_PDT_ACCESSDESC),
     (''RN_RDMA_QCSR_QPCONFi'', RN_RDMA_QCSR_QPCONFi),
     (''RN_RDMA_QCSR_QPADVCONFi'', RN_RDMA_QCSR_QPADVCONFi),
     (''RN_RDMA_QCSR_RQBAi'', RN_RDMA_QCSR_RQBAi), (''RN_RDMA_QCSR_RQBAMSBi'', RN_RDMA_QCSR_RQBAMSBi),
     (''RN_RDMA_QCSR_SQBAi'', RN_RDMA_QCSR_SQBAi), (''RN_RDMA_QCSR_SQBAMSBi'', RN_RDMA_QCSR_SQBAMSBi),
     (''RN_RDMA_QCSR_CQBAi'', RN_RDMA_QCSR_CQBAi), (''RN_RDMA_QCSR_CQBAMSBi'', RN_RDMA_QCSR_CQBAMSBi),
     (''RN_RDMA_QCSR_RQWPTRDBADDi'', RN_RDMA_QCSR_RQWPTRDBADDi),
     (''RN_RDMA_QCSR_RQWPTRDBADDMSBi'', RN_RDMA_QCSR_RQWPTRDBADDMSBi),
     (''RN_RDMA_QCSR_CQDBADDi'', RN_RDMA_QCSR_CQDBADDi),
     (''RN_RDMA_QCSR_CQDBADDMSBi'', RN_RDMA_QCSR_CQDBADDMSBi),
     (''RN_RDMA_QCSR_CQHEADi'', RN_RDMA_QCSR_CQHEADi), (''RN_RDMA_QCSR_RQCIi'', RN_RDMA_QCSR_RQCIi),
     (''RN_RDMA_QCSR_SQPIi'', RN_RDMA_QCSR_SQPIi), (''RN_RDMA_QCSR_QDEPTHi'', RN_RDMA_QCSR_QDEPTHi),
     (''RN_RDMA_QCSR_SQPSNi'', RN_RDMA_QCSR_SQPSNi),
     (''RN_RDMA_QCSR_LSTRQREQi'', RN_RDMA_QCSR_LSTRQREQi),
     (''RN_RDMA_QCSR_DESTQPCONFi'', RN_RDMA_QCSR_DESTQPCONFi),
     (''RN_RDMA_QCSR_MACDESADDLSBi'', RN_RDMA_QCSR_MACDESADDLSBi),
     (''RN_RDMA_QCSR_MACDESADDMSBi'', RN_RDMA_QCSR_MACDESADDMSBi),
     (''RN_RDMA_QCSR_IPDESADDR1i'', RN_RDMA_QCSR_IPDESADDR1i),
     (''RN_RDMA_QCSR_IPDESADDR2i'', RN_RDMA_QCSR_IPDESADDR2i),
     (''RN_RDMA_QCSR_IPDESADDR3i'', RN_RDMA_QCSR_IPDESADDR3i),
     (''RN_RDMA_QCSR_IPDESADDR4i'', RN_RDMA_QCSR_IPDESADDR4i),
     (''RN_RDMA_QCSR_STATMSNi'', RN_RDMA_QCSR_STATMSNi),
     (''RN_RDMA_QCSR_STATQPi'', RN_RDMA_QCSR_STATQPi),
     (''RN_RDMA_QCSR_STATRQPIDBi'', RN_RDMA_QCSR_STATRQPIDBi), (''RN_RDMA_QCSR_PDi'', RN_RDMA_QCSR_PDi),
     (''RNIC_OP_WRITE'', RNIC_OP_WRITE), (''RNIC_OP_WRITE_IMMDT'', RNIC_OP_WRITE_IMMDT),
     (''RNIC_OP_SEND'', RNIC_OP_SEND), (''RNIC_OP_SEND_IMMDT'', RNIC_OP_SEND_IMMDT),
     (''RNIC_OP_READ'', RNIC_OP_READ), (''RNIC_OP_SEND_INV'', RNIC_OP_SEND_INV),
     (''RN_QDMA_CSR_BASE_ADDRESS'', RN_QDMA_CSR_BASE_ADDRESS),
     (''AXIB_BDF_ADDR_TRANSLATE_ADDR_LSB'', AXIB_BDF_ADDR_TRANSLATE_ADDR_LSB),
     (''AXIB_BDF_ADDR_TRANSLATE_ADDR_MSB'', AXIB_BDF_ADDR_TRANSLATE_ADDR_MSB),
     (''AXIB_BDF_PASID_RESERVED_ADDR'', AXIB_BDF_PASID_RESERVED_ADDR),
     (''AXIB_BDF_FUNCTION_NUM_ADDR'', AXIB_BDF_FUNCTION_NUM_ADDR),
     (''AXIB_BDF_MAP_CONTROL_ADDR'', AXIB_BDF_MAP_CONTROL_ADDR),
     (''AXIB_BDF_RESERVED_ADDR'', AXIB_BDF_RESERVED_ADDR)]"
  by (simp add: rn_register_def reg_defs Let_def)

lemma rn_register_differs:
  "map_of rn_register ''AXIB_BDF_MAP_CONTROL'' = Some 0xc4000000" "AXIB_BDF_MAP_CONTROL = 0xc1000000"
  by (simp_all add: rn_register_def AXIB_BDF_MAP_CONTROL_def Let_def)

subsection \<open>Time differences\<close>

definition dma_timespec_check :: "timespec \<Rightarrow> i32" where
  "dma_timespec_check t =
     (if is_negative (tv_nsec t) \<or> sint (tv_nsec t) \<ge> 1000000000 then - 1 else 0)"

definition dma_timespec_sub :: "timespec \<Rightarrow> timespec \<Rightarrow> timespec" where
  "dma_timespec_sub t1 t2 =
     (if is_negative (dma_timespec_check t1) then t1
      else if is_negative (dma_timespec_check t2) then t1
      else
        let t1 = t1\<lparr>tv_sec := tv_sec t1 - tv_sec t2\<rparr>;
            t1 = t1\<lparr>tv_nsec := tv_nsec t1 - tv_nsec t2\<rparr>
        in if sint (tv_nsec t1) \<ge> 1000000000 then
             t1\<lparr>tv_sec := tv_sec t1 + 1, tv_nsec := tv_nsec t1 - 1000000000\<rparr>
           else if is_negative (tv_nsec t1) then
             t1\<lparr>tv_sec := tv_sec t1 - 1, tv_nsec := tv_nsec t1 + 1000000000\<rparr>
           else t1)"

definition systolic_timespec_check :: "timespec \<Rightarrow> i32" where
  "systolic_timespec_check t =
     (if is_negative (tv_nsec t) \<or> sint (tv_nsec t) \<ge> 1000000000 then - 1 else 0)"

definition systolic_timespec_sub :: "timespec \<Rightarrow> timespec \<Rightarrow> timespec" where
  "systolic_timespec_sub t1 t2 =
     (if is_negative (systolic_timespec_check t1) then t1
      else if is_negative (systolic_timespec_check t2) then t1
      else
        let t1 = t1\<lparr>tv_sec := tv_sec t1 - tv_sec t2\<rparr>;
            t1 = t1\<lparr>tv_nsec := tv_nsec t1 - tv_nsec t2\<rparr>
        in if sint (tv_nsec t1) \<ge> 1000000000 then
             t1\<lparr>tv_sec := tv_sec t1 + 1, tv_nsec := tv_nsec t1 - 1000000000\<rparr>
           else if is_negative (tv_nsec t1) then
             t1\<lparr>tv_sec := tv_sec t1 - 1, tv_nsec := tv_nsec t1 + 1000000000\<rparr>
           else t1)"

definition network_timespec_check :: "timespec \<Rightarrow> i32" where
  "network_timespec_check t =
     (if is_negative (tv_nsec t) \<or> sint (tv_nsec t) \<ge> 1000000000 then - 1 else 0)"

definition network_timespec_sub :: "timespec \<Rightarrow> timespec \<Rightarrow> timespec" where
  "network_timespec_sub t1 t2 =
     (if is_negative (network_timespec_check t1) then t1
      else if is_negative (network_timespec_check t2) then t1
      else
        let t1 = t1\<lparr>tv_sec := tv_sec t1 - tv_sec t2\<rparr>;
            t1 = t1\<lparr>tv_nsec := tv_nsec t1 - tv_nsec t2\<rparr>
        in if sint (tv_nsec t1) \<ge> 1000000000 then
             t1\<lparr>tv_sec := tv_sec t1 + 1, tv_nsec := tv_nsec t1 - 1000000000\<rparr>
           else if is_negative (tv_nsec t1) then
             t1\<lparr>tv_sec := tv_sec t1 - 1, tv_nsec := tv_nsec t1 + 1000000000\<rparr>
           else t1)"

lemma timespec_copies:
  "dma_timespec_sub = timespec_sub" "systolic_timespec_sub = timespec_sub" "network_timespec_sub = timespec_sub"
  by (simp_all add: fun_eq_iff dma_timespec_sub_def dma_timespec_check_def systolic_timespec_sub_def
      systolic_timespec_check_def network_timespec_sub_def network_timespec_check_def timespec_sub_def timespec_check_def)

end
