(* ===== verification/Spec2Isabelle.thy ===== *)
theory Spec2Isabelle
  imports Auxiliary Address_Conv Reconic_Dev Rdma_Teardown Dma_Test Kernel_Tests Receive_Loop Example_Results
    Queue_Protocol Example_Headers
begin

text \<open>
  A verification development for RecoNIC: the user-space library of \<open>src/lib\<close> that drives the
  RDMA-enabled FPGA card, the programs of \<open>src/examples\<close> that use it, and the compute kernel they
  command.

  \<^bold>\<open>The program.\<close> \<open>reconic.c\<close> creates a device (register window by \<open>mmap\<close>, a huge page buffer, the
  address windows of the PCIe bridge) and hands out buffers from host or device memory.
  \<open>rdma_api.c\<close> builds on it an RDMA device (global configuration, protection domains, memory
  regions, queue pairs), posts work and waits for its completion, and takes everything down
  again. \<open>memory_api.c\<close> moves data between host buffers and device memory, \<open>control_api.c\<close> reads and
  writes registers and sends commands to the accelerator, \<open>auxiliary.c\<close> helps with times and byte
  order. The kernel of \<open>src/shell/compute/lookside\<close> takes the commands from a FIFO. The programs of
  \<open>rdma_test\<close> set up one queue pair, exchange a buffer address over a socket, and read, write or
  send over the network; \<open>systolic_mm.c\<close> and \<open>network_systolic_mm.c\<close> run the kernel on matrices from
  the host or from a server; \<open>dma_test.c\<close> measures transfers.

  \<^bold>\<open>State and effects.\<close> \<open>World\<close> holds the structures as records with a field per member, a store from
  references to objects for what \<open>malloc\<close> returns, the global variables, and the history of all
  exchanges with the outside. The outside (device registers, kernel calls, the allocator,
  uninitialised storage) is the parameter \<open>env\<close>: every answer is a function of the whole history,
  so a statement for all \<open>env\<close> covers every device and every timing. The programs have a
  second parameter \<open>host\<close> of the same kind for sockets, the console and the interface list. A C
  function is a program
  in the monad of \<open>Prelude\<close>: it returns, exits, commits a fault (bad pointer, double free, access
  out of bounds, failed assertion), or does not return (\<open>None\<close>). Integers are words of their C
  width; \<open>int\<close> is a 32-bit word read with \<open>sint\<close>.

  \<^bold>\<open>Theories.\<close>
  \<^item> \<open>Prelude\<close>: the monad, the frame calculus \<open>keeps\<close>, unbounded waits (\<open>poll_until\<close>), word lemmas.
  \<^item> \<open>World\<close>: structures, store, history, environment, demonstration states.
  \<^item> \<open>Reg_Map\<close>: the macros of \<open>reconic_reg.h\<close> and the shape of the register banks.
  \<^item> \<open>Auxiliary\<close>: \<open>auxiliary.c\<close> and the byte order macros; exact time differences, big-endian images.
  \<^item> \<open>Control_Api\<close>: \<open>control_api.c\<close>; the register file a history leaves, the accelerator's FIFO, the
    wait for it.
  \<^item> \<open>Address_Conv\<close>: IP and MAC address conversion and the interface search of \<open>reconic.c\<close>.
  \<^item> \<open>Memory_Api\<close>: \<open>memory_api.c\<close>; the locale \<open>chunked_transfer\<close> proves the transfer loop once from
    what one chunk promises, against a machine that replays the recorded system calls.
  \<^item> \<open>Reconic_Dev\<close>: the rest of \<open>reconic.c\<close>; the locale \<open>bump_region\<close> proves that successive buffers
    never overlap, for host and device memory.
  \<^item> \<open>Rdma_Config\<close>: \<open>rdma_api.c\<close> up to memory regions; the locale \<open>reg_bank\<close> gives the address
    arithmetic of the per-queue and per-domain register banks.
  \<^item> \<open>Rdma_Qp\<close>: queue pair allocation and work queue elements.
  \<^item> \<open>Rdma_Post\<close>: completion and receive polling, single and batched sends, receives.
  \<^item> \<open>Rdma_Teardown\<close>: recovery of a queue pair and the destruction of queue pairs and devices.
  \<^item> \<open>Dma_Utils\<close>: the transfers of \<open>src/examples/dma_test/dma_utils.c\<close>, on the same locale.
  \<^item> \<open>Compute\<close>: \<open>cl_box.cpp\<close>, \<open>mmult.cpp\<close> and the arithmetic of their host side in \<open>systolic_mm.c\<close>.
  \<^item> \<open>Kernel_Tests\<close>: the test benches \<open>test_cl_box.cpp\<close> and \<open>test_mmult.cpp\<close>.
  \<^item> \<open>Store_Types\<close>, \<open>Lifecycle_Types\<close>: a type discipline for the store. An operation keeps a state
    conforming to its typing and commits no fault; creations extend the typing, destructions
    shrink it. The rules are weakest preconditions (\<open>wp\<close>).
  \<^item> \<open>Example_Host\<close>: the command line, the \<open>arp\<close> lookup, sockets and arrays of the programs.
  \<^item> \<open>Example_Setup\<close>: the frame that the network programs share, from the device to the label \<open>out\<close>.
  \<^item> \<open>Rdma_Examples\<close>: \<open>read.c\<close>, \<open>write.c\<close>, \<open>read_batch.c\<close>, \<open>write_batch.c\<close>, \<open>send_recv.c\<close>.
  \<^item> \<open>Send_Queue\<close>: the send queue as the list of elements that the device sees, refined by
    \<open>create_a_wqe\<close> and \<open>rdma_post_send\<close>.
  \<^item> \<open>Queue_State\<close>: the invariant of all queue pairs of a device together (\<open>coherent\<close>): structures,
    register file and the layout of the queues in host memory; which changes keep it.
  \<^item> \<open>Queue_Alloc\<close>, \<open>Queue_Steps\<close>, \<open>Queue_Batch\<close>, \<open>Queue_New\<close>, \<open>Queue_Gone\<close>: what each call of the
    library does to a coherent state: allocations and registrations, the calls on one queue pair,
    batches of requests and when their wait ends, the creation of a queue pair, its destruction.
  \<^item> \<open>Queue_Protocol\<close>: the calls as a step relation, runs of calls, the invariant of their states and
    the refinement of a table of bounded append-only queues.
  \<^item> \<open>Receive_Loop\<close>: the loop of \<open>send_recv.c\<close> that gives receive requests back, and when it ends.
  \<^item> \<open>Systolic_Example\<close>: \<open>systolic_mm.c\<close> and \<open>network_systolic_mm.c\<close>.
  \<^item> \<open>Example_Results\<close>: what the programs achieve: the exchanged address, the MAC address, the batch,
    and what the returned value of \<open>main\<close> says.
  \<^item> \<open>Dma_Test\<close>: \<open>dma_test.c\<close>: its options, its buffer and its rounds of transfers.
  \<^item> \<open>Example_Headers\<close>: what the examples repeat of the library: \<open>rn_register.h\<close> and the copies of
    \<open>timespec_sub\<close>.

  \<^bold>\<open>What is shown.\<close> For each operation: its result on every way it ends, what it leaves in the store
  and which registers it has written (\<open>last_write\<close>, \<open>reg32\<close>, \<open>reg64\<close>); that buffers are disjoint and keep
  to their page rules, and what the registers of the eight address windows hold; that work
  queue elements reach the queue in the documented layout; that transfers move exactly the bytes
  asked for; which waits are bounded and when the unbounded ones return; that commands survive
  the FIFO and the kernel computes the matrix product the host checks. For the programs: under
  which conditions on the allocator, the interface list, the output of \<open>arp\<close> and the command line
  they keep to their C objects on any device and peer (\<open>rdma_programs_safe\<close>,
  \<open>systolic_programs_safe\<close>, \<open>test_dma_in_bounds\<close>; the conditions are hypotheses there, and the programs
  check none of them); that the submitted requests reach the device as an
  append-only queue (\<open>submit_all_refines_append\<close>), from the allocation of the queue pair on
  (\<open>new_queue_carries_requests\<close>); that over any run of calls in which queue pairs are created, used and
  destroyed, the registers and the memory of the device stay those of the live queue pairs
  (\<open>new_device_coherent\<close>, \<open>run_keeps_coherent\<close>, \<open>run_refines_queues\<close>, \<open>coherent_calls_return\<close>); which two reads
  the client of \<open>network_systolic_mm.c\<close> posts before it starts the kernel (\<open>network_reads_posted\<close>); and what
  the value returned by \<open>main\<close> means (\<open>exit_status\<close>). Where the code does not do
  what it means to do, the lemma states the behaviour it has (\<open>batch_send_hangs\<close>,
  \<open>destroy_rdma_dev_returns_iff\<close>, \<open>test_dma_write_places\<close>, \<open>parse_ctl_cmd_overrun\<close>, ...).

  \<^bold>\<open>Bounds.\<close> No definition uses fuel. \<open>poll_cq_loop\<close> and \<open>wait_heads\<close> end by the thresholds of the code
  (1000 and 100000), \<open>chunk_loop\<close> is proved to return for every chunk, \<open>parse_loop\<close> ends at the array
  bound, and the unbounded waits are options.

  \<^bold>\<open>Memory without bounds.\<close> The store has bounds, lifetimes and types, and violating them is a fault. The
  one huge page mapping and the device memory are not objects of the store: addresses into them are
  words, as in the code, an access to them is an event with its bytes, and no access to them is a
  fault. That queues and buffers do not overlap, and that submissions within the depth stay in
  their queue, is proved from the addresses instead.

  \<^bold>\<open>Not modelled.\<close> The address translation that the bridge makes of its window registers (the library
  only writes them). Messages and usage texts, the clock, \<open>sleep\<close> and the throughput reports, which no
  other result depends on; the floating point of the measurements; the unused argument \<open>r_key\<close> of
  \<open>allocate_rdma_qp\<close>; the C library itself (\<open>getopt_long\<close> gives the list of options as it returns
  them); HLS pragmas and the timing of the kernel's interfaces; queues in device memory
  as part of \<open>Queue_Protocol\<close> (their elements are in \<open>Rdma_Qp\<close>, their space in \<open>Reconic_Dev\<close>); the SystemVerilog, P4 and Tcl of the shell (the device behind the
  registers is the environment), the simulation scripts and the patches.
\<close>

end
